(* ===== verification/Prelude.thy ===== *)
theory Prelude
  imports Complex_Main "HOL-Library.Word"
begin

text \<open>
  Shared vocabulary of the development.

  JavaScript strings are sequences of UTF-16 code units, so \<open>str\<close> is a list of 16-bit
  words and \<open>lit\<close> turns an ASCII literal into one. \<open>js_slice\<close>, \<open>starts_with\<close> and the
  trimming function follow \<open>String.prototype\<close>. JavaScript objects, \<open>Map\<close>s and \<open>Set\<close>s
  iterate in insertion order; they are association lists and duplicate-free lists with the
  operations \<open>om_set\<close>, \<open>om_del\<close>, \<open>os_add\<close> and \<open>os_del\<close>. The locale \<open>keyed_store\<close> states
  what the clients of such a container rely on and is interpreted on the ordered map.
  Decimal printing and parsing of integers (\<open>BigInt.toString\<close>, \<open>BigInt(string)\<close>) close the
  theory, with the round trip the wire formats use.
\<close>

named_theorems js_defs \<open>definitions of the standard-library operations\<close>
named_theorems js_simps \<open>rewrite rules about the standard-library operations\<close>

section \<open>Strings\<close>

type_synonym code_unit = "16 word"
type_synonym str = "16 word list"

definition lit :: "string \<Rightarrow> str" where
  "lit = map of_char"

lemma lit_Nil [simp]: "lit [] = []"
  by (simp add: lit_def)

lemma lit_Cons: "lit (c # cs) = of_char c # lit cs"
  by (simp add: lit_def)

lemma unat_of_char [simp]: "unat (of_char c :: code_unit) = of_char c"
proof -
  have "(of_char c :: nat) < 65536"
    using nat_of_char_less_256 [of c] by linarith
  then have "unat (of_nat (of_char c) :: code_unit) = of_char c"
    by (simp only: unat_of_nat) simp
  then show ?thesis
    by (simp only: of_nat_of_char)
qed

lemma of_char_code_unit_inject [simp]: "(of_char c :: code_unit) = of_char d \<longleftrightarrow> c = d"
  by (metis unat_of_char of_char_eq_iff)

lemma lit_inject [simp]: "lit x = lit y \<longleftrightarrow> x = y"
proof (induction x arbitrary: y)
  case Nil
  show ?case by (cases y) (auto simp: lit_def)
next
  case (Cons c x)
  then show ?case by (cases y) (auto simp: lit_def of_char_code_unit_inject)
qed

lemma lit_eq_Nil [simp]: "lit x = [] \<longleftrightarrow> x = []"
  by (simp add: lit_def)

lemma length_lit [simp]: "length (lit x) = length x"
  by (simp add: lit_def)

text \<open>\<open>String.prototype.slice\<close>: negative positions count from the end.\<close>

definition slice_pos :: "nat \<Rightarrow> int \<Rightarrow> nat" where
  "slice_pos n k = (if k < 0 then nat (int n + k) else min (nat k) n)"

definition js_slice :: "'a list \<Rightarrow> int \<Rightarrow> int \<Rightarrow> 'a list" where
  "js_slice t i j = (let a = slice_pos (length t) i; b = slice_pos (length t) j
     in take (b - a) (drop a t))"

definition js_slice_from :: "'a list \<Rightarrow> int \<Rightarrow> 'a list" where
  "js_slice_from t i = drop (slice_pos (length t) i) t"

fun starts_with :: "'a list \<Rightarrow> 'a list \<Rightarrow> bool" where
  "starts_with t [] = True"
| "starts_with [] (p # ps) = False"
| "starts_with (c # cs) (p # ps) = (c = p \<and> starts_with cs ps)"

lemma js_slice_nat:
  assumes "i \<le> j" "j \<le> length t"
  shows "js_slice t (int i) (int j) = take (j - i) (drop i t)"
  using assms by (simp add: js_slice_def slice_pos_def)

lemma js_slice_from_nat: "i \<le> length t \<Longrightarrow> js_slice_from t (int i) = drop i t"
  by (simp add: js_slice_from_def slice_pos_def)

lemma js_slice_append:
  assumes "i \<le> j" "j \<le> k" "k \<le> length t"
  shows "js_slice t (int i) (int j) @ js_slice t (int j) (int k) = js_slice t (int i) (int k)"
proof -
  have "take (j - i) (drop i t) @ take (k - j) (drop (j - i) (drop i t)) = take (j - i + (k - j)) (drop i t)"
    by (rule take_add [symmetric])
  with assms show ?thesis
    by (simp add: js_slice_nat)
qed

lemma starts_with_append: "starts_with t p \<longleftrightarrow> (\<exists>u. t = p @ u)"
  by (induction t p rule: starts_with.induct) auto

text \<open>White space as \<open>trim\<close> and \<open>StringToBigInt\<close> see it.\<close>

definition is_space :: "code_unit \<Rightarrow> bool" where
  "is_space c \<longleftrightarrow> c \<in> {9, 10, 11, 12, 13, 32, 160, 5760, 8232, 8233, 8239, 8287, 12288, 65279}
     \<or> (8192 \<le> c \<and> c \<le> 8202)"

definition js_trim :: "str \<Rightarrow> str" where
  "js_trim t = rev (dropWhile is_space (rev (dropWhile is_space t)))"

text \<open>\<open>toLowerCase\<close> on the ASCII letters; the names it is applied to are ASCII words.\<close>

definition ascii_lower :: "code_unit \<Rightarrow> code_unit" where
  "ascii_lower c = (if 65 \<le> c \<and> c \<le> 90 then c + 32 else c)"

definition to_lower :: "str \<Rightarrow> str" where
  "to_lower = map ascii_lower"

section \<open>Optional values\<close>

text \<open>The operator \<open>??\<close>, and truthiness of optional strings (\<open>null\<close> and the empty string are falsy).\<close>

fun or_else :: "'a option \<Rightarrow> 'a \<Rightarrow> 'a" where
  "or_else None d = d"
| "or_else (Some x) d = x"

fun alt_opt :: "'a option \<Rightarrow> 'a option \<Rightarrow> 'a option" where
  "alt_opt None y = y"
| "alt_opt (Some x) y = Some x"

fun truthy :: "'a list option \<Rightarrow> bool" where
  "truthy None = False"
| "truthy (Some t) = (t \<noteq> [])"

definition non_empty :: "'a list option \<Rightarrow> 'a list option" where
  "non_empty v = (if truthy v then v else None)"

lemma truthy_iff: "truthy v \<longleftrightarrow> (\<exists>t. v = Some t \<and> t \<noteq> [])"
  by (cases v) auto

section \<open>Insertion-ordered maps and sets\<close>

type_synonym ('k, 'v) omap = "('k \<times> 'v) list"

abbreviation om_get :: "('k, 'v) omap \<Rightarrow> 'k \<Rightarrow> 'v option" where
  "om_get m k \<equiv> map_of m k"

abbreviation om_keys :: "('k, 'v) omap \<Rightarrow> 'k list" where
  "om_keys m \<equiv> map fst m"

abbreviation om_values :: "('k, 'v) omap \<Rightarrow> 'v list" where
  "om_values m \<equiv> map snd m"

fun om_set :: "('k, 'v) omap \<Rightarrow> 'k \<Rightarrow> 'v \<Rightarrow> ('k, 'v) omap" where
  "om_set [] k v = [(k, v)]"
| "om_set ((k', v') # m) k v = (if k' = k then (k, v) # m else (k', v') # om_set m k v)"

definition om_del :: "('k, 'v) omap \<Rightarrow> 'k \<Rightarrow> ('k, 'v) omap" where
  "om_del m k = filter (\<lambda>(k', v). k' \<noteq> k) m"

abbreviation om_ok :: "('k, 'v) omap \<Rightarrow> bool" where
  "om_ok m \<equiv> distinct (om_keys m)"

lemma map_of_om_set [simp]: "map_of (om_set m k v) = (map_of m)(k \<mapsto> v)"
  by (induction m k v rule: om_set.induct) auto

lemma map_of_om_del [simp]: "map_of (om_del m k) = (map_of m)(k := None)"
  by (induction m) (auto simp: om_del_def)

lemma set_keys_om_set [simp]: "fst ` set (om_set m k v) = insert k (fst ` set m)"
  by (induction m k v rule: om_set.induct) auto

lemma set_keys_om_del [simp]: "fst ` set (om_del m k) = fst ` set m - {k}"
  by (auto simp: om_del_def image_iff)

lemma om_ok_set [intro, simp]: "om_ok m \<Longrightarrow> om_ok (om_set m k v)"
  by (induction m k v rule: om_set.induct) auto

lemma om_ok_del [intro, simp]: "om_ok m \<Longrightarrow> om_ok (om_del m k)"
  by (induction m) (auto simp: om_del_def image_iff)

lemma om_set_new: "map_of m k = None \<Longrightarrow> om_set m k v = m @ [(k, v)]"
  by (induction m k v rule: om_set.induct) (auto split: if_splits)

lemma om_del_absent: "map_of m k = None \<Longrightarrow> om_del m k = m"
  by (induction m) (auto simp: om_del_def split: if_splits)

lemma om_get_mem: "om_get m k = Some v \<Longrightarrow> (k, v) \<in> set m"
  by (rule map_of_SomeD)

lemma om_mem_get: "om_ok m \<Longrightarrow> (k, v) \<in> set m \<Longrightarrow> om_get m k = Some v"
  by simp

definition os_add :: "'a list \<Rightarrow> 'a \<Rightarrow> 'a list" where
  "os_add xs x = (if x \<in> set xs then xs else xs @ [x])"

definition os_del :: "'a list \<Rightarrow> 'a \<Rightarrow> 'a list" where
  "os_del xs x = filter (\<lambda>y. y \<noteq> x) xs"

lemma set_os_add [simp]: "set (os_add xs x) = insert x (set xs)"
  by (auto simp: os_add_def)

lemma set_os_del [simp]: "set (os_del xs x) = set xs - {x}"
  by (auto simp: os_del_def)

lemma distinct_os [simp]: "distinct xs \<Longrightarrow> distinct (os_add xs x)" "distinct xs \<Longrightarrow> distinct (os_del xs x)"
  by (auto simp: os_add_def os_del_def)

text \<open>
  The interface of a keyed container. The clients below (subscription tables, the entries of
  the device cache, recorded mentions) use a store only through these laws.
\<close>

locale keyed_store =
  fixes get :: "'m \<Rightarrow> 'k \<Rightarrow> 'v option"
    and put :: "'m \<Rightarrow> 'k \<Rightarrow> 'v \<Rightarrow> 'm"
    and del :: "'m \<Rightarrow> 'k \<Rightarrow> 'm"
    and ok :: "'m \<Rightarrow> bool"
  assumes get_put: "get (put m k v) = (get m)(k \<mapsto> v)"
    and get_del: "get (del m k) = (get m)(k := None)"
    and ok_put: "ok m \<Longrightarrow> ok (put m k v)"
    and ok_del: "ok m \<Longrightarrow> ok (del m k)"
begin

lemma dom_put: "dom (get (put m k v)) = insert k (dom (get m))"
  by (simp add: get_put)

lemma dom_del: "dom (get (del m k)) = dom (get m) - {k}"
  by (auto simp: get_del)

lemma put_del_get: "get (del (put m k v) k) = (get m)(k := None)"
  by (simp add: get_put get_del)

end

interpretation om: keyed_store map_of om_set om_del om_ok
  by unfold_locales (simp_all)

section \<open>Decimal integers\<close>

definition digit_unit :: "nat \<Rightarrow> code_unit" where
  "digit_unit d = of_nat (48 + d)"

definition is_digit :: "code_unit \<Rightarrow> bool" where
  "is_digit c \<longleftrightarrow> 48 \<le> c \<and> c \<le> 57"

definition digit_value :: "code_unit \<Rightarrow> nat" where
  "digit_value c = unat c - 48"

fun show_nat :: "nat \<Rightarrow> str" where
  "show_nat n = (if n < 10 then [digit_unit n] else show_nat (n div 10) @ [digit_unit (n mod 10)])"

declare show_nat.simps [simp del]

definition show_int :: "int \<Rightarrow> str" where
  "show_int i = (if i < 0 then 45 # show_nat (nat (- i)) else show_nat (nat i))"

definition digits_value :: "str \<Rightarrow> nat" where
  "digits_value = foldl (\<lambda>a c. 10 * a + digit_value c) 0"

definition all_digits :: "str \<Rightarrow> bool" where
  "all_digits t \<longleftrightarrow> t \<noteq> [] \<and> list_all is_digit t"

text \<open>Digits in a radix up to 36, as \<open>parseInt(text, radix)\<close> reads them.\<close>

definition unit_digit :: "code_unit \<Rightarrow> nat option" where
  "unit_digit c = (if 48 \<le> c \<and> c \<le> 57 then Some (unat c - 48)
     else if 97 \<le> c \<and> c \<le> 122 then Some (unat c - 87)
     else if 65 \<le> c \<and> c \<le> 90 then Some (unat c - 55) else None)"

definition radix_digit :: "nat \<Rightarrow> code_unit \<Rightarrow> bool" where
  "radix_digit r c = (case unit_digit c of None \<Rightarrow> False | Some d \<Rightarrow> d < r)"

definition radix_value :: "nat \<Rightarrow> str \<Rightarrow> nat" where
  "radix_value r = foldl (\<lambda>a c. r * a + the (unit_digit c)) 0"

definition radix_literal :: "nat \<Rightarrow> str \<Rightarrow> int option" where
  "radix_literal r t = (if t \<noteq> [] \<and> list_all (radix_digit r) t then Some (int (radix_value r t)) else None)"

text \<open>
  \<open>BigInt(string)\<close>: white space is trimmed, the empty text is zero, an optional sign may
  precede decimal digits, the prefixes \<open>0x\<close>, \<open>0o\<close> and \<open>0b\<close> (either case) select a radix;
  everything else is a \<open>SyntaxError\<close> (\<open>None\<close>).
\<close>

definition parse_bigint :: "str \<Rightarrow> int option" where
  "parse_bigint raw = (let t = js_trim raw in
     if t = [] then Some 0
     else if starts_with t (lit ''0x'') \<or> starts_with t (lit ''0X'') then radix_literal 16 (drop 2 t)
     else if starts_with t (lit ''0o'') \<or> starts_with t (lit ''0O'') then radix_literal 8 (drop 2 t)
     else if starts_with t (lit ''0b'') \<or> starts_with t (lit ''0B'') then radix_literal 2 (drop 2 t)
     else if hd t = 45 then (if all_digits (tl t) then Some (- int (digits_value (tl t))) else None)
     else if hd t = 43 then (if all_digits (tl t) then Some (int (digits_value (tl t))) else None)
     else if all_digits t then Some (int (digits_value t)) else None)"

lemma digit_unit_props:
  assumes "d < 10"
  shows "is_digit (digit_unit d)" "digit_value (digit_unit d) = d" "\<not> is_space (digit_unit d)"
    "digit_unit d \<noteq> 45" "digit_unit d \<noteq> 43"
proof -
  from assms have "d \<in> {0, 1, 2, 3, 4, 5, 6, 7, 8, 9}"
    by auto
  then show "is_digit (digit_unit d)" "digit_value (digit_unit d) = d" "\<not> is_space (digit_unit d)"
    "digit_unit d \<noteq> 45" "digit_unit d \<noteq> 43"
    by (auto simp: is_digit_def digit_unit_def digit_value_def is_space_def)
qed

lemma show_nat_digits: "\<forall>c \<in> set (show_nat n). \<exists>d < 10. c = digit_unit d"
proof (induction n rule: show_nat.induct)
  case (1 n)
  show ?case
  proof (cases "n < 10")
    case True
    then show ?thesis by (subst show_nat.simps) auto
  next
    case False
    have "n mod 10 < 10" by simp
    then have "\<exists>d < 10. digit_unit (n mod 10) = digit_unit d" by blast
    with False 1 show ?thesis by (subst show_nat.simps) simp
  qed
qed

lemma show_nat_not_Nil [simp]: "show_nat n \<noteq> []"
  by (subst show_nat.simps) simp

lemma show_nat_all_digits: "all_digits (show_nat n)"
  using show_nat_digits [of n] by (fastforce simp: all_digits_def list_all_iff digit_unit_props)

lemma digits_value_show_nat [simp]: "digits_value (show_nat n) = n"
proof (induction n rule: show_nat.induct)
  case (1 n)
  show ?case
  proof (cases "n < 10")
    case True
    then show ?thesis
      by (subst show_nat.simps) (simp add: digits_value_def digit_unit_props)
  next
    case False
    then have "digits_value (show_nat n) = 10 * digits_value (show_nat (n div 10)) + n mod 10"
      by (subst show_nat.simps) (simp add: digits_value_def digit_unit_props)
    also have "\<dots> = n" using 1 False by simp
    finally show ?thesis .
  qed
qed

lemma show_nat_inject [simp]: "show_nat m = show_nat n \<longleftrightarrow> m = n"
  by (metis digits_value_show_nat)

lemma trim_id:
  assumes "t \<noteq> []" "\<not> is_space (hd t)" "\<not> is_space (last t)"
  shows "js_trim t = t"
proof -
  have dw: "\<not> P (hd u) \<Longrightarrow> dropWhile P u = u" if "u \<noteq> []" for P and u :: str
    using that by (cases u) auto
  show ?thesis
    using assms by (simp add: js_trim_def dw hd_rev)
qed

lemma show_nat_ends:
  "\<not> is_space (hd (show_nat n))" "\<not> is_space (last (show_nat n))"
  "hd (show_nat n) \<noteq> 45" "hd (show_nat n) \<noteq> 43"
proof -
  have "hd (show_nat n) \<in> set (show_nat n)" "last (show_nat n) \<in> set (show_nat n)"
    by simp_all
  then obtain d e where "d < 10" "e < 10" "hd (show_nat n) = digit_unit d" "last (show_nat n) = digit_unit e"
    using show_nat_digits [of n] by blast
  then show "\<not> is_space (hd (show_nat n))" "\<not> is_space (last (show_nat n))"
      "hd (show_nat n) \<noteq> 45" "hd (show_nat n) \<noteq> 43"
    by (simp_all add: digit_unit_props)
qed

lemma digits_no_prefix:
  assumes "\<forall>c \<in> set t. is_digit c" "\<not> is_digit x"
  shows "\<not> starts_with t [48, x]"
  using assms by (auto simp: starts_with_append)

lemma show_nat_no_prefix: "\<not> is_digit x \<Longrightarrow> \<not> starts_with (show_nat n) [48, x]"
  using show_nat_all_digits [of n] by (intro digits_no_prefix) (auto simp: all_digits_def list_all_iff)

lemma parse_show_int [simp]: "parse_bigint (show_int i) = Some i"
proof (cases "i < 0")
  case True
  have "js_trim (45 # show_nat (nat (- i))) = 45 # show_nat (nat (- i))"
    using show_nat_ends(2) [of "nat (- i)"] by (intro trim_id) (auto simp: is_space_def)
  with True show ?thesis
    by (simp add: parse_bigint_def show_int_def show_nat_all_digits lit_Cons)
next
  case False
  then have "js_trim (show_nat (nat i)) = show_nat (nat i)"
    using show_nat_ends [of "nat i"] by (intro trim_id) auto
  with False show ?thesis
    using show_nat_ends [of "nat i"]
    by (simp add: parse_bigint_def show_int_def show_nat_all_digits show_nat_no_prefix lit_Cons is_digit_def)
qed

lemma show_int_inject [simp]: "show_int i = show_int j \<longleftrightarrow> i = j"
  by (metis option.inject parse_show_int)

lemma show_int_not_Nil [simp]: "show_int i \<noteq> []"
  by (simp add: show_int_def)

text \<open>\<open>padStart\<close>.\<close>

definition pad_start :: "nat \<Rightarrow> code_unit \<Rightarrow> str \<Rightarrow> str" where
  "pad_start n c t = replicate (n - length t) c @ t"

section \<open>JSON values\<close>

text \<open>
  The values that cross \<open>JSON.stringify\<close> and \<open>JSON.parse\<close>. Stored or received text is modelled by
  what the parser makes of it: \<open>None\<close> stands for text on which \<open>JSON.parse\<close> throws.
\<close>

datatype json =
    JNull
  | JBool bool
  | JNum rat
  | JStr str
  | JArr "json list"
  | JObj "(str \<times> json) list"

fun json_field :: "json \<Rightarrow> str \<Rightarrow> json option" where
  "json_field (JObj fs) k = map_of fs k"
| "json_field _ k = None"

fun json_str :: "json option \<Rightarrow> str option" where
  "json_str (Some (JStr t)) = Some t"
| "json_str _ = None"

definition json_opt_str :: "str option \<Rightarrow> json" where
  "json_opt_str v = (case v of None \<Rightarrow> JNull | Some t \<Rightarrow> JStr t)"

end
