(* ===== verification/JsNumber.thy ===== *)
theory JsNumber
  imports Prelude
begin

text \<open>
  JavaScript numbers. A finite \<open>number\<close> is a rational that an IEEE 754 binary64 value
  represents; \<open>fl\<close> rounds an exact result to the nearest such value, ties to even, and every
  arithmetic operation of the source is the exact operation followed by \<open>fl\<close>. The model covers
  the normal range: no value of the program comes near the overflow threshold or the
  subnormals. \<open>NaN\<close> is \<open>None\<close> where an operation can return it.

  The lemmas say that \<open>fl\<close> is monotone, exact on the representable numbers (so on the
  integers up to \<open>2 ^ 53\<close>), odd, and off by at most one part in \<open>2 ^ 53\<close>.
\<close>

section \<open>Rounding to a double\<close>

function ilog :: "int \<Rightarrow> int" where
  "ilog n = (if n \<le> 1 then 0 else 1 + ilog (n div 2))"
  by auto
termination
  by (relation "measure nat") auto

declare ilog.simps [simp del]

text \<open>The binary exponent of a non-zero rational.\<close>

definition expo :: "rat \<Rightarrow> int" where
  "expo x = (let (a, b) = quotient_of \<bar>x\<bar>; e = ilog a - ilog b
     in if (2 :: rat) powi e * of_int b \<le> of_int a then e else e - 1)"

text \<open>Round to the nearest integer, ties to even.\<close>

definition rne :: "rat \<Rightarrow> int" where
  "rne x = (let f = \<lfloor>x\<rfloor>; r = x - of_int f
     in if r < 1 / 2 then f else if r > 1 / 2 then f + 1 else if even f then f else f + 1)"

definition fl :: "rat \<Rightarrow> rat" where
  "fl x = (if x = 0 then 0 else let k = expo x - 52 in of_int (rne (x / 2 powi k)) * 2 powi k)"

lemma ilog_nonneg: "0 \<le> ilog n"
  by (induction n rule: ilog.induct) (subst ilog.simps, simp)

lemma ilog_bounds: "1 \<le> n \<Longrightarrow> 2 ^ nat (ilog n) \<le> n \<and> n < 2 ^ Suc (nat (ilog n))"
proof (induction n rule: ilog.induct)
  case (1 n)
  show ?case
  proof (cases "n \<le> 1")
    case True
    with 1 have "n = 1" by simp
    then show ?thesis by (simp add: ilog.simps)
  next
    case False
    with 1 have ih: "2 ^ nat (ilog (n div 2)) \<le> n div 2" "n div 2 < 2 ^ Suc (nat (ilog (n div 2)))"
      by auto
    have "nat (ilog n) = Suc (nat (ilog (n div 2)))"
      using False ilog_nonneg [of "n div 2"] by (subst ilog.simps) simp
    with ih show ?thesis by (simp, linarith)
  qed
qed

lemma powi_nat: "0 \<le> k \<Longrightarrow> (2 :: rat) powi k = 2 ^ nat k"
  by (simp add: power_int_def)

lemma powi_split: "(2 :: rat) powi (a + b) = 2 powi a * 2 powi b"
  by (simp add: power_int_add)

lemma powi_pos [simp]: "(0 :: rat) < 2 powi k"
  by simp

lemma powi_le: "a \<le> b \<Longrightarrow> (2 :: rat) powi a \<le> 2 powi b"
  by (rule power_int_increasing) auto

lemma powi_less_iff: "(2 :: rat) powi a < 2 powi b \<longleftrightarrow> a < b"
proof (cases "a < b")
  case True
  then show ?thesis using power_int_strict_increasing [of a b "2 :: rat"] by simp
next
  case False
  then show ?thesis using powi_le [of b a] by simp
qed

lemma powi_cancel: "(2 :: rat) powi (a - b) * 2 powi b = 2 powi a"
  using powi_split [of "a - b" b] by simp

lemma powi_Suc: "(2 :: rat) powi (k + 1) = 2 * 2 powi k"
  by (simp add: powi_split)

lemma powi_52: "(2 :: rat) powi e = 2 ^ 52 * 2 powi (e - 52)"
  using powi_cancel [of e "e - 52"] by simp

lemma ilog_powi:
  assumes "1 \<le> n"
  shows "(2 :: rat) powi ilog n \<le> of_int n" "of_int n < (2 :: rat) powi (ilog n + 1)"
proof -
  have p: "(2 :: rat) powi ilog n = of_int (2 ^ nat (ilog n))"
    using ilog_nonneg [of n] by (simp add: powi_nat)
  show "(2 :: rat) powi ilog n \<le> of_int n"
    unfolding p using ilog_bounds [OF assms] by (simp only: of_int_le_iff)
  have "of_int n < (of_int (2 ^ Suc (nat (ilog n))) :: rat)"
    using ilog_bounds [OF assms] by (simp only: of_int_less_iff)
  then show "of_int n < (2 :: rat) powi (ilog n + 1)"
    by (simp add: powi_split p)
qed

lemma expo_bounds:
  assumes "x \<noteq> 0"
  shows "2 powi expo x \<le> \<bar>x\<bar>" "\<bar>x\<bar> < 2 powi (expo x + 1)"
proof -
  obtain a b where q: "quotient_of \<bar>x\<bar> = (a, b)"
    by fastforce
  have b: "0 < b" and x: "\<bar>x\<bar> = of_int a / of_int b"
    by (fact quotient_of_denom_pos [OF q], fact quotient_of_div [OF q])
  have "0 < (of_int a / of_int b :: rat)"
    unfolding x [symmetric] using assms by simp
  then have a: "1 \<le> a"
    using b by (simp add: zero_less_divide_iff)
  let ?e = "ilog a - ilog b"
  have bu: "of_int b < (2 :: rat) powi (ilog b + 1)" and bl: "(2 :: rat) powi ilog b \<le> of_int b"
    using ilog_powi [of b] b by simp_all
  have au: "of_int a < (2 :: rat) powi (ilog a + 1)" and al: "(2 :: rat) powi ilog a \<le> of_int a"
    using ilog_powi [of a] a by simp_all
  have ea: "(2 :: rat) powi ?e * 2 powi ilog b = 2 powi ilog a"
    by (rule powi_cancel)
  have up: "of_int a < (2 :: rat) powi (?e + 1) * of_int b"
  proof -
    have "2 * (2 powi ?e * (2 :: rat) powi ilog b) \<le> 2 * (2 powi ?e * of_int b)"
      using bl by (intro mult_left_mono) simp_all
    with au show ?thesis by (simp only: ea powi_Suc mult.assoc)
  qed
  have lo: "(2 :: rat) powi (?e - 1) * of_int b \<le> of_int a"
  proof -
    have "(2 :: rat) powi (?e - 1) * of_int b \<le> 2 powi (?e - 1) * (2 * 2 powi ilog b)"
      using bu by (intro mult_left_mono) (simp_all only: powi_Suc, simp_all)
    also have "\<dots> = 2 powi ?e * 2 powi ilog b"
      using powi_Suc [of "?e - 1"] by simp
    finally show ?thesis using al by (simp only: ea)
  qed
  have e: "expo x = (if (2 :: rat) powi ?e * of_int b \<le> of_int a then ?e else ?e - 1)"
    by (simp add: expo_def q)
  have b0: "(0 :: rat) < of_int b" using b by simp
  show "2 powi expo x \<le> \<bar>x\<bar>"
    using lo by (simp add: e x pos_le_divide_eq [OF b0])
  show "\<bar>x\<bar> < 2 powi (expo x + 1)"
    using up by (simp add: e x pos_divide_less_eq [OF b0] not_le)
qed

lemma expo_unique:
  assumes "2 powi e \<le> \<bar>x\<bar>" "\<bar>x\<bar> < 2 powi (e + 1)"
  shows "expo x = e"
proof -
  have "x \<noteq> 0" using assms(1) powi_pos [of e] by linarith
  note b = expo_bounds [OF this]
  have "(2 :: rat) powi e < 2 powi (expo x + 1)" "(2 :: rat) powi expo x < 2 powi (e + 1)"
    using assms b by linarith+
  then show ?thesis by (simp add: powi_less_iff)
qed

lemma expo_mono: "x \<noteq> 0 \<Longrightarrow> \<bar>x\<bar> \<le> \<bar>y\<bar> \<Longrightarrow> expo x \<le> expo y"
  using expo_bounds [of x] expo_bounds [of y] powi_less_iff [of "expo x" "expo y + 1"]
  by (cases "y = 0") auto

subsection \<open>The integer rounding\<close>

lemma rne_of_int [simp]: "rne (of_int n) = n"
  by (simp add: rne_def)

lemma rne_bounds: "\<bar>of_int (rne x) - x\<bar> \<le> 1 / 2"
  by (auto simp: rne_def Let_def abs_if) linarith+

lemma rne_cases: "rne x = \<lfloor>x\<rfloor> \<or> rne x = \<lfloor>x\<rfloor> + 1"
  by (simp add: rne_def Let_def)

lemma rne_mono:
  assumes "x \<le> y"
  shows "rne x \<le> rne y"
proof (cases "\<lfloor>x\<rfloor> = \<lfloor>y\<rfloor>")
  case True
  with assms show ?thesis by (auto simp: rne_def Let_def)
next
  case False
  with assms floor_mono [of x y] have "\<lfloor>x\<rfloor> + 1 \<le> \<lfloor>y\<rfloor>" by simp
  with rne_cases [of x] rne_cases [of y] show ?thesis by auto
qed

lemma rne_ge: "of_int n \<le> x \<Longrightarrow> n \<le> rne x"
  using rne_mono [of "of_int n" x] by simp

lemma rne_le: "x \<le> of_int n \<Longrightarrow> rne x \<le> n"
  using rne_mono [of x "of_int n"] by simp

lemma rne_minus: "rne (- x) = - rne x"
proof (cases "x = of_int \<lfloor>x\<rfloor>")
  case True
  then have "rne (- x) = rne (of_int (- \<lfloor>x\<rfloor>))" by simp
  also have "\<dots> = - rne (of_int \<lfloor>x\<rfloor>)" by (simp only: rne_of_int)
  finally show ?thesis using True by simp
next
  case False
  then have "\<lfloor>- x\<rfloor> = - \<lfloor>x\<rfloor> - 1"
    by linarith
  then show ?thesis by (auto simp: rne_def Let_def)
qed

subsection \<open>Properties of the rounding\<close>

lemma fl_0 [simp]: "fl 0 = 0"
  by (simp add: fl_def)

lemma fl_minus: "fl (- x) = - fl x"
  by (simp add: fl_def expo_def Let_def rne_minus)

lemma fl_scaled_bounds:
  assumes "0 < x"
  shows "2 ^ 52 \<le> rne (x / 2 powi (expo x - 52))" "rne (x / 2 powi (expo x - 52)) \<le> 2 ^ 53"
proof -
  have b: "2 powi expo x \<le> x" "x < 2 powi (expo x + 1)"
    using expo_bounds [of x] assms by simp_all
  have s: "(2 :: rat) powi expo x = 2 ^ 52 * 2 powi (expo x - 52)"
      "(2 :: rat) powi (expo x + 1) = 2 ^ 53 * 2 powi (expo x - 52)"
    using powi_52 [of "expo x"] powi_Suc [of "expo x"] by simp_all
  show "2 ^ 52 \<le> rne (x / 2 powi (expo x - 52))"
    by (rule rne_ge) (use b(1) s in \<open>simp add: field_simps\<close>)
  show "rne (x / 2 powi (expo x - 52)) \<le> 2 ^ 53"
    by (rule rne_le) (use b(2) s in \<open>simp add: field_simps\<close>)
qed

lemma fl_exact_scaled:
  assumes "\<bar>m\<bar> < 2 ^ 53"
  shows "fl (of_int m * 2 powi k) = of_int m * 2 powi k"
proof (cases "m = 0")
  case False
  let ?x = "of_int m * 2 powi k :: rat"
  let ?d = "k - (expo ?x - 52)"
  have x: "?x \<noteq> 0" using False by simp
  have "of_int \<bar>m\<bar> < (of_int (2 ^ 53) :: rat)"
    using assms by (simp only: of_int_less_iff)
  then have "\<bar>?x\<bar> < 2 ^ 53 * 2 powi k"
    by (simp add: abs_mult)
  also have "\<dots> = 2 powi (53 + k)"
    by (simp only: powi_split) (simp add: powi_nat)
  finally have "(2 :: rat) powi expo ?x < 2 powi (53 + k)"
    using expo_bounds(1) [OF x] by linarith
  then have d: "0 \<le> ?d" by (simp add: powi_less_iff)
  have "?x / 2 powi (expo ?x - 52) = of_int m * 2 powi ?d"
    by (simp add: power_int_diff)
  also have "\<dots> = of_int (m * 2 ^ nat ?d)"
    using d by (simp add: powi_nat)
  finally have "rne (?x / 2 powi (expo ?x - 52)) = m * 2 ^ nat ?d"
    by (simp only: rne_of_int)
  then have "fl ?x = of_int (m * 2 ^ nat ?d) * 2 powi (expo ?x - 52)"
    using x by (simp add: fl_def Let_def)
  also have "\<dots> = of_int m * (2 powi ?d * 2 powi (expo ?x - 52))"
    using d by (simp add: powi_nat)
  also have "\<dots> = ?x"
    by (simp flip: powi_split)
  finally show ?thesis .
qed simp

lemma fl_exact: "\<bar>n\<bar> \<le> 2 ^ 53 \<Longrightarrow> fl (of_int n) = of_int n"
proof -
  assume n: "\<bar>n\<bar> \<le> 2 ^ 53"
  show ?thesis
  proof (cases "\<bar>n\<bar> = 2 ^ 53")
    case True
    then have "n = 2 ^ 53 \<or> n = - (2 ^ 53)" by linarith
    then show ?thesis
      using fl_exact_scaled [of 1 53] fl_minus [of "2 ^ 53"] by (auto simp: powi_nat)
  next
    case False
    with n show ?thesis using fl_exact_scaled [of n 0] by simp
  qed
qed

lemma fl_pos_binade:
  assumes "0 < x"
  shows "2 powi expo x \<le> fl x" "fl x \<le> 2 powi (expo x + 1)"
proof -
  note b = fl_scaled_bounds [OF assms]
  have s: "(2 :: rat) powi expo x = of_int (2 ^ 52) * 2 powi (expo x - 52)"
      "(2 :: rat) powi (expo x + 1) = of_int (2 ^ 53) * 2 powi (expo x - 52)"
    using powi_52 [of "expo x"] powi_Suc [of "expo x"] by simp_all
  have f: "fl x = of_int (rne (x / 2 powi (expo x - 52))) * 2 powi (expo x - 52)"
    using assms by (simp add: fl_def Let_def)
  show "2 powi expo x \<le> fl x"
    unfolding f s(1) using b(1) by (intro mult_right_mono) (simp_all only: of_int_le_iff, simp)
  show "fl x \<le> 2 powi (expo x + 1)"
    unfolding f s(2) using b(2) by (intro mult_right_mono) (simp_all only: of_int_le_iff, simp)
qed

lemma fl_pos: "0 < x \<Longrightarrow> 0 < fl x"
  using fl_pos_binade(1) [of x] powi_pos [of "expo x"] by linarith

lemma fl_nonneg [simp]: "0 \<le> x \<Longrightarrow> 0 \<le> fl x"
  using fl_pos [of x] by (cases "x = 0") auto

lemma fl_mono_pos:
  assumes "0 < x" "x \<le> y"
  shows "fl x \<le> fl y"
proof (cases "expo x = expo y")
  case True
  then show ?thesis
    using assms by (simp add: fl_def Let_def mult_right_mono rne_mono divide_right_mono)
next
  case False
  then have "expo x + 1 \<le> expo y"
    using assms expo_mono [of x y] by simp
  then have "(2 :: rat) powi (expo x + 1) \<le> 2 powi expo y"
    by (rule powi_le)
  moreover have "fl x \<le> 2 powi (expo x + 1)" "2 powi expo y \<le> fl y"
    using fl_pos_binade assms by simp_all
  ultimately show ?thesis by linarith
qed

lemma fl_mono: "x \<le> y \<Longrightarrow> fl x \<le> fl y"
proof -
  assume le: "x \<le> y"
  consider "0 < x" | "x \<le> 0" "0 \<le> y" | "y < 0" by linarith
  then show ?thesis
  proof cases
    case 1
    then show ?thesis using le by (rule fl_mono_pos)
  next
    case 2
    then have "fl x \<le> 0" "0 \<le> fl y"
      using fl_nonneg [of "- x"] by (simp_all add: fl_minus)
    then show ?thesis by linarith
  next
    case 3
    then have "fl (- y) \<le> fl (- x)" using le by (intro fl_mono_pos) auto
    then show ?thesis by (simp add: fl_minus)
  qed
qed

lemma fl_error: "\<bar>fl x - x\<bar> \<le> \<bar>x\<bar> / 2 ^ 53"
proof (cases "x = 0")
  case False
  let ?k = "expo x - 52"
  have "fl x - x = (of_int (rne (x / 2 powi ?k)) - x / 2 powi ?k) * 2 powi ?k"
    using False by (simp add: fl_def Let_def left_diff_distrib)
  then have "\<bar>fl x - x\<bar> = \<bar>of_int (rne (x / 2 powi ?k)) - x / 2 powi ?k\<bar> * 2 powi ?k"
    by (simp add: abs_mult)
  also have "\<dots> \<le> 1 / 2 * 2 powi ?k"
    using rne_bounds by (intro mult_right_mono) simp_all
  also have "\<dots> = 2 powi expo x / 2 ^ 53"
    using powi_52 [of "expo x"] by simp
  also have "\<dots> \<le> \<bar>x\<bar> / 2 ^ 53"
    using expo_bounds(1) [OF False] by (intro divide_right_mono) simp_all
  finally show ?thesis .
qed simp

section \<open>Operations on numbers\<close>

text \<open>\<open>+\<close>, \<open>*\<close>, \<open>/\<close>: the exact result, rounded.\<close>

definition num_add :: "rat \<Rightarrow> rat \<Rightarrow> rat" where "num_add x y = fl (x + y)"
definition num_sub :: "rat \<Rightarrow> rat \<Rightarrow> rat" where "num_sub x y = fl (x - y)"
definition num_mul :: "rat \<Rightarrow> rat \<Rightarrow> rat" where "num_mul x y = fl (x * y)"
definition num_div :: "rat \<Rightarrow> rat \<Rightarrow> rat" where "num_div x y = fl (x / y)"

text \<open>\<open>Math.floor\<close> and \<open>Math.round\<close>, which rounds halves up.\<close>

definition math_floor :: "rat \<Rightarrow> int" where "math_floor x = \<lfloor>x\<rfloor>"
definition math_round :: "rat \<Rightarrow> int" where "math_round x = \<lfloor>x + 1 / 2\<rfloor>"

text \<open>\<open>Number(bigint)\<close>.\<close>

definition num_of_big :: "int \<Rightarrow> rat" where "num_of_big n = fl (of_int n)"

text \<open>
  \<open>toFixed\<close> (below \<open>10 ^ 21\<close>): the larger of the two nearest \<open>n\<close> with \<open>n / 10 ^ f\<close> close to the
  number, printed with \<open>f\<close> decimals.
\<close>

definition fixed_digits :: "nat \<Rightarrow> nat \<Rightarrow> str" where
  "fixed_digits f n = (let m = show_nat n;
     m' = (if length m \<le> f then replicate (f + 1 - length m) 48 @ m else m);
     k = length m' - f
   in if f = 0 then m else take k m' @ [46] @ drop k m')"

definition to_fixed :: "nat \<Rightarrow> rat \<Rightarrow> str" where
  "to_fixed f x = (if x < 0 then 45 # fixed_digits f (nat \<lfloor>- x * 10 ^ f + 1 / 2\<rfloor>)
     else fixed_digits f (nat \<lfloor>x * 10 ^ f + 1 / 2\<rfloor>))"

text \<open>
  \<open>parseInt(t, 10)\<close> and \<open>parseFloat(t)\<close> on text of digits and points, which is what the amount
  and limit fields hold after their filters: the longest numeric prefix, rounded; \<open>None\<close> is \<open>NaN\<close>.
\<close>

definition parse_int :: "str \<Rightarrow> rat option" where
  "parse_int t = (let d = takeWhile is_digit t
     in if d = [] then None else Some (fl (of_nat (digits_value d))))"

definition parse_float :: "str \<Rightarrow> rat option" where
  "parse_float t = (let d = takeWhile is_digit t; r = dropWhile is_digit t;
     f = (if r \<noteq> [] \<and> hd r = 46 then takeWhile is_digit (tl r) else [])
   in if d = [] \<and> f = [] then None
      else Some (fl (of_nat (digits_value (d @ f)) / 10 ^ length f)))"

lemma num_ops_mono:
  "x \<le> x' \<Longrightarrow> y \<le> y' \<Longrightarrow> num_add x y \<le> num_add x' y'"
  "0 \<le> y \<Longrightarrow> x \<le> x' \<Longrightarrow> num_mul x y \<le> num_mul x' y"
  "0 < y \<Longrightarrow> x \<le> x' \<Longrightarrow> num_div x y \<le> num_div x' y"
  by (auto simp: num_add_def num_mul_def num_div_def intro!: fl_mono add_mono mult_right_mono divide_right_mono)

lemma num_of_big_exact [simp]: "\<bar>n\<bar> \<le> 2 ^ 53 \<Longrightarrow> num_of_big n = of_int n"
  unfolding num_of_big_def by (rule fl_exact)

text \<open>A floored quotient of integers below \<open>2 ^ 53\<close> is not disturbed by the rounding.\<close>

lemma floor_div_exact:
  assumes "0 \<le> n" "n < 2 ^ 53" "0 < p"
  shows "\<lfloor>fl (of_int n / of_int p)\<rfloor> = n div p"
proof (rule floor_unique)
  let ?x = "of_int n / of_int p :: rat"
  have p: "(0 :: rat) < of_int p" using assms by simp
  have k: "\<bar>n div p\<bar> \<le> 2 ^ 53"
    using assms zdiv_mono2 [of n 1 p] pos_imp_zdiv_nonneg_iff [of p n] by simp
  have "of_int (n div p) \<le> ?x"
    using assms by (simp add: pos_le_divide_eq p) (metis mult.commute of_int_le_iff of_int_mult
        minus_mod_eq_mult_div pos_mod_sign diff_le_eq le_add_same_cancel1)
  then show "of_int (n div p) \<le> fl ?x"
    using fl_mono fl_exact [OF k] by metis
  have "n < (n div p + 1) * p"
    using assms by (metis add.commute mult.commute mult_div_mod_eq pos_mod_bound add_strict_left_mono
        distrib_left mult.right_neutral)
  then have le: "n + 1 \<le> (n div p + 1) * p" by simp
  then have "of_int (n + 1) \<le> (of_int ((n div p + 1) * p) :: rat)"
    by (simp only: of_int_le_iff)
  then have up: "?x + 1 / of_int p \<le> of_int (n div p) + 1"
    using p by (simp add: field_simps)
  have n53: "of_int n < (2 ^ 53 :: rat)"
    using assms(2) by (metis of_int_less_iff of_int_numeral of_int_power)
  have "\<bar>?x\<bar> / 2 ^ 53 < 1 / of_int p"
    using n53 p assms(1) by (simp add: field_simps)
  then show "fl ?x < of_int (n div p) + 1"
    using fl_error [of ?x] up by linarith
qed

end
