(* ===== verification/WebTypes.thy ===== *)
theory WebTypes
  imports JsNumber
begin

text \<open>
  The data transfer objects of the web client, \<open>web/lib/types.ts\<close>, in the order of that file.

  A string-literal union is a datatype, an interface is a record, and an interface that extends
  another extends its record. \<open>Market\<close> and \<open>Position\<close> refer to each other, so they are one mutual
  datatype with the fields as selectors. \<open>T | null\<close> and an optional property are \<open>T option\<close>.
  Counts, cents, share numbers and timestamps in milliseconds are integral on the wire and are
  \<open>int\<close>. Field names carry a short prefix of their interface, because \<open>id\<close>, \<open>kind\<close> or \<open>status\<close>
  occur in many of them.
\<close>

section \<open>Vocabulary\<close>

datatype market_status = PENDING | OPEN | MATCHED | SETTLING | SETTLED | VOID

datatype order_status = SIGNING | QUEUED | RESTING | PARTIAL | FILLED | CANCELED

datatype chip_state = MarketChip market_status | OrderChip order_status

datatype side = Yes | No

section \<open>Users\<close>

record user_lite =
  ul_id :: str
  ul_username :: str
  ul_display_name :: "str option"
  ul_avatar_url :: "str option"

record user_brief = user_lite +
  ub_is_following :: "bool option"
  ub_follow_requested :: "bool option"
  ub_private :: "bool option"

record user = user_lite +
  us_bio :: "str option"
  us_links :: "str list"
  us_private :: bool
  us_trades_public :: bool
  us_follower_count :: int
  us_following_count :: int
  us_post_count :: int
  us_is_following :: bool
  us_follow_requested :: bool
  us_is_self :: bool
  us_wallet_address :: "str option"

record warp_viewing =
  wv_id :: str
  wv_username :: str
  wv_email :: str

record warp_info =
  wi_active :: bool
  wi_admin_email :: str
  wi_viewing :: warp_viewing

record me = user +
  me_privy_did :: str
  me_onboarded :: bool
  me_is_admin :: "bool option"
  me_warp :: "warp_info option"

record admin_user =
  au_id :: str
  au_username :: str
  au_email :: str
  au_avatar_url :: "str option"

record username_reservation =
  ur_username :: str
  ur_email :: str
  ur_created_at :: str

section \<open>Media\<close>

datatype media_kind = ImageMedia | VideoMedia

datatype media_status = Uploading | Processing | Ready | Failed

record media_item =
  mi_id :: str
  mi_kind :: media_kind
  mi_url :: str
  mi_hls_url :: "str option"
  mi_width :: int
  mi_height :: int
  mi_duration_ms :: "int option"
  mi_status :: media_status
  mi_alt :: "str option"

section \<open>Markets\<close>

datatype settlement_rule = Single | Majority

record settlement_source =
  ss_id :: str
  ss_name :: str
  ss_url :: str

record settlement =
  st_question :: str
  st_category :: "str option"
  st_rule :: settlement_rule
  st_sources :: "settlement_source list"

datatype market = Market
    (mk_id: str)
    (mk_chain_market_id: int)
    (mk_creator: user_lite)
    (mk_question: str)
    (mk_settlement_query: str)
    (mk_settlement: "settlement option")
    (mk_status: market_status)
    (mk_direction: "bool option")
    (mk_yes_price_cents: int)
    (mk_no_price_cents: int)
    (mk_volume: str)
    (mk_created_at: str)
    (mk_my_position: "position option")
and position = Position
    (ps_market_id: str)
    (ps_market: "market option")
    (ps_side: side)
    (ps_shares: int)
    (ps_avg_price_cents: int)
    (ps_realized_pnl: str)
    (ps_unrealized_pnl: "str option")

record post_market =
  pm_market :: market
  pm_poster_position :: "position option"
  pm_poster_pnl :: "str option"

record book_level =
  bl_price_cents :: int
  bl_shares :: int

record order_book =
  ob_market_id :: str
  ob_yes :: "book_level list"
  ob_no :: "book_level list"
  ob_last_trade_price_cents :: "int option"

record order =
  or_id :: str
  or_market_id :: str
  or_market :: "market option"
  or_side :: side
  or_price_cents :: int
  or_shares :: int
  or_filled_shares :: int
  or_status :: order_status
  or_affiliate_post_id :: "str option"
  or_created_at :: str

record trade =
  tr_id :: str
  tr_market_id :: str
  tr_market_question :: str
  tr_market_status :: market_status
  tr_direction :: "bool option"
  tr_side :: side
  tr_price_cents :: int
  tr_shares :: int
  tr_status :: order_status
  tr_pnl :: "str option"
  tr_created_at :: str

record market_candidate =
  mc_title :: str
  mc_question :: str
  mc_settlement_query :: str
  mc_suggested_close_note :: "str option"
  mc_category :: "str option"
  mc_rule :: "settlement_rule option"
  mc_sources :: "settlement_source list option"
  mc_existing_market :: "market option"

section \<open>Posts\<close>

datatype post_kind = Photo | Video | Reel

record post_comment =
  co_id :: str
  co_post_id :: "str option"
  co_market_id :: "str option"
  co_parent_id :: "str option"
  co_author :: user_lite
  co_body :: str
  co_like_count :: int
  co_liked :: bool
  co_reply_count :: int
  co_created_at :: str

record reaction_summary =
  rs_emoji :: str
  rs_count :: int
  rs_reacted :: bool

record mention_input =
  mn_user_id :: str
  mn_start :: int
  mn_len :: int

record mention = mention_input +
  mn_username :: str
  mn_display_name :: "str option"
  mn_avatar_url :: "str option"

record post =
  po_id :: str
  po_affiliate_id :: "int option"
  po_author :: user_lite
  po_kind :: post_kind
  po_caption :: "str option"
  po_mentions :: "mention list"
  po_media :: "media_item list"
  po_market :: "post_market option"
  po_like_count :: int
  po_comment_count :: int
  po_liked :: bool
  po_reactions :: "reaction_summary list"
  po_top_comments :: "post_comment list"
  po_created_at :: str

record story =
  sy_id :: str
  sy_kind :: media_kind
  sy_url :: str
  sy_hls_url :: "str option"
  sy_duration_ms :: "int option"
  sy_viewed :: bool
  sy_created_at :: str
  sy_expires_at :: str

record story_group =
  sg_user :: user_lite
  sg_stories :: "story list"
  sg_all_viewed :: bool

section \<open>Messages and notifications\<close>

record message_reaction =
  mr_emoji :: str
  mr_user_id :: str

record message =
  ms_id :: str
  ms_conversation_id :: str
  ms_sender :: user_lite
  ms_body :: "str option"
  ms_media :: "media_item option"
  ms_reply_to_id :: "str option"
  ms_reactions :: "message_reaction list"
  ms_created_at :: str

datatype conversation_kind = Dm | Group

record conversation =
  cv_id :: str
  cv_kind :: conversation_kind
  cv_members :: "user_lite list"
  cv_recent_messages :: "message list"
  cv_unread_count :: int
  cv_last_read_at :: "str option"
  cv_updated_at :: str

datatype notification_kind =
    MarketMatched | MarketSettled | OrderFilled | DmMessage | PostLiked | PostCommented
  | PostMention | PositionSwing | FollowingLargeEntry | Follow | FollowNew | FollowRequestKind

record notification_payload =
  np_actor :: "user_lite option"
  np_post_id :: "str option"
  np_market_id :: "str option"
  np_market_question :: "str option"
  np_conversation_id :: "str option"
  np_order_id :: "str option"
  np_text :: "str option"
  np_other :: "(str, json) omap"

record notification =
  nt_id :: str
  nt_kind :: notification_kind
  nt_payload :: notification_payload
  nt_read_at :: "str option"
  nt_created_at :: str

record follow_request =
  fr_id :: str
  fr_requester :: user_lite
  fr_created_at :: str

section \<open>Developer keys and wallet\<close>

datatype api_key_scope = ReadScope | TradeScope

record api_key =
  ak_id :: str
  ak_name :: str
  ak_scope :: api_key_scope
  ak_prefix :: str
  ak_created_at :: str
  ak_last_used_at :: "str option"

record api_key_created = api_key +
  ak_secret :: str

record wallet =
  wa_address :: str
  wa_balance :: str
  wa_decimals :: int
  wa_symbol :: str
  wa_order_nonce :: int

datatype wallet_activity_kind = Send | Receive | Escrow | Redeem | Fee | Deposit | Fill

record wallet_activity =
  wy_id :: str
  wy_kind :: wallet_activity_kind
  wy_amount :: str
  wy_counterparty :: "str option"
  wy_description :: "str option"
  wy_tx_hash :: "str option"
  wy_created_at :: str

datatype onramp_kind = Fiat | Crypto

record onramp_session =
  os_id :: str
  os_kind :: onramp_kind
  os_status :: str
  os_checkout_url :: "str option"
  os_deposit_address :: "str option"
  os_instructions :: "str option"

section \<open>Envelopes and frames\<close>

record page =
  pg_next_cursor :: "str option"

record posts_page = page + pg_posts :: "post list"
record comments_page = page + pg_comments :: "post_comment list"
record markets_page = page + pg_markets :: "market list"
record trades_page = page + pg_trades :: "trade list"
record messages_page = page + pg_messages :: "message list"
record notifications_page = page + pg_notifications :: "notification list"
record activity_page = page + pg_activity :: "wallet_activity list"

text \<open>
  A frame has a type, a channel and a payload; the union of \<open>types.ts\<close> is a datatype with the
  channel as first argument, and \<open>OtherFrame\<close> is its open last member.
\<close>

datatype ws_frame =
    MessageNew str message
  | TypingStart str str
  | TypingStop str str
  | ReadFrame str str str
  | BookFrame str order_book
  | TradeFrame str int int side
  | NotificationFrame str notification
  | OrderUpdate str order
  | MarketUpdate str str market_status "bool option"
  | OtherFrame str str json

fun frame_channel :: "ws_frame \<Rightarrow> str" where
  "frame_channel (MessageNew c _) = c"
| "frame_channel (TypingStart c _) = c"
| "frame_channel (TypingStop c _) = c"
| "frame_channel (ReadFrame c _ _) = c"
| "frame_channel (BookFrame c _) = c"
| "frame_channel (TradeFrame c _ _ _) = c"
| "frame_channel (NotificationFrame c _) = c"
| "frame_channel (OrderUpdate c _) = c"
| "frame_channel (MarketUpdate c _ _ _) = c"
| "frame_channel (OtherFrame c _ _) = c"

text \<open>The order of the \<open>SideNum\<close> constants, \<open>SIDE_YES = 0\<close> before \<open>SIDE_NO = 1\<close>.\<close>

fun side_num :: "side \<Rightarrow> nat" where
  "side_num Yes = 0"
| "side_num No = 1"

lemma side_num_inject [simp]: "side_num s = side_num t \<longleftrightarrow> s = t"
  by (cases s; cases t) auto

instantiation side :: linorder
begin

definition less_eq_side :: "side \<Rightarrow> side \<Rightarrow> bool" where
  "s \<le> t \<longleftrightarrow> side_num s \<le> side_num t"

definition less_side :: "side \<Rightarrow> side \<Rightarrow> bool" where
  "s < t \<longleftrightarrow> side_num s < side_num t"

instance
  by standard (auto simp: less_eq_side_def less_side_def)

end

end
