(* ===== verification/MobileTypes.thy ===== *)
theory MobileTypes
  imports WebTypes
begin

text \<open>
  The data transfer objects of the mobile client, \<open>mobile/lib/types.ts\<close>. The vocabulary unions
  coincide with those of the web client and are synonyms of them; the interfaces differ in their
  fields and are records (or one mutual datatype where they refer to each other) of their own,
  with the prefix \<open>m\<close> on their field names. The pagination helpers \<open>pageItems\<close> and
  \<open>nextCursorOf\<close> and \<open>candidateSettlementQuery\<close> are at the end. Dollar amounts are JavaScript
  numbers (\<open>rat\<close>).
\<close>

section \<open>Vocabulary\<close>

type_synonym mob_market_state = market_status
type_synonym mob_order_state = order_status
type_synonym mob_side = side

definition MARKET_STATES :: "market_status list" where
  "MARKET_STATES = [PENDING, OPEN, MATCHED, SETTLING, SETTLED, VOID]"

definition ORDER_STATES :: "order_status list" where
  "ORDER_STATES = [SIGNING, QUEUED, RESTING, PARTIAL, FILLED, CANCELED]"

fun CREATOR_MICROCOPY :: "market_status \<Rightarrow> str option" where
  "CREATOR_MICROCOPY OPEN = Some (lit ''You're committed. Waiting for someone to take your bet.'')"
| "CREATOR_MICROCOPY MATCHED = Some (lit ''Your bet was taken.'')"
| "CREATOR_MICROCOPY _ = None"

lemma MARKET_STATES_complete: "s \<in> set MARKET_STATES" "distinct MARKET_STATES"
  by (cases s) (simp_all add: MARKET_STATES_def)

lemma ORDER_STATES_complete: "s \<in> set ORDER_STATES" "distinct ORDER_STATES"
  by (cases s) (simp_all add: ORDER_STATES_def)

section \<open>Users\<close>

datatype trades_visibility = PublicTrades | PrivateTrades

record mob_warp_viewing =
  mwv_id :: str
  mwv_username :: "str option"
  mwv_email :: "str option"

record mob_warp_info =
  mwi_active :: bool
  mwi_admin_email :: str
  mwi_viewing :: mob_warp_viewing

record mob_me =
  mme_id :: str
  mme_privy_did :: "str option"
  mme_wallet_address :: "str option"
  mme_username :: "str option"
  mme_display_name :: "str option"
  mme_bio :: "str option"
  mme_avatar_url :: "str option"
  mme_links :: "str list option"
  mme_is_private :: bool
  mme_trades_visibility :: trades_visibility
  mme_notification_prefs :: "(str, bool) omap option"
  mme_server_signing_enabled :: "bool option"
  mme_onboarded :: "bool option"
  mme_is_admin :: "bool option"
  mme_warp :: "mob_warp_info option"

record mob_admin_user =
  mau_id :: str
  mau_username :: "str option"
  mau_email :: "str option"
  mau_avatar_url :: "str option"

record mob_user_brief =
  mub_id :: str
  mub_username :: str
  mub_display_name :: "str option"
  mub_avatar_url :: "str option"

record mob_mention =
  mmn_user_id :: str
  mmn_start :: int
  mmn_len :: int
  mmn_username :: str
  mmn_display_name :: "str option"
  mmn_avatar_url :: "str option"

record mob_user_profile =
  mup_id :: str
  mup_username :: str
  mup_display_name :: "str option"
  mup_bio :: "str option"
  mup_avatar_url :: "str option"
  mup_links :: "str list option"
  mup_is_private :: bool
  mup_trades_visibility :: "trades_visibility option"
  mup_post_count :: int
  mup_follower_count :: int
  mup_following_count :: int
  mup_is_following :: "bool option"
  mup_follow_requested :: "bool option"
  mup_follows_you :: "bool option"
  mup_is_me :: "bool option"
  mup_can_view :: "bool option"
  mup_can_view_trades :: "bool option"

section \<open>Media and markets\<close>

type_synonym mob_media_kind = media_kind

record media_variant =
  mv_width :: int
  mv_height :: int
  mv_url :: str
  mv_format :: str

record mob_media =
  mmd_id :: str
  mmd_kind :: media_kind
  mmd_url :: str
  mmd_hls_url :: "str option"
  mmd_variants :: "media_variant list option"
  mmd_poster_url :: "str option"
  mmd_width :: "int option"
  mmd_height :: "int option"
  mmd_duration_ms :: "int option"
  mmd_status :: "media_status option"

type_synonym mob_post_kind = post_kind

record mob_settlement =
  mst_question :: str
  mst_category :: "str option"
  mst_rule :: settlement_rule
  mst_sources :: "settlement_source list"

datatype mob_market = MobMarket
    (mmk_id: str)
    (mmk_chain_market_id: int)
    (mmk_creator: mob_user_profile)
    (mmk_title: "str option")
    (mmk_question: str)
    (mmk_settlement_query: str)
    (mmk_category: "str option")
    (mmk_rule: "settlement_rule option")
    (mmk_sources: "settlement_source list option")
    (mmk_settlement: "mob_settlement option")
    (mmk_status: market_status)
    (mmk_direction: "bool option")
    (mmk_yes_price_cents: "int option")
    (mmk_no_price_cents: "int option")
    (mmk_volume: rat)
    (mmk_expires_at: "str option")
    (mmk_resolved_fifty: "bool option")
    (mmk_created_at: str)
    (mmk_post_count: "int option")
    (mmk_comment_count: "int option")
    (mmk_my_position: "mob_position option")
and mob_position = MobPosition
    (mps_market_id: str)
    (mps_market: "mob_market option")
    (mps_side: side)
    (mps_shares: int)
    (mps_avg_price_cents: int)
    (mps_realized_pnl: rat)
    (mps_unrealized_pnl: "rat option")

type_synonym mob_book_level = book_level

record mob_order_book_summary =
  mob_market_id :: str
  mob_yes :: "book_level list"
  mob_no :: "book_level list"
  mob_last_trade_price_cents :: "int option"

record mob_order =
  mor_id :: str
  mor_market_id :: str
  mor_market :: "mob_market option"
  mor_user_id :: str
  mor_side :: side
  mor_price_cents :: int
  mor_shares :: int
  mor_filled_shares :: int
  mor_status :: order_status
  mor_affiliate_post_id :: "str option"
  mor_created_at :: str

record mob_trade =
  mtr_id :: str
  mtr_market_id :: str
  mtr_market_question :: str
  mtr_market_status :: market_status
  mtr_market_direction :: "bool option"
  mtr_side :: side
  mtr_price_cents :: int
  mtr_shares :: int
  mtr_fee :: rat
  mtr_pnl :: "rat option"
  mtr_created_at :: str

record mob_market_candidate =
  mmc_title :: str
  mmc_question :: str
  mmc_settlementQuery :: "str option"
  mmc_settlement_query :: "str option"
  mmc_suggestedCloseNote :: "str option"
  mmc_suggested_close_note :: "str option"
  mmc_category :: "str option"
  mmc_rule :: "settlement_rule option"
  mmc_sources :: "settlement_source list option"
  mmc_existing_market :: "mob_market option"

section \<open>Posts, stories, comments\<close>

datatype mob_comment = MobComment
    (mco_id: str)
    (mco_post_id: "str option")
    (mco_market_id: "str option")
    (mco_author: mob_user_profile)
    (mco_parent_id: "str option")
    (mco_body: str)
    (mco_mentions: "mob_mention list option")
    (mco_like_count: int)
    (mco_liked_by_me: bool)
    (mco_reactions: "(str \<times> int) list option")
    (mco_replies: "mob_comment list option")
    (mco_reply_count: "int option")
    (mco_created_at: str)

record mob_post =
  mpo_id :: str
  mpo_affiliate_id :: "int option"
  mpo_author :: mob_user_profile
  mpo_kind :: post_kind
  mpo_caption :: "str option"
  mpo_mentions :: "mob_mention list option"
  mpo_media :: "mob_media list"
  mpo_market :: "mob_market option"
  mpo_author_position :: "mob_position option"
  mpo_author_pnl :: "rat option"
  mpo_like_count :: int
  mpo_comment_count :: int
  mpo_liked_by_me :: bool
  mpo_reactions :: "(str, int) omap option"
  mpo_my_reaction :: "str option"
  mpo_top_comments :: "mob_comment list option"
  mpo_created_at :: str

record mob_story =
  msy_id :: str
  msy_author :: mob_user_profile
  msy_media :: mob_media
  msy_created_at :: str
  msy_expires_at :: str
  msy_viewed :: bool

record mob_story_group =
  msg_user :: mob_user_profile
  msg_stories :: "mob_story list"
  msg_all_viewed :: bool

section \<open>Messages\<close>

record mob_conversation_member = mob_user_profile +
  mcm_last_read_at :: "str option"

record mob_shared_post =
  msp_id :: str
  msp_author :: mob_user_brief
  msp_caption :: "str option"
  msp_thumb_url :: "str option"
  msp_market_title :: "str option"

record mob_message =
  mms_id :: str
  mms_conversation_id :: str
  mms_sender :: mob_user_profile
  mms_body :: "str option"
  mms_media :: "mob_media option"
  mms_reply_to_id :: "str option"
  mms_post_id :: "str option"
  mms_shared_post :: "mob_shared_post option"
  mms_reactions :: "(str, int) omap option"
  mms_my_reaction :: "str option"
  mms_created_at :: str
  mms_read_by :: "str list option"
  mms_pending :: "bool option"

record mob_conversation =
  mcv_id :: str
  mcv_kind :: conversation_kind
  mcv_members :: "mob_conversation_member list"
  mcv_recent_messages :: "mob_message list"
  mcv_unread_count :: int
  mcv_updated_at :: str

section \<open>Notifications, wallet\<close>

text \<open>The kind of a notification is an open union ending in \<open>string\<close>: the text itself.\<close>

type_synonym mob_notification_kind = str

record app_notification_payload =
  anp_title :: "str option"
  anp_body :: "str option"
  anp_user :: "mob_user_profile option"
  anp_post_id :: "str option"
  anp_market_id :: "str option"
  anp_conversation_id :: "str option"
  anp_order_id :: "str option"
  anp_follow_request_id :: "str option"
  anp_other :: "(str, json) omap"

record app_notification =
  an_id :: str
  an_kind :: mob_notification_kind
  an_payload :: app_notification_payload
  an_read_at :: "str option"
  an_created_at :: str

record mob_follow_request =
  mfr_id :: str
  mfr_user :: mob_user_profile
  mfr_created_at :: str

record wallet_info =
  wl_address :: str
  wl_balance :: rat
  wl_token_symbol :: str
  wl_token_address :: str
  wl_token_decimals :: int
  wl_token_name :: "str option"
  wl_token_version :: "str option"
  wl_order_nonce :: int

record wallet_activity_item =
  wai_id :: str
  wai_kind :: str
  wai_amount :: rat
  wai_counterparty :: "str option"
  wai_description :: "str option"
  wai_tx_hash :: "str option"
  wai_created_at :: str

record mob_onramp_session =
  mos_id :: str
  mos_kind :: onramp_kind
  mos_status :: str
  mos_checkout_url :: "str option"
  mos_deposit_address :: "str option"
  mos_deposit_chain :: "str option"
  mos_deposit_note :: "str option"

section \<open>Pagination helpers\<close>

text \<open>
  A page envelope is a JSON object. \<open>pageItems\<close> takes the array under \<open>items\<close>, else the first
  array among its values in key order, else nothing.
\<close>

fun json_array :: "json option \<Rightarrow> json list option" where
  "json_array (Some (JArr xs)) = Some xs"
| "json_array _ = None"

fun first_array :: "(str \<times> json) list \<Rightarrow> json list" where
  "first_array [] = []"
| "first_array ((k, v) # kvs) = (case json_array (Some v) of Some xs \<Rightarrow> xs | None \<Rightarrow> first_array kvs)"

definition pageItems :: "(str, json) omap option \<Rightarrow> json list" where
  "pageItems p = (case p of
     None \<Rightarrow> []
   | Some kvs \<Rightarrow> (case json_array (om_get kvs (lit ''items'')) of
       Some xs \<Rightarrow> xs
     | None \<Rightarrow> first_array kvs))"

text \<open>The value of a cursor key: absent or \<open>null\<close> falls through \<open>??\<close>.\<close>

definition nextCursorOf :: "(str, json) omap \<Rightarrow> str option" where
  "nextCursorOf p = alt_opt (json_str (om_get p (lit ''next_cursor''))) (json_str (om_get p (lit ''nextCursor'')))"

definition candidateSettlementQuery :: "mob_market_candidate \<Rightarrow> str" where
  "candidateSettlementQuery c = or_else (alt_opt (mmc_settlement_query c) (mmc_settlementQuery c)) []"

lemma json_array_Some [simp]: "json_array v = Some xs \<longleftrightarrow> v = Some (JArr xs)"
  by (cases v rule: json_array.cases) auto

lemma first_array_single:
  "(k, JArr xs) \<in> set kvs \<Longrightarrow> (\<And>k' ys. (k', JArr ys) \<in> set kvs \<Longrightarrow> ys = xs) \<Longrightarrow> first_array kvs = xs"
proof (induction kvs rule: first_array.induct)
  case (2 k' v kvs)
  show ?case
  proof (cases "json_array (Some v)")
    case None
    then have "(k, JArr xs) \<in> set kvs" using "2.prems"(1) by auto
    then have "first_array kvs = xs" using None "2.prems"(2) by (intro "2.IH") auto
    with None show ?thesis by simp
  next
    case (Some ys)
    then have "ys = xs" using "2.prems"(2) [of k' ys] by simp
    with Some show ?thesis by simp
  qed
qed simp

text \<open>An envelope whose only array is its payload yields that payload, whatever its key.\<close>

lemma pageItems_single:
  assumes "(k, JArr xs) \<in> set kvs" "\<And>k' ys. (k', JArr ys) \<in> set kvs \<Longrightarrow> ys = xs"
  shows "pageItems (Some kvs) = xs"
proof (cases "json_array (om_get kvs (lit ''items''))")
  case None
  with first_array_single [OF assms] show ?thesis by (simp add: pageItems_def)
next
  case (Some ys)
  then have "om_get kvs (lit ''items'') = Some (JArr ys)" by simp
  with assms(2) show ?thesis by (auto simp: pageItems_def dest: om_get_mem)
qed

end
