(* ===== verification/Signing.thy ===== *)
theory Signing
  imports MobileTypes
begin

text \<open>
  The money side of order signing on both clients: the fee arithmetic of \<open>web/lib/signing.ts\<close> and
  \<open>mobile/lib/signing.ts\<close>, and the two functions of the markets contract
  (\<open>contracts/src/markets/ThassaMarkets.sol\<close>) that price the same order on chain.

  Amounts in token units are \<open>bigint\<close>s (\<open>int\<close>) whose division truncates (\<open>big_div\<close>). The web
  client reads the number of decimals from its configuration, the mobile client takes it as a
  parameter; both are the argument \<open>D\<close>.

  The locale \<open>authorized_order\<close> is the contract between a client and the market: what escrow and
  taker fee cost at a price, and the sum the maker authorizes. Its client lemma is that no
  sequence of fills at the limit price or better can cost more than was authorized. It is
  interpreted on the web and on the mobile arithmetic, which choose the sum differently.
\<close>

section \<open>Fee arithmetic\<close>

definition big_div :: "int \<Rightarrow> int \<Rightarrow> int" where
  "big_div a b = sgn a * sgn b * (\<bar>a\<bar> div \<bar>b\<bar>)"

definition UNIT :: "nat \<Rightarrow> int" where
  "UNIT D = 10 ^ D"

definition ceilDiv :: "int \<Rightarrow> int \<Rightarrow> int" where
  "ceilDiv a b = big_div (a + b - 1) b"

subsection \<open>The web client\<close>

definition web_takerFeeUnits :: "nat \<Rightarrow> int \<Rightarrow> int \<Rightarrow> int" where
  "web_takerFeeUnits D shares priceCents =
     (let p = priceCents in ceilDiv (700 * shares * p * (100 - p) * UNIT D) (10 ^ 8))"

definition web_escrowUnits :: "nat \<Rightarrow> int \<Rightarrow> int \<Rightarrow> int" where
  "web_escrowUnits D shares priceCents = big_div (shares * priceCents * UNIT D) 100"

definition web_maxCostUnits :: "nat \<Rightarrow> int \<Rightarrow> int \<Rightarrow> int" where
  "web_maxCostUnits D shares priceCents =
     web_escrowUnits D shares priceCents + web_takerFeeUnits D shares priceCents"

definition web_dollarsToUnits :: "nat \<Rightarrow> rat \<Rightarrow> int" where
  "web_dollarsToUnits D dollars = math_round (num_mul dollars 100) * big_div (UNIT D) 100"

text \<open>\<open>unitsToDollars\<close> takes a \<open>bigint\<close> or its decimal text, where the empty text counts as zero;
  text that is no integer throws (\<open>None\<close>).\<close>

definition web_unitsToDollars :: "nat \<Rightarrow> str + int \<Rightarrow> rat option" where
  "web_unitsToDollars D units =
     (case (case units of Inl t \<Rightarrow> parse_bigint (if t = [] then lit ''0'' else t) | Inr u \<Rightarrow> Some u) of
        None \<Rightarrow> None
      | Some u \<Rightarrow> Some (num_div (num_of_big u) (num_of_big (UNIT D))))"

definition web_sharesForSpend :: "rat \<Rightarrow> int \<Rightarrow> int" where
  "web_sharesForSpend dollars priceCents =
     (if priceCents \<le> 0 then 0
      else math_floor (num_div (num_mul dollars 100) (num_of_big priceCents)))"

subsection \<open>The mobile client\<close>

definition mob_dollarsToUnits :: "nat \<Rightarrow> rat \<Rightarrow> int" where
  "mob_dollarsToUnits D dollars = math_round (num_mul dollars (num_of_big (UNIT D)))"

definition mob_unitsToDollars :: "nat \<Rightarrow> int \<Rightarrow> rat" where
  "mob_unitsToDollars D units = num_div (num_of_big units) (num_of_big (UNIT D))"

definition TAKER_FEE_BPS :: int where
  "TAKER_FEE_BPS = 700"

definition mob_takerFeeUnits :: "nat \<Rightarrow> int \<Rightarrow> int \<Rightarrow> int" where
  "mob_takerFeeUnits D shares priceCents =
     (let s = shares; p = priceCents in ceilDiv (TAKER_FEE_BPS * s * p * (100 - p) * UNIT D) (10 ^ 8))"

definition mob_takerFeeDollars :: "nat \<Rightarrow> int \<Rightarrow> int \<Rightarrow> rat" where
  "mob_takerFeeDollars D shares priceCents = mob_unitsToDollars D (mob_takerFeeUnits D shares priceCents)"

definition mob_escrowUnits :: "nat \<Rightarrow> int \<Rightarrow> int \<Rightarrow> int" where
  "mob_escrowUnits D shares priceCents = big_div (shares * priceCents * UNIT D) 100"

definition mob_maxCostUnits :: "nat \<Rightarrow> int \<Rightarrow> int \<Rightarrow> int" where
  "mob_maxCostUnits D shares priceCents =
     (let worstFeePrice = min priceCents 50
      in mob_escrowUnits D shares priceCents + mob_takerFeeUnits D shares worstFeePrice)"

text \<open>\<open>payToWin\<close>: the pair of \<open>pay\<close> and \<open>win\<close>, in dollars.\<close>

definition mob_payToWin :: "int \<Rightarrow> int \<Rightarrow> rat \<times> rat" where
  "mob_payToWin shares priceCents =
     (num_div (num_mul (num_of_big shares) (num_of_big priceCents)) 100, num_of_big shares)"

definition mob_sharesForSpend :: "rat \<Rightarrow> int \<Rightarrow> int" where
  "mob_sharesForSpend spendDollars priceCents =
     (if priceCents \<le> 0 then 0
      else math_floor (num_div (num_mul spendDollars 100) (num_of_big priceCents)))"

subsection \<open>The markets contract\<close>

text \<open>
  \<open>_takerFee\<close> and \<open>_worstCaseCost\<close>, over the contract's \<open>_unit = 10 ** decimals\<close> and \<open>_cent = _unit / 100\<close>. The
  fee in basis points is storage of the contract: it starts at 700, and its owner can change it. The arguments are
  unsigned and the products stay far below \<open>2 ^ 256\<close> (\<open>uint80\<close> shares), so the arithmetic is that of \<open>int\<close>.
\<close>

definition takerFeeBps0 :: int where "takerFeeBps0 = 700"

definition sol_takerFee :: "int \<Rightarrow> nat \<Rightarrow> int \<Rightarrow> int \<Rightarrow> int" where
  "sol_takerFee takerFeeBps D shares execPrice =
     (let numerator = takerFeeBps * shares * execPrice * (100 - execPrice) * UNIT D
      in (numerator + 10000 * 100 * 100 - 1) div (10000 * 100 * 100))"

definition sol_worstCaseCost :: "int \<Rightarrow> nat \<Rightarrow> int \<Rightarrow> int \<Rightarrow> int" where
  "sol_worstCaseCost takerFeeBps D price shares =
     price * shares * (UNIT D div 100) + sol_takerFee takerFeeBps D shares price + shares"

text \<open>The \<open>MAX_COST\<close> guard of \<open>placeOrdersBatch\<close>, for an authorization of exactly \<open>maxCost\<close>.\<close>

definition sol_max_cost_ok :: "int \<Rightarrow> nat \<Rightarrow> int \<Rightarrow> int \<Rightarrow> int \<Rightarrow> int \<Rightarrow> bool" where
  "sol_max_cost_ok takerFeeBps D price shares maxCost authValue =
     (\<not> (sol_worstCaseCost takerFeeBps D price shares > maxCost \<or> authValue > maxCost))"

section \<open>Lemmas\<close>

lemma UNIT_pos [simp]: "0 < UNIT D"
  by (simp add: UNIT_def)

lemma UNIT_cent: "2 \<le> D \<Longrightarrow> UNIT D = 100 * (UNIT D div 100)"
proof -
  assume "2 \<le> D"
  then obtain k where "D = 2 + k" using le_Suc_ex by blast
  then show ?thesis by (simp add: UNIT_def power_add)
qed

lemma big_div_nonneg: "0 \<le> a \<Longrightarrow> 0 < b \<Longrightarrow> big_div a b = a div b"
  by (cases "a = 0") (auto simp: big_div_def)

lemma ceilDiv_nonneg: "0 \<le> a \<Longrightarrow> 0 < b \<Longrightarrow> ceilDiv a b = (a + b - 1) div b"
  unfolding ceilDiv_def by (rule big_div_nonneg) simp_all

lemma int_div_less_iff:
  fixes m n q :: int
  assumes "0 < q"
  shows "m div q < n \<longleftrightarrow> m < n * q"
proof
  assume "m div q < n"
  then have "(m div q + 1) * q \<le> n * q"
    using assms by (intro mult_right_mono) auto
  moreover have "m < (m div q + 1) * q"
    using pos_mod_bound [OF assms, of m] div_mult_mod_eq [of m q] unfolding distrib_right by linarith
  ultimately show "m < n * q" by linarith
next
  assume "m < n * q"
  show "m div q < n"
  proof (rule ccontr)
    assume "\<not> m div q < n"
    then have "n * q \<le> m div q * q" using assms by (intro mult_right_mono) auto
    moreover have "m div q * q \<le> m"
      using assms pos_mod_sign [of q m] div_mult_mod_eq [of m q] by linarith
    ultimately show False using \<open>m < n * q\<close> by linarith
  qed
qed

lemma ceilDiv_le_iff:
  assumes "0 \<le> a" "0 < b"
  shows "ceilDiv a b \<le> c \<longleftrightarrow> a \<le> c * b"
proof -
  have "ceilDiv a b \<le> c \<longleftrightarrow> (a + b - 1) div b < c + 1"
    using assms by (simp add: ceilDiv_nonneg)
  also have "\<dots> \<longleftrightarrow> a + b - 1 < (c + 1) * b"
    using assms(2) by (rule int_div_less_iff)
  also have "\<dots> \<longleftrightarrow> a \<le> c * b"
    by (auto simp: distrib_right)
  finally show ?thesis .
qed

lemma ceilDiv_upper: "0 \<le> a \<Longrightarrow> 0 < b \<Longrightarrow> a \<le> ceilDiv a b * b"
  using ceilDiv_le_iff by blast

lemma ceilDiv_mult: "0 \<le> a \<Longrightarrow> 0 < b \<Longrightarrow> ceilDiv (a * b) b = a"
  by (intro antisym) (use ceilDiv_le_iff [of "a * b" b a] ceilDiv_upper [of "a * b" b] in auto)

lemma ceilDiv_0 [simp]: "0 < b \<Longrightarrow> ceilDiv 0 b = 0"
  using ceilDiv_mult [of 0 b] by simp

lemma ceilDiv_pos: "0 \<le> a \<Longrightarrow> 0 < b \<Longrightarrow> 0 \<le> ceilDiv a b"
  by (simp add: ceilDiv_nonneg pos_imp_zdiv_nonneg_iff)

lemma escrow_exact:
  assumes "2 \<le> D" "0 \<le> s" "0 \<le> p"
  shows "web_escrowUnits D s p = s * p * (UNIT D div 100)"
proof -
  have "0 \<le> s * p * UNIT D" using assms by (simp add: mult_nonneg_nonneg less_imp_le)
  then have "web_escrowUnits D s p = (s * p * UNIT D) div 100"
    by (simp add: web_escrowUnits_def big_div_nonneg)
  also have "s * p * UNIT D = (s * p * (UNIT D div 100)) * 100"
    using UNIT_cent [OF assms(1)] by simp
  finally show ?thesis by simp
qed

lemma mob_eq_web:
  "mob_escrowUnits D s p = web_escrowUnits D s p"
  "mob_takerFeeUnits D s p = web_takerFeeUnits D s p"
  "mob_sharesForSpend d p = web_sharesForSpend d p"
  by (simp_all add: mob_escrowUnits_def web_escrowUnits_def mob_takerFeeUnits_def
      web_takerFeeUnits_def TAKER_FEE_BPS_def mob_sharesForSpend_def web_sharesForSpend_def)

lemma fee_numerator_nonneg: "0 \<le> s \<Longrightarrow> 0 \<le> p \<Longrightarrow> p \<le> 100 \<Longrightarrow> 0 \<le> 700 * s * p * (100 - p) * UNIT D"
  by (simp add: mult_nonneg_nonneg less_imp_le)

lemma fee_eq_contract:
  "0 \<le> s \<Longrightarrow> 0 \<le> p \<Longrightarrow> p \<le> 100 \<Longrightarrow> web_takerFeeUnits D s p = sol_takerFee takerFeeBps0 D s p"
  by (simp add: web_takerFeeUnits_def sol_takerFee_def takerFeeBps0_def ceilDiv_nonneg fee_numerator_nonneg)

text \<open>With at least six decimals the fee is a whole number of units, so nothing is rounded.\<close>

lemma fee_exact:
  assumes "0 \<le> s" "0 \<le> p" "p \<le> 100"
  shows "web_takerFeeUnits (6 + k) s p = 7 * s * p * (100 - p) * 10 ^ k"
proof -
  have n: "700 * s * p * (100 - p) * UNIT (6 + k) = (7 * s * p * (100 - p) * 10 ^ k) * 10 ^ 8"
    by (simp add: UNIT_def power_add)
  have "0 \<le> 7 * s * p * (100 - p) * 10 ^ k"
    using assms by (simp add: mult_nonneg_nonneg)
  then show ?thesis
    unfolding web_takerFeeUnits_def Let_def n by (rule ceilDiv_mult) simp
qed

lemma escrow_six: "0 \<le> s \<Longrightarrow> 0 \<le> p \<Longrightarrow> web_escrowUnits (6 + k) s p = s * p * (10000 * 10 ^ k)"
  using escrow_exact [of "6 + k" s p] by (simp add: UNIT_def power_add)

section \<open>What an authorization covers\<close>

text \<open>A fill executes some shares at some price; its cost is the escrow plus the fee at that price.\<close>

type_synonym fill = "int \<times> int"

definition fill_shares :: "fill list \<Rightarrow> int" where
  "fill_shares fs = sum_list (map fst fs)"

definition fills_at_limit :: "int \<Rightarrow> fill list \<Rightarrow> bool" where
  "fills_at_limit p fs \<longleftrightarrow> list_all (\<lambda>(n, q). 0 \<le> n \<and> 1 \<le> q \<and> q \<le> p) fs"

definition fills_cost :: "(int \<Rightarrow> int \<Rightarrow> int) \<Rightarrow> (int \<Rightarrow> int \<Rightarrow> int) \<Rightarrow> fill list \<Rightarrow> int" where
  "fills_cost escrow fee fs = sum_list (map (\<lambda>(n, q). escrow n q + fee n q) fs)"

locale authorized_order =
  fixes escrow :: "int \<Rightarrow> int \<Rightarrow> int"
    and fee :: "int \<Rightarrow> int \<Rightarrow> int"
    and maxCost :: "int \<Rightarrow> int \<Rightarrow> int"
  assumes covers: "0 \<le> n \<Longrightarrow> 1 \<le> q \<Longrightarrow> q \<le> p \<Longrightarrow> p \<le> 99 \<Longrightarrow> escrow n q + fee n q \<le> maxCost n p"
    and additive: "0 \<le> m \<Longrightarrow> 0 \<le> n \<Longrightarrow> 1 \<le> p \<Longrightarrow> p \<le> 99 \<Longrightarrow> maxCost m p + maxCost n p \<le> maxCost (m + n) p"
    and nonneg: "0 \<le> n \<Longrightarrow> 1 \<le> p \<Longrightarrow> p \<le> 99 \<Longrightarrow> 0 \<le> maxCost n p"
begin

lemma maxCost_mono:
  assumes "0 \<le> m" "m \<le> n" "1 \<le> p" "p \<le> 99"
  shows "maxCost m p \<le> maxCost n p"
  using additive [of m "n - m" p] nonneg [of "n - m" p] assms by simp

lemma fills_covered_sum:
  assumes "fills_at_limit p fs" "1 \<le> p" "p \<le> 99"
  shows "0 \<le> fill_shares fs \<and> fills_cost escrow fee fs \<le> maxCost (fill_shares fs) p"
  using assms(1)
proof (induction fs)
  case Nil
  show ?case using nonneg [of 0 p] assms by (simp add: fill_shares_def fills_cost_def)
next
  case (Cons f fs)
  obtain n q where f: "f = (n, q)" by fastforce
  from Cons f have h: "0 \<le> n" "1 \<le> q" "q \<le> p" "0 \<le> fill_shares fs"
      "fills_cost escrow fee fs \<le> maxCost (fill_shares fs) p"
    by (simp_all add: fills_at_limit_def)
  have "escrow n q + fee n q + fills_cost escrow fee fs \<le> maxCost n p + maxCost (fill_shares fs) p"
    using covers [OF h(1-3) assms(3)] h(5) by linarith
  also have "\<dots> \<le> maxCost (n + fill_shares fs) p"
    using h assms by (intro additive)
  finally show ?case
    using f h by (simp add: fill_shares_def fills_cost_def)
qed

lemma fills_covered:
  assumes "fills_at_limit p fs" "1 \<le> p" "p \<le> 99" "fill_shares fs \<le> n"
  shows "fills_cost escrow fee fs \<le> maxCost n p"
  using fills_covered_sum [OF assms(1-3)] maxCost_mono [OF _ assms(4,2,3)] by force

end

text \<open>The per-share cost rises with the price, and the fee rises up to 50 cents.\<close>

lemma fee_rises:
  fixes q r :: int
  assumes "q \<le> r" "r \<le> 50"
  shows "q * (100 - q) \<le> r * (100 - r)"
proof -
  have "r * (100 - r) - q * (100 - q) = (r - q) * (100 - r - q)"
    by (simp add: algebra_simps)
  moreover have "0 \<le> (r - q) * (100 - r - q)"
    using assms by (intro mult_nonneg_nonneg) auto
  ultimately show ?thesis by linarith
qed

lemma fee_peak: "(q :: int) * (100 - q) \<le> 50 * (100 - 50)"
proof -
  have "0 \<le> (q - 50) * (q - 50)" by simp
  then show ?thesis by (simp add: algebra_simps)
qed

lemma unit_cost_rises:
  fixes q p :: int
  assumes "1 \<le> q" "q \<le> p" "p \<le> 99"
  shows "q * 10000 + 7 * (q * (100 - q)) \<le> p * 10000 + 7 * (p * (100 - p))"
proof -
  have "p * 10000 + 7 * (p * (100 - p)) - (q * 10000 + 7 * (q * (100 - q)))
      = (p - q) * (10700 - 7 * (p + q))"
    by (simp add: algebra_simps)
  moreover have "0 \<le> (p - q) * (10700 - 7 * (p + q))"
    using assms by (intro mult_nonneg_nonneg) auto
  ultimately show ?thesis by linarith
qed

lemma web_maxCost_six:
  assumes "0 \<le> s" "1 \<le> p" "p \<le> 99"
  shows "web_maxCostUnits (6 + k) s p = s * 10 ^ k * (p * 10000 + 7 * (p * (100 - p)))"
  using assms by (simp add: web_maxCostUnits_def escrow_six fee_exact) (simp add: algebra_simps)

lemma mob_maxCost_six:
  assumes "0 \<le> s" "1 \<le> p" "p \<le> 99"
  shows "mob_maxCostUnits (6 + k) s p = s * 10 ^ k * (p * 10000 + 7 * (min p 50 * (100 - min p 50)))"
  using assms by (simp add: mob_maxCostUnits_def mob_eq_web escrow_six fee_exact) (simp add: algebra_simps)

lemma cost_six:
  assumes "0 \<le> s" "1 \<le> q" "q \<le> 99"
  shows "web_escrowUnits (6 + k) s q + web_takerFeeUnits (6 + k) s q
    = s * 10 ^ k * (q * 10000 + 7 * (q * (100 - q)))"
  using web_maxCost_six [OF assms] by (simp add: web_maxCostUnits_def)

interpretation web_auth: authorized_order
  "web_escrowUnits (6 + k)" "web_takerFeeUnits (6 + k)" "web_maxCostUnits (6 + k)" for k
proof
  fix n q p :: int
  assume h: "0 \<le> n" "1 \<le> q" "q \<le> p" "p \<le> 99"
  then show "web_escrowUnits (6 + k) n q + web_takerFeeUnits (6 + k) n q \<le> web_maxCostUnits (6 + k) n p"
    using unit_cost_rises [of q p] by (simp add: cost_six web_maxCost_six mult_left_mono)
qed (simp_all add: web_maxCost_six flip: distrib_right)

interpretation mob_auth: authorized_order
  "mob_escrowUnits (6 + k)" "mob_takerFeeUnits (6 + k)" "mob_maxCostUnits (6 + k)" for k
proof
  fix n q p :: int
  assume h: "0 \<le> n" "1 \<le> q" "q \<le> p" "p \<le> 99"
  have "q * (100 - q) \<le> min p 50 * (100 - min p 50)"
    using fee_rises [of q p] fee_peak [of q] h by (cases "p \<le> 50") (auto simp: min_def)
  then show "mob_escrowUnits (6 + k) n q + mob_takerFeeUnits (6 + k) n q \<le> mob_maxCostUnits (6 + k) n p"
    using h by (simp add: mob_eq_web cost_six mob_maxCost_six mult_left_mono)
qed (simp_all add: mob_maxCost_six flip: distrib_right)

section \<open>Spending a dollar amount\<close>

lemma num_mul_100: "0 \<le> d \<Longrightarrow> d < 2 ^ 46 \<Longrightarrow> num_mul (of_int d) 100 = of_int (d * 100)"
  using fl_exact [of "d * 100"] by (simp add: num_mul_def)

lemma sharesForSpend_whole:
  assumes "0 \<le> d" "d < 2 ^ 46" "1 \<le> p" "p \<le> 99"
  shows "web_sharesForSpend (of_int d) p = (d * 100) div p"
  using assms floor_div_exact [of "d * 100" p]
  by (simp add: web_sharesForSpend_def num_mul_100 num_div_def math_floor_def)

lemma dollarsToUnits_whole:
  assumes "0 \<le> d" "d < 2 ^ 46" "2 \<le> D"
  shows "web_dollarsToUnits D (of_int d) = d * 100 * (UNIT D div 100)"
proof -
  have "math_round (of_int (d * 100) :: rat) = d * 100"
    unfolding math_round_def by (rule floor_unique) auto
  moreover have "big_div (UNIT D) 100 = UNIT D div 100"
    by (intro big_div_nonneg) (simp_all add: less_imp_le)
  ultimately show ?thesis
    using assms by (simp add: web_dollarsToUnits_def num_mul_100)
qed

lemma cent_pos: "2 \<le> D \<Longrightarrow> 0 < UNIT D div 100"
  using UNIT_cent [of D] UNIT_pos [of D] by linarith

section \<open>Properties\<close>

text \<open>
  C5: Whatever way the market fills a web order, in any number of fills at the limit price or
  better and for at most the order's shares, escrow and taker fees together stay within the
  \<open>maxCost\<close> the user signed (payment tokens with at least the six decimals of the default).
\<close>

theorem web_maxCost_covers_fills:
  assumes "fills_at_limit p fs" "1 \<le> p" "p \<le> 99" "fill_shares fs \<le> n"
  shows "fills_cost (web_escrowUnits (6 + k)) (web_takerFeeUnits (6 + k)) fs \<le> web_maxCostUnits (6 + k) n p"
  using assms by (rule web_auth.fills_covered)

theorem web_maxCost_covers_fills_witness:
  "fills_cost (web_escrowUnits 6) (web_takerFeeUnits 6) [(2, 40), (3, 55)] \<le> web_maxCostUnits 6 5 60"
  using web_maxCost_covers_fills [of 60 "[(2, 40), (3, 55)]" 5 0]
  by (simp add: fills_at_limit_def fill_shares_def)

text \<open>
  The mobile client authorizes the escrow at the limit plus the fee at \<open>min(limit, 50)\<close>; that
  sum, too, covers every sequence of fills at the limit or better.
\<close>

theorem mob_maxCost_covers_fills:
  assumes "fills_at_limit p fs" "1 \<le> p" "p \<le> 99" "fill_shares fs \<le> n"
  shows "fills_cost (mob_escrowUnits (6 + k)) (mob_takerFeeUnits (6 + k)) fs \<le> mob_maxCostUnits (6 + k) n p"
  using assms by (rule mob_auth.fills_covered)

theorem mob_maxCost_covers_fills_witness:
  "fills_cost (mob_escrowUnits 6) (mob_takerFeeUnits 6) [(2, 50), (3, 70)] \<le> mob_maxCostUnits 6 5 70"
  using mob_maxCost_covers_fills [of 70 "[(2, 50), (3, 70)]" 5 0]
  by (simp add: fills_at_limit_def fill_shares_def)

text \<open>
  C3: The markets contract demands \<open>shares\<close> base units of headroom on top of escrow and fee
  (\<open>_worstCaseCost\<close>), which the web client's \<open>maxCost\<close> does not contain: it is short by exactly
  the number of shares, so \<open>placeOrdersBatch\<close> rejects every web order with \<open>MAX_COST\<close>, at the taker fee of 700
  basis points the contract starts with.
\<close>

theorem web_order_rejected_by_contract:
  assumes "2 \<le> D" "1 \<le> s" "1 \<le> p" "p \<le> 99"
  shows "sol_worstCaseCost takerFeeBps0 D p s = web_maxCostUnits D s p + s
    \<and> \<not> sol_max_cost_ok takerFeeBps0 D p s (web_maxCostUnits D s p) (web_maxCostUnits D s p)"
proof -
  have "sol_worstCaseCost takerFeeBps0 D p s = web_maxCostUnits D s p + s"
    using assms
    by (simp add: sol_worstCaseCost_def web_maxCostUnits_def escrow_exact fee_eq_contract mult.commute)
  with assms show ?thesis by (simp add: sol_max_cost_ok_def)
qed

theorem web_order_rejected_by_contract_witness:
  "\<not> sol_max_cost_ok takerFeeBps0 6 40 25 (web_maxCostUnits 6 25 40) (web_maxCostUnits 6 25 40)"
  using web_order_rejected_by_contract [of 6 25 40] by simp



text \<open>
  For a whole-dollar amount (the quick-amount buttons) \<open>sharesForSpend\<close> is the largest number
  of shares whose escrow the amount pays for: floating point neither overspends nor loses a share.
\<close>

theorem sharesForSpend_largest_affordable:
  assumes "0 \<le> d" "d < 2 ^ 46" "1 \<le> p" "p \<le> 99" "2 \<le> D"
  shows "web_escrowUnits D (web_sharesForSpend (of_int d) p) p \<le> web_dollarsToUnits D (of_int d)
    \<and> web_dollarsToUnits D (of_int d) < web_escrowUnits D (web_sharesForSpend (of_int d) p + 1) p"
proof -
  let ?s = "(d * 100) div p" and ?c = "UNIT D div 100"
  have s0: "0 \<le> ?s" using assms by (simp add: pos_imp_zdiv_nonneg_iff)
  have le: "?s * p \<le> d * 100"
    using assms pos_mod_sign [of p "d * 100"] div_mult_mod_eq [of "d * 100" p] by linarith
  have "d * 100 < (?s + 1) * p"
    using int_div_less_iff [of p "d * 100" "?s + 1"] assms by simp
  then have "d * 100 * ?c < (?s + 1) * p * ?c"
    using cent_pos [OF assms(5)] by (intro mult_strict_right_mono)
  moreover have "?s * p * ?c \<le> d * 100 * ?c"
    using le cent_pos [OF assms(5)] by (intro mult_right_mono) auto
  ultimately show ?thesis
    using assms s0 by (simp add: sharesForSpend_whole dollarsToUnits_whole escrow_exact)
qed

theorem sharesForSpend_largest_affordable_witness:
  "web_escrowUnits 6 (web_sharesForSpend (of_int 10) 37) 37 \<le> web_dollarsToUnits 6 (of_int 10)"
  using sharesForSpend_largest_affordable [of 10 37 6] by simp

text \<open>
  For an amount in cents it may lose one: 29 cents at a price of 29 cents buys no share,
  because \<open>0.29 * 100\<close> is \<open>28.999999999999996\<close>, although the amount pays the escrow of one.
\<close>

theorem sharesForSpend_loses_a_share:
  "web_sharesForSpend (fl (29 / 100)) 29 = 0
   \<and> web_escrowUnits 6 1 29 \<le> web_dollarsToUnits 6 (fl (29 / 100))"
  by code_simp

end
