(* ===== verification/Config.thy ===== *)
theory Config
  imports Signing
begin

text \<open>
  \<open>web/lib/config.ts\<close> and the constants at the head of \<open>mobile/lib/signing.ts\<close>: the environment
  with its defaults. The environment is a partial function; \<open>||\<close> also replaces an empty value.
\<close>

type_synonym process_env = "str \<Rightarrow> str option"

definition env_or :: "process_env \<Rightarrow> string \<Rightarrow> string \<Rightarrow> str" where
  "env_or env name d = (case non_empty (env (lit name)) of None \<Rightarrow> lit d | Some t \<Rightarrow> t)"

text \<open>\<open>Number(text)\<close> on integer and decimal-fraction literals; \<open>None\<close> is \<open>NaN\<close>.\<close>

definition num_of_text :: "str \<Rightarrow> rat option" where
  "num_of_text raw = (case parse_bigint raw of
     Some i \<Rightarrow> Some (fl (of_int i))
   | None \<Rightarrow> (let t = js_trim raw; d = takeWhile is_digit t; r = dropWhile is_digit t
       in if r \<noteq> [] \<and> hd r = 46 \<and> list_all is_digit (tl r) \<and> (d \<noteq> [] \<or> tl r \<noteq> []) then parse_float t else None))"

definition env_number :: "process_env \<Rightarrow> string \<Rightarrow> int \<Rightarrow> rat option" where
  "env_number env name d = (case non_empty (env (lit name)) of None \<Rightarrow> Some (of_int d) | Some t \<Rightarrow> num_of_text t)"

definition zero_address :: string where
  "zero_address = ''0x0000000000000000000000000000000000000000''"

record web_config =
  cf_api_url :: str
  cf_ws_url :: str
  cf_docs_url :: str
  cf_privy_app_id :: str
  cf_chain_id :: "rat option"
  cf_markets_contract :: str
  cf_payment_token :: str
  cf_token_name :: str
  cf_token_version :: str
  cf_token_decimals :: "rat option"

text \<open>\<open>url.replace(/^http/, "ws")\<close>.\<close>

definition http_to_ws :: "str \<Rightarrow> str" where
  "http_to_ws u = (if starts_with u (lit ''http'') then lit ''ws'' @ drop 4 u else u)"

definition web_api_url :: "process_env \<Rightarrow> str" where
  "web_api_url env = env_or env ''NEXT_PUBLIC_API_URL'' ''http://localhost:8080''"

definition web_ws_url :: "process_env \<Rightarrow> str" where
  "web_ws_url env = (case non_empty (env (lit ''NEXT_PUBLIC_WS_URL'')) of
     Some t \<Rightarrow> t | None \<Rightarrow> http_to_ws (web_api_url env) @ lit ''/v1/ws'')"

definition load_web_config :: "process_env \<Rightarrow> web_config" where
  "load_web_config env = \<lparr>
     cf_api_url = web_api_url env,
     cf_ws_url = web_ws_url env,
     cf_docs_url = env_or env ''NEXT_PUBLIC_DOCS_URL'' ''http://localhost:3001/docs'',
     cf_privy_app_id = env_or env ''NEXT_PUBLIC_PRIVY_APP_ID'' ''clthassa000000000000000000'',
     cf_chain_id = env_number env ''NEXT_PUBLIC_CHAIN_ID'' 31337,
     cf_markets_contract = env_or env ''NEXT_PUBLIC_MARKETS_CONTRACT_ADDRESS'' zero_address,
     cf_payment_token = env_or env ''NEXT_PUBLIC_PAYMENT_TOKEN_ADDRESS'' zero_address,
     cf_token_name = env_or env ''NEXT_PUBLIC_PAYMENT_TOKEN_NAME'' ''MockUSD'',
     cf_token_version = env_or env ''NEXT_PUBLIC_PAYMENT_TOKEN_VERSION'' ''1'',
     cf_token_decimals = env_number env ''NEXT_PUBLIC_PAYMENT_TOKEN_DECIMALS'' 6 \<rparr>"

text \<open>\<open>BigInt(PAYMENT_TOKEN_DECIMALS)\<close> throws on anything but an integer, and \<open>10n ** n\<close> on a negative one.\<close>

definition token_decimals :: "rat option \<Rightarrow> nat option" where
  "token_decimals d = (case d of None \<Rightarrow> None
     | Some x \<Rightarrow> if of_int \<lfloor>x\<rfloor> = x \<and> 0 \<le> x then Some (nat \<lfloor>x\<rfloor>) else None)"

record mob_config =
  mcf_chain_id :: "rat option"
  mcf_markets_contract :: str
  mcf_payment_token :: str
  mcf_token_decimals :: "rat option"

definition load_mob_config :: "process_env \<Rightarrow> mob_config" where
  "load_mob_config env = \<lparr>
     mcf_chain_id = env_number env ''EXPO_PUBLIC_CHAIN_ID'' 31337,
     mcf_markets_contract = env_or env ''EXPO_PUBLIC_MARKETS_CONTRACT_ADDRESS'' zero_address,
     mcf_payment_token = env_or env ''EXPO_PUBLIC_PAYMENT_TOKEN_ADDRESS'' zero_address,
     mcf_token_decimals = env_number env ''EXPO_PUBLIC_PAYMENT_TOKEN_DECIMALS'' 6 \<rparr>"

lemma default_config:
  "load_web_config (\<lambda>_. None) = \<lparr>
     cf_api_url = lit ''http://localhost:8080'',
     cf_ws_url = lit ''ws://localhost:8080/v1/ws'',
     cf_docs_url = lit ''http://localhost:3001/docs'',
     cf_privy_app_id = lit ''clthassa000000000000000000'',
     cf_chain_id = Some 31337,
     cf_markets_contract = lit zero_address,
     cf_payment_token = lit zero_address,
     cf_token_name = lit ''MockUSD'',
     cf_token_version = lit ''1'',
     cf_token_decimals = Some 6 \<rparr>"
  by (simp add: load_web_config_def env_or_def env_number_def non_empty_def web_ws_url_def
      web_api_url_def http_to_ws_def lit_Cons)

lemma default_decimals: "token_decimals (Some 6) = Some 6"
  by (simp add: token_decimals_def)

end
