(* ===== verification/TypedData.thy ===== *)
theory TypedData
  imports Config
begin

text \<open>
  EIP-712 typed data, the order digest and the wire formats of both clients: the second half of
  \<open>web/lib/signing.ts\<close> and of \<open>mobile/lib/signing.ts\<close>.

  \<open>hashTypedData\<close> (viem) and the wallet provider are not under \<open>src/\<close>; they are the arguments
  \<open>hash\<close> and \<open>sign\<close>. A \<open>bytes32\<close> or a signature is the hexadecimal text the code handles.
\<close>

section \<open>Typed data\<close>

datatype td_value = TdInt int | TdText str

type_synonym td_fields = "(str \<times> str) list"

record td_domain =
  dm_name :: str
  dm_version :: str
  dm_chainId :: "rat option"
  dm_verifyingContract :: str

record typed_data =
  td_domain :: td_domain
  td_types :: "(str \<times> td_fields) list"
  td_primaryType :: str
  td_message :: "(str \<times> td_value) list"

definition typed_fields :: "(string \<times> string) list \<Rightarrow> td_fields" where
  "typed_fields = map (\<lambda>(n, t). (lit n, lit t))"

definition ORDER_TYPES :: "(str \<times> td_fields) list" where
  "ORDER_TYPES = [(lit ''Order'', typed_fields
     [(''marketId'', ''uint256''), (''side'', ''uint8''), (''price'', ''uint8''),
      (''shares'', ''uint80''), (''maxCost'', ''uint256''), (''affiliatePostId'', ''uint256''),
      (''expiry'', ''uint64''), (''nonce'', ''uint256''), (''maker'', ''address'')])]"

definition RECEIVE_WITH_AUTHORIZATION_TYPES :: "(str \<times> td_fields) list" where
  "RECEIVE_WITH_AUTHORIZATION_TYPES = [(lit ''ReceiveWithAuthorization'', typed_fields
     [(''from'', ''address''), (''to'', ''address''), (''value'', ''uint256''),
      (''validAfter'', ''uint256''), (''validBefore'', ''uint256''), (''nonce'', ''bytes32'')])]"

definition TRANSFER_WITH_AUTHORIZATION_TYPES :: "(str \<times> td_fields) list" where
  "TRANSFER_WITH_AUTHORIZATION_TYPES = [(lit ''TransferWithAuthorization'', typed_fields
     [(''from'', ''address''), (''to'', ''address''), (''value'', ''uint256''),
      (''validAfter'', ''uint256''), (''validBefore'', ''uint256''), (''nonce'', ''bytes32'')])]"

definition marketsDomain :: "web_config \<Rightarrow> td_domain" where
  "marketsDomain c = \<lparr> dm_name = lit ''ThassaMarkets'', dm_version = lit ''1'',
     dm_chainId = cf_chain_id c, dm_verifyingContract = cf_markets_contract c \<rparr>"

definition paymentTokenDomain :: "web_config \<Rightarrow> td_domain" where
  "paymentTokenDomain c = \<lparr> dm_name = cf_token_name c, dm_version = cf_token_version c,
     dm_chainId = cf_chain_id c, dm_verifyingContract = cf_payment_token c \<rparr>"

section \<open>Orders and authorizations of the web client\<close>

record order_fields =
  of_marketId :: int
  of_side :: nat
  of_price :: int
  of_shares :: int
  of_maxCost :: int
  of_affiliatePostId :: int
  of_expiry :: int
  of_nonce :: int
  of_maker :: str

definition order_message :: "order_fields \<Rightarrow> (str \<times> td_value) list" where
  "order_message o1 =
     [(lit ''marketId'', TdInt (of_marketId o1)), (lit ''side'', TdInt (int (of_side o1))),
      (lit ''price'', TdInt (of_price o1)), (lit ''shares'', TdInt (of_shares o1)),
      (lit ''maxCost'', TdInt (of_maxCost o1)),
      (lit ''affiliatePostId'', TdInt (of_affiliatePostId o1)),
      (lit ''expiry'', TdInt (of_expiry o1)), (lit ''nonce'', TdInt (of_nonce o1)),
      (lit ''maker'', TdText (of_maker o1))]"

definition buildOrderTypedData :: "web_config \<Rightarrow> order_fields \<Rightarrow> typed_data" where
  "buildOrderTypedData c order1 = \<lparr> td_domain = marketsDomain c, td_types = ORDER_TYPES,
     td_primaryType = lit ''Order'', td_message = order_message order1 \<rparr>"

definition orderDigest :: "(typed_data \<Rightarrow> str) \<Rightarrow> web_config \<Rightarrow> order_fields \<Rightarrow> str" where
  "orderDigest hash c order1 = hash \<lparr> td_domain = marketsDomain c, td_types = ORDER_TYPES,
     td_primaryType = lit ''Order'', td_message = order_message order1 \<rparr>"

text \<open>\<open>b.toString(16).padStart(2, "0")\<close>.\<close>

definition hex_unit :: "nat \<Rightarrow> code_unit" where
  "hex_unit d = (if d < 10 then of_nat (48 + d) else of_nat (87 + d))"

definition byte_to_hex :: "8 word \<Rightarrow> str" where
  "byte_to_hex b = (let n = unat b
     in pad_start 2 48 (if n < 16 then [hex_unit n] else [hex_unit (n div 16), hex_unit (n mod 16)]))"

text \<open>The random source delivers the 32 bytes.\<close>

definition web_randomAuthNonce :: "8 word list \<Rightarrow> str" where
  "web_randomAuthNonce bytes = lit ''0x'' @ concat (map byte_to_hex bytes)"

record auth3009_fields =
  ah_from :: str
  ah_to :: str
  ah_value :: int
  ah_validAfter :: int
  ah_validBefore :: int
  ah_nonce :: str

definition auth_message :: "auth3009_fields \<Rightarrow> (str \<times> td_value) list" where
  "auth_message a =
     [(lit ''from'', TdText (ah_from a)), (lit ''to'', TdText (ah_to a)),
      (lit ''value'', TdInt (ah_value a)), (lit ''validAfter'', TdInt (ah_validAfter a)),
      (lit ''validBefore'', TdInt (ah_validBefore a)), (lit ''nonce'', TdText (ah_nonce a))]"

definition buildReceiveAuthTypedData :: "web_config \<Rightarrow> auth3009_fields \<Rightarrow> typed_data" where
  "buildReceiveAuthTypedData c auth = \<lparr> td_domain = paymentTokenDomain c,
     td_types = RECEIVE_WITH_AUTHORIZATION_TYPES,
     td_primaryType = lit ''ReceiveWithAuthorization'', td_message = auth_message auth \<rparr>"

definition buildTransferAuthTypedData :: "web_config \<Rightarrow> auth3009_fields \<Rightarrow> typed_data" where
  "buildTransferAuthTypedData c auth = \<lparr> td_domain = paymentTokenDomain c,
     td_types = TRANSFER_WITH_AUTHORIZATION_TYPES,
     td_primaryType = lit ''TransferWithAuthorization'', td_message = auth_message auth \<rparr>"

record order_wire =
  ow_market_id :: str
  ow_side :: nat
  ow_price :: int
  ow_shares :: str
  ow_max_cost :: str
  ow_affiliate_post_id :: str
  ow_expiry :: rat
  ow_nonce :: str
  ow_maker :: str
  ow_digest :: str

definition serializeOrder :: "(typed_data \<Rightarrow> str) \<Rightarrow> web_config \<Rightarrow> order_fields \<Rightarrow> order_wire" where
  "serializeOrder hash c o1 = \<lparr>
     ow_market_id = show_int (of_marketId o1),
     ow_side = of_side o1,
     ow_price = of_price o1,
     ow_shares = show_int (of_shares o1),
     ow_max_cost = show_int (of_maxCost o1),
     ow_affiliate_post_id = show_int (of_affiliatePostId o1),
     ow_expiry = num_of_big (of_expiry o1),
     ow_nonce = show_int (of_nonce o1),
     ow_maker = of_maker o1,
     ow_digest = orderDigest hash c o1 \<rparr>"

record auth_wire =
  aw_from :: str
  aw_to :: str
  aw_value :: str
  aw_valid_after :: rat
  aw_valid_before :: rat
  aw_auth_nonce :: str
  aw_signature :: str

definition serializeAuth :: "auth3009_fields \<Rightarrow> str \<Rightarrow> auth_wire" where
  "serializeAuth a sig = \<lparr>
     aw_from = ah_from a,
     aw_to = ah_to a,
     aw_value = show_int (ah_value a),
     aw_valid_after = num_of_big (ah_validAfter a),
     aw_valid_before = num_of_big (ah_validBefore a),
     aw_auth_nonce = ah_nonce a,
     aw_signature = sig \<rparr>"

section \<open>Orders and authorizations of the mobile client\<close>

text \<open>Values that may be a \<open>bigint\<close> (or integral number) or its text. \<open>toString\<close> keeps the text.\<close>

datatype big_or_text = Big int | BigText str

fun bt_to_string :: "big_or_text \<Rightarrow> str" where
  "bt_to_string (Big i) = show_int i"
| "bt_to_string (BigText t) = t"

fun bt_to_big :: "big_or_text \<Rightarrow> int option" where
  "bt_to_big (Big i) = Some i"
| "bt_to_big (BigText t) = parse_bigint t"

record order_params =
  op_chainMarketId :: int
  op_side :: side
  op_priceCents :: int
  op_shares :: int
  op_maxCost :: int
  op_affiliatePostId :: "big_or_text option"
  op_expiry :: "int option"
  op_nonce :: big_or_text

record built_message =
  bm_marketId :: str
  bm_side :: nat
  bm_price :: int
  bm_shares :: str
  bm_maxCost :: str
  bm_affiliatePostId :: str
  bm_expiry :: int
  bm_nonce :: str
  bm_maker :: str

record built_order =
  bo_message :: built_message
  bo_digest :: str

definition mob_ORDER_DOMAIN :: "mob_config \<Rightarrow> td_domain" where
  "mob_ORDER_DOMAIN c = \<lparr> dm_name = lit ''ThassaMarkets'', dm_version = lit ''1'',
     dm_chainId = mcf_chain_id c, dm_verifyingContract = mcf_markets_contract c \<rparr>"

definition mob_ORDER_TYPES :: "(str \<times> td_fields) list" where
  "mob_ORDER_TYPES = [(lit ''Order'', typed_fields
     [(''marketId'', ''uint256''), (''side'', ''uint8''), (''price'', ''uint8''),
      (''shares'', ''uint80''), (''maxCost'', ''uint256''), (''affiliatePostId'', ''uint256''),
      (''expiry'', ''uint64''), (''nonce'', ''uint256''), (''maker'', ''address'')])]"

text \<open>
  \<open>buildOrder\<close>: \<open>None\<close> is the exception of a \<open>BigInt\<close> conversion. The clock is the argument
  \<open>now_ms\<close>; \<open>Math.floor(Date.now() / 1000)\<close> is exact on milliseconds.
\<close>

definition mob_buildOrder :: "(typed_data \<Rightarrow> str) \<Rightarrow> mob_config \<Rightarrow> int \<Rightarrow> str \<Rightarrow> order_params \<Rightarrow> built_order option" where
  "mob_buildOrder hash c now_ms maker o1 =
     (let expiry = or_else (op_expiry o1) (now_ms div 1000 + 600);
          affiliate = or_else (op_affiliatePostId o1) (Big 0);
          side = (if op_side o1 = Yes then 0 else 1)
      in case (bt_to_big affiliate, bt_to_big (op_nonce o1)) of
           (Some aff, Some nonce) \<Rightarrow>
             (let digest = hash \<lparr> td_domain = mob_ORDER_DOMAIN c, td_types = mob_ORDER_TYPES,
                    td_primaryType = lit ''Order'',
                    td_message =
                     [(lit ''marketId'', TdInt (op_chainMarketId o1)),
                      (lit ''side'', TdInt (int side)),
                      (lit ''price'', TdInt (op_priceCents o1)),
                      (lit ''shares'', TdInt (op_shares o1)),
                      (lit ''maxCost'', TdInt (op_maxCost o1)),
                      (lit ''affiliatePostId'', TdInt aff),
                      (lit ''expiry'', TdInt expiry),
                      (lit ''nonce'', TdInt nonce),
                      (lit ''maker'', TdText maker)] \<rparr>
              in Some \<lparr> bo_message = \<lparr>
                     bm_marketId = show_int (op_chainMarketId o1),
                     bm_side = side,
                     bm_price = op_priceCents o1,
                     bm_shares = show_int (op_shares o1),
                     bm_maxCost = show_int (op_maxCost o1),
                     bm_affiliatePostId = bt_to_string affiliate,
                     bm_expiry = expiry,
                     bm_nonce = bt_to_string (op_nonce o1),
                     bm_maker = maker \<rparr>,
                   bo_digest = digest \<rparr>)
         | _ \<Rightarrow> None)"

definition mob_RECEIVE_AUTH_TYPES :: "(str \<times> td_fields) list" where
  "mob_RECEIVE_AUTH_TYPES =
     [(lit ''EIP712Domain'', typed_fields
        [(''name'', ''string''), (''version'', ''string''), (''chainId'', ''uint256''),
         (''verifyingContract'', ''address'')]),
      (lit ''ReceiveWithAuthorization'', typed_fields
        [(''from'', ''address''), (''to'', ''address''), (''value'', ''uint256''),
         (''validAfter'', ''uint256''), (''validBefore'', ''uint256''), (''nonce'', ''bytes32'')])]"

record auth3009_payload =
  ap_from :: str
  ap_to :: str
  ap_value :: rat
  ap_valid_after :: int
  ap_valid_before :: int
  ap_nonce :: str
  ap_v :: "int option"
  ap_r :: str
  ap_s :: str

definition mob_randomBytes32 :: "8 word list \<Rightarrow> str" where
  "mob_randomBytes32 bytes = lit ''0x'' @ concat (map byte_to_hex bytes)"

record token_opts =
  to_name :: "str option"
  to_version :: "str option"
  to_address :: "str option"

record receive_auth_opts =
  ro_to :: "str option"
  ro_value :: int
  ro_validSeconds :: "int option"
  ro_token :: "token_opts option"
  ro_nonce :: "str option"

text \<open>\<open>parseInt(t, 16)\<close>: white space, a sign and a \<open>0x\<close> prefix are skipped; \<open>None\<close> is \<open>NaN\<close>.\<close>

definition parse_int16 :: "str \<Rightarrow> int option" where
  "parse_int16 t =
     (let u = dropWhile is_space t;
          neg = (u \<noteq> [] \<and> hd u = 45);
          u1 = (if u \<noteq> [] \<and> (hd u = 45 \<or> hd u = 43) then tl u else u);
          u2 = (if starts_with u1 (lit ''0x'') \<or> starts_with u1 (lit ''0X'') then drop 2 u1 else u1);
          d = takeWhile (radix_digit 16) u2
      in if d = [] then None
         else Some (if neg then - int (radix_value 16 d) else int (radix_value 16 d)))"

text \<open>
  \<open>signReceiveAuthorization\<close>: builds the authorization, asks the wallet (\<open>sign address data\<close>, an
  error or the signature text) and splits the 65 bytes into \<open>v\<close>, \<open>r\<close>, \<open>s\<close>.
\<close>

definition receive_auth_typed_data :: "mob_config \<Rightarrow> int \<Rightarrow> str \<Rightarrow> str \<Rightarrow> receive_auth_opts \<Rightarrow> typed_data" where
  "receive_auth_typed_data c now_ms address authNonce opts = \<lparr>
     td_domain = \<lparr>
       dm_name = or_else (Option.bind (ro_token opts) to_name) (lit ''MockUSD''),
       dm_version = or_else (Option.bind (ro_token opts) to_version) (lit ''1''),
       dm_chainId = mcf_chain_id c,
       dm_verifyingContract = or_else (Option.bind (ro_token opts) to_address) (mcf_payment_token c) \<rparr>,
     td_types = mob_RECEIVE_AUTH_TYPES,
     td_primaryType = lit ''ReceiveWithAuthorization'',
     td_message =
      [(lit ''from'', TdText address),
       (lit ''to'', TdText (or_else (ro_to opts) (mcf_markets_contract c))),
       (lit ''value'', TdText (show_int (ro_value opts))),
       (lit ''validAfter'', TdInt 0),
       (lit ''validBefore'', TdInt (now_ms div 1000 + or_else (ro_validSeconds opts) 3600)),
       (lit ''nonce'', TdText authNonce)] \<rparr>"

definition split_signature :: "str \<Rightarrow> str \<times> str \<times> int option" where
  "split_signature sig =
     (let r = lit ''0x'' @ js_slice sig 2 66;
          s = lit ''0x'' @ js_slice sig 66 130;
          v = parse_int16 (js_slice sig 130 132)
      in (r, s, case v of None \<Rightarrow> None | Some x \<Rightarrow> if x < 27 then Some (x + 27) else Some x))"

definition mob_signReceiveAuthorization ::
  "mob_config \<Rightarrow> int \<Rightarrow> 8 word list \<Rightarrow> (str \<Rightarrow> typed_data \<Rightarrow> 'e + str) \<Rightarrow> str \<Rightarrow> receive_auth_opts
   \<Rightarrow> 'e + auth3009_payload" where
  "mob_signReceiveAuthorization c now_ms bytes sign address opts =
     (let authNonce = or_else (ro_nonce opts) (mob_randomBytes32 bytes)
      in case sign address (receive_auth_typed_data c now_ms address authNonce opts) of
           Inl e \<Rightarrow> Inl e
         | Inr sig \<Rightarrow> (case split_signature sig of (r, s, v) \<Rightarrow> Inr \<lparr>
               ap_from = address,
               ap_to = or_else (ro_to opts) (mcf_markets_contract c),
               ap_value = num_of_big (ro_value opts),
               ap_valid_after = 0,
               ap_valid_before = now_ms div 1000 + or_else (ro_validSeconds opts) 3600,
               ap_nonce = authNonce,
               ap_v = v, ap_r = r, ap_s = s \<rparr>))"

section \<open>Lemmas\<close>

lemma length_byte_to_hex [simp]: "length (byte_to_hex b) = 2"
  by (simp add: byte_to_hex_def pad_start_def Let_def)

lemma hex_unit_digit:
  assumes "d < 16"
  shows "unit_digit (hex_unit d) = Some d"
proof -
  have "list_all (\<lambda>d. unit_digit (hex_unit d) = Some d) [0..<16]"
    by code_simp
  with assms show ?thesis by (simp add: list_all_iff)
qed

lemma byte_nibbles: "unat (b :: 8 word) div 16 < 16" "unat b mod 16 < 16" "unat b < 256"
proof -
  have "unat b < 2 ^ LENGTH(8)" by (rule unsigned_less)
  then show "unat b div 16 < 16" "unat b mod 16 < 16" "unat b < 256" by auto
qed

lemma byte_to_hex_pair:
  obtains x y where "byte_to_hex b = [x, y]"
  using length_byte_to_hex [of b] by (cases "byte_to_hex b"; cases "tl (byte_to_hex b)") auto

lemma byte_to_hex_value:
  "map unit_digit (byte_to_hex b) = [Some (unat b div 16), Some (unat b mod 16)]"
proof -
  have "unit_digit 48 = Some 0" by (simp add: unit_digit_def)
  then show ?thesis
    using byte_nibbles [of b] by (auto simp: byte_to_hex_def pad_start_def Let_def hex_unit_digit)
qed

lemma byte_to_hex_inject [simp]: "byte_to_hex a = byte_to_hex b \<longleftrightarrow> a = b"
proof
  assume "byte_to_hex a = byte_to_hex b"
  then have "unat a div 16 = unat b div 16" "unat a mod 16 = unat b mod 16"
    using byte_to_hex_value [of a] byte_to_hex_value [of b] by simp_all
  then have "unat a = unat b" by (metis div_mult_mod_eq)
  then show "a = b" by (simp add: word_unat_eq_iff)
qed simp

lemma length_hex_bytes: "length (concat (map byte_to_hex bs)) = 2 * length bs"
  by (induction bs) auto

lemma hex_bytes_inject: "concat (map byte_to_hex as) = concat (map byte_to_hex bs) \<Longrightarrow> as = bs"
proof (induction as arbitrary: bs)
  case Nil
  then show ?case by (cases bs) (auto simp flip: length_0_conv)
next
  case (Cons a as)
  then obtain b bs' where bs: "bs = b # bs'"
    by (cases bs) (auto simp flip: length_0_conv)
  with Cons.prems have "byte_to_hex a = byte_to_hex b \<and> concat (map byte_to_hex as) = concat (map byte_to_hex bs')"
    by (simp add: append_eq_append_conv)
  with Cons.IH bs show ?case by simp
qed

lemma hex_bytes_digits: "list_all (radix_digit 16) (concat (map byte_to_hex bs))"
proof (induction bs)
  case (Cons b bs)
  have "\<forall>c \<in> set (byte_to_hex b). radix_digit 16 c"
  proof
    fix c assume "c \<in> set (byte_to_hex b)"
    then have "unit_digit c \<in> set (map unit_digit (byte_to_hex b))" by simp
    then show "radix_digit 16 c"
      using byte_nibbles [of b] by (auto simp: byte_to_hex_value radix_digit_def)
  qed
  with Cons show ?case by (auto simp: list_all_iff)
qed simp

lemma byte_to_hex_parse:
  "takeWhile (radix_digit 16) (byte_to_hex b) = byte_to_hex b" "radix_value 16 (byte_to_hex b) = unat b"
proof -
  show "takeWhile (radix_digit 16) (byte_to_hex b) = byte_to_hex b"
    using hex_bytes_digits [of "[b]"] by (simp add: takeWhile_eq_all_conv list_all_iff)
  obtain x y where b: "byte_to_hex b = [x, y]"
    by (rule byte_to_hex_pair)
  with byte_to_hex_value [of b] have "unit_digit x = Some (unat b div 16)" "unit_digit y = Some (unat b mod 16)"
    by simp_all
  then show "radix_value 16 (byte_to_hex b) = unat b"
    by (simp add: b radix_value_def)
qed

lemma unit_digit_range: "unit_digit c = Some d \<Longrightarrow> 48 \<le> c \<and> c \<le> 122"
  by (auto simp: unit_digit_def split: if_splits intro: order.trans [of c 57 122] order.trans [of c 90 122]
      order.trans [of 48 97 c] order.trans [of 48 65 c])

lemma not_space_between: "48 \<le> c \<Longrightarrow> c \<le> 122 \<Longrightarrow> \<not> is_space c"
  by (auto simp: is_space_def dest: order.trans [of 8192 c])

lemma hex_head_plain:
  assumes "unit_digit c = Some d" "d < 16"
  shows "\<not> is_space c" "c \<noteq> 45" "c \<noteq> 43" "c \<noteq> 120" "c \<noteq> 88"
proof -
  have "c \<noteq> 120" "c \<noteq> 88" using assms by (auto simp: unit_digit_def)
  then show "\<not> is_space c" "c \<noteq> 45" "c \<noteq> 43" "c \<noteq> 120" "c \<noteq> 88"
    using unit_digit_range [OF assms(1)] not_space_between [of c] by auto
qed

lemma parse_int16_byte: "parse_int16 (byte_to_hex b) = Some (uint b)"
proof -
  obtain x y where b: "byte_to_hex b = [x, y]"
    by (rule byte_to_hex_pair)
  with byte_to_hex_value [of b] have d: "unit_digit x = Some (unat b div 16)" "unit_digit y = Some (unat b mod 16)"
    by simp_all
  note x = hex_head_plain [OF d(1) byte_nibbles(1)] and y = hex_head_plain [OF d(2) byte_nibbles(2)]
  have "takeWhile (radix_digit 16) [x, y] = [x, y]" "radix_value 16 [x, y] = unat b"
    using byte_to_hex_parse [of b] by (simp_all only: b)
  then show ?thesis
    using x y by (simp add: b parse_int16_def lit_Cons)
qed

section \<open>Properties\<close>

text \<open>
  The wire form of a web order loses nothing: two orders with the same wire form are the same
  order (expiries within the exact range of a JavaScript number).
\<close>

theorem serializeOrder_injective:
  assumes "serializeOrder hash c o1 = serializeOrder hash c o2"
    and "\<bar>of_expiry o1\<bar> \<le> 2 ^ 53" "\<bar>of_expiry o2\<bar> \<le> 2 ^ 53"
  shows "o1 = o2"
  using assms by (cases o1; cases o2) (simp add: serializeOrder_def)

theorem serializeOrder_injective_witness:
  "let x = \<lparr> of_marketId = 7, of_side = 1, of_price = 40, of_shares = 25, of_maxCost = 11680000,
         of_affiliatePostId = 0, of_expiry = 1700086400, of_nonce = 3, of_maker = lit ''0xaa'' \<rparr>;
       y = x\<lparr>of_shares := 5 * 5, of_expiry := 1700000000 + 24 * 3600\<rparr>
   in serializeOrder (\<lambda>_. []) (load_web_config (\<lambda>_. None)) x = serializeOrder (\<lambda>_. []) (load_web_config (\<lambda>_. None)) y
     \<and> x = y"
proof -
  let ?x = "\<lparr> of_marketId = 7, of_side = 1, of_price = 40, of_shares = 25, of_maxCost = 11680000,
     of_affiliatePostId = 0, of_expiry = 1700086400, of_nonce = 3, of_maker = lit ''0xaa'' \<rparr>"
  let ?y = "?x\<lparr>of_shares := 5 * 5, of_expiry := 1700000000 + 24 * 3600\<rparr>"
  have e: "serializeOrder (\<lambda>_. []) (load_web_config (\<lambda>_. None)) ?x = serializeOrder (\<lambda>_. []) (load_web_config (\<lambda>_. None)) ?y"
    by simp
  then have "?x = ?y" by (rule serializeOrder_injective) simp_all
  with e show ?thesis by simp
qed

text \<open>
  C22: Web and mobile commit to the same digest for the same order: when the two configurations
  name the same chain and contract, the digest the mobile client computes is the web client's
  digest of the order with those fields, whatever the hash function.
\<close>

theorem same_digest_on_both_clients:
  assumes "mob_buildOrder hash mc now_ms maker op1 = Some bo"
    and "cf_chain_id wc = mcf_chain_id mc" "cf_markets_contract wc = mcf_markets_contract mc"
    and "bt_to_big (or_else (op_affiliatePostId op1) (Big 0)) = Some aff" "bt_to_big (op_nonce op1) = Some nonce"
  shows "bo_digest bo = orderDigest hash wc \<lparr> of_marketId = op_chainMarketId op1,
    of_side = side_num (op_side op1), of_price = op_priceCents op1, of_shares = op_shares op1,
    of_maxCost = op_maxCost op1, of_affiliatePostId = aff, of_expiry = bm_expiry (bo_message bo),
    of_nonce = nonce, of_maker = maker \<rparr>"
  using assms
  by (cases "op_side op1") (auto simp: mob_buildOrder_def orderDigest_def Let_def order_message_def
      mob_ORDER_DOMAIN_def marketsDomain_def mob_ORDER_TYPES_def ORDER_TYPES_def)

theorem same_digest_on_both_clients_witness:
  "\<exists>bo. mob_buildOrder (\<lambda>d. lit ''0x'' @ td_primaryType d) (load_mob_config (\<lambda>_. None)) 1700000000000 (lit ''0xa'')
      \<lparr> op_chainMarketId = 7, op_side = No, op_priceCents = 40, op_shares = 25, op_maxCost = 11680000,
        op_affiliatePostId = None, op_expiry = None, op_nonce = BigText (lit ''3'') \<rparr> = Some bo
    \<and> bo_digest bo = orderDigest (\<lambda>d. lit ''0x'' @ td_primaryType d) (load_web_config (\<lambda>_. None))
      \<lparr> of_marketId = 7, of_side = 1, of_price = 40, of_shares = 25, of_maxCost = 11680000,
        of_affiliatePostId = 0, of_expiry = bm_expiry (bo_message bo), of_nonce = 3, of_maker = lit ''0xa'' \<rparr>"
proof -
  let ?op = "\<lparr> op_chainMarketId = 7, op_side = No, op_priceCents = 40, op_shares = 25, op_maxCost = 11680000,
        op_affiliatePostId = None, op_expiry = None, op_nonce = BigText (lit ''3'') \<rparr>"
  let ?h = "\<lambda>d. lit ''0x'' @ td_primaryType d"
  have n: "bt_to_big (op_nonce ?op) = Some 3" by code_simp
  then obtain bo where bo: "mob_buildOrder ?h (load_mob_config (\<lambda>_. None)) 1700000000000 (lit ''0xa'') ?op = Some bo"
    by (simp add: mob_buildOrder_def Let_def)
  show ?thesis
    using bo same_digest_on_both_clients [OF bo, of "load_web_config (\<lambda>_. None)" 0 3] n
    by (simp add: load_web_config_def load_mob_config_def env_number_def env_or_def non_empty_def)
qed

text \<open>
  C23: Splitting a wallet signature is faithful: for the text \<open>0x\<close>, 32 bytes of \<open>r\<close>, 32 bytes of
  \<open>s\<close>, one byte of \<open>v\<close>, the payload carries exactly those \<open>r\<close> and \<open>s\<close>, and \<open>v\<close> normalised to at
  least 27.
\<close>

theorem split_signature_correct:
  assumes "length rb = 32" "length sb = 32"
  shows "split_signature (lit ''0x'' @ concat (map byte_to_hex rb) @ concat (map byte_to_hex sb) @ byte_to_hex v)
    = (lit ''0x'' @ concat (map byte_to_hex rb), lit ''0x'' @ concat (map byte_to_hex sb),
       Some (if uint v < 27 then uint v + 27 else uint v))"
proof -
  let ?r = "concat (map byte_to_hex rb)" and ?s = "concat (map byte_to_hex sb)"
  let ?t = "lit ''0x'' @ ?r @ ?s @ byte_to_hex v"
  have l: "length ?r = 64" "length ?s = 64" by (simp_all only: length_hex_bytes assms)
  then have n: "length ?t = 132" by simp
  have "js_slice ?t 2 66 = ?r" "js_slice ?t 66 130 = ?s" "js_slice ?t 130 132 = byte_to_hex v"
    using l by (simp_all add: js_slice_def slice_pos_def n)
  then show ?thesis
    by (simp add: split_signature_def parse_int16_byte)
qed

theorem split_signature_correct_witness:
  "split_signature (lit ''0x'' @ concat (map byte_to_hex (replicate 32 10)) @ concat (map byte_to_hex (replicate 32 11)) @ byte_to_hex 1)
    = (lit ''0x'' @ concat (map byte_to_hex (replicate 32 10)), lit ''0x'' @ concat (map byte_to_hex (replicate 32 11)), Some 28)"
  using split_signature_correct [of "replicate 32 10" "replicate 32 11" 1] by simp

text \<open>
  A random authorization nonce is a \<open>bytes32\<close> literal, \<open>0x\<close> and 64 hexadecimal digits for 32
  bytes, and different random bytes never give the same nonce.
\<close>

theorem randomAuthNonce_bytes32:
  "(length bs = 32 \<longrightarrow> length (web_randomAuthNonce bs) = 66)
   \<and> list_all (radix_digit 16) (drop 2 (web_randomAuthNonce bs))
   \<and> (web_randomAuthNonce bs = web_randomAuthNonce bs' \<longleftrightarrow> bs = bs')"
  using hex_bytes_inject by (auto simp: web_randomAuthNonce_def length_hex_bytes hex_bytes_digits)

theorem randomAuthNonce_bytes32_witness:
  "length (web_randomAuthNonce (replicate 32 255)) = 66"
  using randomAuthNonce_bytes32 [of "replicate 32 255" "[]"] by simp

end
