(* ===== verification/Http.thy ===== *)
theory Http
  imports Prelude
begin

text \<open>
  The vocabulary both API clients share: errors, methods, requests, what one \<open>fetch\<close> can come back
  with, and the contract of a request loop with a server that deduplicates on the
  \<open>Idempotency-Key\<close> header. The network is an oracle: a function from the number of the attempt
  and the request to an outcome.
\<close>

datatype js_error =
    ApiError int json
  | NetworkError
  | ErrorMsg str
  | Thrown

datatype http_method = GET | POST | PATCH | PUT | DELETE

record http_request =
  rq_method :: http_method
  rq_url :: str
  rq_headers :: "(string \<times> str) list"
  rq_body :: "json option"

text \<open>The text of a response: empty, a JSON text, or text on which \<open>JSON.parse\<close> throws.\<close>

datatype body_text = EmptyText | JsonText json | OtherText str

datatype fetch_outcome = FetchFails js_error | Response int body_text

type_synonym network = "nat \<Rightarrow> http_request \<Rightarrow> fetch_outcome"

definition res_ok :: "int \<Rightarrow> bool" where
  "res_ok status \<longleftrightarrow> 200 \<le> status \<and> status < 300"

text \<open>The \<open>error\<close> of a JSON body; the error envelope of the backend only carries text there.\<close>

definition body_error :: "json \<Rightarrow> str option" where
  "body_error body = json_str (json_field body (lit ''error''))"

definition header :: "string \<Rightarrow> http_request \<Rightarrow> str option" where
  "header name r = map_of (rq_headers r) name"

text \<open>Case-insensitive search for a literal, as the regular expressions of the error messages do.\<close>

fun contains :: "str \<Rightarrow> str \<Rightarrow> bool" where
  "contains [] p = starts_with [] p"
| "contains (c # t) p = (starts_with (c # t) p \<or> contains t p)"

definition contains_ci :: "str \<Rightarrow> string \<Rightarrow> bool" where
  "contains_ci t p = contains (to_lower t) (lit p)"

section \<open>Exactly-once effects\<close>

text \<open>
  The server applies a keyed mutation the first time it sees the key and answers repeats from its
  record; a mutation without a key is applied every time. The state is the list of keys seen, in
  front of the number of applications.
\<close>

fun dedup_server :: "str list \<times> nat \<Rightarrow> http_request \<Rightarrow> str list \<times> nat" where
  "dedup_server (seen, n) r =
     (if rq_method r = GET then (seen, n)
      else case header ''Idempotency-Key'' r of
             None \<Rightarrow> (seen, Suc n)
           | Some k \<Rightarrow> if k \<in> set seen then (seen, n) else (k # seen, Suc n))"

definition deliver :: "str list \<times> nat \<Rightarrow> http_request list \<Rightarrow> str list \<times> nat" where
  "deliver s rs = foldl dedup_server s rs"

lemma deliver_simps [simp]:
  "deliver s [] = s" "deliver s (r # rs) = deliver (dedup_server s r) rs"
  by (simp_all add: deliver_def)

definition same_keyed :: "http_method \<Rightarrow> str \<Rightarrow> http_request list \<Rightarrow> bool" where
  "same_keyed m k rs \<longleftrightarrow> (\<forall>r \<in> set rs. rq_method r = m \<and> header ''Idempotency-Key'' r = Some k)"

lemma same_keyed_Cons [simp]:
  "same_keyed m k (r # rs) \<longleftrightarrow> rq_method r = m \<and> header ''Idempotency-Key'' r = Some k \<and> same_keyed m k rs"
  by (auto simp: same_keyed_def)

lemma deliver_seen: "same_keyed m k rs \<Longrightarrow> k \<in> set seen \<Longrightarrow> deliver (seen, n) rs = (seen, n)"
  by (induction rs) simp_all

lemma deliver_once: "same_keyed m k rs \<Longrightarrow> snd (deliver (seen, n) rs) \<le> Suc n"
proof (induction rs)
  case (Cons r rs)
  then have "deliver (k # seen, Suc n) rs = (k # seen, Suc n)"
    by (intro deliver_seen [of m k]) simp_all
  with Cons show ?case by simp
qed simp

lemma deliver_reads: "\<forall>r \<in> set rs. rq_method r = GET \<Longrightarrow> deliver (seen, n) rs = (seen, n)"
  by (induction rs) simp_all

text \<open>
  A transport turns one logical call into the requests it sends, for any behaviour of the network.
  The law: every request of a mutating call carries that call's key.
\<close>

locale keyed_transport =
  fixes send :: "'call \<Rightarrow> network \<Rightarrow> http_request list"
    and valid :: "'call \<Rightarrow> bool"
    and call_method :: "'call \<Rightarrow> http_method"
    and call_key :: "'call \<Rightarrow> str"
    and max_requests :: nat
  assumes same_key: "valid c \<Longrightarrow> call_method c \<noteq> GET \<Longrightarrow> same_keyed (call_method c) (call_key c) (send c net)"
    and get_method: "call_method c = GET \<Longrightarrow> r \<in> set (send c net) \<Longrightarrow> rq_method r = GET"
    and bounded: "length (send c net) \<le> max_requests"
begin

lemma applied_at_most_once: "valid c \<Longrightarrow> snd (deliver (seen, n) (send c net)) \<le> Suc n"
  using deliver_reads [of "send c net" seen n] deliver_once [OF same_key, of c seen n net] get_method
  by (cases "call_method c = GET") auto

lemma repeat_is_free:
  "valid c \<Longrightarrow> call_method c \<noteq> GET \<Longrightarrow> call_key c \<in> set seen \<Longrightarrow> deliver (seen, n) (send c net) = (seen, n)"
  using same_key by (rule deliver_seen)

end

end
