(* ===== verification/WebApi.thy ===== *)
theory WebApi
  imports Http WebTypes
begin

text \<open>
  \<open>web/lib/api.ts\<close>: the \<open>Api\<close> class of the web client. A request carries the bearer token, the
  idempotency key of a mutation and the warp header; a mutation whose \<open>fetch\<close> fails is retried
  once with the very same request. The interpretation \<open>web_api\<close> shows that the loop keeps the
  transport contract of \<open>Http\<close>.
\<close>

definition READ_ONLY_WHILE_WARPED :: str where
  "READ_ONLY_WHILE_WARPED = lit ''read-only while warped''"

definition web_ApiError_message :: "int \<Rightarrow> json \<Rightarrow> str" where
  "web_ApiError_message status body = (case non_empty (body_error body) of
     Some t \<Rightarrow> t | None \<Rightarrow> lit ''request failed ('' @ show_int status @ lit '')'')"

definition web_errorMessage :: "js_error \<Rightarrow> str" where
  "web_errorMessage err = (case err of
     ApiError status body \<Rightarrow>
       if status = 401 then lit ''Please sign in again.''
       else if status = 429 then lit ''Slow down a little and try again in a moment.''
       else if status = 403 \<and> body_error body = Some READ_ONLY_WHILE_WARPED
         then lit ''You're viewing as another user '' @ [8212] @ lit '' exit warp to make changes.''
       else if status \<ge> 500 then lit ''Something went wrong on our end. Try again.''
       else web_ApiError_message status body
   | NetworkError \<Rightarrow> lit ''Can't reach the server''
   | ErrorMsg m \<Rightarrow>
       if contains_ci m ''fetch'' \<or> contains_ci m ''network''
       then lit ''Can't reach Thassa. Check your connection.'' else m
   | Thrown \<Rightarrow> lit ''Something went wrong.'')"

definition web_MUTATING :: "http_method set" where
  "web_MUTATING = {POST, PUT, PATCH, DELETE}"

text \<open>\<open>newIdempotencyKey\<close>: the random UUID, or the clock and a random suffix where there is none.\<close>

definition newIdempotencyKey :: "str option \<Rightarrow> int \<Rightarrow> str \<Rightarrow> str" where
  "newIdempotencyKey randomUUID now suffix = (case randomUUID of
     Some u \<Rightarrow> u | None \<Rightarrow> show_int now @ lit ''-'' @ suffix)"

text \<open>What a call of \<open>req\<close> closes over: the method's arguments, the token, the warp target, a fresh key.\<close>

record web_call =
  wc_api_url :: str
  wc_method :: http_method
  wc_path :: str
  wc_body :: "json option"
  wc_key :: "str option"
  wc_token :: "str option"
  wc_warp :: "str option"
  wc_fresh_key :: str

definition web_key :: "web_call \<Rightarrow> str" where
  "web_key c = or_else (wc_key c) (wc_fresh_key c)"

definition web_request :: "web_call \<Rightarrow> http_request" where
  "web_request c =
     (let mutating = wc_method c \<in> web_MUTATING;
          idempotencyKey = (if mutating then Some (web_key c) else None)
      in \<lparr> rq_method = wc_method c,
           rq_url = wc_api_url c @ wc_path c,
           rq_headers = [(''Content-Type'', lit ''application/json'')]
             @ (if truthy (wc_token c) then [(''Authorization'', lit ''Bearer '' @ the (wc_token c))] else [])
             @ (if truthy idempotencyKey then [(''Idempotency-Key'', the idempotencyKey)] else [])
             @ (if truthy (wc_warp c) then [(''X-Thassa-Warp'', the (wc_warp c))] else []),
           rq_body = wc_body c \<rparr>)"

definition web_finish :: "int \<Rightarrow> body_text \<Rightarrow> js_error + json" where
  "web_finish status txt =
     (case txt of
        OtherText _ \<Rightarrow> Inl (ErrorMsg (lit ''SyntaxError''))
      | EmptyText \<Rightarrow> if \<not> res_ok status then Inl (ApiError status JNull) else Inr JNull
      | JsonText j \<Rightarrow> if \<not> res_ok status then Inl (ApiError status j) else Inr j)"

text \<open>\<open>req\<close>: the requests it sends and its result.\<close>

definition web_req :: "web_call \<Rightarrow> network \<Rightarrow> http_request list \<times> (js_error + json)" where
  "web_req c net =
     (let mutating = wc_method c \<in> web_MUTATING; r = web_request c
      in case net 0 r of
           Response status txt \<Rightarrow> ([r], web_finish status txt)
         | FetchFails err \<Rightarrow>
             if \<not> mutating then ([r], Inl err)
             else case net 1 r of
                    Response status txt \<Rightarrow> ([r, r], web_finish status txt)
                  | FetchFails err2 \<Rightarrow> ([r, r], Inl err2))"

text \<open>
  \<open>uploadMedia\<close>: presign, \<open>PUT\<close> of the file with progress, completion. The three exchanges are
  given by their outcomes; the result lists the steps that were started.
\<close>

datatype upload_step = Presign str str int | PutFile str str | Complete str

datatype xhr_outcome = XhrLoad int | XhrError

definition web_upload_progress :: "rat \<Rightarrow> rat \<Rightarrow> int" where
  "web_upload_progress loaded tot = math_round (num_mul (num_div loaded tot) 100)"

definition web_uploadMedia ::
  "str \<Rightarrow> str \<Rightarrow> int \<Rightarrow> (js_error + media_item \<times> str) \<Rightarrow> xhr_outcome \<Rightarrow> (js_error + media_item)
   \<Rightarrow> upload_step list \<times> (js_error + media_item)" where
  "web_uploadMedia name type bytes presign put completed =
     (let ctype = (if type = [] then lit ''application/octet-stream'' else type);
          s1 = Presign name ctype bytes
      in case presign of
           Inl e \<Rightarrow> ([s1], Inl e)
         | Inr (media, upload_url) \<Rightarrow>
             (let s2 = PutFile upload_url ctype
              in if (case put of XhrLoad status \<Rightarrow> res_ok status | XhrError \<Rightarrow> False)
                 then ([s1, s2, Complete (lit ''/v1/media/'' @ mi_id media @ lit ''/complete'')], completed)
                 else ([s1, s2], Inl (ErrorMsg (lit ''upload failed'')))))"

section \<open>Lemmas\<close>

lemma web_mutating_iff: "m \<in> web_MUTATING \<longleftrightarrow> m \<noteq> GET"
  by (cases m) (simp_all add: web_MUTATING_def)

lemma web_request_method [simp]: "rq_method (web_request c) = wc_method c"
  by (simp add: web_request_def Let_def)

lemma web_request_key:
  "wc_method c \<noteq> GET \<Longrightarrow> web_key c \<noteq> [] \<Longrightarrow> header ''Idempotency-Key'' (web_request c) = Some (web_key c)"
  by (auto simp: web_request_def Let_def header_def web_mutating_iff)

lemma web_req_requests: "set (fst (web_req c net)) = {web_request c}"
  by (simp add: web_req_def Let_def split: fetch_outcome.splits)

lemma web_req_length: "length (fst (web_req c net)) \<le> (if wc_method c = GET then 1 else 2)"
  by (simp add: web_req_def Let_def web_mutating_iff split: fetch_outcome.splits)

lemma web_req_same_keyed:
  "web_key c \<noteq> [] \<Longrightarrow> wc_method c \<noteq> GET \<Longrightarrow> same_keyed (wc_method c) (web_key c) (fst (web_req c net))"
  by (simp add: same_keyed_def web_req_requests web_request_key)

text \<open>A call is valid when its key is not empty; \<open>newIdempotencyKey\<close> never returns an empty one.\<close>

interpretation web_api: keyed_transport "\<lambda>c net. fst (web_req c net)" "\<lambda>c. web_key c \<noteq> []"
  wc_method web_key 2
proof
  fix c r net
  show "length (fst (web_req c net)) \<le> 2"
    using web_req_length [of c net] by (simp split: if_splits)
  show "wc_method c = GET \<Longrightarrow> r \<in> set (fst (web_req c net)) \<Longrightarrow> rq_method r = GET"
    by (simp add: web_req_requests)
qed (rule web_req_same_keyed)

section \<open>Properties\<close>

text \<open>
  C9: However the network behaves, a mutation of the web client takes effect at most once on a
  server that deduplicates by idempotency key: \<open>req\<close> sends at most two requests (one for a \<open>GET\<close>),
  identical to each other, and the server applies at most one of them.
\<close>

theorem web_req_applied_at_most_once:
  assumes "web_key c \<noteq> []"
  shows "snd (deliver (seen, n) (fst (web_req c net))) \<le> Suc n
    \<and> set (fst (web_req c net)) = {web_request c}
    \<and> length (fst (web_req c net)) \<le> (if wc_method c = GET then 1 else 2)"
  using web_api.applied_at_most_once [OF assms] web_req_requests web_req_length by blast

theorem web_req_applied_at_most_once_witness:
  "\<exists>c net. wc_method c = POST \<and> length (fst (web_req c net)) = 2
    \<and> snd (deliver ([], 0) (fst (web_req c net))) \<le> 1"
proof -
  let ?c = "\<lparr> wc_api_url = lit ''http://api'', wc_method = POST, wc_path = lit ''/v1/orders'', wc_body = None,
    wc_key = Some (lit ''k1''), wc_token = Some (lit ''t''), wc_warp = None, wc_fresh_key = [] \<rparr>"
  let ?net = "\<lambda>i r. if i = 0 then FetchFails (ErrorMsg (lit ''Failed to fetch'')) else Response 200 EmptyText"
  have "web_key ?c \<noteq> []" by (simp add: web_key_def)
  from web_req_applied_at_most_once [OF this, of "[]" 0 ?net]
  have "snd (deliver ([], 0) (fst (web_req ?c ?net))) \<le> 1" by simp
  moreover have "length (fst (web_req ?c ?net)) = 2"
    by (simp add: web_req_def web_mutating_iff Let_def)
  ultimately show ?thesis by (intro exI [of _ ?c] exI [of _ ?net]) simp
qed

end
