(* ===== verification/MobileApi.thy ===== *)
theory MobileApi
  imports Http MobileTypes
begin

text \<open>
  \<open>mobile/lib/api.ts\<close>: the \<open>Api\<close> class of the mobile client. A connection failure is retried up to
  four attempts with exponential backoff, and so is a transient upstream status for reads and for
  keyed mutations; the idempotency key is fixed before the first attempt, while the token and the
  warp target are read again for each. A failed read falls back to the device cache.
\<close>

definition SHARE_BASE :: "str option \<Rightarrow> str" where
  "SHARE_BASE v = (case non_empty v of Some t \<Rightarrow> t | None \<Rightarrow> lit ''https://app.thassa.xyz'')"

definition postShareUrl :: "str option \<Rightarrow> str \<Rightarrow> str" where
  "postShareUrl env_base postId = SHARE_BASE env_base @ lit ''/post/'' @ postId"

definition mob_ApiError_message :: "int \<Rightarrow> json \<Rightarrow> str" where
  "mob_ApiError_message status body = (case non_empty (body_error body) of
     Some t \<Rightarrow> t | None \<Rightarrow> lit ''request failed ('' @ show_int status @ lit '')'')"

text \<open>\<open>/user rejected|denied|cancell?ed/i\<close>.\<close>

definition signature_refused :: "str \<Rightarrow> bool" where
  "signature_refused m \<longleftrightarrow> contains_ci m ''user rejected'' \<or> contains_ci m ''denied''
     \<or> contains_ci m ''canceled'' \<or> contains_ci m ''cancelled''"

definition mob_errorMessage :: "js_error \<Rightarrow> str" where
  "mob_errorMessage e = (case e of
     NetworkError \<Rightarrow> lit ''Can't reach the server. Check your internet and try again.''
   | ApiError status body \<Rightarrow>
       if status = 403 \<and> body_error body = Some (lit ''read-only while warped'')
         then lit ''You're viewing as another user. Exit warp to make changes.''
       else if status = 401 \<or> status = 403 then lit ''You don't have access to do that.''
       else if status = 404 then lit ''We couldn't find that.''
       else if status \<ge> 500 then lit ''Something went wrong on our end. Please try again.''
       else (case non_empty (body_error body) of
               Some t \<Rightarrow> t | None \<Rightarrow> lit ''That didn't work. Please try again.'')
   | ErrorMsg m \<Rightarrow>
       if signature_refused m then lit ''Signature request was canceled.''
       else lit ''That didn't work. Please try again.''
   | Thrown \<Rightarrow> lit ''That didn't work. Please try again.'')"

definition MAX_RETRIES :: nat where
  "MAX_RETRIES = 4"

definition RETRYABLE_STATUS :: "int set" where
  "RETRYABLE_STATUS = {502, 503, 504}"

text \<open>\<open>backoffMs\<close>; the jitter is \<open>Math.floor(Math.random() * 150)\<close>.\<close>

definition backoffMs :: "nat \<Rightarrow> int \<Rightarrow> int" where
  "backoffMs attempt jitter = min (400 * 2 ^ attempt) 5000 + jitter"

definition safeParse :: "body_text \<Rightarrow> json" where
  "safeParse txt = (case txt of EmptyText \<Rightarrow> JNull | JsonText j \<Rightarrow> j | OtherText _ \<Rightarrow> JNull)"

text \<open>
  The arguments of \<open>req\<close>: method, path, body, key; the token and the warp target it resolves on the
  \<open>n\<close>-th attempt (a rejected token promise is an error); the jitter of the \<open>n\<close>-th wait.
\<close>

record mob_call =
  ml_api_base :: str
  ml_method :: http_method
  ml_path :: str
  ml_body :: "json option"
  ml_idemKey :: "str option"
  ml_token :: "nat \<Rightarrow> js_error + str option"
  ml_warp :: "nat \<Rightarrow> str option"
  ml_jitter :: "nat \<Rightarrow> int"

definition mob_request :: "mob_call \<Rightarrow> str option \<Rightarrow> str option \<Rightarrow> http_request" where
  "mob_request c token warpTargetId = \<lparr>
     rq_method = ml_method c,
     rq_url = ml_api_base c @ ml_path c,
     rq_headers = [(''Content-Type'', lit ''application/json'')]
       @ (if truthy token then [(''Authorization'', lit ''Bearer '' @ the token)] else [])
       @ (if truthy warpTargetId then [(''X-Thassa-Warp'', the warpTargetId)] else [])
       @ (if truthy (ml_idemKey c) then [(''Idempotency-Key'', the (ml_idemKey c))] else []),
     rq_body = ml_body c \<rparr>"

text \<open>The requests sent, the milliseconds slept between them, and the result.\<close>

record 'a run =
  rn_requests :: "http_request list"
  rn_waits :: "int list"
  rn_result :: 'a

definition after_retry :: "http_request \<Rightarrow> int \<Rightarrow> 'a run \<Rightarrow> 'a run" where
  "after_retry r wait rest = \<lparr> rn_requests = r # rn_requests rest,
     rn_waits = wait # rn_waits rest, rn_result = rn_result rest \<rparr>"

function mob_req :: "mob_call \<Rightarrow> network \<Rightarrow> nat \<Rightarrow> (js_error + json) run" where
  "mob_req c net attempt =
     (case ml_token c attempt of
        Inl e \<Rightarrow> \<lparr> rn_requests = [], rn_waits = [], rn_result = Inl e \<rparr>
      | Inr token \<Rightarrow>
          (let r = mob_request c token (ml_warp c attempt);
               retry = after_retry r (backoffMs attempt (ml_jitter c attempt))
           in case net attempt r of
                FetchFails _ \<Rightarrow>
                  if attempt < MAX_RETRIES - 1 then retry (mob_req c net (Suc attempt))
                  else \<lparr> rn_requests = [r], rn_waits = [], rn_result = Inl NetworkError \<rparr>
              | Response status txt \<Rightarrow>
                  (let json = safeParse txt
                   in if \<not> res_ok status
                      then if status \<in> RETRYABLE_STATUS \<and> (ml_method c = GET \<or> truthy (ml_idemKey c))
                              \<and> attempt < MAX_RETRIES - 1
                           then retry (mob_req c net (Suc attempt))
                           else \<lparr> rn_requests = [r], rn_waits = [], rn_result = Inl (ApiError status json) \<rparr>
                      else \<lparr> rn_requests = [r], rn_waits = [], rn_result = Inr json \<rparr>)))"
  by auto
termination
  by (relation "measure (\<lambda>(c, net, attempt). MAX_RETRIES - attempt)") (auto simp: MAX_RETRIES_def)

declare mob_req.simps [simp del]

text \<open>
  The public methods. \<open>get\<close> warms the device cache under \<open>GET:\<close> and the path, and reads it back
  when the network is gone; the cache is given by its answer to \<open>getCachedJSON\<close>. The result names
  the key the fresh data is stored under.
\<close>

definition mob_get :: "mob_call \<Rightarrow> network \<Rightarrow> (str \<Rightarrow> json option) \<Rightarrow> (js_error + json) \<times> (str \<times> json) option" where
  "mob_get c net cached =
     (case rn_result (mob_req (c\<lparr>ml_method := GET, ml_body := None, ml_idemKey := None\<rparr>) net 0) of
        Inr data \<Rightarrow> (Inr data, Some (lit ''GET:'' @ ml_path c, data))
      | Inl e \<Rightarrow>
          (case e of
             NetworkError \<Rightarrow> (case cached (lit ''GET:'' @ ml_path c) of
                 Some d \<Rightarrow> (Inr d, None) | None \<Rightarrow> (Inl e, None))
           | _ \<Rightarrow> (Inl e, None)))"

definition mob_mutate :: "http_method \<Rightarrow> mob_call \<Rightarrow> str \<Rightarrow> network \<Rightarrow> (js_error + json) run" where
  "mob_mutate m c uuid net = mob_req (c\<lparr>ml_method := m, ml_idemKey := Some uuid\<rparr>) net 0"

text \<open>
  \<open>uploadMedia\<close> on the native platforms and on the web. The signal's state is sampled where the
  code reads it; the exchanges are given by their outcomes.
\<close>

datatype mob_upload_step = MPresign str | MPut str | MComplete str | MProgress

record mob_presign =
  pr_id :: str
  pr_upload_url :: str
  pr_public_url :: str

definition mob_uploadMedia ::
  "bool \<Rightarrow> bool \<Rightarrow> bool \<Rightarrow> str \<Rightarrow> (js_error + mob_presign) \<Rightarrow> (js_error + int option) \<Rightarrow> (js_error + unit)
   \<Rightarrow> mob_upload_step list \<times> (js_error + str \<times> str)" where
  "mob_uploadMedia web aborted_first aborted_later contentType presign put completed =
     (if aborted_first then ([], Inl (ErrorMsg (lit ''upload aborted'')))
      else case presign of
        Inl e \<Rightarrow> ([MPresign contentType], Inl e)
      | Inr p \<Rightarrow>
         (let s1 = MPresign contentType; s2 = MPut (pr_upload_url p);
              s3 = MComplete (lit ''/v1/media/'' @ pr_id p @ lit ''/complete'');
              ok = (pr_id p, pr_public_url p);
              failed = (\<lambda>st. Inl (ErrorMsg (lit ''upload failed ('' @ st @ lit '')'')));
              finish = (case completed of Inl e \<Rightarrow> ([s1, s2, s3], Inl e)
                        | Inr _ \<Rightarrow> ([s1, s2, s3, MProgress], Inr ok))
          in if web
             then if aborted_later then ([s1], Inl (ErrorMsg (lit ''upload aborted'')))
                  else case put of
                    Inl e \<Rightarrow> ([s1, s2], Inl e)
                  | Inr None \<Rightarrow> ([s1, s2], Inl Thrown)
                  | Inr (Some status) \<Rightarrow>
                      if \<not> res_ok status then ([s1, s2], failed (show_int status)) else finish
             else case put of
                    Inl e \<Rightarrow> ([s1, s2], Inl e)
                  | Inr status \<Rightarrow>
                      if aborted_later then ([s1, s2], Inl (ErrorMsg (lit ''upload aborted'')))
                      else (case status of
                          None \<Rightarrow> ([s1, s2], failed (lit ''network''))
                        | Some st \<Rightarrow> if \<not> res_ok st then ([s1, s2], failed (show_int st)) else finish)))"

section \<open>Lemmas\<close>

lemma after_retry_simps [simp]:
  "rn_requests (after_retry r w rest) = r # rn_requests rest"
  "rn_waits (after_retry r w rest) = w # rn_waits rest"
  "rn_result (after_retry r w rest) = rn_result rest"
  by (simp_all add: after_retry_def)

lemma mob_request_simps [simp]: "rq_method (mob_request c t w) = ml_method c"
  by (simp add: mob_request_def)

lemma mob_request_key: "truthy (ml_idemKey c) \<Longrightarrow> header ''Idempotency-Key'' (mob_request c t w) = ml_idemKey c"
  by (auto simp: mob_request_def header_def truthy_iff)

text \<open>One attempt either retries or is the last.\<close>

definition mob_retries :: "mob_call \<Rightarrow> network \<Rightarrow> nat \<Rightarrow> http_request \<Rightarrow> bool" where
  "mob_retries c net attempt r \<longleftrightarrow> attempt < MAX_RETRIES - 1 \<and>
     (case net attempt r of FetchFails _ \<Rightarrow> True
      | Response st _ \<Rightarrow> \<not> res_ok st \<and> st \<in> RETRYABLE_STATUS \<and> (ml_method c = GET \<or> truthy (ml_idemKey c)))"

definition mob_final :: "network \<Rightarrow> nat \<Rightarrow> http_request \<Rightarrow> (js_error + json) run" where
  "mob_final net attempt r = \<lparr> rn_requests = [r], rn_waits = [], rn_result =
     (case net attempt r of FetchFails _ \<Rightarrow> Inl NetworkError
      | Response st txt \<Rightarrow> if res_ok st then Inr (safeParse txt) else Inl (ApiError st (safeParse txt))) \<rparr>"

lemma mob_req_unfold:
  assumes "ml_token c attempt = Inr t" "r = mob_request c t (ml_warp c attempt)"
  shows "mob_req c net attempt =
    (if mob_retries c net attempt r
     then after_retry r (backoffMs attempt (ml_jitter c attempt)) (mob_req c net (Suc attempt))
     else mob_final net attempt r)"
  using assms by (auto simp: mob_req.simps [of c net attempt] mob_retries_def mob_final_def Let_def
      split: fetch_outcome.splits)

lemma mob_req_token_error:
  "ml_token c attempt = Inl e \<Longrightarrow> mob_req c net attempt = \<lparr> rn_requests = [], rn_waits = [], rn_result = Inl e \<rparr>"
  by (simp add: mob_req.simps)

lemma mob_final_simps [simp]:
  "rn_requests (mob_final net attempt r) = [r]" "rn_waits (mob_final net attempt r) = []"
  by (simp_all add: mob_final_def)

lemma mob_retries_bound: "mob_retries c net attempt r \<Longrightarrow> Suc attempt < MAX_RETRIES"
  by (auto simp: mob_retries_def)

text \<open>Induction over the attempts: the call that fails to get a token, the last one, and a retry.\<close>

lemma mob_req_rule [case_names token last retry]:
  assumes "\<And>n e. ml_token c n = Inl e \<Longrightarrow> P n \<lparr> rn_requests = [], rn_waits = [], rn_result = Inl e \<rparr>"
    and "\<And>n t r. ml_token c n = Inr t \<Longrightarrow> r = mob_request c t (ml_warp c n) \<Longrightarrow>
        \<not> mob_retries c net n r \<Longrightarrow> P n (mob_final net n r)"
    and "\<And>n t r run1. ml_token c n = Inr t \<Longrightarrow> r = mob_request c t (ml_warp c n) \<Longrightarrow>
        mob_retries c net n r \<Longrightarrow> P (Suc n) run1 \<Longrightarrow> P n (after_retry r (backoffMs n (ml_jitter c n)) run1)"
  shows "P n (mob_req c net n)"
proof (induction "MAX_RETRIES - n" arbitrary: n rule: less_induct)
  case less
  show ?case
  proof (cases "ml_token c n")
    case (Inl e)
    then show ?thesis by (simp add: mob_req_token_error assms(1))
  next
    case (Inr t)
    let ?r = "mob_request c t (ml_warp c n)"
    show ?thesis
    proof (cases "mob_retries c net n ?r")
      case True
      then have "P (Suc n) (mob_req c net (Suc n))"
        using mob_retries_bound [OF True] by (intro less) simp
      with True Inr show ?thesis by (simp add: mob_req_unfold [OF Inr refl] assms(3))
    next
      case False
      with Inr show ?thesis by (simp add: mob_req_unfold [OF Inr refl] assms(2))
    qed
  qed
qed

lemma mob_req_length: "n < MAX_RETRIES \<longrightarrow> length (rn_requests (mob_req c net n)) \<le> MAX_RETRIES - n"
  by (rule mob_req_rule) (auto dest: mob_retries_bound)

lemma mob_req_requests:
  "\<forall>r \<in> set (rn_requests (mob_req c net n)). \<exists>i t. ml_token c i = Inr t \<and> r = mob_request c t (ml_warp c i)"
  by (rule mob_req_rule) auto

lemma mob_req_network_error:
  assumes "\<forall>i. \<exists>t. ml_token c i = Inr t"
  shows "n < MAX_RETRIES \<longrightarrow> rn_result (mob_req c net n) = Inl NetworkError \<longrightarrow>
    length (rn_requests (mob_req c net n)) = MAX_RETRIES - n
    \<and> (\<exists>e. net (MAX_RETRIES - 1) (last (rn_requests (mob_req c net n))) = FetchFails e)"
proof (rule mob_req_rule)
  show "ml_token c n = Inl e \<Longrightarrow> n < MAX_RETRIES \<longrightarrow>
      rn_result \<lparr>rn_requests = [], rn_waits = [], rn_result = Inl e\<rparr> = Inl NetworkError \<longrightarrow>
      length (rn_requests \<lparr>rn_requests = [], rn_waits = [], rn_result = Inl e\<rparr>) = MAX_RETRIES - n \<and>
      (\<exists>e'. net (MAX_RETRIES - 1) (last (rn_requests \<lparr>rn_requests = [], rn_waits = [], rn_result = Inl e\<rparr>)) = FetchFails e')"
    for n e using assms by (metis Inl_Inr_False)
next
  fix n t r
  assume "\<not> mob_retries c net n r"
  then show "n < MAX_RETRIES \<longrightarrow> rn_result (mob_final net n r) = Inl NetworkError \<longrightarrow>
      length (rn_requests (mob_final net n r)) = MAX_RETRIES - n \<and>
      (\<exists>e. net (MAX_RETRIES - 1) (last (rn_requests (mob_final net n r))) = FetchFails e)"
    by (cases "n = MAX_RETRIES - 1")
       (auto simp: mob_retries_def mob_final_def MAX_RETRIES_def split: fetch_outcome.splits if_splits)
next
  fix n t r and run1 :: "(js_error + json) run"
  assume "mob_retries c net n r"
    and "Suc n < MAX_RETRIES \<longrightarrow> rn_result run1 = Inl NetworkError \<longrightarrow>
      length (rn_requests run1) = MAX_RETRIES - Suc n \<and>
      (\<exists>e. net (MAX_RETRIES - 1) (last (rn_requests run1)) = FetchFails e)"
  then show "n < MAX_RETRIES \<longrightarrow>
      rn_result (after_retry r (backoffMs n (ml_jitter c n)) run1) = Inl NetworkError \<longrightarrow>
      length (rn_requests (after_retry r (backoffMs n (ml_jitter c n)) run1)) = MAX_RETRIES - n \<and>
      (\<exists>e. net (MAX_RETRIES - 1) (last (rn_requests (after_retry r (backoffMs n (ml_jitter c n)) run1))) = FetchFails e)"
    using mob_retries_bound [of c net n r] by (auto simp: Suc_diff_Suc)
qed

text \<open>The waits are a prefix of the three backoffs before the attempts 1, 2 and 3.\<close>

lemma mob_req_waits:
  "n < MAX_RETRIES \<longrightarrow> rn_waits (mob_req c net n)
    = take (length (rn_waits (mob_req c net n))) (map (\<lambda>i. backoffMs i (ml_jitter c i)) [n..<MAX_RETRIES - 1])"
proof (rule mob_req_rule [where P = "\<lambda>n run1. n < MAX_RETRIES \<longrightarrow> rn_waits run1
    = take (length (rn_waits run1)) (map (\<lambda>i. backoffMs i (ml_jitter c i)) [n..<MAX_RETRIES - 1])"])
  fix n t r and run1 :: "(js_error + json) run"
  assume "mob_retries c net n r"
    and ih: "Suc n < MAX_RETRIES \<longrightarrow> rn_waits run1
      = take (length (rn_waits run1)) (map (\<lambda>i. backoffMs i (ml_jitter c i)) [Suc n..<MAX_RETRIES - 1])"
  then have "n < MAX_RETRIES - 1" "Suc n < MAX_RETRIES" using mob_retries_bound by fastforce+
  then have "[n..<MAX_RETRIES - 1] = n # [Suc n..<MAX_RETRIES - 1]" by (simp add: upt_conv_Cons)
  with ih \<open>Suc n < MAX_RETRIES\<close> show "n < MAX_RETRIES \<longrightarrow>
      rn_waits (after_retry r (backoffMs n (ml_jitter c n)) run1)
      = take (length (rn_waits (after_retry r (backoffMs n (ml_jitter c n)) run1)))
          (map (\<lambda>i. backoffMs i (ml_jitter c i)) [n..<MAX_RETRIES - 1])"
    by simp
qed simp_all

lemma mob_req_same_keyed:
  "truthy (ml_idemKey c) \<Longrightarrow> same_keyed (ml_method c) (the (ml_idemKey c)) (rn_requests (mob_req c net attempt))"
  using mob_req_requests [of c net attempt] mob_request_key [of c]
  by (fastforce simp: same_keyed_def truthy_iff)

interpretation mob_api: keyed_transport "\<lambda>c net. rn_requests (mob_req c net 0)"
  "\<lambda>c. truthy (ml_idemKey c)" ml_method "\<lambda>c. the (ml_idemKey c)" MAX_RETRIES
proof
  fix c r net
  show "length (rn_requests (mob_req c net 0)) \<le> MAX_RETRIES"
    using mob_req_length [of 0 c net] by (simp add: MAX_RETRIES_def)
  show "ml_method c = GET \<Longrightarrow> r \<in> set (rn_requests (mob_req c net 0)) \<Longrightarrow> rq_method r = GET"
    using mob_req_requests [of c net 0] by auto
qed (rule mob_req_same_keyed)

section \<open>Properties\<close>

text \<open>
  C10: However the network behaves, a keyed call of the mobile client sends at most four requests,
  and a deduplicating server applies at most one of them: every attempt of the retry loop carries
  the key fixed before the first.
\<close>

theorem mob_req_applied_at_most_once:
  assumes "truthy (ml_idemKey c)"
  shows "snd (deliver (seen, n) (rn_requests (mob_req c net 0))) \<le> Suc n
    \<and> length (rn_requests (mob_req c net 0)) \<le> 4
    \<and> same_keyed (ml_method c) (the (ml_idemKey c)) (rn_requests (mob_req c net 0))"
  using mob_api.applied_at_most_once [OF assms] mob_api.bounded [of c net] mob_req_same_keyed [OF assms]
  by (simp add: MAX_RETRIES_def)

theorem mob_req_applied_at_most_once_witness:
  "\<exists>c net. ml_method c = POST \<and> snd (deliver ([], 0) (rn_requests (mob_req c net 0))) \<le> 1
    \<and> length (rn_requests (mob_req c net 0)) \<le> 4"
proof -
  let ?c = "\<lparr> ml_api_base = lit ''http://api'', ml_method = POST, ml_path = lit ''/v1/orders'', ml_body = None,
    ml_idemKey = Some (lit ''k1''), ml_token = (\<lambda>_. Inr None), ml_warp = (\<lambda>_. None), ml_jitter = (\<lambda>_. 0) \<rparr>"
  let ?net = "\<lambda>i r. FetchFails Thrown"
  have "truthy (ml_idemKey ?c)" by simp
  from mob_req_applied_at_most_once [OF this, of "[]" 0 ?net] show ?thesis
    by (intro exI [of _ ?c] exI [of _ ?net]) simp
qed

text \<open>
  \<open>NetworkError\<close> means that the backend was unreachable to the end: when the token can be read,
  it is only thrown after all four attempts, the last of which failed to connect.
\<close>

theorem mob_NetworkError_after_all_attempts:
  assumes "\<And>i. \<exists>t. ml_token c i = Inr t" "rn_result (mob_req c net 0) = Inl NetworkError"
  shows "length (rn_requests (mob_req c net 0)) = 4
    \<and> (\<exists>e. net 3 (last (rn_requests (mob_req c net 0))) = FetchFails e)"
  using mob_req_network_error [of c 0 net] assms by (simp add: MAX_RETRIES_def)

theorem mob_NetworkError_after_all_attempts_witness:
  "\<exists>c net. rn_result (mob_req c net 0) = Inl NetworkError \<and> length (rn_requests (mob_req c net 0)) = 4"
proof -
  let ?c = "\<lparr> ml_api_base = [], ml_method = GET, ml_path = lit ''/v1/me'', ml_body = None,
    ml_idemKey = None, ml_token = (\<lambda>_. Inr None), ml_warp = (\<lambda>_. None), ml_jitter = (\<lambda>_. 0) \<rparr>"
  let ?net = "\<lambda>(i :: nat) (r :: http_request). FetchFails Thrown"
  have t: "\<And>i. \<exists>t. ml_token ?c i = Inr t" by simp
  have r: "rn_result (mob_req ?c ?net 0) = Inl NetworkError"
    by (simp add: mob_req.simps MAX_RETRIES_def)
  from mob_NetworkError_after_all_attempts [OF t r] r show ?thesis by blast
qed

text \<open>
  The waits between attempts are the backoffs of the attempts before: about 0.4, 0.8 and 1.6
  seconds plus jitter, never more than three of them. The 3.2 seconds the comment announces and
  the cap of 5 seconds are not reached.
\<close>

theorem mob_req_backoff:
  "rn_waits (mob_req c net 0) = take (length (rn_waits (mob_req c net 0)))
     [400 + ml_jitter c 0, 800 + ml_jitter c 1, 1600 + ml_jitter c 2]"
  using mob_req_waits [of 0 c net]
  by (simp add: MAX_RETRIES_def backoffMs_def upt_rec numeral_2_eq_2)

text \<open>
  A read of the mobile client survives a dead connection when the device cache holds the path:
  the answer is then the cached value; data that did arrive is passed on and stored under the same
  key; an error of the server is never masked by the cache.
\<close>

theorem mob_get_offline:
  "(\<forall>d. rn_result (mob_req (c\<lparr>ml_method := GET, ml_body := None, ml_idemKey := None\<rparr>) net 0) = Inl NetworkError
      \<longrightarrow> cached (lit ''GET:'' @ ml_path c) = Some d \<longrightarrow> mob_get c net cached = (Inr d, None))
   \<and> (\<forall>d. rn_result (mob_req (c\<lparr>ml_method := GET, ml_body := None, ml_idemKey := None\<rparr>) net 0) = Inr d
      \<longrightarrow> mob_get c net cached = (Inr d, Some (lit ''GET:'' @ ml_path c, d)))
   \<and> (\<forall>st b. rn_result (mob_req (c\<lparr>ml_method := GET, ml_body := None, ml_idemKey := None\<rparr>) net 0) = Inl (ApiError st b)
      \<longrightarrow> mob_get c net cached = (Inl (ApiError st b), None))"
  by (simp add: mob_get_def)

theorem mob_get_offline_witness:
  "\<exists>c net. mob_get c net (\<lambda>k. if k = lit ''GET:/v1/me'' then Some (JBool True) else None) = (Inr (JBool True), None)"
proof -
  let ?c = "\<lparr> ml_api_base = [], ml_method = GET, ml_path = lit ''/v1/me'', ml_body = None,
    ml_idemKey = None, ml_token = (\<lambda>_. Inr None), ml_warp = (\<lambda>_. None), ml_jitter = (\<lambda>_. 0) \<rparr>"
  let ?net = "\<lambda>(i :: nat) (r :: http_request). FetchFails Thrown"
  have r: "rn_result (mob_req ?c ?net 0) = Inl NetworkError"
    by (simp add: mob_req.simps MAX_RETRIES_def)
  have k: "lit ''GET:'' @ lit ''/v1/me'' = lit ''GET:/v1/me''"
    by (simp add: lit_def)
  show ?thesis
    using mob_get_offline [of ?c ?net "\<lambda>k. if k = lit ''GET:/v1/me'' then Some (JBool True) else None"] r
    by (intro exI [of _ ?c] exI [of _ ?net]) (simp add: k)
qed

end
