(* ===== verification/Trading.thy ===== *)
theory Trading
  imports WebApi TypedData
begin

text \<open>
  \<open>web/lib/trading.ts\<close>: the order pipeline of the web client. Everything it does to the outside is
  an event: the read of the wallet, the one signature prompt, the call of the relayer. A pipeline
  is a log of events with a result or an error (\<open>io\<close>), composed with \<open>io_bind\<close> as \<open>await\<close> composes
  promises: after an error nothing more happens.
\<close>

type_synonym ('e, 'a) io = "'e list \<times> (js_error + 'a)"

definition io_return :: "'a \<Rightarrow> ('e, 'a) io" where
  "io_return x = ([], Inr x)"

definition io_throw :: "js_error \<Rightarrow> ('e, 'a) io" where
  "io_throw e = ([], Inl e)"

definition io_call :: "'e \<Rightarrow> (js_error + 'a) \<Rightarrow> ('e, 'a) io" where
  "io_call ev r = ([ev], r)"

definition io_bind :: "('e, 'a) io \<Rightarrow> ('a \<Rightarrow> ('e, 'b) io) \<Rightarrow> ('e, 'b) io" where
  "io_bind m f = (case snd m of Inl e \<Rightarrow> (fst m, Inl e) | Inr x \<Rightarrow> (fst m @ fst (f x), snd (f x)))"

record place_body =
  pb_market_id :: str
  pb_affiliate_post_id :: "str option"
  pb_order :: order_wire
  pb_auth :: auth_wire

datatype trade_event =
    ReadWallet
  | Prompt typed_data
  | PostOrder place_body "str option"
  | DeleteOrder str
  | PostSettle str auth_wire

text \<open>What the hook closes over: configuration, signer, clock, random bytes, and the backend's answers.\<close>

record trade_env =
  te_config :: web_config
  te_decimals :: nat
  te_hash :: "typed_data \<Rightarrow> str"
  te_address :: "str option"
  te_sign :: "typed_data \<Rightarrow> js_error + str"
  te_now_ms :: int
  te_random :: "8 word list"
  te_wallet :: "js_error + wallet"
  te_post_order :: "place_body \<Rightarrow> js_error + order"
  te_delete :: "str \<Rightarrow> js_error + unit"
  te_settle :: "js_error + unit"

definition HOUR :: int where
  "HOUR = 3600"

definition sideNum :: "side \<Rightarrow> nat" where
  "sideNum s = (if s = Yes then 0 else 1)"

record sign_params =
  sp_chainMarketId :: int
  sp_side :: side
  sp_priceCents :: int
  sp_shares :: int
  sp_affiliateId :: int

text \<open>The order and the authorization \<open>signOrderAndFunding\<close> builds, at \<open>now\<close> seconds.\<close>

definition order_of :: "trade_env \<Rightarrow> str \<Rightarrow> wallet \<Rightarrow> sign_params \<Rightarrow> order_fields" where
  "order_of E address wallet1 p =
     (let now = te_now_ms E div 1000; maxCost = web_maxCostUnits (te_decimals E) (sp_shares p) (sp_priceCents p)
      in \<lparr> of_marketId = sp_chainMarketId p,
           of_side = sideNum (sp_side p),
           of_price = sp_priceCents p,
           of_shares = sp_shares p,
           of_maxCost = maxCost,
           of_affiliatePostId = sp_affiliateId p,
           of_expiry = now + 24 * HOUR,
           of_nonce = wa_order_nonce wallet1,
           of_maker = address \<rparr>)"

definition funding_of :: "trade_env \<Rightarrow> str \<Rightarrow> order_fields \<Rightarrow> auth3009_fields" where
  "funding_of E address order1 = \<lparr>
     ah_from = address,
     ah_to = cf_markets_contract (te_config E),
     ah_value = of_maxCost order1,
     ah_validAfter = 0,
     ah_validBefore = te_now_ms E div 1000 + 24 * HOUR,
     ah_nonce = orderDigest (te_hash E) (te_config E) order1 \<rparr>"

definition signOrderAndFunding :: "trade_env \<Rightarrow> sign_params \<Rightarrow> (trade_event, order_wire \<times> auth_wire) io" where
  "signOrderAndFunding E p =
     (case non_empty (te_address E) of
        None \<Rightarrow> io_throw (ErrorMsg (lit ''wallet not ready''))
      | Some address \<Rightarrow>
          io_bind (io_call ReadWallet (te_wallet E)) (\<lambda>wallet1.
            let order1 = order_of E address wallet1 p;
                auth = funding_of E address order1;
                prompt = buildReceiveAuthTypedData (te_config E) auth
            in io_bind (io_call (Prompt prompt) (te_sign E prompt)) (\<lambda>authSig.
                 io_return (serializeOrder (te_hash E) (te_config E) order1, serializeAuth auth authSig))))"

record place_order_params =
  pp_market :: market
  pp_side :: side
  pp_priceCents :: int
  pp_shares :: int
  pp_affiliateId :: "int option"
  pp_affiliatePostId :: "str option"
  pp_idempotencyKey :: "str option"

definition params_of :: "place_order_params \<Rightarrow> sign_params" where
  "params_of p = \<lparr> sp_chainMarketId = mk_chain_market_id (pp_market p), sp_side = pp_side p,
     sp_priceCents = pp_priceCents p, sp_shares = pp_shares p,
     sp_affiliateId = or_else (pp_affiliateId p) 0 \<rparr>"

definition placeOrder :: "trade_env \<Rightarrow> place_order_params \<Rightarrow> (trade_event, order) io" where
  "placeOrder E p =
     io_bind (signOrderAndFunding E (params_of p)) (\<lambda>(ord, auth).
       let body = \<lparr> pb_market_id = mk_id (pp_market p), pb_affiliate_post_id = pp_affiliatePostId p,
                     pb_order = ord, pb_auth = auth \<rparr>
       in io_call (PostOrder body (pp_idempotencyKey p)) (te_post_order E body))"

definition signAttachOrder :: "trade_env \<Rightarrow> place_order_params \<Rightarrow> (trade_event, str \<times> order_wire \<times> auth_wire) io" where
  "signAttachOrder E p =
     io_bind (signOrderAndFunding E (params_of p)) (\<lambda>signed. io_return (mk_id (pp_market p), signed))"

record create_market_params =
  cp_candidate :: market_candidate
  cp_side :: side
  cp_priceCents :: int
  cp_shares :: int

record create_payload =
  cy_question :: str
  cy_settlement_query :: str
  cy_title :: str
  cy_initial_order :: order_wire
  cy_auth :: auth_wire

definition signCreateMarket :: "trade_env \<Rightarrow> create_market_params \<Rightarrow> (trade_event, create_payload) io" where
  "signCreateMarket E p =
     io_bind (signOrderAndFunding E \<lparr> sp_chainMarketId = 0, sp_side = cp_side p,
         sp_priceCents = cp_priceCents p, sp_shares = cp_shares p, sp_affiliateId = 0 \<rparr>)
       (\<lambda>(ord, auth). io_return \<lparr> cy_question = mc_question (cp_candidate p),
          cy_settlement_query = mc_settlement_query (cp_candidate p),
          cy_title = mc_title (cp_candidate p), cy_initial_order = ord, cy_auth = auth \<rparr>)"

definition cancelOrder :: "trade_env \<Rightarrow> str \<Rightarrow> (trade_event, unit) io" where
  "cancelOrder E orderId = io_call (DeleteOrder orderId) (te_delete E orderId)"

definition settleMarket :: "trade_env \<Rightarrow> market \<Rightarrow> (trade_event, unit) io" where
  "settleMarket E market1 =
     (case non_empty (te_address E) of
        None \<Rightarrow> io_throw (ErrorMsg (lit ''wallet not ready''))
      | Some address \<Rightarrow>
          (let now = te_now_ms E div 1000;
               fiveCents = big_div (10 ^ te_decimals E) 20;
               auth = \<lparr> ah_from = address, ah_to = cf_markets_contract (te_config E), ah_value = fiveCents,
                        ah_validAfter = 0, ah_validBefore = now + HOUR, ah_nonce = web_randomAuthNonce (te_random E) \<rparr>;
               prompt = buildReceiveAuthTypedData (te_config E) auth
           in io_bind (io_call (Prompt prompt) (te_sign E prompt)) (\<lambda>sig.
                io_call (PostSettle (mk_id market1) (serializeAuth auth sig)) (te_settle E))))"

section \<open>Lemmas\<close>

lemma io_simps [simp]:
  "fst (io_return x) = []" "snd (io_return x) = Inr x"
  "fst (io_throw e) = []" "snd (io_throw e) = Inl e"
  "fst (io_call ev r) = [ev]" "snd (io_call ev r) = r"
  by (simp_all add: io_return_def io_throw_def io_call_def)

lemma fst_io_bind: "fst (io_bind m f) = fst m @ (case snd m of Inl e \<Rightarrow> [] | Inr x \<Rightarrow> fst (f x))"
  by (simp add: io_bind_def split: sum.splits)

lemma snd_io_bind: "snd (io_bind m f) = (case snd m of Inl e \<Rightarrow> Inl e | Inr x \<Rightarrow> snd (f x))"
  by (simp add: io_bind_def split: sum.splits)

lemma snd_io_bind_Inr: "snd (io_bind m f) = Inr y \<longleftrightarrow> (\<exists>x. snd m = Inr x \<and> snd (f x) = Inr y)"
  by (simp add: snd_io_bind split: sum.splits)

lemmas io_bind_simps = fst_io_bind snd_io_bind

definition prompts :: "trade_event list \<Rightarrow> typed_data list" where
  "prompts es = concat (map (\<lambda>e. case e of Prompt d \<Rightarrow> [d] | _ \<Rightarrow> []) es)"

definition posts :: "trade_event list \<Rightarrow> place_body list" where
  "posts es = concat (map (\<lambda>e. case e of PostOrder b _ \<Rightarrow> [b] | _ \<Rightarrow> []) es)"

lemma prompts_simps [simp]:
  "prompts [] = []" "prompts (e # es) = (case e of Prompt d \<Rightarrow> [d] | _ \<Rightarrow> []) @ prompts es"
  "prompts (es @ fs) = prompts es @ prompts fs"
  by (simp_all add: prompts_def)

lemma posts_simps [simp]:
  "posts [] = []" "posts (e # es) = (case e of PostOrder b _ \<Rightarrow> [b] | _ \<Rightarrow> []) @ posts es"
  "posts (es @ fs) = posts es @ posts fs"
  by (simp_all add: posts_def)

text \<open>What a successful signing step returned: an order, its funding, and the one prompt.\<close>

lemma signOrderAndFunding_result:
  assumes "snd (signOrderAndFunding E p) = Inr (ord, auth)"
  obtains address wallet1 sig where
    "te_address E = Some address" "address \<noteq> []" "te_wallet E = Inr wallet1"
    "te_sign E (buildReceiveAuthTypedData (te_config E) (funding_of E address (order_of E address wallet1 p))) = Inr sig"
    "ord = serializeOrder (te_hash E) (te_config E) (order_of E address wallet1 p)"
    "auth = serializeAuth (funding_of E address (order_of E address wallet1 p)) sig"
    "fst (signOrderAndFunding E p) = [ReadWallet,
       Prompt (buildReceiveAuthTypedData (te_config E) (funding_of E address (order_of E address wallet1 p)))]"
  using assms
  by (auto simp: signOrderAndFunding_def Let_def io_bind_simps non_empty_def truthy_iff
      split: option.splits sum.splits if_splits)

lemma signOrderAndFunding_events:
  "posts (fst (signOrderAndFunding E p)) = []" "length (prompts (fst (signOrderAndFunding E p))) \<le> 1"
  by (auto simp: signOrderAndFunding_def Let_def io_bind_simps split: option.splits sum.splits)

section \<open>Properties\<close>

text \<open>
  C1: One signature binds the payment to the order. Whatever the wallet and the backend answer,
  \<open>placeOrder\<close> prompts at most once; every order it hands to the relayer comes with a funding
  authorization over exactly the order's \<open>maxCost\<close>, from its maker, to the markets contract,
  valid until the order expires, whose nonce is the order's digest.
\<close>

theorem placeOrder_binds_funding:
  "length (prompts (fst (placeOrder E p))) \<le> 1
   \<and> list_all (\<lambda>b. aw_auth_nonce (pb_auth b) = ow_digest (pb_order b)
        \<and> aw_value (pb_auth b) = ow_max_cost (pb_order b)
        \<and> aw_from (pb_auth b) = ow_maker (pb_order b)
        \<and> aw_to (pb_auth b) = cf_markets_contract (te_config E)
        \<and> aw_valid_before (pb_auth b) = ow_expiry (pb_order b)) (posts (fst (placeOrder E p)))"
proof (cases "snd (signOrderAndFunding E (params_of p))")
  case (Inl e)
  then show ?thesis
    using signOrderAndFunding_events [of E "params_of p"] by (simp add: placeOrder_def io_bind_simps)
next
  case (Inr signed)
  obtain ord auth where "signed = (ord, auth)" by fastforce
  with Inr have r: "snd (signOrderAndFunding E (params_of p)) = Inr (ord, auth)" by simp
  from r show ?thesis
    by (rule signOrderAndFunding_result)
       (simp add: placeOrder_def io_bind_simps r Let_def serializeOrder_def serializeAuth_def
          funding_of_def order_of_def)
qed

text \<open>
  Nothing reaches the relayer without the user's consent: if the wallet is missing, cannot be
  read, or refuses the signature, \<open>placeOrder\<close> fails with that error and posts no order; if it
  signs, exactly one order is posted, under the caller's idempotency key.
\<close>

theorem placeOrder_needs_signature:
  "(\<forall>e. snd (signOrderAndFunding E (params_of p)) = Inl e
      \<longrightarrow> snd (placeOrder E p) = Inl e \<and> posts (fst (placeOrder E p)) = [])
   \<and> (\<forall>signed. snd (signOrderAndFunding E (params_of p)) = Inr signed
      \<longrightarrow> length (posts (fst (placeOrder E p))) = 1
        \<and> (\<exists>b. last (fst (placeOrder E p)) = PostOrder b (pp_idempotencyKey p)))"
  by (auto simp: placeOrder_def io_bind_simps signOrderAndFunding_events Let_def split: prod.splits)

text \<open>A world in which the examples run: a signer that always signs, at midnight.\<close>

definition demo_wallet :: wallet where
  "demo_wallet = \<lparr> wa_address = lit ''0xA'', wa_balance = lit ''100'', wa_decimals = 6,
     wa_symbol = lit ''MUSD'', wa_order_nonce = 7 \<rparr>"

text \<open>The authorization \<open>settleMarket\<close> has the user sign.\<close>

definition settle_auth :: "trade_env \<Rightarrow> str \<Rightarrow> auth3009_fields" where
  "settle_auth E address = \<lparr> ah_from = address, ah_to = cf_markets_contract (te_config E),
     ah_value = big_div (10 ^ te_decimals E) 20, ah_validAfter = 0,
     ah_validBefore = te_now_ms E div 1000 + HOUR, ah_nonce = web_randomAuthNonce (te_random E) \<rparr>"

lemma settle_auth_value: "ah_value (settle_auth E address) = big_div (10 ^ te_decimals E) 20"
  by (simp add: settle_auth_def)

lemma settleMarket_events:
  assumes "te_address E = Some address" "address \<noteq> []"
  shows "fst (settleMarket E m) =
     Prompt (buildReceiveAuthTypedData (te_config E) (settle_auth E address))
     # (case te_sign E (buildReceiveAuthTypedData (te_config E) (settle_auth E address)) of
          Inl e \<Rightarrow> [] | Inr sig \<Rightarrow> [PostSettle (mk_id m) (serializeAuth (settle_auth E address) sig)])"
  using assms
  by (cases "te_sign E (buildReceiveAuthTypedData (te_config E) (settle_auth E address))")
     (simp_all add: settleMarket_def io_bind_simps Let_def non_empty_def truthy_iff
        flip: settle_auth_def)

lemma five_cents:
  assumes "2 \<le> d"
  shows "big_div (10 ^ d) 20 = 5 * (UNIT d div 100)"
proof -
  have "big_div (10 ^ d) 20 = UNIT d div 20"
    by (simp add: UNIT_def big_div_nonneg)
  also obtain x where x: "UNIT d = 100 * x" using UNIT_cent [OF assms] by blast
  have "UNIT d div 20 = 5 * (UNIT d div 100)" by (simp add: x)
  finally show ?thesis .
qed

text \<open>
  \<open>settleMarket\<close> prompts once, for the authorization of exactly five cents to the markets
  contract, and a refused signature posts nothing: the prompt is all that happens.
\<close>

theorem settleMarket_five_cents:
  assumes "te_address E = Some address" "address \<noteq> []" "2 \<le> te_decimals E"
  shows "prompts (fst (settleMarket E m)) = [buildReceiveAuthTypedData (te_config E) (settle_auth E address)]
     \<and> ah_value (settle_auth E address) = 5 * (UNIT (te_decimals E) div 100)
     \<and> ah_to (settle_auth E address) = cf_markets_contract (te_config E)
     \<and> (te_sign E (buildReceiveAuthTypedData (te_config E) (settle_auth E address)) = Inl e
          \<longrightarrow> length (fst (settleMarket E m)) = 1)"
proof (intro conjI)
  show "prompts (fst (settleMarket E m)) = [buildReceiveAuthTypedData (te_config E) (settle_auth E address)]"
    unfolding settleMarket_events [OF assms(1,2)]
    by (cases "te_sign E (buildReceiveAuthTypedData (te_config E) (settle_auth E address))") simp_all
  show "ah_value (settle_auth E address) = 5 * (UNIT (te_decimals E) div 100)"
    by (rule trans [OF settle_auth_value five_cents [OF assms(3)]])
  show "ah_to (settle_auth E address) = cf_markets_contract (te_config E)"
    by (simp add: settle_auth_def)
  show "te_sign E (buildReceiveAuthTypedData (te_config E) (settle_auth E address)) = Inl e
      \<longrightarrow> length (fst (settleMarket E m)) = 1"
    unfolding settleMarket_events [OF assms(1,2)] by simp
qed

text \<open>A world in which the examples run: it is second 1000, and the signer is given.\<close>

definition demo_env :: "(typed_data \<Rightarrow> js_error + str) \<Rightarrow> trade_env" where
  "demo_env sign = \<lparr> te_config = load_web_config (\<lambda>_. None), te_decimals = 6, te_hash = (\<lambda>_. lit ''0xd1''),
     te_address = Some (lit ''0xA''), te_sign = sign, te_now_ms = 1000000, te_random = [],
     te_wallet = Inr demo_wallet, te_post_order = (\<lambda>_. Inl NetworkError), te_delete = (\<lambda>_. Inr ()),
     te_settle = Inr () \<rparr>"

definition demo_market :: market where
  "demo_market = Market (lit ''m1'') 9
     \<lparr> ul_id = lit ''u1'', ul_username = lit ''alice'', ul_display_name = None, ul_avatar_url = None \<rparr>
     (lit ''q'') (lit ''sq'') None OPEN None 50 50 (lit ''0'') (lit ''now'') None"

lemma demo_env_simps [simp]:
  "te_address (demo_env sign) = Some (lit ''0xA'')" "te_sign (demo_env sign) = sign"
  "te_wallet (demo_env sign) = Inr demo_wallet" "te_decimals (demo_env sign) = 6"
  by (simp_all add: demo_env_def)

theorem settleMarket_five_cents_witness:
  "length (fst (settleMarket (demo_env (\<lambda>_. Inl Thrown)) demo_market)) = 1
   \<and> ah_value (settle_auth (demo_env (\<lambda>_. Inl Thrown)) (lit ''0xA'')) = 50000"
proof -
  have "te_address (demo_env (\<lambda>_. Inl Thrown)) = Some (lit ''0xA'')" "lit ''0xA'' \<noteq> []"
    "2 \<le> te_decimals (demo_env (\<lambda>_. Inl Thrown))" by (simp_all add: lit_def)
  from settleMarket_five_cents [OF this, of demo_market Thrown] show ?thesis
    by (simp add: UNIT_def)
qed

definition demo_place :: place_order_params where
  "demo_place = \<lparr> pp_market = demo_market, pp_side = Yes, pp_priceCents = 50, pp_shares = 4,
     pp_affiliateId = None, pp_affiliatePostId = None, pp_idempotencyKey = Some (lit ''k1'') \<rparr>"

lemma demo_signs:
  "isl (snd (signOrderAndFunding (demo_env sign) p)) \<longleftrightarrow>
     isl (sign (buildReceiveAuthTypedData (te_config (demo_env sign))
        (funding_of (demo_env sign) (lit ''0xA'') (order_of (demo_env sign) (lit ''0xA'') demo_wallet p))))"
  by (simp add: signOrderAndFunding_def io_bind_simps Let_def non_empty_def truthy_iff lit_def split: sum.splits)

theorem placeOrder_needs_signature_witness:
  "posts (fst (placeOrder (demo_env (\<lambda>_. Inl Thrown)) demo_place)) = []
   \<and> length (posts (fst (placeOrder (demo_env (\<lambda>_. Inr (lit ''0x''))) demo_place))) = 1"
proof -
  obtain e where "snd (signOrderAndFunding (demo_env (\<lambda>_. Inl Thrown)) (params_of demo_place)) = Inl e"
    using demo_signs [of "\<lambda>_. Inl Thrown" "params_of demo_place"] by (auto simp: isl_def)
  moreover obtain r where "snd (signOrderAndFunding (demo_env (\<lambda>_. Inr (lit ''0x''))) (params_of demo_place)) = Inr r"
    using demo_signs [of "\<lambda>_. Inr (lit ''0x'')" "params_of demo_place"]
    by (cases "snd (signOrderAndFunding (demo_env (\<lambda>_. Inr (lit ''0x''))) (params_of demo_place))") auto
  ultimately show ?thesis
    using placeOrder_needs_signature [of "demo_env (\<lambda>_. Inl Thrown)" demo_place]
      placeOrder_needs_signature [of "demo_env (\<lambda>_. Inr (lit ''0x''))" demo_place] by blast
qed

end
