(* ===== verification/Realtime.thy ===== *)
theory Realtime
  imports WebTypes
begin

text \<open>
  What both realtime clients (\<open>web/lib/ws.ts\<close>, \<open>mobile/lib/ws.ts\<close>) talk to: the WebSocket objects
  of the platform, and the hub of the backend (\<open>internal/ws/hub.go\<close>, \<open>internal/api/ws.go\<close>), which keeps a set of
  subscribed channels per connection. A socket records every frame the client sent on it: \<open>announced\<close> are the
  channels the client has asked for and not taken back, \<open>hub_channels\<close> those the hub has for it.
  \<open>channel_registry\<close> is the contract of the table of subscriptions: the frames its operations ask to send keep
  the announced channels equal to the table's keys.
\<close>

datatype ready_state = CONNECTING | OPENED | CLOSING | CLOSED

datatype wire = WSub str | WUnsub str | WOther str str "json option"

record sock =
  so_ready :: ready_state
  so_sent :: "wire list"

definition new_sock :: sock where
  "new_sock = \<lparr> so_ready = CONNECTING, so_sent = [] \<rparr>"

text \<open>\<open>close()\<close> starts the closing handshake; the \<open>close\<close> event comes later.\<close>

definition close_sock :: "sock \<Rightarrow> sock" where
  "close_sock k = (if so_ready k = CLOSED then k else k\<lparr>so_ready := CLOSING\<rparr>)"

definition send_sock :: "wire list \<Rightarrow> sock \<Rightarrow> sock" where
  "send_sock ws k = k\<lparr>so_sent := so_sent k @ ws\<rparr>"

definition upd_sock :: "nat \<Rightarrow> (sock \<Rightarrow> sock) \<Rightarrow> sock list \<Rightarrow> sock list" where
  "upd_sock i f ks = (if i < length ks then ks[i := f (ks ! i)] else ks)"

definition sock_open :: "sock list \<Rightarrow> nat option \<Rightarrow> bool" where
  "sock_open ks w = (case w of None \<Rightarrow> False | Some i \<Rightarrow> i < length ks \<and> so_ready (ks ! i) = OPENED)"

fun announce1 :: "str set \<Rightarrow> wire \<Rightarrow> str set" where
  "announce1 A (WSub c) = insert c A"
| "announce1 A (WUnsub c) = A - {c}"
| "announce1 A (WOther _ _ _) = A"

definition announce :: "str set \<Rightarrow> wire list \<Rightarrow> str set" where
  "announce A ws = foldl announce1 A ws"

abbreviation announced :: "wire list \<Rightarrow> str set" where
  "announced \<equiv> announce {}"

lemma announce_simps [simp]:
  "announce A [] = A" "announce A (w # ws) = announce (announce1 A w) ws" "announce A (ws @ vs) = announce (announce A ws) vs"
  by (simp_all add: announce_def)

lemma announce_subs [simp]: "announce A (map WSub cs) = A \<union> set cs"
  by (induction cs arbitrary: A) auto

lemma announce_subs_o [simp]: "announce A (map (WSub \<circ> f) xs) = A \<union> f ` set xs"
  by (induction xs arbitrary: A) auto

lemma length_upd_sock [simp]: "length (upd_sock i f ks) = length ks"
  by (simp add: upd_sock_def)

lemma nth_upd_sock: "j < length ks \<Longrightarrow> upd_sock i f ks ! j = (if i = j then f (ks ! j) else ks ! j)"
  by (auto simp: upd_sock_def)

lemma sock_simps [simp]:
  "so_ready new_sock = CONNECTING" "so_sent new_sock = []"
  "so_sent (close_sock k) = so_sent k" "so_ready (send_sock ws k) = so_ready k"
  "so_sent (send_sock ws k) = so_sent k @ ws"
  "so_ready (close_sock k) \<noteq> OPENED" "so_ready (close_sock k) \<noteq> CONNECTING"
  by (cases "so_ready k"; simp add: new_sock_def close_sock_def send_sock_def)+

section \<open>The hub of the backend\<close>

text \<open>
  What the hub knows of a connection: the identifier of its user, which texts parse as identifiers (\<open>uuid.Parse\<close>),
  and the answers of the database about conversations and markets.
\<close>

record hub_env =
  hb_user :: str
  hb_uuid :: "str \<Rightarrow> bool"
  hb_member :: "str \<Rightarrow> bool"
  hb_market :: "str \<Rightarrow> bool"

definition hub_own :: "hub_env \<Rightarrow> str" where
  "hub_own B = lit ''user:'' @ hb_user B"

definition validChannel :: "hub_env \<Rightarrow> str \<Rightarrow> bool" where
  "validChannel B c = (if starts_with c (lit ''dm:'') then hb_uuid B (drop 3 c)
     else if starts_with c (lit ''book:'') then hb_uuid B (drop 5 c)
     else if starts_with c (lit ''user:'') then hb_uuid B (drop 5 c) else False)"

definition canJoinChannel :: "hub_env \<Rightarrow> str \<Rightarrow> bool" where
  "canJoinChannel B c = (if starts_with c (lit ''dm:'') then hb_uuid B (drop 3 c) \<and> hb_member B (drop 3 c)
     else if starts_with c (lit ''book:'') then hb_uuid B (drop 5 c) \<and> hb_market B (drop 5 c) else False)"

text \<open>\<open>subscribe\<close> joins or refuses, \<open>unsubscribe\<close> leaves; the user's own channel is there from \<open>Add\<close> on and stays.\<close>

definition hub_admits :: "hub_env \<Rightarrow> str \<Rightarrow> bool" where
  "hub_admits B c \<longleftrightarrow> validChannel B c
     \<and> (if starts_with c (lit ''user:'') then c = hub_own B else canJoinChannel B c)"

fun hub_frame :: "hub_env \<Rightarrow> str set \<Rightarrow> wire \<Rightarrow> str set" where
  "hub_frame B A (WSub c) = (if hub_admits B c then insert c A else A)"
| "hub_frame B A (WUnsub c) = (if starts_with c (lit ''user:'') then A else A - {c})"
| "hub_frame B A (WOther _ _ _) = A"

definition hub_channels :: "hub_env \<Rightarrow> wire list \<Rightarrow> str set" where
  "hub_channels B ws = foldl (hub_frame B) {hub_own B} ws"

lemma hub_own_prefix: "starts_with (hub_own B) (lit ''user:'')"
  by (simp add: hub_own_def starts_with_append)

lemma hub_frames_announced:
  "foldl (hub_frame B) (insert (hub_own B) {c \<in> A. hub_admits B c}) ws
    = insert (hub_own B) {c \<in> announce A ws. hub_admits B c}"
proof (induction ws arbitrary: A)
  case (Cons w ws)
  have "hub_frame B (insert (hub_own B) {c \<in> A. hub_admits B c}) w = insert (hub_own B) {c \<in> announce1 A w. hub_admits B c}"
    using hub_own_prefix [of B] by (cases w) (auto simp: hub_admits_def)
  then show ?case by (simp add: Cons.IH)
qed simp

text \<open>What the hub has for a connection is the user's own channel and what was announced and is admitted.\<close>

lemma hub_channels_announced: "hub_channels B ws = insert (hub_own B) {c \<in> announced ws. hub_admits B c}"
  using hub_frames_announced [of B "{}" ws] by (simp add: hub_channels_def)

definition live_count :: "sock list \<Rightarrow> nat" where
  "live_count ks = length (filter (\<lambda>k. so_ready k = OPENED) ks)"

section \<open>The contract of a subscription table\<close>

datatype 'h sub_op = Add str 'h | Remove str 'h

locale channel_registry =
  fixes channels :: "'r \<Rightarrow> str list"
    and add :: "'r \<Rightarrow> str \<Rightarrow> 'h \<Rightarrow> 'r \<times> wire list"
    and remove :: "'r \<Rightarrow> str \<Rightarrow> 'h \<Rightarrow> 'r \<times> wire list"
    and ok :: "'r \<Rightarrow> bool"
  assumes add_ok: "ok r \<Longrightarrow> ok (fst (add r c h))"
    and remove_ok: "ok r \<Longrightarrow> ok (fst (remove r c h))"
    and add_wires: "ok r \<Longrightarrow> announce (set (channels r)) (snd (add r c h)) = set (channels (fst (add r c h)))"
    and remove_wires:
      "ok r \<Longrightarrow> announce (set (channels r)) (snd (remove r c h)) = set (channels (fst (remove r c h)))"
begin

lemma resubscribe: "announced (map WSub (channels r)) = set (channels r)"
  by simp

lemma add_synced:
  "ok r \<Longrightarrow> announced ws = set (channels r)
   \<Longrightarrow> announced (ws @ snd (add r c h)) = set (channels (fst (add r c h)))"
  by (simp add: add_wires)

lemma remove_synced:
  "ok r \<Longrightarrow> announced ws = set (channels r)
   \<Longrightarrow> announced (ws @ snd (remove r c h)) = set (channels (fst (remove r c h)))"
  by (simp add: remove_wires)

fun perform :: "'h sub_op \<Rightarrow> 'r \<Rightarrow> 'r \<times> wire list" where
  "perform (Add c h) r = add r c h"
| "perform (Remove c h) r = remove r c h"

fun run :: "'r \<Rightarrow> 'h sub_op list \<Rightarrow> 'r \<times> wire list" where
  "run r [] = (r, [])"
| "run r (p # ops) = (fst (run (fst (perform p r)) ops), snd (perform p r) @ snd (run (fst (perform p r)) ops))"

lemma perform_ok: "ok r \<Longrightarrow> ok (fst (perform p r))"
  by (cases p) (simp_all add: add_ok remove_ok)

lemma perform_wires: "ok r \<Longrightarrow> announce (set (channels r)) (snd (perform p r)) = set (channels (fst (perform p r)))"
  by (cases p) (simp_all add: add_wires remove_wires)

lemma run_ok: "ok r \<Longrightarrow> ok (fst (run r ops))"
  by (induction ops arbitrary: r) (simp_all add: perform_ok)

lemma run_wires: "ok r \<Longrightarrow> announce (set (channels r)) (snd (run r ops)) = set (channels (fst (run r ops)))"
  by (induction ops arbitrary: r) (simp_all add: perform_ok perform_wires)

text \<open>However the table is used, the announced channels follow it, from the reconnect on.\<close>

theorem run_synced: "ok r \<Longrightarrow> announced (map WSub (channels r) @ snd (run r ops)) = set (channels (fst (run r ops)))"
  by (simp add: run_wires)

end

end
