(* ===== verification/WebSocket.thy ===== *)
theory WebSocket
  imports Realtime
begin

text \<open>
  \<open>web/lib/ws.ts\<close>: the class \<open>ThassaSocket\<close>. Its fields are a record; \<open>wk_socks\<close> are the WebSocket
  objects it ever created, \<open>wk_ws\<close> names the one \<open>this.ws\<close> refers to. A handler is a number. The
  asynchronous \<open>connect\<close> is its part up to the \<open>await\<close> of the token, and \<open>token_arrives\<close> for the
  rest; \<open>wk_connecting\<close> is true exactly between the two. \<open>wk_timer\<close> is the delay of the pending
  reconnect timer. \<open>web_step\<close> is what the page, the platform and the server can make happen.
\<close>

record web_socket =
  wk_ws :: "nat option"
  wk_tokenGetter :: bool
  wk_subs :: "(str, nat list) omap"
  wk_backoff :: nat
  wk_closedByUs :: bool
  wk_connecting :: bool
  wk_timer :: "nat option"
  wk_socks :: "sock list"

definition web_socket0 :: web_socket where
  "web_socket0 = \<lparr> wk_ws = None, wk_tokenGetter = False, wk_subs = [], wk_backoff = 1000,
     wk_closedByUs = False, wk_connecting = False, wk_timer = None, wk_socks = [] \<rparr>"

definition web_connect :: "web_socket \<Rightarrow> web_socket" where
  "web_connect s = (if wk_connecting s \<or> \<not> wk_tokenGetter s then s else s\<lparr>wk_connecting := True\<rparr>)"

definition web_token_arrives :: "str option \<Rightarrow> web_socket \<Rightarrow> web_socket" where
  "web_token_arrives token s =
     (if \<not> truthy token then s\<lparr>wk_connecting := False\<rparr>
      else s\<lparr>wk_ws := Some (length (wk_socks s)), wk_socks := wk_socks s @ [new_sock],
             wk_connecting := False\<rparr>)"

definition web_start :: "web_socket \<Rightarrow> web_socket" where
  "web_start s = web_connect (s\<lparr>wk_tokenGetter := True, wk_closedByUs := False\<rparr>)"

definition web_close_current :: "web_socket \<Rightarrow> web_socket" where
  "web_close_current s = (case wk_ws s of None \<Rightarrow> s | Some i \<Rightarrow> s\<lparr>wk_socks := upd_sock i close_sock (wk_socks s)\<rparr>)"

definition web_stop :: "web_socket \<Rightarrow> web_socket" where
  "web_stop s = (web_close_current (s\<lparr>wk_closedByUs := True, wk_timer := None\<rparr>))\<lparr>wk_ws := None\<rparr>"

definition web_scheduleReconnect :: "web_socket \<Rightarrow> web_socket" where
  "web_scheduleReconnect s = s\<lparr>wk_timer := Some (wk_backoff s)\<rparr>"

definition web_timer_fires :: "web_socket \<Rightarrow> web_socket" where
  "web_timer_fires s = web_connect (s\<lparr>wk_timer := None, wk_backoff := min (wk_backoff s * 2) 15000\<rparr>)"

text \<open>The event handlers of socket \<open>i\<close>, after the platform has moved its \<open>readyState\<close>.\<close>

definition web_on_open :: "nat \<Rightarrow> web_socket \<Rightarrow> web_socket" where
  "web_on_open i s = s\<lparr>wk_backoff := 1000,
     wk_socks := upd_sock i (send_sock (map WSub (om_keys (wk_subs s)))) (wk_socks s)\<rparr>"

definition web_on_message :: "ws_frame option \<Rightarrow> web_socket \<Rightarrow> (nat \<times> ws_frame) list" where
  "web_on_message parsed s =
     (case parsed of None \<Rightarrow> []
      | Some frame \<Rightarrow>
          (case om_get (wk_subs s) (frame_channel frame) of
             None \<Rightarrow> []
           | Some handlers \<Rightarrow> map (\<lambda>h. (h, frame)) handlers))"

definition web_on_close :: "web_socket \<Rightarrow> web_socket" where
  "web_on_close s = (let s = s\<lparr>wk_ws := None\<rparr> in if \<not> wk_closedByUs s then web_scheduleReconnect s else s)"

definition web_on_error :: "nat \<Rightarrow> web_socket \<Rightarrow> web_socket" where
  "web_on_error i s = s\<lparr>wk_socks := upd_sock i close_sock (wk_socks s)\<rparr>"

text \<open>The table of handlers, with the frames to send if the socket is open.\<close>

definition web_subs_add :: "(str, nat list) omap \<Rightarrow> str \<Rightarrow> nat \<Rightarrow> (str, nat list) omap \<times> wire list" where
  "web_subs_add subs channel handler =
     (let found = om_get subs channel
      in (om_set subs channel (os_add (or_else found []) handler),
          if found = None then [WSub channel] else []))"

definition web_subs_remove :: "(str, nat list) omap \<Rightarrow> str \<Rightarrow> nat \<Rightarrow> (str, nat list) omap \<times> wire list" where
  "web_subs_remove subs channel handler =
     (case om_get subs channel of
        None \<Rightarrow> (subs, [])
      | Some s \<Rightarrow> (let s = os_del s handler in
          if s = [] then (om_del subs channel, [WUnsub channel]) else (om_set subs channel s, [])))"

definition web_send_open :: "wire list \<Rightarrow> web_socket \<Rightarrow> web_socket" where
  "web_send_open ws s = (if sock_open (wk_socks s) (wk_ws s)
     then s\<lparr>wk_socks := upd_sock (the (wk_ws s)) (send_sock ws) (wk_socks s)\<rparr> else s)"

definition web_subscribe :: "str \<Rightarrow> nat \<Rightarrow> web_socket \<Rightarrow> web_socket" where
  "web_subscribe channel handler s =
     (let (subs, ws) = web_subs_add (wk_subs s) channel handler in web_send_open ws (s\<lparr>wk_subs := subs\<rparr>))"

definition web_unsubscribe :: "str \<Rightarrow> nat \<Rightarrow> web_socket \<Rightarrow> web_socket" where
  "web_unsubscribe channel handler s =
     (let (subs, ws) = web_subs_remove (wk_subs s) channel handler in web_send_open ws (s\<lparr>wk_subs := subs\<rparr>))"

definition web_send :: "str \<Rightarrow> str \<Rightarrow> json option \<Rightarrow> web_socket \<Rightarrow> web_socket" where
  "web_send type channel payload s = web_send_open [WOther type channel payload] s"

text \<open>\<open>useChannel\<close>: mounting subscribes, unmounting runs the returned closure; \<open>null\<close> disables it.\<close>

definition useChannel_mount :: "str option \<Rightarrow> nat \<Rightarrow> web_socket \<Rightarrow> web_socket" where
  "useChannel_mount channel handler s =
     (case non_empty channel of None \<Rightarrow> s | Some c \<Rightarrow> web_subscribe c handler s)"

definition useChannel_unmount :: "str option \<Rightarrow> nat \<Rightarrow> web_socket \<Rightarrow> web_socket" where
  "useChannel_unmount channel handler s =
     (case non_empty channel of None \<Rightarrow> s | Some c \<Rightarrow> web_unsubscribe c handler s)"

definition web_ready :: "ready_state \<Rightarrow> nat \<Rightarrow> web_socket \<Rightarrow> web_socket" where
  "web_ready r i s = s\<lparr>wk_socks := upd_sock i (so_ready_update (\<lambda>_. r)) (wk_socks s)\<rparr>"

definition sock_ready :: "nat \<Rightarrow> web_socket \<Rightarrow> ready_state option" where
  "sock_ready i s = (if i < length (wk_socks s) then Some (so_ready (wk_socks s ! i)) else None)"

inductive web_step :: "web_socket \<Rightarrow> web_socket \<Rightarrow> bool" where
  start: "web_step s (web_start s)"
| stop: "web_step s (web_stop s)"
| token: "wk_connecting s \<Longrightarrow> web_step s (web_token_arrives t s)"
| opens: "sock_ready i s = Some CONNECTING \<Longrightarrow> web_step s (web_on_open i (web_ready OPENED i s))"
| errs: "sock_ready i s = Some CONNECTING \<or> sock_ready i s = Some OPENED \<Longrightarrow> web_step s (web_on_error i s)"
| closes: "sock_ready i s \<noteq> None \<Longrightarrow> sock_ready i s \<noteq> Some CLOSED
    \<Longrightarrow> web_step s (web_on_close (web_ready CLOSED i s))"
| timer: "wk_timer s \<noteq> None \<Longrightarrow> web_step s (web_timer_fires s)"
| mounts: "web_step s (useChannel_mount c h s)"
| unmounts: "web_step s (useChannel_unmount c h s)"
| sends: "web_step s (web_send ty c p s)"

inductive web_reachable :: "web_socket \<Rightarrow> bool" where
  init: "web_reachable web_socket0"
| step: "web_reachable s \<Longrightarrow> web_step s t \<Longrightarrow> web_reachable t"

inductive_cases web_step_E: "web_step s t"

text \<open>The same steps as a function of the event, for concrete runs.\<close>

datatype web_action = DoStart | DoStop | Token "str option" | Opens nat | Errs nat | Closes nat | Timer
  | Mounts "str option" nat | Unmounts "str option" nat | Sends str str "json option"

fun web_act :: "web_action \<Rightarrow> web_socket \<Rightarrow> web_socket option" where
  "web_act DoStart s = Some (web_start s)"
| "web_act DoStop s = Some (web_stop s)"
| "web_act (Token t) s = (if wk_connecting s then Some (web_token_arrives t s) else None)"
| "web_act (Opens i) s =
     (if sock_ready i s = Some CONNECTING then Some (web_on_open i (web_ready OPENED i s)) else None)"
| "web_act (Errs i) s =
     (if sock_ready i s = Some CONNECTING \<or> sock_ready i s = Some OPENED then Some (web_on_error i s) else None)"
| "web_act (Closes i) s =
     (if sock_ready i s \<noteq> None \<and> sock_ready i s \<noteq> Some CLOSED then Some (web_on_close (web_ready CLOSED i s)) else None)"
| "web_act Timer s = (if wk_timer s \<noteq> None then Some (web_timer_fires s) else None)"
| "web_act (Mounts c h) s = Some (useChannel_mount c h s)"
| "web_act (Unmounts c h) s = Some (useChannel_unmount c h s)"
| "web_act (Sends ty c p) s = Some (web_send ty c p s)"

fun web_play :: "web_action list \<Rightarrow> web_socket \<Rightarrow> web_socket option" where
  "web_play [] s = Some s"
| "web_play (a # as) s = (case web_act a s of None \<Rightarrow> None | Some t \<Rightarrow> web_play as t)"

lemma web_act_step: "web_act a s = Some t \<Longrightarrow> web_step s t"
  by (cases a) (auto simp del: not_None_eq split: if_splits intro: web_step.intros)

lemma web_act_reachable: "web_reachable s \<Longrightarrow> web_act a s = Some t \<Longrightarrow> web_reachable t"
  by (rule web_reachable.step [OF _ web_act_step])

lemma web_play_reachable: "web_reachable s \<Longrightarrow> web_play as s = Some t \<Longrightarrow> web_reachable t"
  by (induction as arbitrary: s) (auto split: option.splits dest: web_act_reachable)

section \<open>Lemmas\<close>

definition web_subs_ok :: "(str, nat list) omap \<Rightarrow> bool" where
  "web_subs_ok subs \<longleftrightarrow> om_ok subs \<and> (\<forall>p \<in> set subs. snd p \<noteq> [] \<and> distinct (snd p))"

lemma om_set_mem: "p \<in> set (om_set m k v) \<Longrightarrow> p = (k, v) \<or> p \<in> set m"
  by (induction m k v rule: om_set.induct) (auto split: if_splits)

lemma om_del_mem: "p \<in> set (om_del m k) \<Longrightarrow> p \<in> set m"
  by (auto simp: om_del_def)

lemma os_add_not_Nil [simp]: "os_add xs x \<noteq> []"
  by (auto simp: os_add_def)

lemma get_ok: "web_subs_ok subs \<Longrightarrow> om_get subs c = Some hs \<Longrightarrow> hs \<noteq> [] \<and> distinct hs"
  by (force simp: web_subs_ok_def dest: map_of_SomeD)

lemma found_distinct: "web_subs_ok subs \<Longrightarrow> distinct (or_else (om_get subs c) [])"
  by (cases "om_get subs c") (auto dest: get_ok)

lemma om_set_subs_ok: "web_subs_ok subs \<Longrightarrow> hs \<noteq> [] \<Longrightarrow> distinct hs \<Longrightarrow> web_subs_ok (om_set subs c hs)"
  by (auto simp: web_subs_ok_def dest!: om_set_mem)

lemma om_del_subs_ok: "web_subs_ok subs \<Longrightarrow> web_subs_ok (om_del subs c)"
  by (auto simp: web_subs_ok_def dest!: om_del_mem)

interpretation web_registry: channel_registry om_keys web_subs_add web_subs_remove web_subs_ok
proof
  fix r :: "(str, nat list) omap" and c :: str and h :: nat
  assume ok: "web_subs_ok r"
  show "web_subs_ok (fst (web_subs_add r c h))"
    using ok by (simp add: web_subs_add_def Let_def om_set_subs_ok found_distinct)
  show "web_subs_ok (fst (web_subs_remove r c h))"
    using ok get_ok [OF ok, of c]
    by (cases "om_get r c") (simp_all add: web_subs_remove_def Let_def om_del_subs_ok om_set_subs_ok)
  show "announce (set (om_keys r)) (snd (web_subs_add r c h)) = set (om_keys (fst (web_subs_add r c h)))"
    using map_of_eq_None_iff [of r c] by (auto simp: web_subs_add_def Let_def)
  show "announce (set (om_keys r)) (snd (web_subs_remove r c h)) = set (om_keys (fst (web_subs_remove r c h)))"
    using map_of_eq_None_iff [of r c]
    by (cases "om_get r c") (auto simp: web_subs_remove_def Let_def)
qed

text \<open>The invariant: a table of non-empty handler sets, a current socket the server agrees with, a bounded delay.\<close>

definition web_sync :: "web_socket \<Rightarrow> bool" where
  "web_sync s \<longleftrightarrow>
     (\<forall>i. wk_ws s = Some i \<longrightarrow> i < length (wk_socks s) \<and>
        (so_ready (wk_socks s ! i) = OPENED \<longrightarrow> announced (so_sent (wk_socks s ! i)) = set (om_keys (wk_subs s))))
     \<and> (\<forall>k \<in> set (wk_socks s). so_ready k = CONNECTING \<longrightarrow> so_sent k = [])"

definition web_delay_ok :: "web_socket \<Rightarrow> bool" where
  "web_delay_ok s \<longleftrightarrow> 1000 \<le> wk_backoff s \<and> wk_backoff s \<le> 15000
     \<and> (\<forall>d. wk_timer s = Some d \<longrightarrow> 1000 \<le> d \<and> d \<le> 15000)"

lemma connect_simps [simp]:
  "wk_ws (web_connect s) = wk_ws s" "wk_subs (web_connect s) = wk_subs s" "wk_socks (web_connect s) = wk_socks s"
  "wk_backoff (web_connect s) = wk_backoff s" "wk_timer (web_connect s) = wk_timer s"
  "wk_closedByUs (web_connect s) = wk_closedByUs s"
  by (simp_all add: web_connect_def)

lemma send_open_simps [simp]:
  "wk_ws (web_send_open w s) = wk_ws s" "wk_subs (web_send_open w s) = wk_subs s"
  "wk_backoff (web_send_open w s) = wk_backoff s" "wk_timer (web_send_open w s) = wk_timer s"
  by (simp_all add: web_send_open_def)

lemma close_current_simps [simp]:
  "wk_subs (web_close_current s) = wk_subs s" "wk_backoff (web_close_current s) = wk_backoff s"
  "wk_timer (web_close_current s) = wk_timer s"
  by (simp_all add: web_close_current_def split: option.splits)

lemma upd_sock_mem: "k \<in> set (upd_sock i f ks) \<Longrightarrow> k \<in> set ks \<or> (\<exists>k0 \<in> set ks. k = f k0)"
  by (auto simp: upd_sock_def set_conv_nth nth_list_update split: if_splits)

text \<open>Every operation but the subscriptions keeps the table, so that \<open>web_sync\<close> is about the sockets.\<close>

lemma send_open_sync:
  assumes "web_sync s"
    and "announce (set (om_keys (wk_subs s))) ws = set (om_keys subs)"
  shows "web_sync (web_send_open ws (s\<lparr>wk_subs := subs\<rparr>))"
proof (cases "sock_open (wk_socks s) (wk_ws s)")
  case False
  with assms show ?thesis
    by (auto simp: web_sync_def web_send_open_def sock_open_def split: option.splits)
next
  case True
  then obtain i where i: "wk_ws s = Some i" "i < length (wk_socks s)" "so_ready (wk_socks s ! i) = OPENED"
    by (auto simp: sock_open_def split: option.splits)
  with assms True have "announced (so_sent (wk_socks s ! i)) = set (om_keys (wk_subs s))"
    "announce (set (om_keys (wk_subs s))) ws = set (om_keys subs)"
    by (auto simp: web_sync_def)
  moreover have "so_ready k = CONNECTING \<Longrightarrow> so_sent k = []"
    if "k \<in> set (upd_sock i (send_sock ws) (wk_socks s))" for k
    using that assms(1) i by (auto simp: web_sync_def upd_sock_def set_conv_nth nth_list_update split: if_splits)
  ultimately show ?thesis
    using i True by (simp add: web_sync_def web_send_open_def nth_upd_sock sock_open_def)
qed

lemma subscribe_sync: "web_sync s \<Longrightarrow> web_subs_ok (wk_subs s) \<Longrightarrow> web_sync (web_subscribe c h s)"
  using web_registry.add_wires [of "wk_subs s" c h]
  by (auto simp: web_subscribe_def split: prod.splits intro!: send_open_sync)

lemma unsubscribe_sync: "web_sync s \<Longrightarrow> web_subs_ok (wk_subs s) \<Longrightarrow> web_sync (web_unsubscribe c h s)"
  using web_registry.remove_wires [of "wk_subs s" c h]
  by (auto simp: web_unsubscribe_def split: prod.splits intro!: send_open_sync)

lemma send_sync: "web_sync s \<Longrightarrow> web_sync (web_send ty c p s)"
  using send_open_sync [of s "[WOther ty c p]" "wk_subs s"] by (simp add: web_send_def)

text \<open>Steps that only move \<open>readyState\<close> forward, append a new socket, or drop the current one.\<close>

lemma sync_no_ws: "(\<forall>k \<in> set (wk_socks s). so_ready k = CONNECTING \<longrightarrow> so_sent k = []) \<Longrightarrow> wk_ws s = None \<Longrightarrow> web_sync s"
  by (simp add: web_sync_def)

lemma upd_connecting:
  "\<forall>k \<in> set ks. so_ready k = CONNECTING \<longrightarrow> so_sent k = [] \<Longrightarrow> (\<And>k. so_ready (f k) \<noteq> CONNECTING)
   \<Longrightarrow> \<forall>k \<in> set (upd_sock i f ks). so_ready k = CONNECTING \<longrightarrow> so_sent k = []"
  by (auto dest!: upd_sock_mem)

lemma stop_sync: "web_sync s \<Longrightarrow> web_sync (web_stop s)"
  by (cases "wk_ws s")
     (auto simp: web_sync_def web_stop_def web_close_current_def dest!: upd_sock_mem split: option.splits)

lemma close_sync: "web_sync s \<Longrightarrow> web_sync (web_on_close (web_ready CLOSED i s))"
  by (auto simp: web_sync_def web_on_close_def web_ready_def Let_def web_scheduleReconnect_def dest!: upd_sock_mem)

lemma error_sync: "web_sync s \<Longrightarrow> web_sync (web_on_error i s)"
  by (auto simp: web_sync_def web_on_error_def nth_upd_sock dest!: upd_sock_mem split: if_splits)

lemma token_sync: "web_sync s \<Longrightarrow> web_sync (web_token_arrives t s)"
  by (auto simp: web_sync_def web_token_arrives_def nth_append split: if_splits)

lemma open_sync:
  assumes "web_sync s" "sock_ready i s = Some CONNECTING"
  shows "web_sync (web_on_open i (web_ready OPENED i s))"
proof -
  have i: "i < length (wk_socks s)" "so_sent (wk_socks s ! i) = []"
    using assms by (auto simp: sock_ready_def web_sync_def split: if_splits)
  moreover have "\<forall>k \<in> set (upd_sock i (send_sock ws) (upd_sock i (so_ready_update (\<lambda>_. OPENED)) (wk_socks s))).
      so_ready k = CONNECTING \<longrightarrow> so_sent k = []" for ws
    using assms(1) i(1) by (auto simp: web_sync_def upd_sock_def set_conv_nth nth_list_update split: if_splits)
  ultimately show ?thesis
    using assms(1) by (auto simp: web_sync_def web_on_open_def web_ready_def nth_upd_sock)
qed

lemma wk_subs_subscribe [simp]:
  "wk_subs (web_subscribe c h s) = fst (web_subs_add (wk_subs s) c h)"
  "wk_subs (web_unsubscribe c h s) = fst (web_subs_remove (wk_subs s) c h)"
  by (simp_all add: web_subscribe_def web_unsubscribe_def split: prod.splits)

lemma step_subs_ok: "web_step s t \<Longrightarrow> web_subs_ok (wk_subs s) \<Longrightarrow> web_subs_ok (wk_subs t)"
proof (induction rule: web_step.induct)
  case (mounts s c h)
  then show ?case
    using web_registry.add_ok [of "wk_subs s"]
    by (cases "non_empty c") (simp_all add: useChannel_mount_def)
next
  case (unmounts s c h)
  then show ?case
    using web_registry.remove_ok [of "wk_subs s"]
    by (cases "non_empty c") (simp_all add: useChannel_unmount_def)
qed (simp_all add: web_start_def web_stop_def web_token_arrives_def web_on_open_def web_ready_def web_on_error_def
      web_on_close_def Let_def web_scheduleReconnect_def web_timer_fires_def web_send_def)

lemma step_sync: "web_step s t \<Longrightarrow> web_subs_ok (wk_subs s) \<Longrightarrow> web_sync s \<Longrightarrow> web_sync t"
proof (induction rule: web_step.induct)
  case (start s)
  then show ?case by (simp add: web_sync_def web_start_def)
next
  case (timer s)
  then show ?case by (simp add: web_sync_def web_timer_fires_def)
next
  case (mounts s c h)
  then show ?case by (simp add: useChannel_mount_def subscribe_sync split: option.splits)
next
  case (unmounts s c h)
  then show ?case by (simp add: useChannel_unmount_def unsubscribe_sync split: option.splits)
qed (simp_all add: stop_sync token_sync open_sync error_sync close_sync send_sync)

lemma step_delay: "web_step s t \<Longrightarrow> web_delay_ok s \<Longrightarrow> web_delay_ok t"
  by (induction rule: web_step.induct)
     (auto simp: web_delay_ok_def web_start_def web_stop_def web_token_arrives_def web_on_open_def web_ready_def
        web_on_error_def web_on_close_def Let_def web_scheduleReconnect_def web_timer_fires_def web_send_def
        useChannel_mount_def useChannel_unmount_def web_subscribe_def web_unsubscribe_def
      split: option.splits prod.splits)

lemma reachable_inv: "web_reachable s \<Longrightarrow> web_subs_ok (wk_subs s) \<and> web_sync s \<and> web_delay_ok s"
proof (induction rule: web_reachable.induct)
  case init
  then show ?case by (simp add: web_socket0_def web_subs_ok_def web_sync_def web_delay_ok_def)
qed (blast intro: step_subs_ok step_sync step_delay)

section \<open>Properties\<close>


text \<open>
  A frame reaches the handlers of its channel, each exactly once, and no other; a handler that
  subscribes gets the next frame, and one that unsubscribes does not, whoever else is subscribed.
\<close>

theorem web_frame_dispatch:
  assumes "web_reachable s"
  shows "distinct (web_on_message (Some f) s)
    \<and> (h, f) \<in> set (web_on_message (Some f) (web_subscribe (frame_channel f) h s))
    \<and> set (web_on_message (Some f) (web_unsubscribe (frame_channel f) h s)) = set (web_on_message (Some f) s) - {(h, f)}
    \<and> (c \<noteq> frame_channel f \<longrightarrow> web_on_message (Some f) (web_subscribe c h s) = web_on_message (Some f) s
          \<and> web_on_message (Some f) (web_unsubscribe c h s) = web_on_message (Some f) s)"
proof (intro conjI impI)
  have ok: "web_subs_ok (wk_subs s)" using reachable_inv [OF assms] by simp
  show "distinct (web_on_message (Some f) s)"
    using get_ok [OF ok, of "frame_channel f"]
    by (cases "om_get (wk_subs s) (frame_channel f)") (auto simp: web_on_message_def distinct_map inj_on_def)
  show "(h, f) \<in> set (web_on_message (Some f) (web_subscribe (frame_channel f) h s))"
    by (simp add: web_on_message_def web_subs_add_def Let_def)
  show "set (web_on_message (Some f) (web_unsubscribe (frame_channel f) h s))
      = set (web_on_message (Some f) s) - {(h, f)}"
  proof (cases "om_get (wk_subs s) (frame_channel f)")
    case None
    then show ?thesis by (simp add: web_on_message_def web_subs_remove_def)
  next
    case (Some hs)
    show ?thesis
    proof (cases "os_del hs h = []")
      case True
      then have "set hs - {h} = {}" using set_os_del [of hs h] by simp
      with Some True show ?thesis by (auto simp: web_on_message_def web_subs_remove_def)
    next
      case False
      with Some show ?thesis by (auto simp: web_on_message_def web_subs_remove_def Let_def)
    qed
  qed
  assume "c \<noteq> frame_channel f"
  then show "web_on_message (Some f) (web_subscribe c h s) = web_on_message (Some f) s"
    "web_on_message (Some f) (web_unsubscribe c h s) = web_on_message (Some f) s"
    by (simp_all add: web_on_message_def web_subs_add_def web_subs_remove_def Let_def split: option.splits)
qed

lemma failed_rounds:
  assumes "wk_backoff s = 1000" "\<not> wk_closedByUs s"
  shows "wk_backoff (((web_on_close \<circ> web_timer_fires) ^^ n) (web_on_close s)) = min (1000 * 2 ^ n) 15000
    \<and> wk_timer (((web_on_close \<circ> web_timer_fires) ^^ n) (web_on_close s)) = Some (min (1000 * 2 ^ n) 15000)
    \<and> \<not> wk_closedByUs (((web_on_close \<circ> web_timer_fires) ^^ n) (web_on_close s))"
proof (induction n)
  case 0
  then show ?case using assms by (simp add: web_on_close_def web_scheduleReconnect_def)
next
  case (Suc n)
  then show ?case by (simp add: web_on_close_def web_scheduleReconnect_def web_timer_fires_def min_def)
qed

text \<open>
  Reconnects back off exponentially within bounds: a pending reconnect waits between 1 and 15
  seconds in every reachable state, and after \<open>n\<close> failed attempts in a row the wait is
  \<open>min (1000 * 2 ^ n) 15000\<close> milliseconds.
\<close>

theorem web_reconnect_backoff:
  assumes "web_reachable s"
  shows "(wk_timer s = Some d \<longrightarrow> 1000 \<le> d \<and> d \<le> 15000)
    \<and> (wk_backoff s = 1000 \<and> \<not> wk_closedByUs s \<longrightarrow>
        wk_timer (((web_on_close \<circ> web_timer_fires) ^^ n) (web_on_close s)) = Some (min (1000 * 2 ^ n) 15000))"
  using reachable_inv [OF assms] failed_rounds [of s n] by (auto simp: web_delay_ok_def)

section \<open>Runs\<close>

text \<open>A page that subscribes, connects, and is signed in again before the old socket has closed.\<close>

definition restart_run :: "web_action list" where
  "restart_run = [Mounts (Some (lit ''c'')) 7, DoStart, Token (Some (lit ''t'')), Opens 0,
     DoStop, DoStart, Token (Some (lit ''t'')), Closes 0, Opens 1, Timer, Token (Some (lit ''t'')), Opens 2]"

definition stopped_run :: "web_action list" where
  "stopped_run = [Mounts (Some (lit ''c'')) 7, DoStart, DoStop, Token (Some (lit ''t'')), Opens 0]"

definition simple_run :: "web_action list" where
  "simple_run = [Mounts (Some (lit ''c'')) 7, DoStart, Token (Some (lit ''t'')), Opens 0]"

lemmas web_run_simps = restart_run_def stopped_run_def simple_run_def web_socket0_def useChannel_mount_def non_empty_def
  lit_def web_subscribe_def web_subs_add_def Let_def web_send_open_def sock_open_def web_start_def web_connect_def
  web_token_arrives_def new_sock_def sock_ready_def web_on_open_def web_ready_def upd_sock_def send_sock_def
  web_stop_def web_close_current_def close_sock_def web_on_close_def web_scheduleReconnect_def web_timer_fires_def
  os_add_def

lemma restart_run_result:
  "web_play restart_run web_socket0 = Some \<lparr> wk_ws = Some 2, wk_tokenGetter = True, wk_subs = [([99], [7])],
     wk_backoff = 1000, wk_closedByUs = False, wk_connecting = False, wk_timer = None,
     wk_socks = [\<lparr> so_ready = CLOSED, so_sent = [WSub [99]] \<rparr>, \<lparr> so_ready = OPENED, so_sent = [WSub [99]] \<rparr>,
       \<lparr> so_ready = OPENED, so_sent = [WSub [99]] \<rparr>] \<rparr>"
  by (simp add: web_run_simps)

lemma stopped_run_result:
  "web_play stopped_run web_socket0 = Some \<lparr> wk_ws = Some 0, wk_tokenGetter = True, wk_subs = [([99], [7])],
     wk_backoff = 1000, wk_closedByUs = True, wk_connecting = False, wk_timer = None,
     wk_socks = [\<lparr> so_ready = OPENED, so_sent = [WSub [99]] \<rparr>] \<rparr>"
  by (simp add: web_run_simps)

lemma simple_run_result:
  "web_play simple_run web_socket0 = Some \<lparr> wk_ws = Some 0, wk_tokenGetter = True, wk_subs = [([99], [7])],
     wk_backoff = 1000, wk_closedByUs = False, wk_connecting = False, wk_timer = None,
     wk_socks = [\<lparr> so_ready = OPENED, so_sent = [WSub [99]] \<rparr>] \<rparr>"
  by (simp add: web_run_simps)

lemmas run_reachable = web_play_reachable [OF web_reachable.init]

text \<open>
  The socket is not always single. The \<open>close\<close> handler of a socket clears \<open>this.ws\<close> and
  schedules a reconnect without asking whether it still is the current one, so a \<open>stop\<close> followed by
  a \<open>start\<close> before the old socket has closed ends with two open sockets, both subscribed to the
  same channel (every frame arrives twice), of which \<open>stop\<close> closes only one. And \<open>connect\<close> does not look at
  \<open>closedByUs\<close> when the token arrives, so a \<open>stop\<close> during the wait leaves an open socket behind.
\<close>

theorem web_socket_not_single:
  "(\<exists>s. web_reachable s \<and> live_count (wk_socks s) = 2 \<and> live_count (wk_socks (web_stop s)) = 1
      \<and> lit ''c'' \<in> announced (so_sent (wk_socks s ! 1)) \<inter> announced (so_sent (wk_socks s ! 2)))
   \<and> (\<exists>s. web_reachable s \<and> wk_closedByUs s \<and> sock_open (wk_socks s) (wk_ws s))"
proof
  show "\<exists>s. web_reachable s \<and> live_count (wk_socks s) = 2 \<and> live_count (wk_socks (web_stop s)) = 1
      \<and> lit ''c'' \<in> announced (so_sent (wk_socks s ! 1)) \<inter> announced (so_sent (wk_socks s ! 2))"
    by (rule exI, rule conjI, rule run_reachable [OF restart_run_result])
       (simp add: live_count_def web_run_simps)
  show "\<exists>s. web_reachable s \<and> wk_closedByUs s \<and> sock_open (wk_socks s) (wk_ws s)"
    by (rule exI, rule conjI, rule run_reachable [OF stopped_run_result]) (simp add: sock_open_def)
qed

text \<open>A hub for which only the texts of one character are identifiers, and the user takes part in conversation 1.\<close>

definition demo_hub :: hub_env where
  "demo_hub = \<lparr> hb_user = lit ''9'', hb_uuid = (\<lambda>t. length t = 1), hb_member = (\<lambda>t. t = lit ''1''), hb_market = (\<lambda>_. False) \<rparr>"

definition dm_run :: "web_action list" where
  "dm_run = [Mounts (Some (lit ''dm:1'')) 7, DoStart, Token (Some (lit ''t'')), Opens 0, Mounts (Some (lit ''book:3'')) 8,
     Mounts (Some (lit ''dm:2'')) 8]"

lemma dm_run_result:
  "web_play dm_run web_socket0 = Some \<lparr> wk_ws = Some 0, wk_tokenGetter = True,
     wk_subs = [(lit ''dm:1'', [7]), (lit ''book:3'', [8]), (lit ''dm:2'', [8])],
     wk_backoff = 1000, wk_closedByUs = False, wk_connecting = False, wk_timer = None,
     wk_socks = [\<lparr> so_ready = OPENED, so_sent = [WSub (lit ''dm:1''), WSub (lit ''book:3''), WSub (lit ''dm:2'')] \<rparr>] \<rparr>"
  by (simp add: dm_run_def web_run_simps)

lemma demo_hub_admits: "hub_own demo_hub = lit ''user:9''" "hub_admits demo_hub (lit ''dm:1'')" "\<not> hub_admits demo_hub (lit ''dm:2'')" "\<not> hub_admits demo_hub (lit ''book:3'')"
  by (simp_all add: hub_own_def hub_admits_def validChannel_def canJoinChannel_def demo_hub_def lit_Cons)


theorem web_frame_dispatch_witness:
  "\<exists>s. web_reachable s \<and> distinct (web_on_message (Some (OtherFrame (lit ''c'') [] JNull)) s)
    \<and> web_on_message (Some (OtherFrame (lit ''c'') [] JNull)) s \<noteq> []
    \<and> web_on_message (Some (OtherFrame (lit ''c'') [] JNull)) (web_subscribe (lit ''d'') 8 s)
        = web_on_message (Some (OtherFrame (lit ''c'') [] JNull)) s"
  using web_frame_dispatch [OF run_reachable [OF simple_run_result], of "OtherFrame (lit ''c'') [] JNull" 8 "lit ''d''"]
    run_reachable [OF simple_run_result]
  by (intro exI [of _ "the (web_play simple_run web_socket0)"])
     (simp add: simple_run_result, simp add: web_on_message_def lit_def)

theorem web_reconnect_backoff_witness:
  "\<exists>s. web_reachable s \<and> wk_timer (((web_on_close \<circ> web_timer_fires) ^^ 3) (web_on_close s)) = Some 8000"
  using web_reconnect_backoff [OF run_reachable [OF simple_run_result], of 1000 3] run_reachable [OF simple_run_result]
  by (intro exI [of _ "the (web_play simple_run web_socket0)"]) (simp add: simple_run_result)

end
