(* ===== verification/MobileSocket.thy ===== *)
theory MobileSocket
  imports Realtime MobileTypes
begin

text \<open>
  \<open>mobile/lib/ws.ts\<close>: the app's socket, a module with module-level variables (a record here) and
  a table of reference counts per channel. \<open>mw_pending\<close> counts the calls of \<open>connect\<close> that wait for
  their token: nothing in the code limits them to one. A timer is a delay under its handle;
  \<open>clearTimeout\<close> only knows the last handle. Listeners are numbers and do not throw.
\<close>

section \<open>Events\<close>

datatype ws_event =
    EvMessageNew str mob_message
  | EvTypingStart str mob_user_profile
  | EvTypingStop str mob_user_profile
  | EvRead str str str
  | EvReaction str str "(str, int) omap"
  | EvBookDelta str str "mob_book_level list" "mob_book_level list" "int option" "int option"
  | EvBookTrade str mob_trade str
  | EvMarketUpdate str str mob_market_state "bool option" "mob_market option"
  | EvNotification str app_notification
  | EvOrderUpdate str mob_order
  | EvWalletUpdate str rat

fun ev_channel :: "ws_event \<Rightarrow> str" where
  "ev_channel (EvMessageNew c _) = c"
| "ev_channel (EvTypingStart c _) = c"
| "ev_channel (EvTypingStop c _) = c"
| "ev_channel (EvRead c _ _) = c"
| "ev_channel (EvReaction c _ _) = c"
| "ev_channel (EvBookDelta c _ _ _ _ _) = c"
| "ev_channel (EvBookTrade c _ _) = c"
| "ev_channel (EvMarketUpdate c _ _ _ _) = c"
| "ev_channel (EvNotification c _) = c"
| "ev_channel (EvOrderUpdate c _) = c"
| "ev_channel (EvWalletUpdate c _) = c"

section \<open>The module state and its functions\<close>

record mob_socket =
  mw_ws :: "nat option"
  mw_isOpen :: bool
  mw_shouldRun :: bool
  mw_tokenGetter :: bool
  mw_timers :: "(nat, nat) omap"
  mw_reconnectTimer :: "nat option"
  mw_nextTimer :: nat
  mw_backoff :: nat
  mw_listeners :: "nat list"
  mw_subscriptions :: "(str, nat) omap"
  mw_pending :: nat
  mw_socks :: "sock list"

definition mob_socket0 :: mob_socket where
  "mob_socket0 = \<lparr> mw_ws = None, mw_isOpen = False, mw_shouldRun = False, mw_tokenGetter = False,
     mw_timers = [], mw_reconnectTimer = None, mw_nextTimer = 0, mw_backoff = 1000, mw_listeners = [],
     mw_subscriptions = [], mw_pending = 0, mw_socks = [] \<rparr>"

definition mob_rawSend :: "wire list \<Rightarrow> mob_socket \<Rightarrow> mob_socket" where
  "mob_rawSend ws s = (if sock_open (mw_socks s) (mw_ws s)
     then s\<lparr>mw_socks := upd_sock (the (mw_ws s)) (send_sock ws) (mw_socks s)\<rparr> else s)"

text \<open>\<open>connect\<close> up to its \<open>await\<close>; without a token getter it goes on with \<open>null\<close> and stops there.\<close>

definition mob_connect :: "mob_socket \<Rightarrow> mob_socket" where
  "mob_connect s = (if \<not> mw_shouldRun s \<or> mw_ws s \<noteq> None then s
     else if mw_tokenGetter s then s\<lparr>mw_pending := mw_pending s + 1\<rparr> else s)"

definition mob_token_arrives :: "str option \<Rightarrow> mob_socket \<Rightarrow> mob_socket" where
  "mob_token_arrives token s = (let s = s\<lparr>mw_pending := mw_pending s - 1\<rparr> in
     if \<not> mw_shouldRun s \<or> \<not> truthy token then s
     else s\<lparr>mw_ws := Some (length (mw_socks s)), mw_socks := mw_socks s @ [new_sock]\<rparr>)"

definition mob_on_open :: "mob_socket \<Rightarrow> mob_socket" where
  "mob_on_open s = mob_rawSend (map WSub (om_keys (mw_subscriptions s))) (s\<lparr>mw_isOpen := True, mw_backoff := 1000\<rparr>)"

definition mob_on_message :: "ws_event option \<Rightarrow> mob_socket \<Rightarrow> (nat \<times> ws_event) list" where
  "mob_on_message parsed s = (case parsed of None \<Rightarrow> [] | Some e \<Rightarrow> map (\<lambda>l. (l, e)) (mw_listeners s))"

definition mob_on_close :: "mob_socket \<Rightarrow> mob_socket" where
  "mob_on_close s = (let s = s\<lparr>mw_isOpen := False, mw_ws := None\<rparr> in
     if mw_shouldRun s
     then s\<lparr>mw_timers := mw_timers s @ [(mw_nextTimer s, mw_backoff s)], mw_reconnectTimer := Some (mw_nextTimer s),
            mw_nextTimer := mw_nextTimer s + 1, mw_backoff := min (mw_backoff s * 2) 15000\<rparr>
     else s)"

definition mob_on_error :: "nat \<Rightarrow> mob_socket \<Rightarrow> mob_socket" where
  "mob_on_error i s = s\<lparr>mw_socks := upd_sock i close_sock (mw_socks s)\<rparr>"

definition mob_timer_fires :: "nat \<Rightarrow> mob_socket \<Rightarrow> mob_socket" where
  "mob_timer_fires j s = mob_connect (s\<lparr>mw_timers := om_del (mw_timers s) j\<rparr>)"

definition startSocket :: "mob_socket \<Rightarrow> mob_socket" where
  "startSocket s = mob_connect (s\<lparr>mw_tokenGetter := True, mw_shouldRun := True\<rparr>)"

definition stopSocket :: "mob_socket \<Rightarrow> mob_socket" where
  "stopSocket s =
     (let s = s\<lparr>mw_shouldRun := False\<rparr>;
          s = (case mw_reconnectTimer s of None \<Rightarrow> s | Some j \<Rightarrow> s\<lparr>mw_timers := om_del (mw_timers s) j\<rparr>);
          s = (case mw_ws s of None \<Rightarrow> s | Some i \<Rightarrow> s\<lparr>mw_socks := upd_sock i close_sock (mw_socks s)\<rparr>)
      in s\<lparr>mw_ws := None, mw_isOpen := False, mw_subscriptions := []\<rparr>)"

definition wsSend :: "str \<Rightarrow> str \<Rightarrow> json option \<Rightarrow> mob_socket \<Rightarrow> mob_socket" where
  "wsSend type channel payload s = mob_rawSend [WOther type channel payload] s"

text \<open>The reference counts, with the frames to send if the socket is open. The second argument is unused: counts do not know who holds them.\<close>

definition subscriptions_add :: "(str, nat) omap \<Rightarrow> str \<Rightarrow> unit \<Rightarrow> (str, nat) omap \<times> wire list" where
  "subscriptions_add subs channel u =
     (let n = or_else (om_get subs channel) 0
      in (om_set subs channel (n + 1), if n = 0 then [WSub channel] else []))"

definition subscriptions_remove :: "(str, nat) omap \<Rightarrow> str \<Rightarrow> unit \<Rightarrow> (str, nat) omap \<times> wire list" where
  "subscriptions_remove subs channel u =
     (let n = or_else (om_get subs channel) 0
      in if n \<le> 1 then (om_del subs channel, [WUnsub channel]) else (om_set subs channel (n - 1), []))"

definition addSubscription :: "str \<Rightarrow> mob_socket \<Rightarrow> mob_socket" where
  "addSubscription channel s =
     (let (subs, ws) = subscriptions_add (mw_subscriptions s) channel (); s = s\<lparr>mw_subscriptions := subs\<rparr>
      in if mw_isOpen s then mob_rawSend ws s else s)"

definition removeSubscription :: "str \<Rightarrow> mob_socket \<Rightarrow> mob_socket" where
  "removeSubscription channel s =
     (let (subs, ws) = subscriptions_remove (mw_subscriptions s) channel (); s = s\<lparr>mw_subscriptions := subs\<rparr>
      in if mw_isOpen s then mob_rawSend ws s else s)"

section \<open>The hooks\<close>

definition useSocket_mount :: "nat \<Rightarrow> str option \<Rightarrow> mob_socket \<Rightarrow> mob_socket" where
  "useSocket_mount listener channel s =
     (let s = s\<lparr>mw_listeners := os_add (mw_listeners s) listener\<rparr>;
          s = (case non_empty channel of None \<Rightarrow> s | Some c \<Rightarrow> addSubscription c s)
      in mob_connect s)"

definition useSocket_unmount :: "nat \<Rightarrow> str option \<Rightarrow> mob_socket \<Rightarrow> mob_socket" where
  "useSocket_unmount listener channel s =
     (let s = s\<lparr>mw_listeners := os_del (mw_listeners s) listener\<rparr>
      in case non_empty channel of None \<Rightarrow> s | Some c \<Rightarrow> removeSubscription c s)"

text \<open>What each hook subscribes to, and which events it lets through to the caller.\<close>

definition user_channel :: "str option \<Rightarrow> str option" where
  "user_channel userId = map_option (\<lambda>u. lit ''user:'' @ u) (non_empty userId)"

definition useUserChannel_accepts :: "ws_event \<Rightarrow> bool" where
  "useUserChannel_accepts e =
     (case e of EvNotification _ _ \<Rightarrow> True | EvOrderUpdate _ _ \<Rightarrow> True | EvWalletUpdate _ _ \<Rightarrow> True | _ \<Rightarrow> False)"

definition book_channel :: "str option \<Rightarrow> str option" where
  "book_channel marketId = map_option (\<lambda>m. lit ''book:'' @ m) (non_empty marketId)"

definition useBookChannel_accepts :: "str option \<Rightarrow> ws_event \<Rightarrow> bool" where
  "useBookChannel_accepts marketId e =
     ((case e of EvBookDelta _ _ _ _ _ _ \<Rightarrow> True | EvBookTrade _ _ _ \<Rightarrow> True | EvMarketUpdate _ _ _ _ _ \<Rightarrow> True | _ \<Rightarrow> False)
      \<and> (case non_empty marketId of None \<Rightarrow> False | Some m \<Rightarrow> ev_channel e = lit ''book:'' @ m))"

definition dm_channel :: "str option \<Rightarrow> str option" where
  "dm_channel conversationId = map_option (\<lambda>c. lit ''dm:'' @ c) (non_empty conversationId)"

definition useDmChannel_accepts :: "str option \<Rightarrow> ws_event \<Rightarrow> bool" where
  "useDmChannel_accepts conversationId e =
     (case non_empty conversationId of None \<Rightarrow> False | Some c \<Rightarrow> ev_channel e = lit ''dm:'' @ c)"

definition sendTyping :: "str option \<Rightarrow> bool \<Rightarrow> mob_socket \<Rightarrow> mob_socket" where
  "sendTyping conversationId typing s =
     (case non_empty conversationId of None \<Rightarrow> s
      | Some c \<Rightarrow> mob_rawSend [WOther (if typing then lit ''typing.start'' else lit ''typing.stop'') (lit ''dm:'' @ c) None] s)"

section \<open>Steps\<close>

datatype mob_action = MStart | MStop | MToken "str option" | MOpens nat | MErrs nat | MCloses nat | MTimer nat
  | MMount nat "str option" | MUnmount nat "str option" | MSend str str "json option"

definition mob_ready :: "ready_state \<Rightarrow> nat \<Rightarrow> mob_socket \<Rightarrow> mob_socket" where
  "mob_ready r i s = s\<lparr>mw_socks := upd_sock i (so_ready_update (\<lambda>_. r)) (mw_socks s)\<rparr>"

definition mob_sock_ready :: "nat \<Rightarrow> mob_socket \<Rightarrow> ready_state option" where
  "mob_sock_ready i s = (if i < length (mw_socks s) then Some (so_ready (mw_socks s ! i)) else None)"

fun mob_act :: "mob_action \<Rightarrow> mob_socket \<Rightarrow> mob_socket option" where
  "mob_act MStart s = Some (startSocket s)"
| "mob_act MStop s = Some (stopSocket s)"
| "mob_act (MToken t) s = (if 0 < mw_pending s then Some (mob_token_arrives t s) else None)"
| "mob_act (MOpens i) s =
     (if mob_sock_ready i s = Some CONNECTING then Some (mob_on_open (mob_ready OPENED i s)) else None)"
| "mob_act (MErrs i) s =
     (if mob_sock_ready i s = Some CONNECTING \<or> mob_sock_ready i s = Some OPENED then Some (mob_on_error i s) else None)"
| "mob_act (MCloses i) s =
     (if mob_sock_ready i s \<noteq> None \<and> mob_sock_ready i s \<noteq> Some CLOSED then Some (mob_on_close (mob_ready CLOSED i s)) else None)"
| "mob_act (MTimer j) s = (if om_get (mw_timers s) j \<noteq> None then Some (mob_timer_fires j s) else None)"
| "mob_act (MMount l c) s = Some (useSocket_mount l c s)"
| "mob_act (MUnmount l c) s = Some (useSocket_unmount l c s)"
| "mob_act (MSend ty c p) s = Some (wsSend ty c p s)"

inductive mob_reachable :: "mob_socket \<Rightarrow> bool" where
  init: "mob_reachable mob_socket0"
| step: "mob_reachable s \<Longrightarrow> mob_act a s = Some t \<Longrightarrow> mob_reachable t"

fun mob_play :: "mob_action list \<Rightarrow> mob_socket \<Rightarrow> mob_socket option" where
  "mob_play [] s = Some s"
| "mob_play (a # as) s = (case mob_act a s of None \<Rightarrow> None | Some t \<Rightarrow> mob_play as t)"

lemma mob_play_reachable: "mob_reachable s \<Longrightarrow> mob_play as s = Some t \<Longrightarrow> mob_reachable t"
  by (induction as arbitrary: s) (auto split: option.splits dest: mob_reachable.step)

section \<open>Lemmas\<close>

definition counts_ok :: "(str, nat) omap \<Rightarrow> bool" where
  "counts_ok subs \<longleftrightarrow> om_ok subs \<and> (\<forall>c n. om_get subs c = Some n \<longrightarrow> 0 < n)"

interpretation mob_registry: channel_registry om_keys subscriptions_add subscriptions_remove counts_ok
proof
  fix r :: "(str, nat) omap" and c :: str and h :: unit
  assume ok: "counts_ok r"
  show "counts_ok (fst (subscriptions_add r c h))"
    using ok by (simp add: counts_ok_def subscriptions_add_def Let_def)
  show "counts_ok (fst (subscriptions_remove r c h))"
    using ok by (simp add: counts_ok_def subscriptions_remove_def Let_def del: map_of_eq_Some_iff)
  show "announce (set (om_keys r)) (snd (subscriptions_add r c h)) = set (om_keys (fst (subscriptions_add r c h)))"
    using ok map_of_eq_None_iff [of r c]
    by (cases "om_get r c") (auto simp: subscriptions_add_def Let_def counts_ok_def)
  show "announce (set (om_keys r)) (snd (subscriptions_remove r c h)) = set (om_keys (fst (subscriptions_remove r c h)))"
    using map_of_eq_None_iff [of r c]
    by (cases "om_get r c") (auto simp: subscriptions_remove_def Let_def)
qed

definition mob_quiet :: "sock list \<Rightarrow> bool" where
  "mob_quiet ks \<longleftrightarrow> (\<forall>k \<in> set ks. so_ready k = CONNECTING \<longrightarrow> so_sent k = [])"

definition mob_sync :: "mob_socket \<Rightarrow> bool" where
  "mob_sync s \<longleftrightarrow> mob_quiet (mw_socks s) \<and>
     (\<forall>i. mw_ws s = Some i \<longrightarrow> i < length (mw_socks s) \<and>
        (so_ready (mw_socks s ! i) = OPENED \<longrightarrow>
           mw_isOpen s \<and> announced (so_sent (mw_socks s ! i)) = set (om_keys (mw_subscriptions s))))"

definition mob_delay_ok :: "mob_socket \<Rightarrow> bool" where
  "mob_delay_ok s \<longleftrightarrow> 1000 \<le> mw_backoff s \<and> mw_backoff s \<le> 15000
     \<and> (\<forall>p \<in> set (mw_timers s). 1000 \<le> snd p \<and> snd p \<le> 15000)"

lemma mob_connect_simps [simp]:
  "mw_ws (mob_connect s) = mw_ws s" "mw_isOpen (mob_connect s) = mw_isOpen s" "mw_socks (mob_connect s) = mw_socks s"
  "mw_subscriptions (mob_connect s) = mw_subscriptions s" "mw_timers (mob_connect s) = mw_timers s"
  "mw_backoff (mob_connect s) = mw_backoff s" "mw_listeners (mob_connect s) = mw_listeners s"
  by (simp_all add: mob_connect_def)

lemma rawSend_simps [simp]:
  "mw_ws (mob_rawSend ws s) = mw_ws s" "mw_isOpen (mob_rawSend ws s) = mw_isOpen s"
  "mw_subscriptions (mob_rawSend ws s) = mw_subscriptions s" "mw_timers (mob_rawSend ws s) = mw_timers s"
  "mw_backoff (mob_rawSend ws s) = mw_backoff s" "mw_listeners (mob_rawSend ws s) = mw_listeners s"
  by (simp_all add: mob_rawSend_def)

lemma quiet_upd: "mob_quiet ks \<Longrightarrow> (\<And>k. so_ready (f k) \<noteq> CONNECTING) \<Longrightarrow> mob_quiet (upd_sock i f ks)"
  by (auto simp: mob_quiet_def upd_sock_def set_conv_nth nth_list_update split: if_splits)

lemma quiet_send: "mob_quiet ks \<Longrightarrow> i < length ks \<Longrightarrow> so_ready (ks ! i) = OPENED \<Longrightarrow> mob_quiet (upd_sock i (send_sock ws) ks)"
  by (auto simp: mob_quiet_def upd_sock_def set_conv_nth nth_list_update split: if_splits)

lemma rawSend_sync:
  assumes "mob_quiet (mw_socks s)"
    and "\<And>i. mw_ws s = Some i \<Longrightarrow> i < length (mw_socks s) \<and>
      (so_ready (mw_socks s ! i) = OPENED \<longrightarrow>
         mw_isOpen s \<and> announce (announced (so_sent (mw_socks s ! i))) ws = set (om_keys (mw_subscriptions s)))"
  shows "mob_sync (mob_rawSend ws s)"
proof (cases "sock_open (mw_socks s) (mw_ws s)")
  case False
  with assms show ?thesis
    by (auto simp: mob_sync_def mob_rawSend_def sock_open_def split: option.splits)
next
  case True
  then obtain i where i: "mw_ws s = Some i" "i < length (mw_socks s)" "so_ready (mw_socks s ! i) = OPENED"
    by (auto simp: sock_open_def split: option.splits)
  with assms True quiet_send [OF assms(1) i(2,3)] show ?thesis
    by (simp add: mob_sync_def mob_rawSend_def nth_upd_sock)
qed

lemma subs_step_sync:
  assumes "mob_sync s" "announce (set (om_keys (mw_subscriptions s))) ws = set (om_keys subs)"
  shows "mob_sync (if mw_isOpen s then mob_rawSend ws (s\<lparr>mw_subscriptions := subs\<rparr>) else s\<lparr>mw_subscriptions := subs\<rparr>)"
proof (cases "mw_isOpen s")
  case True
  have "mob_sync (mob_rawSend ws (s\<lparr>mw_subscriptions := subs\<rparr>))"
    using assms by (intro rawSend_sync) (auto simp: mob_sync_def)
  with True show ?thesis by simp
next
  case False
  with assms(1) show ?thesis by (simp add: mob_sync_def)
qed

lemma addSubscription_sync: "mob_sync s \<Longrightarrow> counts_ok (mw_subscriptions s) \<Longrightarrow> mob_sync (addSubscription c s)"
  using mob_registry.add_wires [of "mw_subscriptions s" c "()"]
  by (cases "subscriptions_add (mw_subscriptions s) c ()") (simp add: addSubscription_def Let_def subs_step_sync split del: if_split)

lemma removeSubscription_sync: "mob_sync s \<Longrightarrow> counts_ok (mw_subscriptions s) \<Longrightarrow> mob_sync (removeSubscription c s)"
  using mob_registry.remove_wires [of "mw_subscriptions s" c "()"]
  by (cases "subscriptions_remove (mw_subscriptions s) c ()") (simp add: removeSubscription_def Let_def subs_step_sync split del: if_split)

lemma subscription_simps [simp]:
  "mw_subscriptions (addSubscription c s) = fst (subscriptions_add (mw_subscriptions s) c ())"
  "mw_subscriptions (removeSubscription c s) = fst (subscriptions_remove (mw_subscriptions s) c ())"
  "mw_timers (addSubscription c s) = mw_timers s" "mw_timers (removeSubscription c s) = mw_timers s"
  "mw_backoff (addSubscription c s) = mw_backoff s" "mw_backoff (removeSubscription c s) = mw_backoff s"
  "mw_listeners (addSubscription c s) = mw_listeners s" "mw_listeners (removeSubscription c s) = mw_listeners s"
  by (simp_all add: addSubscription_def removeSubscription_def Let_def split: prod.splits)

lemma mob_connect_sync [simp]: "mob_sync (mob_connect s) = mob_sync s"
  by (simp add: mob_sync_def)

lemma mob_open_sync:
  assumes "mob_sync s" "mob_sock_ready i s = Some CONNECTING"
  shows "mob_sync (mob_on_open (mob_ready OPENED i s))"
proof -
  have i: "i < length (mw_socks s)" "so_sent (mw_socks s ! i) = []"
    using assms by (auto simp: mob_sock_ready_def mob_sync_def mob_quiet_def split: if_splits)
  show ?thesis
    unfolding mob_on_open_def using assms i
    by (intro rawSend_sync) (auto simp: mob_sync_def mob_ready_def nth_upd_sock intro!: quiet_upd)
qed

lemma mob_act_sync:
  assumes "mob_act a s = Some t" "mob_sync s" "counts_ok (mw_subscriptions s)"
  shows "mob_sync t"
proof (cases a)
  case (MOpens i)
  then show ?thesis using assms mob_open_sync [of s i] by (auto split: if_splits)
next
  case (MMount l c)
  have "mob_sync (s\<lparr>mw_listeners := os_add (mw_listeners s) l\<rparr>)" using assms(2) by (simp add: mob_sync_def)
  with MMount show ?thesis
    using assms by (auto simp: useSocket_mount_def Let_def addSubscription_sync split: option.splits)
next
  case (MUnmount l c)
  have "mob_sync (s\<lparr>mw_listeners := os_del (mw_listeners s) l\<rparr>)" using assms(2) by (simp add: mob_sync_def)
  with MUnmount show ?thesis
    using assms by (auto simp: useSocket_unmount_def Let_def removeSubscription_sync split: option.splits)
next
  case (MSend ty c p)
  have "mob_sync (mob_rawSend [WOther ty c p] s)"
    using assms(2) by (intro rawSend_sync) (auto simp: mob_sync_def)
  with MSend assms(1) show ?thesis by (simp add: wsSend_def)
next
  case (MErrs i)
  have "mob_sync (mob_on_error i s)"
    using assms(2) by (simp add: mob_on_error_def mob_sync_def nth_upd_sock quiet_upd)
  with MErrs assms(1) show ?thesis by (simp split: if_splits)
next
  case (MCloses i)
  then show ?thesis
    using assms by (auto simp: mob_on_close_def mob_sync_def mob_ready_def Let_def intro!: quiet_upd split: if_splits)
next
  case MStop
  then show ?thesis
    using assms by (auto simp: stopSocket_def mob_sync_def Let_def intro!: quiet_upd split: option.splits)
next
  case (MToken x)
  have "mob_sync (mob_token_arrives x s)"
    using assms(2) by (simp add: mob_token_arrives_def mob_sync_def Let_def mob_quiet_def ball_Un)
  with MToken assms(1) show ?thesis by (simp split: if_splits)
next
  case MStart
  have "mob_sync (startSocket s)" using assms(2) by (simp add: startSocket_def mob_sync_def)
  with MStart assms(1) show ?thesis by simp
next
  case (MTimer j)
  have "mob_sync (mob_timer_fires j s)" using assms(2) by (simp add: mob_timer_fires_def mob_sync_def)
  with MTimer assms(1) show ?thesis by (simp del: not_None_eq split: if_splits)
qed

lemma mob_act_counts:
  assumes "mob_act a s = Some t" "counts_ok (mw_subscriptions s)"
  shows "counts_ok (mw_subscriptions t)"
proof (cases a)
  case (MMount l c)
  with assms show ?thesis
    using mob_registry.add_ok [of "mw_subscriptions s"]
    by (cases "non_empty c") (auto simp: useSocket_mount_def Let_def)
next
  case (MUnmount l c)
  with assms show ?thesis
    using mob_registry.remove_ok [of "mw_subscriptions s"]
    by (cases "non_empty c") (auto simp: useSocket_unmount_def Let_def)
qed (use assms in \<open>auto simp: startSocket_def stopSocket_def mob_token_arrives_def mob_on_open_def mob_ready_def
      mob_on_error_def mob_on_close_def mob_timer_fires_def wsSend_def Let_def counts_ok_def [of "[]"]
      simp del: not_None_eq split: if_splits\<close>)

lemma mob_act_delay:
  assumes "mob_act a s = Some t" "mob_delay_ok s"
  shows "mob_delay_ok t"
  by (cases a) (use assms in \<open>auto simp: mob_delay_ok_def startSocket_def stopSocket_def mob_token_arrives_def
      mob_on_open_def mob_ready_def mob_on_error_def mob_on_close_def mob_timer_fires_def wsSend_def Let_def
      useSocket_mount_def useSocket_unmount_def om_del_def simp del: not_None_eq split: if_splits option.splits\<close>)

lemma mob_reachable_inv: "mob_reachable s \<Longrightarrow> counts_ok (mw_subscriptions s) \<and> mob_sync s \<and> mob_delay_ok s"
proof (induction rule: mob_reachable.induct)
  case init
  then show ?case by (simp add: mob_socket0_def counts_ok_def mob_sync_def mob_quiet_def mob_delay_ok_def)
qed (blast intro: mob_act_counts mob_act_sync mob_act_delay)

section \<open>Properties\<close>


text \<open>Counts are right as long as every unmount undoes a mount and the table is not cleared in between.\<close>

fun uses :: "str \<Rightarrow> unit sub_op list \<Rightarrow> nat" where
  "uses c [] = 0"
| "uses c (Add d h # ops) = (if d = c then 1 else 0) + uses c ops"
| "uses c (Remove d h # ops) = uses c ops - (if d = c then 1 else 0)"

text \<open>\<open>uses\<close> reads a history, latest operation first; \<open>paired\<close> histories never remove what is not held.\<close>

fun paired :: "unit sub_op list \<Rightarrow> bool" where
  "paired [] = True"
| "paired (Add d h # ops) = paired ops"
| "paired (Remove d h # ops) = (0 < uses d ops \<and> paired ops)"

fun history :: "unit sub_op list \<Rightarrow> (str, nat) omap" where
  "history [] = []"
| "history (Add d h # ops) = fst (subscriptions_add (history ops) d h)"
| "history (Remove d h # ops) = fst (subscriptions_remove (history ops) d h)"

text \<open>
  The reference counts are exact: after any paired history of mounts and unmounts, a channel is
  in the table with the number of components that hold it, and is absent when there is none.
\<close>

theorem refcounts_exact:
  assumes "paired ops"
  shows "om_get (history ops) c = (if uses c ops = 0 then None else Some (uses c ops))"
  using assms
  by (induction ops rule: paired.induct) (auto simp: subscriptions_add_def subscriptions_remove_def Let_def)

theorem refcounts_exact_witness:
  "om_get (history [Remove [1] (), Add [2] (), Add [1] (), Add [1] ()]) [1] = Some 1"
  using refcounts_exact [of "[Remove [1] (), Add [2] (), Add [1] (), Add [1] ()]" "[1]"] by simp

text \<open>
  The hooks only let through what they subscribed to: an event that \<open>useBookChannel\<close> or
  \<open>useDmChannel\<close> accepts carries exactly the channel the hook holds, and a hook without an id
  holds no channel and accepts nothing.
\<close>

theorem hooks_accept_own_channel:
  "(useBookChannel_accepts m e \<longrightarrow> book_channel m = Some (ev_channel e))
   \<and> (useDmChannel_accepts d e \<longrightarrow> dm_channel d = Some (ev_channel e))
   \<and> (book_channel m = None \<longrightarrow> \<not> useBookChannel_accepts m e)
   \<and> (dm_channel d = None \<longrightarrow> \<not> useDmChannel_accepts d e)"
  by (auto simp: useBookChannel_accepts_def useDmChannel_accepts_def book_channel_def dm_channel_def split: option.splits)

theorem hooks_accept_own_channel_witness:
  "dm_channel (Some [49]) = Some (lit ''dm:'' @ [49]) \<and> \<not> useBookChannel_accepts None (EvWalletUpdate [1] 0)"
  using hooks_accept_own_channel [of None "EvWalletUpdate [1] 0" "Some [49]"]
    hooks_accept_own_channel [of None "EvRead (lit ''dm:'' @ [49]) [] []" "Some [49]"]
  by (simp add: useDmChannel_accepts_def non_empty_def book_channel_def)

section \<open>Runs\<close>

definition double_run :: "mob_action list" where
  "double_run = [MStart, MMount 7 (Some (lit ''c'')), MToken (Some (lit ''t'')), MToken (Some (lit ''t'')), MOpens 0, MOpens 1,
     MCloses 0, MTimer 0, MToken (Some (lit ''t'')), MOpens 2]"

definition swap_run :: "mob_action list" where
  "swap_run = [MMount 7 (Some (lit ''c'')), MStart, MStop, MStart, MToken (Some (lit ''t'')), MOpens 0]"

lemmas mob_run_simps = double_run_def swap_run_def mob_socket0_def useSocket_mount_def non_empty_def
  lit_def addSubscription_def subscriptions_add_def Let_def mob_rawSend_def sock_open_def startSocket_def
  mob_connect_def mob_token_arrives_def new_sock_def mob_sock_ready_def mob_on_open_def mob_ready_def
  upd_sock_def send_sock_def stopSocket_def os_add_def mob_on_close_def close_sock_def mob_timer_fires_def om_del_def

lemma double_run_result:
  "mob_play double_run mob_socket0 = Some \<lparr> mw_ws = Some 2, mw_isOpen = True, mw_shouldRun = True, mw_tokenGetter = True,
     mw_timers = [], mw_reconnectTimer = Some 0, mw_nextTimer = 1, mw_backoff = 1000, mw_listeners = [7],
     mw_subscriptions = [([99], 1)], mw_pending = 0,
     mw_socks = [\<lparr> so_ready = CLOSED, so_sent = [] \<rparr>, \<lparr> so_ready = OPENED, so_sent = [WSub [99]] \<rparr>,
       \<lparr> so_ready = OPENED, so_sent = [WSub [99]] \<rparr>] \<rparr>"
  by (simp add: mob_run_simps)

lemma swap_run_result:
  "mob_play swap_run mob_socket0 = Some \<lparr> mw_ws = Some 0, mw_isOpen = True, mw_shouldRun = True, mw_tokenGetter = True,
     mw_timers = [], mw_reconnectTimer = None, mw_nextTimer = 0, mw_backoff = 1000, mw_listeners = [7],
     mw_subscriptions = [], mw_pending = 1, mw_socks = [\<lparr> so_ready = OPENED, so_sent = [] \<rparr>] \<rparr>"
  by (simp add: mob_run_simps)

lemmas mob_run_reachable = mob_play_reachable [OF mob_reachable.init]

text \<open>
  The shared connection is not always one. \<open>connect\<close> checks for a socket before it waits for
  the token and not after, so a start and a mount in the same wait create two sockets; when the older one
  closes, its handler drops the live one, and the reconnect ends with two open sockets subscribed to the same
  channel, each of whose frames reaches every listener; \<open>stopSocket\<close> then leaves one of them open.
  And \<open>stopSocket\<close> empties the table under the components that are still mounted: after the
  next start their channel is not subscribed.
\<close>

theorem mob_socket_not_single:
  "(\<exists>s. mob_reachable s \<and> live_count (mw_socks s) = 2 \<and> live_count (mw_socks (stopSocket s)) = 1
      \<and> lit ''c'' \<in> announced (so_sent (mw_socks s ! 1)) \<inter> announced (so_sent (mw_socks s ! 2)))
   \<and> (\<exists>s. mob_play [MMount 7 (Some (lit ''c'')), MStart, MStop, MStart, MToken (Some (lit ''t'')), MOpens 0] mob_socket0 = Some s
      \<and> sock_open (mw_socks s) (mw_ws s) \<and> 7 \<in> set (mw_listeners s) \<and> om_get (mw_subscriptions s) (lit ''c'') = None)"
proof
  show "\<exists>s. mob_reachable s \<and> live_count (mw_socks s) = 2 \<and> live_count (mw_socks (stopSocket s)) = 1
      \<and> lit ''c'' \<in> announced (so_sent (mw_socks s ! 1)) \<inter> announced (so_sent (mw_socks s ! 2))"
    by (rule exI, rule conjI, rule mob_run_reachable [OF double_run_result]) (simp add: live_count_def mob_run_simps)
  show "\<exists>s. mob_play [MMount 7 (Some (lit ''c'')), MStart, MStop, MStart, MToken (Some (lit ''t'')), MOpens 0] mob_socket0 = Some s
      \<and> sock_open (mw_socks s) (mw_ws s) \<and> 7 \<in> set (mw_listeners s) \<and> om_get (mw_subscriptions s) (lit ''c'') = None"
    unfolding swap_run_def [symmetric] swap_run_result by (simp add: sock_open_def)
qed

text \<open>A conversation is opened before the socket, another one twice after it and closed once, a book opened and closed.\<close>

definition mob_dm_run :: "mob_action list" where
  "mob_dm_run = [MMount 7 (Some (lit ''dm:1'')), MStart, MToken (Some (lit ''t'')), MOpens 0, MMount 8 (Some (lit ''dm:4'')),
     MMount 9 (Some (lit ''dm:4'')), MUnmount 8 (Some (lit ''dm:4'')), MMount 8 (Some (lit ''dm:6'')), MUnmount 8 (Some (lit ''dm:6''))]"

definition mob_demo_hub :: hub_env where
  "mob_demo_hub = \<lparr> hb_user = lit ''9'', hb_uuid = (\<lambda>t. length t = 1), hb_member = (\<lambda>t. t \<noteq> lit ''1''), hb_market = (\<lambda>_. True) \<rparr>"

lemma mob_dm_run_result:
  "mob_play mob_dm_run mob_socket0 = Some \<lparr> mw_ws = Some 0, mw_isOpen = True, mw_shouldRun = True, mw_tokenGetter = True,
     mw_timers = [], mw_reconnectTimer = None, mw_nextTimer = 0, mw_backoff = 1000, mw_listeners = [7, 9],
     mw_subscriptions = [(lit ''dm:1'', 1), (lit ''dm:4'', 1)], mw_pending = 0,
     mw_socks = [\<lparr> so_ready = OPENED, so_sent = [WSub (lit ''dm:1''), WSub (lit ''dm:4''), WSub (lit ''dm:6''), WUnsub (lit ''dm:6'')] \<rparr>] \<rparr>"
  by (simp add: mob_dm_run_def mob_run_simps useSocket_unmount_def removeSubscription_def subscriptions_remove_def os_del_def)

lemma mob_demo_hub_admits: "hub_own mob_demo_hub = lit ''user:9''" "hub_admits mob_demo_hub (lit ''dm:4'')" "\<not> hub_admits mob_demo_hub (lit ''dm:1'')"
  by (simp_all add: hub_own_def hub_admits_def validChannel_def canJoinChannel_def mob_demo_hub_def lit_Cons)


end
