(* ===== verification/RotatingCache.thy ===== *)
theory RotatingCache
  imports JsNumber
begin

text \<open>
  \<open>mobile/lib/cache.ts\<close>: the rotating cache of the app, a manifest of entries over files behind one
  byte budget. The state holds the fields of the class, the queue behind \<open>enqueue\<close>, and the
  device: the files of the cache directory, the manifest file and its mirror in \<open>AsyncStorage\<close>. A
  file is text (with what \<open>JSON.parse\<close> makes of it) or a blob of some size. What the device
  answers, and the clock, come in an environment per operation; the clock does not move within one.
\<close>

datatype cache_tier = Pinned | Normal | MediaTier

record cache_meta =
  cm_key :: str
  cm_file :: str
  cm_bytes :: int
  cm_tier :: cache_tier
  cm_isJson :: bool
  cm_lastAccess :: int
  cm_hits :: int
  cm_createdAt :: int

record manifest =
  mf_version :: int
  mf_seq :: nat
  mf_totalBytes :: int
  mf_entries :: "(str, cache_meta) omap"

definition MANIFEST_VERSION :: int where "MANIFEST_VERSION = 1"
definition BUDGET_BYTES :: int where "BUDGET_BYTES = 500 * 1024 * 1024"
definition PINNED_BONUS :: rat where "PINNED_BONUS = 1000000000000"
definition JSON_MAX_AGE_MS :: int where "JSON_MAX_AGE_MS = 7 * 24 * 60 * 60 * 1000"
definition MEDIA_MAX_AGE_MS :: int where "MEDIA_MAX_AGE_MS = 30 * 24 * 60 * 60 * 1000"
definition FLUSH_DEBOUNCE_MS :: int where "FLUSH_DEBOUNCE_MS = 800"

definition emptyManifest :: manifest where
  "emptyManifest = \<lparr> mf_version = MANIFEST_VERSION, mf_seq = 0, mf_totalBytes = 0, mf_entries = [] \<rparr>"

text \<open>The loop over code units; a high surrogate takes the unit after it along.\<close>

fun utf8Bytes :: "str \<Rightarrow> nat" where
  "utf8Bytes [] = 0"
| "utf8Bytes (c # cs) =
     (if c < 0x80 then 1 + utf8Bytes cs
      else if c < 0x800 then 2 + utf8Bytes cs
      else if 0xd800 \<le> c \<and> c \<le> 0xdbff then 4 + utf8Bytes (drop 1 cs)
      else 3 + utf8Bytes cs)"

definition scoreOf :: "cache_meta \<Rightarrow> int \<Rightarrow> rat" where
  "scoreOf m now =
     (let ageHours = num_div (of_int (max 0 (now - cm_lastAccess m))) 3600000;
          s = num_div (of_int (cm_hits m + 1)) (num_add 1 ageHours)
      in if cm_tier m = Pinned then num_add s PINNED_BONUS else s)"

definition isStale :: "cache_meta \<Rightarrow> int \<Rightarrow> bool" where
  "isStale m now = (let maxAge = (if cm_tier m = MediaTier then MEDIA_MAX_AGE_MS else JSON_MAX_AGE_MS)
     in now - cm_createdAt m > maxAge)"

section \<open>State and environment\<close>

datatype payload = Text "json option" | Blob int

datatype stored_text = NoText | ManifestText manifest | CorruptText

datatype queued =
    QPut str payload int cache_tier
  | QDrop str
  | QAdopt str str str int
  | QPersist
  | QClear

record cache_state =
  rc_manifest :: manifest
  rc_ready :: bool
  rc_queue :: "queued list"
  rc_flushTimer :: bool
  rc_dirty :: bool
  rc_pinnedUsername :: "str option"
  rc_files :: "(str, payload) omap"
  rc_disk :: stored_text
  rc_async :: stored_text

record cache_env =
  ce_documentDirectory :: "str option"
  ce_now :: int
  ce_random :: str
  ce_deleteFails :: "str \<Rightarrow> bool"
  ce_readFails :: "str \<Rightarrow> bool"
  ce_writeFails :: bool
  ce_moveFails :: bool
  ce_asyncFails :: bool

definition cache0 :: cache_state where
  "cache0 = \<lparr> rc_manifest = emptyManifest, rc_ready = False, rc_queue = [], rc_flushTimer = False, rc_dirty = False,
     rc_pinnedUsername = None, rc_files = [], rc_disk = NoText, rc_async = NoText \<rparr>"

definition DIR :: "cache_env \<Rightarrow> str option" where
  "DIR E = map_option (\<lambda>d. d @ lit ''thassa-rotcache/'') (non_empty (ce_documentDirectory E))"

definition pathOf :: "cache_env \<Rightarrow> str \<Rightarrow> str" where
  "pathOf E file = or_else (DIR E) [] @ file"

section \<open>Life cycle\<close>

definition hardReset :: "cache_env \<Rightarrow> cache_state \<Rightarrow> cache_state" where
  "hardReset E s =
     (let s = s\<lparr>rc_manifest := emptyManifest\<rparr> in
      if DIR E = None then s
      else let s = (if ce_deleteFails E [] then s else s\<lparr>rc_files := [], rc_disk := NoText\<rparr>)
           in if ce_asyncFails E then s else s\<lparr>rc_async := NoText\<rparr>)"

definition load_raw :: "cache_env \<Rightarrow> cache_state \<Rightarrow> stored_text" where
  "load_raw E s =
     (let raw = (if ce_readFails E (lit ''manifest.json'') then NoText else rc_disk s)
      in if raw = NoText then (if ce_asyncFails E then NoText else rc_async s) else raw)"

definition load :: "cache_env \<Rightarrow> cache_state \<Rightarrow> cache_state" where
  "load E s =
     (if DIR E = None then s
      else case load_raw E s of
        NoText \<Rightarrow> s
      | CorruptText \<Rightarrow> hardReset E s
      | ManifestText parsed \<Rightarrow>
          if mf_version parsed = MANIFEST_VERSION then s\<lparr>rc_manifest := parsed\<rparr> else hardReset E s)"

definition ensureReady :: "cache_env \<Rightarrow> cache_state \<Rightarrow> cache_state" where
  "ensureReady E s = (if rc_ready s then s else (load E s)\<lparr>rc_ready := True\<rparr>)"

definition enqueue :: "queued \<Rightarrow> cache_state \<Rightarrow> cache_state" where
  "enqueue q s = s\<lparr>rc_queue := rc_queue s @ [q]\<rparr>"

definition persistNow :: "cache_env \<Rightarrow> cache_state \<Rightarrow> cache_state" where
  "persistNow E s =
     (let raw = ManifestText (rc_manifest s); s = s\<lparr>rc_dirty := False\<rparr>;
          s = (if DIR E = None \<or> ce_writeFails E then s else s\<lparr>rc_disk := raw\<rparr>)
      in if ce_asyncFails E then s else s\<lparr>rc_async := raw\<rparr>)"

definition scheduleFlush :: "cache_state \<Rightarrow> cache_state" where
  "scheduleFlush s = s\<lparr>rc_dirty := True, rc_flushTimer := True\<rparr>"

definition flush_timer_fires :: "cache_state \<Rightarrow> cache_state" where
  "flush_timer_fires s = (let s = s\<lparr>rc_flushTimer := False\<rparr> in if rc_dirty s then enqueue QPersist s else s)"

definition removeEntry :: "cache_env \<Rightarrow> cache_meta \<Rightarrow> cache_state \<Rightarrow> cache_state" where
  "removeEntry E meta s =
     (let m = rc_manifest s; left = mf_totalBytes m - cm_bytes meta
      in s\<lparr>rc_files := (if ce_deleteFails E (cm_file meta) then rc_files s else om_del (rc_files s) (cm_file meta)),
           rc_manifest := m\<lparr>mf_totalBytes := (if left < 0 then 0 else left),
                            mf_entries := om_del (mf_entries m) (cm_key meta)\<rparr>\<rparr>)"

section \<open>Eviction\<close>

definition cache_entries :: "cache_state \<Rightarrow> cache_meta list" where
  "cache_entries s = om_values (mf_entries (rc_manifest s))"

definition drop_stale :: "cache_env \<Rightarrow> cache_state \<Rightarrow> cache_state" where
  "drop_stale E s = fold (\<lambda>meta s. if isStale meta (ce_now E) then removeEntry E meta s else s) (cache_entries s) s"

text \<open>
  The \<open>while\<close> loop, with fuel. \<open>sort\<close> is stable, as \<open>sort_key\<close> is; its first element is the
  victim. Each round deletes one entry, so the number of entries is enough fuel.
\<close>

fun evict_loop :: "nat \<Rightarrow> cache_env \<Rightarrow> int \<Rightarrow> cache_state \<Rightarrow> cache_state" where
  "evict_loop 0 E incoming s = s"
| "evict_loop (Suc n) E incoming s =
     (if mf_totalBytes (rc_manifest s) + incoming > BUDGET_BYTES
      then (case sort_key (\<lambda>m. scoreOf m (ce_now E)) (cache_entries s) of
              [] \<Rightarrow> s
            | victim # _ \<Rightarrow> evict_loop n E incoming (removeEntry E victim s))
      else s)"

definition evictToFit :: "cache_env \<Rightarrow> int \<Rightarrow> cache_state \<Rightarrow> cache_state \<times> bool" where
  "evictToFit E incoming s =
     (if incoming > BUDGET_BYTES then (s, False)
      else let s = drop_stale E s; s = evict_loop (length (cache_entries s)) E incoming s
           in (s, mf_totalBytes (rc_manifest s) + incoming \<le> BUDGET_BYTES))"

section \<open>Tiers\<close>

definition setPinnedIdentity :: "str option \<Rightarrow> cache_state \<Rightarrow> cache_state" where
  "setPinnedIdentity username s = s\<lparr>rc_pinnedUsername := map_option to_lower (non_empty username)\<rparr>"

definition tierForPath :: "str \<Rightarrow> cache_state \<Rightarrow> cache_tier" where
  "tierForPath path s =
     (let p = takeWhile (\<lambda>c. c \<noteq> 63) path
      in if p = lit ''/v1/me'' then Pinned
         else case non_empty (rc_pinnedUsername s) of
           None \<Rightarrow> Normal
         | Some u \<Rightarrow> if p = lit ''/v1/users/'' @ u then Pinned
                     else if p = lit ''/v1/users/'' @ u @ lit ''/posts'' then Pinned
                     else Normal)"

section \<open>The write paths\<close>

definition insert_meta :: "cache_env \<Rightarrow> str \<Rightarrow> str \<Rightarrow> int \<Rightarrow> cache_tier \<Rightarrow> bool \<Rightarrow> manifest \<Rightarrow> manifest" where
  "insert_meta E key file bytes tier isJson m =
     m\<lparr>mf_entries := om_set (mf_entries m) key \<lparr> cm_key = key, cm_file = file, cm_bytes = bytes, cm_tier = tier,
         cm_isJson = isJson, cm_lastAccess = ce_now E, cm_hits = 1, cm_createdAt = ce_now E \<rparr>,
       mf_totalBytes := mf_totalBytes m + bytes\<rparr>"

definition free_key :: "cache_env \<Rightarrow> str \<Rightarrow> cache_state \<Rightarrow> cache_state" where
  "free_key E key s = (case om_get (mf_entries (rc_manifest s)) key of None \<Rightarrow> s | Some prev \<Rightarrow> removeEntry E prev s)"

definition next_seq :: "cache_state \<Rightarrow> cache_state" where
  "next_seq s = s\<lparr>rc_manifest := (rc_manifest s)\<lparr>mf_seq := mf_seq (rc_manifest s) + 1\<rparr>\<rparr>"

definition writeEntry :: "cache_env \<Rightarrow> str \<Rightarrow> payload \<Rightarrow> int \<Rightarrow> cache_tier \<Rightarrow> bool \<Rightarrow> cache_state \<Rightarrow> cache_state" where
  "writeEntry E key contents bytes tier isJson s =
     (if DIR E = None then s
      else let (s, fit) = evictToFit E bytes (free_key E key s) in
        if \<not> fit then s
        else let s = next_seq s; file = show_nat (mf_seq (rc_manifest s)) @ lit ''.dat'' in
          if ce_writeFails E then s
          else persistNow E (s\<lparr>rc_files := om_set (rc_files s) file contents,
                               rc_manifest := insert_meta E key file bytes tier isJson (rc_manifest s)\<rparr>))"

definition delete_tmp :: "cache_env \<Rightarrow> str \<Rightarrow> cache_state \<Rightarrow> cache_state" where
  "delete_tmp E tmp s = (if ce_deleteFails E tmp then s else s\<lparr>rc_files := om_del (rc_files s) tmp\<rparr>)"

definition adoptFile :: "cache_env \<Rightarrow> str \<Rightarrow> str \<Rightarrow> int \<Rightarrow> cache_tier \<Rightarrow> cache_state \<Rightarrow> cache_state \<times> str option" where
  "adoptFile E key tmp bytes tier s =
     (if DIR E = None then (s, None)
      else let (s, fit) = evictToFit E bytes (free_key E key s) in
        if \<not> fit then (delete_tmp E tmp s, None)
        else let s = next_seq s; file = show_nat (mf_seq (rc_manifest s)) @ lit ''.bin'' in
          if ce_moveFails E \<or> om_get (rc_files s) tmp = None then (delete_tmp E tmp s, None)
          else (persistNow E (s\<lparr>rc_files := om_set (om_del (rc_files s) tmp) file (the (om_get (rc_files s) tmp)),
                                rc_manifest := insert_meta E key file bytes tier False (rc_manifest s)\<rparr>),
                Some (pathOf E file)))"

section \<open>The public operations\<close>

definition touch :: "cache_env \<Rightarrow> str \<Rightarrow> cache_meta \<Rightarrow> cache_state \<Rightarrow> cache_state" where
  "touch E key meta s = scheduleFlush (s\<lparr>rc_manifest := (rc_manifest s)\<lparr>mf_entries :=
     om_set (mf_entries (rc_manifest s)) key (meta\<lparr>cm_hits := cm_hits meta + 1, cm_lastAccess := ce_now E\<rparr>)\<rparr>\<rparr>)"

definition read_file :: "cache_env \<Rightarrow> str \<Rightarrow> cache_state \<Rightarrow> payload option" where
  "read_file E file s = (if ce_readFails E file then None else om_get (rc_files s) file)"

definition getJSON :: "cache_env \<Rightarrow> str \<Rightarrow> cache_state \<Rightarrow> json option \<times> cache_state" where
  "getJSON E key s0 =
     (let s = ensureReady E s0 in
      case om_get (mf_entries (rc_manifest s)) key of
        None \<Rightarrow> (None, s)
      | Some meta \<Rightarrow>
          if \<not> cm_isJson meta then (None, s)
          else if isStale meta (ce_now E) then (None, enqueue (QDrop key) s)
          else case read_file E (cm_file meta) s of
            None \<Rightarrow> (None, enqueue (QDrop key) s)
          | Some (Text (Some data)) \<Rightarrow> (Some data, touch E key meta s)
          | Some _ \<Rightarrow> (None, s))"

text \<open>\<open>raw\<close> is \<open>JSON.stringify(data)\<close>: \<open>None\<close> when it throws or yields \<open>undefined\<close>.\<close>

definition putJSON :: "cache_env \<Rightarrow> str \<Rightarrow> json \<Rightarrow> str option \<Rightarrow> cache_tier \<Rightarrow> cache_state \<Rightarrow> cache_state" where
  "putJSON E key data raw tier s =
     (if DIR E = None then s
      else case raw of None \<Rightarrow> s
      | Some t \<Rightarrow> enqueue (QPut key (Text (Some data)) (int (utf8Bytes t)) tier) s)"

definition is_http_url :: "str \<Rightarrow> bool" where
  "is_http_url u = (let v = to_lower u in starts_with v (lit ''http://'') \<or> starts_with v (lit ''https://''))"

definition media_key :: "str \<Rightarrow> str" where
  "media_key remoteUrl = lit ''MEDIA:'' @ remoteUrl"

text \<open>\<open>cachedMediaUri\<close> before the download: the uri when there is a hit, \<open>None\<close> when it goes on to download.\<close>

definition cachedMediaUri :: "cache_env \<Rightarrow> str \<Rightarrow> cache_state \<Rightarrow> str option \<times> cache_state" where
  "cachedMediaUri E remoteUrl s0 =
     (if DIR E = None \<or> \<not> is_http_url remoteUrl then (Some remoteUrl, s0)
      else let s = ensureReady E s0; key = media_key remoteUrl in
        case om_get (mf_entries (rc_manifest s)) key of
          None \<Rightarrow> (None, s)
        | Some existing \<Rightarrow>
            if \<not> cm_isJson existing \<and> \<not> isStale existing (ce_now E)
               \<and> read_file E (cm_file existing) s \<noteq> None
            then (Some (pathOf E (cm_file existing)), touch E key existing s)
            else (None, s))"

definition tmp_name :: "cache_env \<Rightarrow> str" where
  "tmp_name E = lit ''dl-'' @ show_int (ce_now E) @ lit ''-'' @ ce_random E @ lit ''.tmp''"

text \<open>
  The download: \<open>None\<close> when \<open>downloadAsync\<close> throws, otherwise the status and the size it wrote. On a bad
  answer the remote url is the result; a good one queues the adoption of the file.
\<close>

definition media_downloaded :: "cache_env \<Rightarrow> str \<Rightarrow> (int \<times> int) option \<Rightarrow> cache_state \<Rightarrow> str option \<times> cache_state" where
  "media_downloaded E remoteUrl res s =
     (case res of
        None \<Rightarrow> (Some remoteUrl, delete_tmp E (tmp_name E) s)
      | Some (status, bytes) \<Rightarrow>
          let s = s\<lparr>rc_files := om_set (rc_files s) (tmp_name E) (Blob bytes)\<rparr> in
          if status < 200 \<or> 300 \<le> status then (Some remoteUrl, delete_tmp E (tmp_name E) s)
          else (None, enqueue (QAdopt (media_key remoteUrl) remoteUrl (tmp_name E) bytes) s))"

text \<open>One element of the queue runs to its end before the next one starts; adoption returns an uri.\<close>

definition run_queued :: "cache_env \<Rightarrow> queued \<Rightarrow> cache_state \<Rightarrow> str option \<times> cache_state" where
  "run_queued E q s =
     (case q of
        QPut key contents bytes tier \<Rightarrow> (None, writeEntry E key contents bytes tier True (ensureReady E s))
      | QDrop key \<Rightarrow>
          (None, case om_get (mf_entries (rc_manifest s)) key of
                   None \<Rightarrow> s | Some m \<Rightarrow> scheduleFlush (removeEntry E m s))
      | QAdopt key remoteUrl tmp bytes \<Rightarrow>
          (let (s, uri) = adoptFile E key tmp bytes MediaTier (ensureReady E s) in (Some (or_else uri remoteUrl), s))
      | QPersist \<Rightarrow> (None, persistNow E s)
      | QClear \<Rightarrow> (None, persistNow E (hardReset E s)))"

definition run_queue :: "cache_env \<Rightarrow> cache_state \<Rightarrow> str option \<times> cache_state" where
  "run_queue E s = (case rc_queue s of [] \<Rightarrow> (None, s) | q # qs \<Rightarrow> run_queued E q (s\<lparr>rc_queue := qs\<rparr>))"

definition cache_stats :: "cache_env \<Rightarrow> cache_state \<Rightarrow> (int \<times> int \<times> nat) \<times> cache_state" where
  "cache_stats E s0 = (let s = ensureReady E s0
     in ((mf_totalBytes (rc_manifest s), BUDGET_BYTES, length (om_keys (mf_entries (rc_manifest s)))), s))"

definition cache_clear :: "cache_state \<Rightarrow> cache_state" where
  "cache_clear s = enqueue QClear s"

text \<open>The app is killed and started again: the device keeps its files, the object is new.\<close>

definition restart :: "cache_state \<Rightarrow> cache_state" where
  "restart s = cache0\<lparr>rc_files := rc_files s, rc_disk := rc_disk s, rc_async := rc_async s\<rparr>"

section \<open>\<open>mobile/lib/diskCache.ts\<close>: the cache it replaced\<close>

definition PREFIX :: str where "PREFIX = lit ''thassa.cache.v1:''"
definition MAX_AGE_MS :: int where "MAX_AGE_MS = 7 * 24 * 60 * 60 * 1000"

text \<open>\<open>AsyncStorage\<close> holds texts: an entry, or something \<open>JSON.parse\<close> rejects; \<open>fails\<close> when it throws.\<close>

definition disk_setCachedJSON :: "bool \<Rightarrow> int \<Rightarrow> str \<Rightarrow> json \<Rightarrow> (str, (int \<times> json) option) omap \<Rightarrow> (str, (int \<times> json) option) omap" where
  "disk_setCachedJSON fails now key data st = (if fails then st else om_set st (PREFIX @ key) (Some (now, data)))"

definition disk_getCachedJSON :: "bool \<Rightarrow> int \<Rightarrow> str \<Rightarrow> (str, (int \<times> json) option) omap \<Rightarrow> json option" where
  "disk_getCachedJSON fails now key st =
     (if fails then None
      else case om_get st (PREFIX @ key) of
        Some (Some (stamp, data)) \<Rightarrow> if now - stamp > MAX_AGE_MS then None else Some data
      | _ \<Rightarrow> None)"

section \<open>The invariant of a manifest\<close>

definition bytes_of :: "(str, cache_meta) omap \<Rightarrow> int" where
  "bytes_of es = sum_list (map (\<lambda>p. cm_bytes (snd p)) es)"

definition entries_ok :: "(str, cache_meta) omap \<Rightarrow> bool" where
  "entries_ok es \<longleftrightarrow> om_ok es \<and> (\<forall>p \<in> set es. cm_key (snd p) = fst p \<and> 0 \<le> cm_bytes (snd p))"

definition file_of_seq :: "nat \<Rightarrow> str \<Rightarrow> bool" where
  "file_of_seq n f \<longleftrightarrow> f = show_nat n @ lit ''.dat'' \<or> f = show_nat n @ lit ''.bin''"

definition files_ok :: "nat \<Rightarrow> (str, cache_meta) omap \<Rightarrow> bool" where
  "files_ok sq es \<longleftrightarrow> distinct (map (\<lambda>p. cm_file (snd p)) es)
     \<and> (\<forall>p \<in> set es. \<exists>n \<le> sq. file_of_seq n (cm_file (snd p)))"

definition manifest_ok :: "manifest \<Rightarrow> bool" where
  "manifest_ok m \<longleftrightarrow> entries_ok (mf_entries m) \<and> files_ok (mf_seq m) (mf_entries m)
     \<and> mf_totalBytes m = bytes_of (mf_entries m) \<and> mf_totalBytes m \<le> BUDGET_BYTES \<and> mf_version m = MANIFEST_VERSION"

definition stored_ok :: "stored_text \<Rightarrow> bool" where
  "stored_ok t \<longleftrightarrow> (\<forall>m. t = ManifestText m \<longrightarrow> manifest_ok m)"

lemma empty_manifest_ok [simp]: "manifest_ok emptyManifest"
  by (simp add: manifest_ok_def emptyManifest_def entries_ok_def files_ok_def bytes_of_def BUDGET_BYTES_def)

lemma bytes_of_simps [simp]: "bytes_of [] = 0" "bytes_of (p # es) = cm_bytes (snd p) + bytes_of es"
  by (simp_all add: bytes_of_def)

lemma bytes_of_nonneg: "entries_ok es \<Longrightarrow> 0 \<le> bytes_of es"
  by (induction es) (auto simp: entries_ok_def)

lemma entries_ok_Cons: "entries_ok (p # es) \<Longrightarrow> entries_ok es"
  by (auto simp: entries_ok_def)

lemma del_absent: "k \<notin> fst ` set es \<Longrightarrow> om_del es k = es"
  by (force simp: om_del_def filter_id_conv)

lemma bytes_of_del:
  "om_ok es \<Longrightarrow> om_get es k = Some e \<Longrightarrow> bytes_of (om_del es k) = bytes_of es - cm_bytes e"
proof (induction es)
  case (Cons p es)
  show ?case
  proof (cases "fst p = k")
    case True
    with Cons.prems have "om_del (p # es) k = om_del es k" "om_del es k = es" "snd p = e"
      using del_absent [of k es] by (auto simp: om_del_def split: prod.splits)
    then show ?thesis by simp
  next
    case False
    with Cons have "bytes_of (om_del es k) = bytes_of es - cm_bytes e" by auto
    moreover have "om_del (p # es) k = p # om_del es k" using False by (auto simp: om_del_def split: prod.splits)
    ultimately show ?thesis by simp
  qed
qed simp

lemma bytes_of_set_new:
  "om_get es k = None \<Longrightarrow> bytes_of (om_set es k e) = bytes_of es + cm_bytes e"
  by (simp add: om_set_new bytes_of_def)

lemma bytes_of_set_same:
  "om_ok es \<Longrightarrow> om_get es k = Some e \<Longrightarrow> cm_bytes e' = cm_bytes e \<Longrightarrow> bytes_of (om_set es k e') = bytes_of es"
  by (induction es k e' rule: om_set.induct) (auto split: if_splits)

lemma entries_ok_get: "entries_ok es \<Longrightarrow> om_get es k = Some e \<Longrightarrow> cm_key e = k \<and> 0 \<le> cm_bytes e"
  by (auto simp: entries_ok_def dest!: map_of_SomeD)

lemma entries_ok_del: "entries_ok es \<Longrightarrow> entries_ok (om_del es k)"
  by (auto simp: entries_ok_def om_del_def distinct_map_filter)

lemma entries_ok_value: "entries_ok es \<Longrightarrow> e \<in> set (om_values es) \<Longrightarrow> om_get es (cm_key e) = Some e"
  by (auto simp: entries_ok_def)

lemma value_iff: "entries_ok es \<Longrightarrow> e \<in> set (om_values es) \<longleftrightarrow> om_get es (cm_key e) = Some e"
  using entries_ok_value by (force dest: map_of_SomeD)

lemma files_ok_del: "files_ok n es \<Longrightarrow> files_ok n (om_del es k)"
  by (auto simp: files_ok_def om_del_def distinct_map_filter)

section \<open>Removing entries\<close>

definition manifest_remove :: "cache_meta \<Rightarrow> manifest \<Rightarrow> manifest" where
  "manifest_remove meta m = (let left = mf_totalBytes m - cm_bytes meta
     in m\<lparr>mf_totalBytes := (if left < 0 then 0 else left), mf_entries := om_del (mf_entries m) (cm_key meta)\<rparr>)"

lemma removeEntry_simps [simp]:
  "rc_manifest (removeEntry E meta s) = manifest_remove meta (rc_manifest s)"
  "rc_disk (removeEntry E meta s) = rc_disk s" "rc_async (removeEntry E meta s) = rc_async s"
  "rc_queue (removeEntry E meta s) = rc_queue s" "rc_ready (removeEntry E meta s) = rc_ready s"
  "rc_dirty (removeEntry E meta s) = rc_dirty s"
  by (simp_all add: removeEntry_def manifest_remove_def Let_def)

lemma manifest_remove_ok:
  assumes "manifest_ok m" "e \<in> set (om_values (mf_entries m))"
  shows "manifest_ok (manifest_remove e m)"
    "mf_totalBytes (manifest_remove e m) = mf_totalBytes m - cm_bytes e"
proof -
  have es: "entries_ok (mf_entries m)" "om_ok (mf_entries m)" "mf_totalBytes m = bytes_of (mf_entries m)"
    using assms(1) by (auto simp: manifest_ok_def entries_ok_def)
  have g: "om_get (mf_entries m) (cm_key e) = Some e" by (rule entries_ok_value [OF es(1) assms(2)])
  have b: "bytes_of (om_del (mf_entries m) (cm_key e)) = mf_totalBytes m - cm_bytes e"
    using bytes_of_del [OF es(2) g] es(3) by simp
  moreover have "0 \<le> bytes_of (om_del (mf_entries m) (cm_key e))"
    by (rule bytes_of_nonneg [OF entries_ok_del [OF es(1)]])
  ultimately show t: "mf_totalBytes (manifest_remove e m) = mf_totalBytes m - cm_bytes e"
    by (simp add: manifest_remove_def Let_def)
  then show "manifest_ok (manifest_remove e m)"
    using assms(1) b entries_ok_get [OF es(1) g]
    by (auto simp: manifest_ok_def manifest_remove_def Let_def entries_ok_del files_ok_del)
qed

text \<open>Which entries survive a removal: the rest, unchanged and in order.\<close>

lemma values_remove:
  assumes "entries_ok (mf_entries m)" "e \<in> set (om_values (mf_entries m))"
  shows "om_values (mf_entries (manifest_remove e m)) = filter (\<lambda>x. x \<noteq> e) (om_values (mf_entries m))"
proof -
  have g: "om_get (mf_entries m) (cm_key e) = Some e" by (rule entries_ok_value [OF assms])
  have "fst p \<noteq> cm_key e \<longleftrightarrow> snd p \<noteq> e" if "p \<in> set (mf_entries m)" for p
  proof -
    have "om_get (mf_entries m) (fst p) = Some (snd p)" "cm_key (snd p) = fst p"
      using that assms(1) by (auto simp: entries_ok_def)
    with g show ?thesis by (metis option.inject)
  qed
  then show ?thesis
    by (auto simp: manifest_remove_def Let_def om_del_def filter_map o_def split_beta intro!: arg_cong [of _ _ "map snd"] filter_cong) blast
qed

lemma distinct_values: "entries_ok es \<Longrightarrow> distinct (om_values es)"
  by (induction es) (force simp: entries_ok_def)+

lemma entries_removeEntry:
  assumes "manifest_ok (rc_manifest s)" "e \<in> set (cache_entries s)"
  shows "cache_entries (removeEntry E e s) = filter (\<lambda>x. x \<noteq> e) (cache_entries s)"
  using assms values_remove [of "rc_manifest s" e] by (simp add: cache_entries_def manifest_ok_def del: set_map)

section \<open>Eviction: the loop against its specification\<close>

text \<open>The victims of an eviction: a prefix of the entries in ascending score, as short as possible.\<close>

fun victims :: "int \<Rightarrow> int \<Rightarrow> cache_meta list \<Rightarrow> cache_meta list" where
  "victims incoming bytes [] = []"
| "victims incoming bytes (v # vs) =
     (if bytes + incoming > BUDGET_BYTES then v # victims incoming (bytes - cm_bytes v) vs else [])"

abbreviation total_of :: "cache_state \<Rightarrow> int" where
  "total_of s \<equiv> mf_totalBytes (rc_manifest s)"

abbreviation by_score :: "cache_env \<Rightarrow> cache_meta list \<Rightarrow> cache_meta list" where
  "by_score E \<equiv> sort_key (\<lambda>m. scoreOf m (ce_now E))"

lemma removeEntry_ok:
  assumes "manifest_ok (rc_manifest s)" "e \<in> set (cache_entries s)"
  shows "manifest_ok (rc_manifest (removeEntry E e s))" "total_of (removeEntry E e s) = total_of s - cm_bytes e"
  using assms manifest_remove_ok [of "rc_manifest s" e] by (simp_all add: cache_entries_def del: set_map)

lemma evict_loop_victims:
  assumes "manifest_ok (rc_manifest s)" "length (cache_entries s) \<le> n"
  shows "evict_loop n E incoming s = fold (removeEntry E) (victims incoming (total_of s) (by_score E (cache_entries s))) s"
  using assms
proof (induction n arbitrary: s)
  case 0
  then have "cache_entries s = []" by simp
  then show ?case by simp
next
  case (Suc n)
  show ?case
  proof (cases "total_of s + incoming > BUDGET_BYTES")
    case False
    then show ?thesis by (cases "by_score E (cache_entries s)") auto
  next
    case True
    show ?thesis
    proof (cases "by_score E (cache_entries s)")
      case Nil
      then show ?thesis by simp
    next
      case (Cons v vs)
      then have v: "v \<in> set (cache_entries s)" by (metis list.set_intros(1) set_sort)
      have d: "distinct (cache_entries s)"
        using Suc.prems(1) by (simp add: cache_entries_def manifest_ok_def distinct_values)
      then have "distinct (v # vs)" using Cons by (metis distinct_sort)
      then have tl: "filter (\<lambda>x. x \<noteq> v) (v # vs) = vs" by (auto simp: filter_id_conv)
      have e: "cache_entries (removeEntry E v s) = filter (\<lambda>x. x \<noteq> v) (cache_entries s)"
        by (rule entries_removeEntry [OF Suc.prems(1) v])
      then have "by_score E (cache_entries (removeEntry E v s)) = vs"
        using Cons tl filter_sort [of "\<lambda>x. x \<noteq> v" "\<lambda>m. scoreOf m (ce_now E)" "cache_entries s"] by simp
      moreover have "length (cache_entries (removeEntry E v s)) \<le> n"
        using e length_filter_less [OF v, of "\<lambda>x. x \<noteq> v"] Suc.prems(2) by simp
      ultimately show ?thesis
        using Suc.IH [of "removeEntry E v s"] removeEntry_ok [OF Suc.prems(1) v, of E] True Cons by simp
    qed
  qed
qed

lemma drop_stale_filter: "drop_stale E s = fold (removeEntry E) (filter (\<lambda>m. isStale m (ce_now E)) (cache_entries s)) s"
proof -
  have "fold (\<lambda>meta s. if isStale meta (ce_now E) then removeEntry E meta s else s) xs t
      = fold (removeEntry E) (filter (\<lambda>m. isStale m (ce_now E)) xs) t" for xs t
    by (induction xs arbitrary: t) auto
  then show ?thesis by (simp add: drop_stale_def)
qed

text \<open>A run of removals, each of an entry that is there.\<close>

lemma removals:
  assumes "manifest_ok (rc_manifest s)" "distinct vs" "set vs \<subseteq> set (cache_entries s)"
  shows "manifest_ok (rc_manifest (fold (removeEntry E) vs s))
    \<and> cache_entries (fold (removeEntry E) vs s) = filter (\<lambda>x. x \<notin> set vs) (cache_entries s)
    \<and> total_of (fold (removeEntry E) vs s) = total_of s - sum_list (map cm_bytes vs)"
  using assms
proof (induction vs arbitrary: s)
  case (Cons v vs)
  have v: "v \<in> set (cache_entries s)" using Cons.prems(3) by simp
  have e: "cache_entries (removeEntry E v s) = filter (\<lambda>x. x \<noteq> v) (cache_entries s)"
    by (rule entries_removeEntry [OF Cons.prems(1) v])
  have "set vs \<subseteq> set (cache_entries (removeEntry E v s))" using e Cons.prems by auto
  from Cons.IH [OF removeEntry_ok(1) [OF Cons.prems(1) v, of E] _ this] Cons.prems(2) show ?case
    using e removeEntry_ok(2) [OF Cons.prems(1) v, of E] by (simp add: conj_commute cong: filter_cong)
qed simp

lemma removals_frame:
  "rc_disk (fold (removeEntry E) vs s) = rc_disk s" "rc_async (fold (removeEntry E) vs s) = rc_async s"
  "rc_queue (fold (removeEntry E) vs s) = rc_queue s" "rc_ready (fold (removeEntry E) vs s) = rc_ready s"
  "rc_dirty (fold (removeEntry E) vs s) = rc_dirty s"
  "mf_seq (rc_manifest (fold (removeEntry E) vs s)) = mf_seq (rc_manifest s)"
  "mf_version (rc_manifest (fold (removeEntry E) vs s)) = mf_version (rc_manifest s)"
  by (induction vs arbitrary: s) (simp_all add: manifest_remove_def Let_def)

lemma victims_prefix: "\<exists>k. victims incoming bytes ms = take k ms"
proof (induction ms arbitrary: bytes)
  case (Cons m ms)
  then obtain k where "victims incoming (bytes - cm_bytes m) ms = take k ms" by blast
  then show ?case by (cases "bytes + incoming > BUDGET_BYTES") (auto intro: exI [of _ "Suc k"] exI [of _ 0])
qed simp

lemma victims_all: "bytes + incoming - sum_list (map cm_bytes (victims incoming bytes ms)) \<le> BUDGET_BYTES
    \<or> victims incoming bytes ms = ms"
proof (induction ms arbitrary: bytes)
  case (Cons m ms)
  from Cons.IH [of "bytes - cm_bytes m"] show ?case by (auto simp: algebra_simps)
qed simp

text \<open>The two stages of \<open>evictToFit\<close> as one list of removed entries.\<close>

definition evicted :: "cache_env \<Rightarrow> int \<Rightarrow> cache_state \<Rightarrow> cache_meta list" where
  "evicted E incoming s =
     (let stale = filter (\<lambda>m. isStale m (ce_now E)) (cache_entries s);
          kept = filter (\<lambda>m. \<not> isStale m (ce_now E)) (cache_entries s)
      in stale @ victims incoming (total_of s - sum_list (map cm_bytes stale)) (by_score E kept))"

lemma evicted_facts:
  assumes "manifest_ok (rc_manifest s)"
  shows "distinct (evicted E incoming s)" "set (evicted E incoming s) \<subseteq> set (cache_entries s)"
proof -
  let ?kept = "filter (\<lambda>m. \<not> isStale m (ce_now E)) (cache_entries s)"
  let ?stale = "filter (\<lambda>m. isStale m (ce_now E)) (cache_entries s)"
  have d: "distinct (cache_entries s)"
    using assms by (simp add: cache_entries_def manifest_ok_def distinct_values)
  obtain k where k: "victims incoming (total_of s - sum_list (map cm_bytes ?stale)) (by_score E ?kept)
      = take k (by_score E ?kept)" using victims_prefix by blast
  have "distinct (by_score E ?kept)" using d by simp
  then have "distinct (take k (by_score E ?kept))" by (rule distinct_take)
  moreover have "set (take k (by_score E ?kept)) \<subseteq> set ?kept"
    using set_take_subset [of k "by_score E ?kept"] by simp
  ultimately show "distinct (evicted E incoming s)" "set (evicted E incoming s) \<subseteq> set (cache_entries s)"
    using d by (auto simp: evicted_def Let_def k)
qed

lemma evictToFit_removals:
  assumes "manifest_ok (rc_manifest s)" "incoming \<le> BUDGET_BYTES"
  shows "evictToFit E incoming s = (fold (removeEntry E) (evicted E incoming s) s, True)"
    "total_of (fold (removeEntry E) (evicted E incoming s) s) + incoming \<le> BUDGET_BYTES"
proof -
  let ?kept = "filter (\<lambda>m. \<not> isStale m (ce_now E)) (cache_entries s)"
  let ?stale = "filter (\<lambda>m. isStale m (ce_now E)) (cache_entries s)"
  let ?s1 = "drop_stale E s" and ?vs = "victims incoming (total_of (drop_stale E s)) (by_score E ?kept)"
  have "distinct ?stale"
    using assms(1) by (simp add: cache_entries_def manifest_ok_def distinct_values)
  from removals [OF assms(1) this, of E] have s1: "manifest_ok (rc_manifest ?s1)"
    "cache_entries ?s1 = ?kept" "total_of ?s1 = total_of s - sum_list (map cm_bytes ?stale)"
    by (auto simp: drop_stale_filter intro: filter_cong)
  then have ev: "evicted E incoming s = ?stale @ ?vs" by (simp add: evicted_def Let_def)
  have "evict_loop (length (cache_entries ?s1)) E incoming ?s1 = fold (removeEntry E) ?vs ?s1"
    using evict_loop_victims [OF s1(1) order_refl, of E incoming] s1(2) by simp
  then have l: "evict_loop (length (cache_entries ?s1)) E incoming ?s1 = fold (removeEntry E) (evicted E incoming s) s"
    by (simp add: ev drop_stale_filter)
  have r: "total_of (fold (removeEntry E) (evicted E incoming s) s) = total_of s - sum_list (map cm_bytes (evicted E incoming s))"
    "manifest_ok (rc_manifest (fold (removeEntry E) (evicted E incoming s) s))"
    "cache_entries (fold (removeEntry E) (evicted E incoming s) s) = filter (\<lambda>x. x \<notin> set (evicted E incoming s)) (cache_entries s)"
    using removals [OF assms(1) evicted_facts [OF assms(1)], of E E] by auto
  show fits: "total_of (fold (removeEntry E) (evicted E incoming s) s) + incoming \<le> BUDGET_BYTES"
  proof (cases "?vs = by_score E ?kept")
    case True
    then have "cache_entries (fold (removeEntry E) (evicted E incoming s) s) = []"
      using r(3) ev by (auto simp: filter_empty_conv)
    then have "mf_entries (rc_manifest (fold (removeEntry E) (evicted E incoming s) s)) = []"
      by (simp add: cache_entries_def)
    with r(2) assms(2) show ?thesis by (simp add: manifest_ok_def)
  next
    case False
    then show ?thesis
      using victims_all [of "total_of ?s1" incoming "by_score E ?kept"] r(1) s1(3) ev by simp
  qed
  then show "evictToFit E incoming s = (fold (removeEntry E) (evicted E incoming s) s, True)"
    using assms(2) l by (simp add: evictToFit_def Let_def)
qed

section \<open>The invariant of the cache\<close>

fun queued_ok :: "queued \<Rightarrow> bool" where
  "queued_ok (QPut _ _ bytes _) = (0 \<le> bytes)"
| "queued_ok (QAdopt _ _ _ bytes) = (0 \<le> bytes)"
| "queued_ok _ = True"

definition cache_inv :: "cache_state \<Rightarrow> bool" where
  "cache_inv s \<longleftrightarrow> manifest_ok (rc_manifest s) \<and> stored_ok (rc_disk s) \<and> stored_ok (rc_async s)
     \<and> list_all queued_ok (rc_queue s)"

lemma removals_inv:
  "cache_inv s \<Longrightarrow> distinct vs \<Longrightarrow> set vs \<subseteq> set (cache_entries s) \<Longrightarrow> cache_inv (fold (removeEntry E) vs s)"
  using removals [of s vs E] by (simp add: cache_inv_def removals_frame)

lemma removeEntry_inv: "cache_inv s \<Longrightarrow> e \<in> set (cache_entries s) \<Longrightarrow> cache_inv (removeEntry E e s)"
  using removals_inv [of s "[e]" E] by simp

lemma entry_value: "om_get (mf_entries (rc_manifest s)) k = Some e \<Longrightarrow> e \<in> set (cache_entries s)"
  by (force simp: cache_entries_def dest: map_of_SomeD)

lemma evictToFit_inv:
  assumes "cache_inv s"
  shows "cache_inv (fst (evictToFit E incoming s))"
proof (cases "incoming \<le> BUDGET_BYTES")
  case True
  have m: "manifest_ok (rc_manifest s)" using assms by (simp add: cache_inv_def)
  show ?thesis
    using removals_inv [OF assms evicted_facts [OF m], of E E incoming] evictToFit_removals(1) [OF m True] by simp
qed (simp add: evictToFit_def assms)

lemma free_key_inv: "cache_inv s \<Longrightarrow> cache_inv (free_key E key s)"
  by (auto simp: free_key_def entry_value intro!: removeEntry_inv split: option.splits)

lemma free_key_gone: "om_get (mf_entries (rc_manifest (free_key E key s))) key = None" if "cache_inv s"
proof (cases "om_get (mf_entries (rc_manifest s)) key")
  case (Some prev)
  then have "cm_key prev = key" using that entries_ok_get by (auto simp: cache_inv_def manifest_ok_def)
  with Some show ?thesis by (simp add: free_key_def manifest_remove_def Let_def)
qed (simp add: free_key_def)

lemma removals_get:
  "om_get (mf_entries (rc_manifest (fold (removeEntry E) vs s))) k =
     (if k \<in> cm_key ` set vs then None else om_get (mf_entries (rc_manifest s)) k)"
  by (induction vs arbitrary: s) (auto simp: manifest_remove_def Let_def)

lemma file_of_seq_inject: "file_of_seq m f \<Longrightarrow> file_of_seq n f \<Longrightarrow> m = n"
  by (auto simp: file_of_seq_def lit_def)

lemma insert_meta_ok:
  assumes "manifest_ok m" "om_get (mf_entries m) key = None" "0 \<le> bytes" "mf_totalBytes m + bytes \<le> BUDGET_BYTES"
    and "file_of_seq (mf_seq m + 1) file"
  shows "manifest_ok (insert_meta E key file bytes tier j (m\<lparr>mf_seq := mf_seq m + 1\<rparr>))"
proof -
  have e: "mf_entries (insert_meta E key file bytes tier j (m\<lparr>mf_seq := mf_seq m + 1\<rparr>)) = mf_entries m @
      [(key, \<lparr> cm_key = key, cm_file = file, cm_bytes = bytes, cm_tier = tier,
         cm_isJson = j, cm_lastAccess = ce_now E, cm_hits = 1, cm_createdAt = ce_now E \<rparr>)]"
    using assms(2) by (simp add: insert_meta_def om_set_new)
  have "cm_file (snd p) \<noteq> file \<and> (\<exists>n \<le> mf_seq m + 1. file_of_seq n (cm_file (snd p)))" if "p \<in> set (mf_entries m)" for p
  proof -
    from that assms(1) obtain n where "n \<le> mf_seq m" "file_of_seq n (cm_file (snd p))"
      by (auto simp: manifest_ok_def files_ok_def)
    with assms(5) show ?thesis by (auto dest: file_of_seq_inject intro: exI [of _ n])
  qed
  then have "files_ok (mf_seq m + 1) (mf_entries m @ [(key, \<lparr> cm_key = key, cm_file = file, cm_bytes = bytes,
      cm_tier = tier, cm_isJson = j, cm_lastAccess = ce_now E, cm_hits = 1, cm_createdAt = ce_now E \<rparr>)])"
    using assms(1,5) by (auto simp: files_ok_def manifest_ok_def)
  moreover have "key \<notin> fst ` set (mf_entries m)" using assms(2) by (simp add: map_of_eq_None_iff)
  ultimately show ?thesis
    using assms(1,3,4) unfolding manifest_ok_def e
    by (auto simp: entries_ok_def bytes_of_def insert_meta_def)
qed

lemma next_seq_simps [simp]:
  "rc_manifest (next_seq s) = (rc_manifest s)\<lparr>mf_seq := mf_seq (rc_manifest s) + 1\<rparr>"
  "rc_disk (next_seq s) = rc_disk s" "rc_async (next_seq s) = rc_async s" "rc_queue (next_seq s) = rc_queue s"
  "rc_files (next_seq s) = rc_files s" "rc_ready (next_seq s) = rc_ready s"
  by (simp_all add: next_seq_def)

lemma files_ok_mono: "files_ok n es \<Longrightarrow> n \<le> m \<Longrightarrow> files_ok m es"
  unfolding files_ok_def by (meson le_trans)

lemma next_seq_inv: "cache_inv s \<Longrightarrow> cache_inv (next_seq s)"
  by (auto simp: cache_inv_def manifest_ok_def elim: files_ok_mono)

lemma persistNow_inv: "cache_inv s \<Longrightarrow> cache_inv (persistNow E s)"
  by (simp add: cache_inv_def persistNow_def Let_def stored_ok_def)

lemma persistNow_simps [simp]:
  "rc_manifest (persistNow E s) = rc_manifest s" "rc_queue (persistNow E s) = rc_queue s"
  "rc_files (persistNow E s) = rc_files s" "rc_ready (persistNow E s) = rc_ready s"
  by (simp_all add: persistNow_def Let_def)

lemma insert_inv:
  assumes "cache_inv s" "om_get (mf_entries (rc_manifest s)) key = None" "0 \<le> bytes"
    "total_of s + bytes \<le> BUDGET_BYTES" "file_of_seq (mf_seq (rc_manifest s) + 1) file"
  shows "cache_inv (persistNow E ((next_seq s)\<lparr>rc_files := fs,
           rc_manifest := insert_meta E key file bytes tier j (rc_manifest (next_seq s))\<rparr>))"
proof (rule persistNow_inv)
  show "cache_inv ((next_seq s)\<lparr>rc_files := fs,
      rc_manifest := insert_meta E key file bytes tier j (rc_manifest (next_seq s))\<rparr>)"
    using assms insert_meta_ok [OF _ assms(2-5)] by (simp add: cache_inv_def)
qed

text \<open>What both write paths do before they write: free the key, evict, and leave room.\<close>

lemma prepared:
  assumes "cache_inv s" "evictToFit E bytes (free_key E key s) = (t, True)"
  shows "cache_inv t" "om_get (mf_entries (rc_manifest t)) key = None" "total_of t + bytes \<le> BUDGET_BYTES"
    "bytes \<le> BUDGET_BYTES"
proof -
  have f: "cache_inv (free_key E key s)" by (rule free_key_inv [OF assms(1)])
  show "cache_inv t" using evictToFit_inv [OF f, of E bytes] assms(2) by simp
  show b: "bytes \<le> BUDGET_BYTES" using assms(2) by (auto simp: evictToFit_def split: if_splits)
  have m: "manifest_ok (rc_manifest (free_key E key s))" using f by (simp add: cache_inv_def)
  have t: "t = fold (removeEntry E) (evicted E bytes (free_key E key s)) (free_key E key s)"
    using evictToFit_removals(1) [OF m b, of E] assms(2) by simp
  show "om_get (mf_entries (rc_manifest t)) key = None"
    using free_key_gone [OF assms(1), of E key] by (simp add: t removals_get)
  show "total_of t + bytes \<le> BUDGET_BYTES"
    using evictToFit_removals(2) [OF m b, of E] by (simp add: t)
qed

lemma writeEntry_inv: "cache_inv s \<Longrightarrow> 0 \<le> bytes \<Longrightarrow> cache_inv (writeEntry E key contents bytes tier j s)"
  using evictToFit_inv [OF free_key_inv, of s E bytes E key] prepared [of s E bytes key]
  by (cases "evictToFit E bytes (free_key E key s)")
     (auto simp: writeEntry_def Let_def file_of_seq_def next_seq_inv intro!: insert_inv [simplified])

lemma delete_tmp_simps [simp]:
  "rc_manifest (delete_tmp E tmp s) = rc_manifest s" "rc_disk (delete_tmp E tmp s) = rc_disk s"
  "rc_async (delete_tmp E tmp s) = rc_async s" "rc_queue (delete_tmp E tmp s) = rc_queue s"
  by (simp_all add: delete_tmp_def)

lemma inv_cong:
  "rc_manifest s = rc_manifest t \<Longrightarrow> rc_disk s = rc_disk t \<Longrightarrow> rc_async s = rc_async t \<Longrightarrow> rc_queue s = rc_queue t
   \<Longrightarrow> cache_inv s = cache_inv t"
  by (simp add: cache_inv_def)

lemma delete_tmp_inv [simp]: "cache_inv (delete_tmp E tmp s) = cache_inv s"
  by (rule inv_cong) simp_all

lemma adoptFile_inv: "cache_inv s \<Longrightarrow> 0 \<le> bytes \<Longrightarrow> cache_inv (fst (adoptFile E key tmp bytes tier s))"
  using evictToFit_inv [OF free_key_inv, of s E bytes E key] prepared [of s E bytes key]
  by (cases "evictToFit E bytes (free_key E key s)")
     (auto simp: adoptFile_def Let_def file_of_seq_def next_seq_inv intro!: insert_inv [simplified])

lemma hardReset_inv: "cache_inv s \<Longrightarrow> cache_inv (hardReset E s)"
  by (auto simp: cache_inv_def hardReset_def Let_def stored_ok_def)

lemma stored_ok_NoText [simp]: "stored_ok NoText"
  by (simp add: stored_ok_def)

lemma load_raw_ok: "cache_inv s \<Longrightarrow> stored_ok (load_raw E s)"
  by (auto simp: load_raw_def cache_inv_def Let_def)

lemma load_inv: "cache_inv s \<Longrightarrow> cache_inv (load E s)"
  using load_raw_ok [of s E]
  by (auto simp: load_def hardReset_inv stored_ok_def split: stored_text.splits) (simp add: cache_inv_def stored_ok_def)

lemma ensureReady_inv: "cache_inv s \<Longrightarrow> cache_inv (ensureReady E s)"
  using load_inv [of s E] by (simp add: ensureReady_def) (simp add: cache_inv_def)

lemma enqueue_inv: "cache_inv s \<Longrightarrow> queued_ok q \<Longrightarrow> cache_inv (enqueue q s)"
  by (simp add: cache_inv_def enqueue_def)

lemma scheduleFlush_inv [simp]: "cache_inv (scheduleFlush s) = cache_inv s"
  by (rule inv_cong) (simp_all add: scheduleFlush_def)

lemma sum_list_set_same: "om_ok es \<Longrightarrow> om_get es k = Some e \<Longrightarrow> cm_bytes e' = cm_bytes e
    \<Longrightarrow> cm_file e' = cm_file e \<Longrightarrow> cm_key e' = cm_key e
    \<Longrightarrow> map (\<lambda>p. cm_bytes (snd p)) (om_set es k e') = map (\<lambda>p. cm_bytes (snd p)) es
      \<and> map (\<lambda>p. cm_file (snd p)) (om_set es k e') = map (\<lambda>p. cm_file (snd p)) es
      \<and> map (\<lambda>p. (fst p, cm_key (snd p))) (om_set es k e') = map (\<lambda>p. (fst p, cm_key (snd p))) es"
  by (induction es k e' rule: om_set.induct) (auto split: if_splits)

lemma entries_ok_map: "entries_ok es \<longleftrightarrow> om_ok es
    \<and> (\<forall>q \<in> set (map (\<lambda>p. (fst p, cm_key (snd p))) es). snd q = fst q)
    \<and> (\<forall>b \<in> set (map (\<lambda>p. cm_bytes (snd p)) es). 0 \<le> b)"
  by (auto simp: entries_ok_def)

lemma files_ok_map: "files_ok n es \<longleftrightarrow> distinct (map (\<lambda>p. cm_file (snd p)) es)
     \<and> (\<forall>f \<in> set (map (\<lambda>p. cm_file (snd p)) es). \<exists>k \<le> n. file_of_seq k f)"
  by (simp add: files_ok_def)

lemma touch_inv:
  assumes "cache_inv s" "om_get (mf_entries (rc_manifest s)) key = Some meta"
  shows "cache_inv (touch E key meta s)"
proof -
  let ?es = "om_set (mf_entries (rc_manifest s)) key (meta\<lparr>cm_hits := cm_hits meta + 1, cm_lastAccess := ce_now E\<rparr>)"
  have ok: "om_ok (mf_entries (rc_manifest s))" "entries_ok (mf_entries (rc_manifest s))"
    "files_ok (mf_seq (rc_manifest s)) (mf_entries (rc_manifest s))" "total_of s = bytes_of (mf_entries (rc_manifest s))"
    using assms(1) by (auto simp: cache_inv_def manifest_ok_def entries_ok_def)
  note same = sum_list_set_same [OF ok(1) assms(2), of "meta\<lparr>cm_hits := cm_hits meta + 1, cm_lastAccess := ce_now E\<rparr>", simplified]
  have "entries_ok ?es" using ok(1,2) same by (simp add: entries_ok_map del: set_map)
  moreover have "files_ok (mf_seq (rc_manifest s)) ?es" using ok(3) same by (simp add: files_ok_map del: set_map)
  moreover have "bytes_of ?es = total_of s" using ok(4) same by (simp add: bytes_of_def)
  ultimately show ?thesis
    using assms(1) by (simp add: touch_def) (simp add: cache_inv_def manifest_ok_def)
qed

section \<open>Steps\<close>

lemma getJSON_inv: "cache_inv s \<Longrightarrow> cache_inv (snd (getJSON E key s))"
  using ensureReady_inv [of s E]
  by (auto simp: getJSON_def Let_def enqueue_inv touch_inv split: option.splits payload.splits)

lemma putJSON_inv: "cache_inv s \<Longrightarrow> cache_inv (putJSON E key data raw tier s)"
  by (auto simp: putJSON_def enqueue_inv split: option.splits)

lemma cachedMediaUri_inv: "cache_inv s \<Longrightarrow> cache_inv (snd (cachedMediaUri E url s))"
  using ensureReady_inv [of s E]
  by (auto simp: cachedMediaUri_def Let_def touch_inv split: option.splits)

lemma files_update_inv [simp]: "cache_inv (s\<lparr>rc_files := fs\<rparr>) = cache_inv s"
  by (rule inv_cong) simp_all

lemma media_downloaded_inv:
  "cache_inv s \<Longrightarrow> (\<forall>st b. res = Some (st, b) \<longrightarrow> 0 \<le> b) \<Longrightarrow> cache_inv (snd (media_downloaded E url res s))"
  by (auto simp: media_downloaded_def Let_def enqueue_inv split: option.splits)

lemma run_queued_inv: "cache_inv s \<Longrightarrow> queued_ok q \<Longrightarrow> cache_inv (snd (run_queued E q s))"
proof (induction q)
  case (QAdopt key url tmp bytes)
  then have "cache_inv (fst (adoptFile E key tmp bytes MediaTier (ensureReady E s)))"
    by (simp add: adoptFile_inv ensureReady_inv)
  then show ?case
    by (cases "adoptFile E key tmp bytes MediaTier (ensureReady E s)") (simp add: run_queued_def)
qed (auto simp: run_queued_def writeEntry_inv ensureReady_inv removeEntry_inv entry_value persistNow_inv hardReset_inv
      split: option.splits)

lemma run_queue_inv: "cache_inv s \<Longrightarrow> cache_inv (snd (run_queue E s))"
proof (cases "rc_queue s")
  case (Cons q qs)
  assume "cache_inv s"
  with Cons have "cache_inv (s\<lparr>rc_queue := qs\<rparr>)" "queued_ok q" by (simp_all add: cache_inv_def)
  with Cons show ?thesis by (simp add: run_queue_def run_queued_inv)
qed (simp add: run_queue_def)

inductive cache_reachable :: "cache_state \<Rightarrow> bool" where
  init: "cache_reachable cache0"
| get: "cache_reachable s \<Longrightarrow> cache_reachable (snd (getJSON E key s))"
| put: "cache_reachable s \<Longrightarrow> cache_reachable (putJSON E key data raw tier s)"
| media: "cache_reachable s \<Longrightarrow> cache_reachable (snd (cachedMediaUri E url s))"
| downloaded: "cache_reachable s \<Longrightarrow> (\<forall>st b. res = Some (st, b) \<longrightarrow> 0 \<le> b)
    \<Longrightarrow> cache_reachable (snd (media_downloaded E url res s))"
| run: "cache_reachable s \<Longrightarrow> cache_reachable (snd (run_queue E s))"
| flush: "cache_reachable s \<Longrightarrow> rc_flushTimer s \<Longrightarrow> cache_reachable (flush_timer_fires s)"
| pin: "cache_reachable s \<Longrightarrow> cache_reachable (setPinnedIdentity name s)"
| stats: "cache_reachable s \<Longrightarrow> cache_reachable (snd (cache_stats E s))"
| clear: "cache_reachable s \<Longrightarrow> cache_reachable (cache_clear s)"
| restarted: "cache_reachable s \<Longrightarrow> cache_reachable (restart s)"

lemma cache_reachable_inv: "cache_reachable s \<Longrightarrow> cache_inv s"
proof (induction rule: cache_reachable.induct)
  case init
  then show ?case by (simp add: cache0_def cache_inv_def)
next
  case (flush s)
  then show ?case by (auto simp: flush_timer_fires_def Let_def enqueue_def cache_inv_def)
next
  case (pin s name)
  then show ?case by (simp add: setPinnedIdentity_def cache_inv_def)
next
  case (stats s E)
  then show ?case by (simp add: cache_stats_def Let_def ensureReady_inv)
next
  case (restarted s)
  then show ?case by (simp add: restart_def cache0_def cache_inv_def)
qed (simp_all add: getJSON_inv putJSON_inv cachedMediaUri_inv media_downloaded_inv run_queue_inv cache_clear_def enqueue_inv)

section \<open>Properties\<close>

text \<open>
  C13: In every reachable state, through restarts, failed writes and whatever the queue holds, the
  byte count of the manifest is exactly the sum of its entries and never exceeds the 500 MB budget;
  every entry sits under its own key, and no two entries share a file.
\<close>

theorem cache_within_budget:
  assumes "cache_reachable s"
  shows "mf_totalBytes (rc_manifest s) = bytes_of (mf_entries (rc_manifest s))
    \<and> 0 \<le> mf_totalBytes (rc_manifest s) \<and> mf_totalBytes (rc_manifest s) \<le> BUDGET_BYTES
    \<and> (\<forall>k e. om_get (mf_entries (rc_manifest s)) k = Some e \<longrightarrow> cm_key e = k)
    \<and> (\<forall>k l e d. om_get (mf_entries (rc_manifest s)) k = Some e \<and> om_get (mf_entries (rc_manifest s)) l = Some d
          \<and> cm_file e = cm_file d \<longrightarrow> k = l)"
proof (intro conjI allI impI)
  have m: "manifest_ok (rc_manifest s)" using cache_reachable_inv [OF assms] by (simp add: cache_inv_def)
  then show "mf_totalBytes (rc_manifest s) = bytes_of (mf_entries (rc_manifest s))"
    "mf_totalBytes (rc_manifest s) \<le> BUDGET_BYTES" by (simp_all add: manifest_ok_def)
  show "0 \<le> mf_totalBytes (rc_manifest s)" using m bytes_of_nonneg by (simp add: manifest_ok_def)
  show "cm_key e = k" if "om_get (mf_entries (rc_manifest s)) k = Some e" for k e
    using entries_ok_get [OF _ that] m by (simp add: manifest_ok_def)
  fix k l e d
  assume a: "om_get (mf_entries (rc_manifest s)) k = Some e \<and> om_get (mf_entries (rc_manifest s)) l = Some d
    \<and> cm_file e = cm_file d"
  then have "(k, e) \<in> set (mf_entries (rc_manifest s))" "(l, d) \<in> set (mf_entries (rc_manifest s))"
    by (blast dest: map_of_SomeD)+
  moreover have "inj_on (\<lambda>p. cm_file (snd p)) (set (mf_entries (rc_manifest s)))"
    using m by (simp add: manifest_ok_def files_ok_def distinct_map)
  ultimately show "k = l" using a inj_onD [of "\<lambda>p. cm_file (snd p)" _ "(k, e)" "(l, d)"] by simp
qed

lemma sorted_split:
  "sorted (map f xs) \<Longrightarrow> x \<in> set (take k xs) \<Longrightarrow> y \<in> set (drop k xs) \<Longrightarrow> f x \<le> f y"
proof -
  assume "sorted (map f xs)" and xy: "x \<in> set (take k xs)" "y \<in> set (drop k xs)"
  then have "sorted (map f (take k xs) @ map f (drop k xs))" by (simp flip: map_append)
  with xy show "f x \<le> f y" by (simp add: sorted_append)
qed

text \<open>A fresh victim scores no more than any fresh entry that is not a victim.\<close>

lemma victims_scores:
  assumes "x \<in> set (victims incoming bytes (by_score E ms))" "y \<in> set ms"
    "y \<notin> set (victims incoming bytes (by_score E ms))"
  shows "scoreOf x (ce_now E) \<le> scoreOf y (ce_now E)"
proof -
  obtain k where k: "victims incoming bytes (by_score E ms) = take k (by_score E ms)" using victims_prefix by blast
  have "y \<in> set (take k (by_score E ms) @ drop k (by_score E ms))" using assms(2) by simp
  then have "y \<in> set (drop k (by_score E ms))" using assms(3) k by (simp only: set_append) blast
  with assms(1) k show ?thesis
    using sorted_split [of "\<lambda>m. scoreOf m (ce_now E)" "by_score E ms" x k y] by simp
qed

lemma eviction_order:
  assumes m: "manifest_ok (rc_manifest s)" and "incoming \<le> BUDGET_BYTES" and ev: "evictToFit E incoming s = (t, fit)"
  defines "kept \<equiv> filter (\<lambda>m. \<not> isStale m (ce_now E)) (cache_entries s)"
  defines "vs \<equiv> victims incoming (total_of (drop_stale E s)) (by_score E kept)"
  shows "cache_entries t = filter (\<lambda>x. x \<notin> set vs) kept"
    and "\<And>gone left. gone \<in> set (cache_entries s) \<Longrightarrow> gone \<notin> set (cache_entries t) \<Longrightarrow> left \<in> set (cache_entries t)
      \<Longrightarrow> isStale gone (ce_now E) \<or> scoreOf gone (ce_now E) \<le> scoreOf left (ce_now E)"
proof -
  let ?stale = "filter (\<lambda>m. isStale m (ce_now E)) (cache_entries s)"
  have t: "t = fold (removeEntry E) (evicted E incoming s) s"
    using evictToFit_removals [OF m assms(2), of E] ev by auto
  have "distinct ?stale" using m by (simp add: cache_entries_def manifest_ok_def distinct_values)
  then have ds: "total_of (drop_stale E s) = total_of s - sum_list (map cm_bytes ?stale)"
    using removals [OF m, of ?stale E] by (simp add: drop_stale_filter)
  have e: "evicted E incoming s = ?stale @ vs" by (simp add: evicted_def Let_def vs_def kept_def ds)
  show es: "cache_entries t = filter (\<lambda>x. x \<notin> set vs) kept"
    using removals [OF m evicted_facts [OF m], of E E incoming] unfolding t e kept_def
    by (auto simp: conj_commute intro: filter_cong)
  show "isStale gone (ce_now E) \<or> scoreOf gone (ce_now E) \<le> scoreOf left (ce_now E)"
    if "gone \<in> set (cache_entries s)" "gone \<notin> set (cache_entries t)" "left \<in> set (cache_entries t)" for gone left
    using that victims_scores [of gone incoming "total_of (drop_stale E s)" E kept left]
    unfolding es vs_def kept_def by auto
qed

text \<open>
  C14: Making room always succeeds for an item that fits the budget at all, whatever is cached, and an
  item above the budget is refused without touching the cache. Afterwards the item fits and
  nothing stale is left. Each entry that goes is stale or among the lowest scores: none that stays has a
  score below it; and if dropping the stale entries makes enough room, no fresh entry goes.
\<close>

theorem evictToFit_correct:
  assumes "cache_inv s" "evictToFit E incoming s = (t, fit)"
  shows "(fit \<longleftrightarrow> incoming \<le> BUDGET_BYTES) \<and> (\<not> fit \<longrightarrow> t = s)
    \<and> (fit \<longrightarrow> mf_totalBytes (rc_manifest t) + incoming \<le> BUDGET_BYTES
        \<and> set (cache_entries t) \<subseteq> {m \<in> set (cache_entries s). \<not> isStale m (ce_now E)}
        \<and> (\<forall>gone \<in> set (cache_entries s) - set (cache_entries t). \<forall>kept \<in> set (cache_entries t).
              isStale gone (ce_now E) \<or> scoreOf gone (ce_now E) \<le> scoreOf kept (ce_now E))
        \<and> (mf_totalBytes (rc_manifest (drop_stale E s)) + incoming \<le> BUDGET_BYTES
            \<longrightarrow> cache_entries t = filter (\<lambda>m. \<not> isStale m (ce_now E)) (cache_entries s)))"
proof (cases "incoming \<le> BUDGET_BYTES")
  case False
  then show ?thesis using assms(2) by (simp add: evictToFit_def)
next
  case True
  have m: "manifest_ok (rc_manifest s)" using assms(1) by (simp add: cache_inv_def)
  have t: "fit" "total_of t + incoming \<le> BUDGET_BYTES"
    using evictToFit_removals [OF m True, of E] assms(2) by auto
  note es = eviction_order [OF m True assms(2)]
  have "cache_entries t = filter (\<lambda>m. \<not> isStale m (ce_now E)) (cache_entries s)"
    if "total_of (drop_stale E s) + incoming \<le> BUDGET_BYTES"
    using that unfolding es(1) by (cases "by_score E (filter (\<lambda>m. \<not> isStale m (ce_now E)) (cache_entries s))") simp_all
  moreover have "set (cache_entries t) \<subseteq> {m \<in> set (cache_entries s). \<not> isStale m (ce_now E)}"
    unfolding es(1) by auto
  ultimately show ?thesis using t True es(2) by blast
qed

lemma score_pinned: "cm_tier m = Pinned \<Longrightarrow> 0 \<le> cm_hits m \<Longrightarrow> PINNED_BONUS \<le> scoreOf m now"
proof -
  assume a: "cm_tier m = Pinned" "0 \<le> cm_hits m"
  have "0 \<le> num_div (of_int (max 0 (now - cm_lastAccess m))) 3600000" by (simp add: num_div_def)
  then have "0 \<le> num_div (of_int (cm_hits m + 1)) (num_add 1 (num_div (of_int (max 0 (now - cm_lastAccess m))) 3600000))"
    using a(2) by (simp add: num_div_def num_add_def)
  then have "fl PINNED_BONUS \<le> scoreOf m now"
    using a(1) by (simp add: scoreOf_def Let_def num_add_def fl_mono)
  moreover have "fl PINNED_BONUS = PINNED_BONUS"
    using fl_exact [of 1000000000000] by (simp add: PINNED_BONUS_def)
  ultimately show ?thesis by simp
qed

lemma score_unpinned:
  assumes "cm_tier m \<noteq> Pinned" "0 \<le> cm_hits m" "cm_hits m < 10 ^ 12 - 1"
  shows "scoreOf m now < PINNED_BONUS"
proof -
  let ?age = "num_div (of_int (max 0 (now - cm_lastAccess m))) 3600000"
  have "0 \<le> ?age" by (simp add: num_div_def)
  then have "fl 1 \<le> num_add 1 ?age" by (simp add: num_add_def fl_mono)
  then have one: "1 \<le> num_add 1 ?age" using fl_exact [of 1] by simp
  then have "of_int (cm_hits m + 1) / num_add 1 ?age \<le> of_int (cm_hits m + 1)"
    using assms(2) by (simp add: divide_le_eq)
  then have "scoreOf m now \<le> fl (of_int (cm_hits m + 1))"
    using assms(1) by (simp add: scoreOf_def Let_def num_div_def fl_mono)
  also have "\<dots> = of_int (cm_hits m + 1)" using assms(2,3) by (intro fl_exact) simp
  also have "\<dots> < PINNED_BONUS" using assms(3) by (simp add: PINNED_BONUS_def)
  finally show ?thesis .
qed

text \<open>
  Pinned data outlives everything else: if an eviction drops a pinned entry that is not stale,
  then nothing but pinned entries is left in the cache (hit counts below \<open>10 ^ 12 - 1\<close>).
\<close>

theorem pinned_evicted_last:
  assumes "cache_inv s" "evictToFit E incoming s = (t, True)"
    and "gone \<in> set (cache_entries s)" "gone \<notin> set (cache_entries t)" "cm_tier gone = Pinned" "\<not> isStale gone (ce_now E)"
    and "\<forall>m \<in> set (cache_entries s). 0 \<le> cm_hits m \<and> cm_hits m < 10 ^ 12 - 1"
  shows "\<forall>kept \<in> set (cache_entries t). cm_tier kept = Pinned"
proof
  fix kept assume k: "kept \<in> set (cache_entries t)"
  have m: "manifest_ok (rc_manifest s)" using assms(1) by (simp add: cache_inv_def)
  have b: "incoming \<le> BUDGET_BYTES" using assms(2) by (auto simp: evictToFit_def split: if_splits)
  note es = eviction_order [OF m b assms(2)]
  have t: "set (cache_entries t) \<subseteq> set (cache_entries s)" unfolding es(1) by auto
  have "scoreOf gone (ce_now E) \<le> scoreOf kept (ce_now E)" using es(2) [OF assms(3,4) k] assms(6) by simp
  note t = t this
  show "cm_tier kept = Pinned"
  proof (rule ccontr)
    assume "cm_tier kept \<noteq> Pinned"
    then have "scoreOf kept (ce_now E) < PINNED_BONUS" using assms(7) t(1) k by (auto intro!: score_unpinned)
    with t(2) score_pinned [OF assms(5), of "ce_now E"] assms(3,7) show False by auto
  qed
qed

lemma removals_ready: "rc_ready (fst (evictToFit E b (free_key E k s))) = rc_ready s" if "cache_inv s"
proof (cases "b \<le> BUDGET_BYTES")
  case True
  have "manifest_ok (rc_manifest (free_key E k s))" using free_key_inv [OF that] by (simp add: cache_inv_def)
  with True show ?thesis
    by (simp add: evictToFit_removals(1) removals_frame) (simp add: free_key_def split: option.splits)
qed (simp add: evictToFit_def free_key_def split: option.splits)

text \<open>What a successful write leaves behind.\<close>

lemma writeEntry_result:
  assumes "cache_inv s" "DIR E \<noteq> None" "bytes \<le> BUDGET_BYTES" "\<not> ce_writeFails E"
  obtains f where "om_get (mf_entries (rc_manifest (writeEntry E key contents bytes tier j s))) key =
      Some \<lparr> cm_key = key, cm_file = f, cm_bytes = bytes, cm_tier = tier,
         cm_isJson = j, cm_lastAccess = ce_now E, cm_hits = 1, cm_createdAt = ce_now E \<rparr>"
    "om_get (rc_files (writeEntry E key contents bytes tier j s)) f = Some contents"
    "rc_ready (writeEntry E key contents bytes tier j s) = rc_ready s"
proof -
  have "manifest_ok (rc_manifest (free_key E key s))" using free_key_inv [OF assms(1)] by (simp add: cache_inv_def)
  then obtain t where t: "evictToFit E bytes (free_key E key s) = (t, True)"
    using evictToFit_removals(1) assms(3) by blast
  have "rc_ready t = rc_ready s" using removals_ready [OF assms(1), of E bytes key] t by simp
  moreover obtain d where "DIR E = Some d" using assms(2) by blast
  ultimately show ?thesis
    using t assms(4) by (intro that [of "show_nat (mf_seq (rc_manifest (next_seq t))) @ lit ''.dat''"])
       (simp_all add: writeEntry_def Let_def insert_meta_def)
qed


text \<open>
  A read can throw away a write. The job a stale read queues deletes whatever is under the key
  when it runs, so if a put of the same key is still in the queue when the stale read happens, the
  read misses and the fresh value is deleted right after it was written.
\<close>

theorem stale_read_drops_pending_put:
  assumes "cache_inv s" "rc_ready s" "rc_queue s = []" "DIR E \<noteq> None"
    and "om_get (mf_entries (rc_manifest s)) key = Some meta" "cm_isJson meta" "isStale meta (ce_now E)"
  shows "fst (getJSON E key (putJSON E key data (Some raw) tier s)) = None
    \<and> om_get (mf_entries (rc_manifest
        (snd (run_queue E (snd (run_queue E (snd (getJSON E key (putJSON E key data (Some raw) tier s))))))))) key = None"
proof -
  let ?q = "QPut key (Text (Some data)) (int (utf8Bytes raw)) tier"
  have g: "getJSON E key (putJSON E key data (Some raw) tier s) = (None, s\<lparr>rc_queue := [?q, QDrop key]\<rparr>)"
    using assms(2-7) by (auto simp: getJSON_def putJSON_def enqueue_def ensureReady_def Let_def)
  let ?w = "writeEntry E key (Text (Some data)) (int (utf8Bytes raw)) tier True (s\<lparr>rc_queue := [QDrop key]\<rparr>)"
  have w: "snd (run_queue E (s\<lparr>rc_queue := [?q, QDrop key]\<rparr>)) = ?w"
    using assms(2) by (simp add: run_queue_def run_queued_def ensureReady_def)
  have inv: "cache_inv ?w"
    using assms(1) by (intro writeEntry_inv) (simp_all add: cache_inv_def)
  have "rc_queue (free_key E key (s\<lparr>rc_queue := [QDrop key]\<rparr>)) = [QDrop key]"
    by (simp add: free_key_def split: option.splits)
  moreover have "rc_queue (fst (evictToFit E b t)) = rc_queue t" if "manifest_ok (rc_manifest t)" for b t
    using evictToFit_removals(1) [OF that, of b E] by (cases "b \<le> BUDGET_BYTES") (simp_all add: removals_frame, simp add: evictToFit_def)
  moreover have "manifest_ok (rc_manifest (free_key E key (s\<lparr>rc_queue := [QDrop key]\<rparr>)))"
    using free_key_inv [of "s\<lparr>rc_queue := [QDrop key]\<rparr>" E key] assms(1) by (simp add: cache_inv_def)
  ultimately have "rc_queue (fst (evictToFit E (int (utf8Bytes raw)) (free_key E key (s\<lparr>rc_queue := [QDrop key]\<rparr>)))) = [QDrop key]"
    by simp
  then have "rc_queue ?w = [QDrop key]"
    using assms(4) by (cases "evictToFit E (int (utf8Bytes raw)) (free_key E key (s\<lparr>rc_queue := [QDrop key]\<rparr>))")
      (auto simp: writeEntry_def Let_def)
  then have "om_get (mf_entries (rc_manifest (snd (run_queue E ?w)))) key = None"
    using free_key_gone [OF inv, of E key]
    by (simp add: run_queue_def run_queued_def free_key_def scheduleFlush_def split: option.splits)
  with g w show ?thesis by simp
qed

text \<open>The code points of well-formed UTF-16, and their UTF-8 encoding: what \<open>utf8Bytes\<close> is meant to measure.\<close>

fun code_points :: "str \<Rightarrow> nat list option" where
  "code_points [] = Some []"
| "code_points (c # cs) =
     (if 0xd800 \<le> unat c \<and> unat c \<le> 0xdbff
      then (case cs of [] \<Rightarrow> None
            | d # ds \<Rightarrow> if 0xdc00 \<le> unat d \<and> unat d \<le> 0xdfff
                then map_option ((#) (0x10000 + (unat c - 0xd800) * 0x400 + (unat d - 0xdc00))) (code_points ds)
                else None)
      else if 0xdc00 \<le> unat c \<and> unat c \<le> 0xdfff then None
      else map_option ((#) (unat c)) (code_points cs))"

definition utf8_encode :: "nat \<Rightarrow> nat list" where
  "utf8_encode p =
     (if p < 0x80 then [p]
      else if p < 0x800 then [0xc0 + p div 0x40, 0x80 + p mod 0x40]
      else if p < 0x10000 then [0xe0 + p div 0x1000, 0x80 + p div 0x40 mod 0x40, 0x80 + p mod 0x40]
      else [0xf0 + p div 0x40000, 0x80 + p div 0x1000 mod 0x40, 0x80 + p div 0x40 mod 0x40, 0x80 + p mod 0x40])"

lemma length_utf8_encode:
  "length (utf8_encode p) = (if p < 0x80 then 1 else if p < 0x800 then 2 else if p < 0x10000 then 3 else 4)"
  by (simp add: utf8_encode_def)

text \<open>On well-formed text, \<open>utf8Bytes\<close> is the exact length of the UTF-8 encoding.\<close>

theorem utf8Bytes_correct:
  assumes "code_points s = Some ps"
  shows "utf8Bytes s = length (concat (map utf8_encode ps))"
  using assms
proof (induction s arbitrary: ps rule: code_points.induct)
  case (2 c cs)
  have u: "unat c < 65536" using unsigned_less [of c, where 'a = nat] by simp
  show ?case
  proof (cases "0xd800 \<le> unat c \<and> unat c \<le> 0xdbff")
    case True
    with 2 show ?thesis
      by (auto simp: word_less_nat_alt word_le_nat_alt length_utf8_encode split: list.splits if_splits)
  next
    case False
    with 2 u show ?thesis
      by (auto simp: word_less_nat_alt word_le_nat_alt length_utf8_encode split: if_splits)
  qed
qed simp

theorem utf8Bytes_correct_witness:
  "utf8Bytes [97, 0xe9, 0x20ac, 0xd83d, 0xde00] = 10
   \<and> length (concat (map utf8_encode [97, 0xe9, 0x20ac, 0x1f600])) = 10"
proof -
  have "code_points [97, 0xe9, 0x20ac, 0xd83d, 0xde00] = Some [97, 0xe9, 0x20ac, 0x1f600]" by simp
  from utf8Bytes_correct [OF this] show ?thesis by (simp add: utf8_encode_def)
qed

section \<open>Examples\<close>

definition demo_device :: "int \<Rightarrow> cache_env" where
  "demo_device now = \<lparr> ce_documentDirectory = Some (lit ''file:///doc/''), ce_now = now, ce_random = lit ''r'',
     ce_deleteFails = (\<lambda>_. False), ce_readFails = (\<lambda>_. False), ce_writeFails = False, ce_moveFails = False,
     ce_asyncFails = False \<rparr>"

lemma demo_device_simps [simp]:
  "DIR (demo_device now) \<noteq> None" "ce_now (demo_device now) = now" "\<not> ce_writeFails (demo_device now)"
  "\<not> ce_readFails (demo_device now) f"
  by (simp_all add: demo_device_def DIR_def non_empty_def lit_def)

lemma cache0_inv [simp]: "cache_inv cache0"
  by (rule cache_reachable_inv) (rule cache_reachable.init)


text \<open>Two pinned entries and a normal one; making room for 300 MB evicts the normal one and then the older pinned one.\<close>

definition demo_meta :: "str \<Rightarrow> nat \<Rightarrow> int \<Rightarrow> cache_tier \<Rightarrow> int \<Rightarrow> int \<Rightarrow> cache_meta" where
  "demo_meta key n mb tier hits access = \<lparr> cm_key = key, cm_file = show_nat n @ lit ''.dat'', cm_bytes = mb * 1048576,
     cm_tier = tier, cm_isJson = True, cm_lastAccess = access, cm_hits = hits, cm_createdAt = 0 \<rparr>"

abbreviation "demo_a \<equiv> demo_meta [97] 4 100 Normal 3 36000000"
abbreviation "demo_p \<equiv> demo_meta [112] 2 200 Pinned 0 0"
abbreviation "demo_q \<equiv> demo_meta [113] 3 150 Pinned 99 36000000"

definition demo_manifest :: manifest where
  "demo_manifest = \<lparr> mf_version = 1, mf_seq = 4, mf_totalBytes = 450 * 1048576,
     mf_entries = [([97], demo_a), ([112], demo_p), ([113], demo_q)] \<rparr>"

definition demo_cache :: cache_state where
  "demo_cache = cache0\<lparr>rc_ready := True, rc_manifest := demo_manifest\<rparr>"

lemma demo_scores:
  "scoreOf demo_a 36000000 = 4" "scoreOf demo_p 36000000 = 1000000000000 + 745 / 8192"
  "scoreOf demo_q 36000000 = 1000000000100"
proof -
  have "scoreOf demo_a 36000000 = 4 \<and> scoreOf demo_p 36000000 = 1000000000000 + 745 / 8192 \<and> scoreOf demo_q 36000000 = 1000000000100"
    by code_simp
  then show "scoreOf demo_a 36000000 = 4" "scoreOf demo_p 36000000 = 1000000000000 + 745 / 8192"
    "scoreOf demo_q 36000000 = 1000000000100" by blast+
qed

lemma demo_inv: "cache_inv demo_cache"
proof -
  have "files_ok 4 [([97], demo_a), ([112], demo_p), ([113], demo_q)]"
    unfolding files_ok_def demo_meta_def file_of_seq_def
    by (auto intro: exI [of _ "4 :: nat"] exI [of _ "2 :: nat"] exI [of _ "3 :: nat"])
  then show ?thesis
    by (simp add: cache_inv_def demo_cache_def cache0_def manifest_ok_def demo_manifest_def entries_ok_def demo_meta_def
        bytes_of_def BUDGET_BYTES_def MANIFEST_VERSION_def)
qed

lemma demo_entries: "cache_entries demo_cache = [demo_a, demo_p, demo_q]"
  by (simp add: cache_entries_def demo_cache_def demo_manifest_def)

lemma demo_evicted: "evicted (demo_device 36000000) (300 * 1048576) demo_cache = [demo_a, demo_p]"
proof -
  have f: "\<not> isStale (demo_meta k n b ti h l) 36000000" for k n b ti h l
    by (simp add: isStale_def demo_meta_def JSON_MAX_AGE_MS_def MEDIA_MAX_AGE_MS_def)
  have "by_score (demo_device 36000000) [demo_a, demo_p, demo_q] = [demo_a, demo_p, demo_q]"
    by (simp add: demo_scores)
  moreover have "total_of demo_cache = 450 * 1048576" by (simp add: demo_cache_def demo_manifest_def)
  ultimately show ?thesis
    by (simp add: evicted_def Let_def demo_entries f) (simp add: demo_meta_def BUDGET_BYTES_def)
qed

lemma demo_eviction:
  obtains t where "evictToFit (demo_device 36000000) (300 * 1048576) demo_cache = (t, True)"
    "cache_entries t = [demo_q]" "mf_totalBytes (rc_manifest t) = 150 * 1048576"
proof -
  have m: "manifest_ok (rc_manifest demo_cache)" using demo_inv by (simp add: cache_inv_def)
  have b: "300 * 1048576 \<le> BUDGET_BYTES" by (simp add: BUDGET_BYTES_def)
  have d: "demo_q \<noteq> demo_a" "demo_q \<noteq> demo_p" "demo_a \<noteq> demo_p" by (simp_all add: demo_meta_def)
  let ?t = "fold (removeEntry (demo_device 36000000)) [demo_a, demo_p] demo_cache"
  have e: "evictToFit (demo_device 36000000) (300 * 1048576) demo_cache = (?t, True)"
    using evictToFit_removals(1) [OF m b, of "demo_device 36000000"] unfolding demo_evicted .
  have r: "cache_entries ?t = filter (\<lambda>x. x \<notin> set [demo_a, demo_p]) (cache_entries demo_cache)
      \<and> total_of ?t = total_of demo_cache - sum_list (map cm_bytes [demo_a, demo_p])"
    using removals [OF m, of "[demo_a, demo_p]" "demo_device 36000000"] d demo_entries by simp
  have "sum_list (map cm_bytes [demo_a, demo_p]) = 300 * 1048576" by (simp add: demo_meta_def)
  moreover have "total_of demo_cache = 450 * 1048576" by (simp add: demo_cache_def demo_manifest_def)
  ultimately have "total_of ?t = 150 * 1048576" using r by simp
  moreover have "cache_entries ?t = [demo_q]" using r d demo_entries by simp
  ultimately show ?thesis using that [OF e] by blast
qed

theorem evictToFit_correct_witness:
  "snd (evictToFit (demo_device 36000000) (300 * 1048576) demo_cache)
   \<and> scoreOf demo_a 36000000 \<le> scoreOf demo_q 36000000 \<and> scoreOf demo_p 36000000 \<le> scoreOf demo_q 36000000"
proof (rule demo_eviction)
  fix t assume t: "evictToFit (demo_device 36000000) (300 * 1048576) demo_cache = (t, True)" "cache_entries t = [demo_q]"
  have d: "demo_q \<noteq> demo_a" "demo_q \<noteq> demo_p" by (simp_all add: demo_meta_def)
  have f: "\<not> isStale demo_a 36000000" "\<not> isStale demo_p 36000000"
    by (simp_all add: isStale_def demo_meta_def JSON_MAX_AGE_MS_def MEDIA_MAX_AGE_MS_def)
  from evictToFit_correct [OF demo_inv t(1)] show ?thesis
    using d t f by (auto simp: demo_entries)
qed

theorem pinned_evicted_last_witness:
  "\<exists>t. evictToFit (demo_device 36000000) (300 * 1048576) demo_cache = (t, True) \<and> cache_entries t \<noteq> []
    \<and> cm_tier (hd (cache_entries t)) = Pinned"
proof (rule demo_eviction)
  fix t assume t: "evictToFit (demo_device 36000000) (300 * 1048576) demo_cache = (t, True)" "cache_entries t = [demo_q]"
  have f: "\<not> isStale demo_p (ce_now (demo_device 36000000))"
    by (simp add: isStale_def demo_meta_def JSON_MAX_AGE_MS_def MEDIA_MAX_AGE_MS_def)
  have "demo_p \<in> set (cache_entries demo_cache)" "demo_p \<notin> set (cache_entries t)" "cm_tier demo_p = Pinned"
    "\<forall>m \<in> set (cache_entries demo_cache). 0 \<le> cm_hits m \<and> cm_hits m < 10 ^ 12 - 1"
    using t(2) by (simp_all add: demo_entries demo_meta_def)
  from pinned_evicted_last [OF demo_inv t(1) this(1-3) f this(4)] t show ?thesis by auto
qed

theorem cache_within_budget_witness:
  "\<exists>s. cache_reachable s \<and> mf_entries (rc_manifest s) \<noteq> [] \<and> mf_totalBytes (rc_manifest s) \<le> BUDGET_BYTES"
proof -
  let ?s = "snd (run_queue (demo_device 0) (putJSON (demo_device 0) (lit ''k'') JNull (Some (lit ''null'')) Normal cache0))"
  have r: "cache_reachable ?s" by (intro cache_reachable.run cache_reachable.put cache_reachable.init)
  have q: "?s = writeEntry (demo_device 0) (lit ''k'') (Text (Some JNull)) (int (utf8Bytes (lit ''null''))) Normal True
      (ensureReady (demo_device 0) (cache0\<lparr>rc_queue := []\<rparr>))"
    using demo_device_simps(1) [of 0] by (simp add: putJSON_def enqueue_def run_queue_def run_queued_def cache0_def)
  have "cache_inv (ensureReady (demo_device 0) (cache0\<lparr>rc_queue := []\<rparr>))"
    using cache0_inv by (intro ensureReady_inv) (simp add: cache_inv_def)
  then have "mf_entries (rc_manifest ?s) \<noteq> []"
    unfolding q by (rule writeEntry_result [where E = "demo_device 0" and key = "lit ''k''" and bytes = "int (utf8Bytes (lit ''null''))"
        and contents = "Text (Some JNull)" and tier = Normal and j = True])
      (auto simp: lit_def BUDGET_BYTES_def simp del: not_None_eq)
  with r cache_within_budget [OF r] show ?thesis by blast
qed

theorem stale_read_drops_pending_put_witness:
  "fst (getJSON (demo_device 700000000) [97] (putJSON (demo_device 700000000) [97] JNull (Some (lit ''null'')) Normal demo_cache)) = None"
  using stale_read_drops_pending_put [OF demo_inv, of "demo_device 700000000" "[97]" demo_a JNull "lit ''null''" Normal]
  by (simp add: demo_cache_def cache0_def demo_manifest_def demo_device_def DIR_def non_empty_def lit_def
      isStale_def demo_meta_def JSON_MAX_AGE_MS_def)

end
