(* ===== verification/Mentions.thy ===== *)
theory Mentions
  imports WebTypes MobileTypes
begin

text \<open>
  Mentions in captions and comments. Composing: the token under the caret, the insertion of a chosen
  user, the derivation of \<open>{user_id, start, len}\<close> from the final text (\<open>web/components/MentionTextarea.tsx\<close>,
  \<open>mobile/lib/mentions.ts\<close>, \<open>mobile/components/MentionInput.tsx\<close>). Showing: the caption cut into text and
  links (\<open>web/components/Caption.tsx\<close>, \<open>mobile/components/MentionText.tsx\<close>). Positions are indices of
  UTF-16 code units, as in the source.
\<close>

definition is_word :: "code_unit \<Rightarrow> bool" where
  "is_word c \<longleftrightarrow> (65 \<le> c \<and> c \<le> 90) \<or> (97 \<le> c \<and> c \<le> 122) \<or> (48 \<le> c \<and> c \<le> 57) \<or> c = 95"

definition AT :: code_unit where "AT = 64"

section \<open>Scanning\<close>

text \<open>
  The loop over the matches of \<open>/@(\\w+)/g\<close>: index and name of each. The match is greedy, and the
  search goes on behind it.
\<close>

function scan_tokens :: "nat \<Rightarrow> str \<Rightarrow> (nat \<times> str) list" where
  "scan_tokens i [] = []"
| "scan_tokens i (c # cs) =
     (if c = AT \<and> takeWhile is_word cs \<noteq> []
      then (i, takeWhile is_word cs) # scan_tokens (i + 1 + length (takeWhile is_word cs)) (dropWhile is_word cs)
      else scan_tokens (i + 1) cs)"
  by pat_completeness auto
termination
  by (relation "measure (\<lambda>(i, s). length s)") (auto simp: le_imp_less_Suc length_dropWhile_le)

definition boundary :: "str \<Rightarrow> nat \<Rightarrow> bool" where
  "boundary t i \<longleftrightarrow> i = 0 \<or> \<not> is_word (t ! (i - 1))"

text \<open>\<open>deriveMentions\<close> (web): the \<open>@\<close> must not be glued to a word, the name is looked up as it is.\<close>

definition deriveMentions :: "str \<Rightarrow> (str, str) omap \<Rightarrow> mention_input list" where
  "deriveMentions caption recorded =
     concat (map (\<lambda>(i, name).
       if \<not> boundary caption i then []
       else case non_empty (om_get recorded name) of
         None \<Rightarrow> []
       | Some userId \<Rightarrow> [\<lparr> mn_user_id = userId, mn_start = int i, mn_len = int (length name) + 1 \<rparr>])
       (scan_tokens 0 caption))"

record draft_mention =
  dm_user_id :: str
  dm_username :: str
  dm_display_name :: "str option"
  dm_avatar_url :: "str option"

definition draftFromUser :: "mob_user_brief \<Rightarrow> draft_mention" where
  "draftFromUser u = \<lparr> dm_user_id = mub_id u, dm_username = mub_username u,
     dm_display_name = mub_display_name u, dm_avatar_url = mub_avatar_url u \<rparr>"

definition drafts_by_name :: "draft_mention list \<Rightarrow> (str, str) omap" where
  "drafts_by_name drafts = fold (\<lambda>d m. om_set m (to_lower (dm_username d)) (dm_user_id d)) drafts []"

text \<open>\<open>computeMentions\<close> (mobile): every token counts, names are compared in lower case.\<close>

definition computeMentions :: "str \<Rightarrow> draft_mention list \<Rightarrow> mention_input list" where
  "computeMentions t drafts =
     (if drafts = [] then []
      else concat (map (\<lambda>(i, name).
        case non_empty (om_get (drafts_by_name drafts) (to_lower name)) of
          None \<Rightarrow> []
        | Some uid \<Rightarrow> [\<lparr> mn_user_id = uid, mn_start = int i, mn_len = int (length name) + 1 \<rparr>])
        (scan_tokens 0 t)))"

section \<open>The token under the caret\<close>

fun word_start :: "str \<Rightarrow> nat \<Rightarrow> nat" where
  "word_start t 0 = 0"
| "word_start t (Suc i) = (if is_word (t ! i) then word_start t i else Suc i)"

definition activeTokenAt :: "str \<Rightarrow> nat \<Rightarrow> (nat \<times> str) option" where
  "activeTokenAt t caret =
     (let i = word_start t caret in
      if i = 0 \<or> t ! (i - 1) \<noteq> AT then None
      else let pos = i - 1 in
        if \<not> boundary t pos then None
        else Some (pos, js_slice t (int i) (int caret)))"

function walk_left :: "str \<Rightarrow> int \<Rightarrow> int" where
  "walk_left t i = (if 0 \<le> i \<and> is_word (t ! nat i) then walk_left t (i - 1) else i)"
  by pat_completeness auto
termination
  by (relation "measure (\<lambda>(t, i). nat (i + 1))") auto

record mention_token =
  tk_query :: str
  tk_start :: int
  tk_end :: int

definition activeMentionToken :: "str \<Rightarrow> int \<Rightarrow> mention_token option" where
  "activeMentionToken t caret =
     (if caret < 0 \<or> int (length t) < caret then None
      else let i = walk_left t (caret - 1) in
        if i < 0 \<or> t ! nat i \<noteq> AT then None
        else if 0 < i \<and> is_word (t ! nat (i - 1)) then None
        else Some \<lparr> tk_query = js_slice t (i + 1) caret, tk_start = i, tk_end = caret \<rparr>)"

section \<open>Inserting a user\<close>

definition insertMention :: "str \<Rightarrow> mention_token \<Rightarrow> str \<Rightarrow> str \<times> nat" where
  "insertMention t tok username =
     (let before = js_slice t 0 (tk_start tok);
          after = js_slice_from t (tk_end tok);
          ins = AT # username;
          sep = (if starts_with after [32] \<or> after = [] then [] else [32]);
          head = before @ ins @ sep
      in (head @ after, length head))"

text \<open>
  The text area of the web client: its state, and its handlers, which return the value and the
  mentions they hand to \<open>onChange\<close>. \<open>useDebounced\<close> and the search are the arguments \<open>debounced\<close> and \<open>users\<close>.
\<close>

record mention_box =
  mb_recorded :: "(str, str) omap"
  mb_token :: "(nat \<times> str) option"
  mb_caret :: nat
  mb_highlight :: nat

definition box_emit :: "mention_box \<Rightarrow> str \<Rightarrow> str \<times> mention_input list" where
  "box_emit s t = (t, deriveMentions t (mb_recorded s))"

definition syncFromEl :: "str \<Rightarrow> nat option \<Rightarrow> mention_box \<Rightarrow> mention_box" where
  "syncFromEl t selectionStart s =
     (let c = or_else selectionStart (length t) in s\<lparr>mb_caret := c, mb_token := activeTokenAt t c\<rparr>)"

definition handleChange :: "str \<Rightarrow> nat option \<Rightarrow> mention_box \<Rightarrow> (str \<times> mention_input list) \<times> mention_box" where
  "handleChange t selectionStart s = (box_emit s t, syncFromEl t selectionStart (s\<lparr>mb_highlight := 0\<rparr>))"

definition choose_web :: "str \<Rightarrow> user_lite \<Rightarrow> mention_box \<Rightarrow> (str \<times> mention_input list) option \<times> mention_box" where
  "choose_web val u s =
     (case mb_token s of
        None \<Rightarrow> (None, s)
      | Some (start, query) \<Rightarrow>
          let s = s\<lparr>mb_recorded := om_set (mb_recorded s) (ul_username u) (ul_id u)\<rparr>;
              ins = AT # ul_username u @ [32];
              before = js_slice val 0 (int start);
              after = js_slice_from val (int (mb_caret s));
              nxt = before @ ins @ after;
              nextCaret = length before + length ins
          in (Some (box_emit s nxt), s\<lparr>mb_token := None, mb_highlight := 0, mb_caret := nextCaret\<rparr>))"

definition box_open :: "str \<Rightarrow> mention_box \<Rightarrow> bool" where
  "box_open debounced s \<longleftrightarrow> mb_token s \<noteq> None \<and> 1 \<le> length (js_trim debounced)"

definition box_results :: "str \<Rightarrow> user_lite list option \<Rightarrow> mention_box \<Rightarrow> user_lite list" where
  "box_results debounced users s = (if box_open debounced s then or_else users [] else [])"

datatype box_key = ArrowDown | ArrowUp | EnterKey | TabKey | EscapeKey | OtherKey

definition handleKeyDown :: "box_key \<Rightarrow> str \<Rightarrow> str \<Rightarrow> user_lite list option \<Rightarrow> mention_box
    \<Rightarrow> (str \<times> mention_input list) option \<times> mention_box" where
  "handleKeyDown key val debounced users s =
     (let results = box_results debounced users s in
      if \<not> box_open debounced s \<or> results = [] then (None, s)
      else case key of
        ArrowDown \<Rightarrow> (None, s\<lparr>mb_highlight := (mb_highlight s + 1) mod length results\<rparr>)
      | ArrowUp \<Rightarrow> (None, s\<lparr>mb_highlight := nat ((int (mb_highlight s) - 1 + int (length results)) mod int (length results))\<rparr>)
      | EnterKey \<Rightarrow> choose_web val (results ! min (mb_highlight s) (length results - 1)) s
      | TabKey \<Rightarrow> choose_web val (results ! min (mb_highlight s) (length results - 1)) s
      | EscapeKey \<Rightarrow> (None, s\<lparr>mb_token := None\<rparr>)
      | OtherKey \<Rightarrow> (None, s))"

definition handleBlurTimer :: "mention_box \<Rightarrow> mention_box" where
  "handleBlurTimer s = s\<lparr>mb_token := None\<rparr>"

text \<open>The input of the mobile client; the parent owns the text and the drafts.\<close>

definition MIN_QUERY :: nat where "MIN_QUERY = 1"
definition MAX_RESULTS :: nat where "MAX_RESULTS = 6"

record mention_field =
  fd_value :: str
  fd_drafts :: "draft_mention list"
  fd_selection :: "int \<times> int"
  fd_caretOverride :: "nat option"

definition field_token :: "mention_field \<Rightarrow> mention_token option" where
  "field_token s = (if fst (fd_selection s) = snd (fd_selection s)
     then activeMentionToken (fd_value s) (fst (fd_selection s)) else None)"

definition field_query :: "mention_field \<Rightarrow> str option" where
  "field_query s = (case field_token s of None \<Rightarrow> None
     | Some tok \<Rightarrow> if MIN_QUERY \<le> length (tk_query tok) then Some (tk_query tok) else None)"

definition field_results :: "mob_user_brief list option \<Rightarrow> mob_user_brief list" where
  "field_results users = take MAX_RESULTS (or_else users [])"

definition field_open :: "mob_user_brief list option \<Rightarrow> mention_field \<Rightarrow> bool" where
  "field_open users s \<longleftrightarrow> truthy (field_query s) \<and> field_results users \<noteq> []"

definition choose_mob :: "mob_user_brief \<Rightarrow> mention_field \<Rightarrow> mention_field" where
  "choose_mob u s =
     (case field_token s of
        None \<Rightarrow> s
      | Some tok \<Rightarrow>
          let (t, caret) = insertMention (fd_value s) tok (mub_username u);
              s = s\<lparr>fd_value := t, fd_caretOverride := Some caret, fd_selection := (int caret, int caret)\<rparr>;
              draft = draftFromUser u
          in if list_ex (\<lambda>d. dm_user_id d = dm_user_id draft \<and> dm_username d = dm_username draft) (fd_drafts s)
             then s else s\<lparr>fd_drafts := fd_drafts s @ [draft]\<rparr>)"

definition onSelectionChange :: "int \<times> int \<Rightarrow> mention_field \<Rightarrow> mention_field" where
  "onSelectionChange sel s = s\<lparr>fd_selection := sel, fd_caretOverride := None\<rparr>"

section \<open>Showing a caption\<close>

datatype 'm caption_seg = SegText str | SegMention 'm

text \<open>The loop both renderers share: \<open>st\<close> and \<open>len\<close> read the offsets of a mention.\<close>

fun caption_loop :: "('m \<Rightarrow> int) \<Rightarrow> ('m \<Rightarrow> int) \<Rightarrow> str \<Rightarrow> int \<Rightarrow> 'm list \<Rightarrow> 'm caption_seg list" where
  "caption_loop st len t cursor [] =
     (if cursor < int (length t) then [SegText (js_slice_from t cursor)] else [])"
| "caption_loop st len t cursor (m # ms) =
     (if st m < cursor then caption_loop st len t cursor ms
      else (if cursor < st m then [SegText (js_slice t cursor (st m))] else [])
           @ SegMention m # caption_loop st len t (st m + len m) ms)"

definition web_keeps :: "str \<Rightarrow> mention \<Rightarrow> bool" where
  "web_keeps t m \<longleftrightarrow> 0 \<le> mn_start m \<and> 0 < mn_len m \<and> mn_start m + mn_len m \<le> int (length t)"

definition renderCaption :: "str \<Rightarrow> mention list option \<Rightarrow> mention caption_seg list" where
  "renderCaption t mentions =
     (let ms = sort_key mn_start (filter (web_keeps t) (or_else mentions [])) in
      if ms = [] then [SegText t] else caption_loop mn_start mn_len t 0 ms)"

definition web_mention_link :: "mention \<Rightarrow> str \<times> str" where
  "web_mention_link m = (lit ''/u/'' @ mn_username m, AT # mn_username m)"

definition clipMentions :: "mention list option \<Rightarrow> int \<Rightarrow> mention list" where
  "clipMentions mentions mx = filter (\<lambda>m. mn_start m + mn_len m \<le> mx) (or_else mentions [])"

definition mob_keeps :: "str \<Rightarrow> mob_mention \<Rightarrow> bool" where
  "mob_keeps t m \<longleftrightarrow> 0 < mmn_len m \<and> 0 \<le> mmn_start m \<and> mmn_start m + mmn_len m \<le> int (length t)
     \<and> mmn_username m \<noteq> []"

definition segmentCaption :: "str \<Rightarrow> mob_mention list option \<Rightarrow> mob_mention caption_seg list" where
  "segmentCaption t mentions =
     (if t = [] then []
      else caption_loop mmn_start mmn_len t 0 (sort_key mmn_start (filter (mob_keeps t) (or_else mentions []))))"

definition mob_mention_link :: "mob_mention \<Rightarrow> str \<times> str" where
  "mob_mention_link m = (lit ''/user/'' @ mmn_username m, AT # mmn_username m)"

definition MentionText :: "str option \<Rightarrow> mob_mention list option \<Rightarrow> mob_mention caption_seg list" where
  "MentionText caption mentions = (case non_empty caption of None \<Rightarrow> [] | Some t \<Rightarrow> segmentCaption t mentions)"

declare walk_left.simps [simp del]

section \<open>Lemmas: scanning\<close>

lemma AT_not_word [simp]: "\<not> is_word AT"
  by (simp add: AT_def is_word_def)

text \<open>The scan finds every \<open>@\<close> that has a name, and nothing else.\<close>

lemma scan_tokens_iff:
  "(k, w) \<in> set (scan_tokens i s) \<longleftrightarrow>
     (\<exists>j < length s. k = i + j \<and> s ! j = AT \<and> w = takeWhile is_word (drop (Suc j) s) \<and> w \<noteq> [])"
proof (induction i s rule: scan_tokens.induct)
  case (2 i c cs)
  let ?P = "\<lambda>i s. \<exists>j < length s. k = i + j \<and> s ! j = AT \<and> w = takeWhile is_word (drop (Suc j) s) \<and> w \<noteq> []"
  have split: "?P i (c # cs) \<longleftrightarrow> (k = i \<and> c = AT \<and> w = takeWhile is_word cs \<and> w \<noteq> []) \<or> ?P (i + 1) cs"
    by (auto simp: less_Suc_eq_0_disj)
  show ?case
  proof (cases "c = AT \<and> takeWhile is_word cs \<noteq> []")
    case False
    with 2 split show ?thesis by auto
  next
    case True
    let ?n = "length (takeWhile is_word cs)"
    have word: "is_word (cs ! j)" if "j < ?n" for j
      using that by (metis nth_mem set_takeWhileD takeWhile_nth)
    have dw: "dropWhile is_word cs = drop ?n cs" by (rule dropWhile_eq_drop)
    have "?P (i + 1 + ?n) (dropWhile is_word cs) \<longleftrightarrow> ?P (i + 1) cs" (is "?L \<longleftrightarrow> ?R")
    proof
      assume ?L
      then obtain j where j: "j < length cs - ?n" "k = i + 1 + ?n + j" "drop ?n cs ! j = AT"
        "w = takeWhile is_word (drop (Suc j) (drop ?n cs))" "w \<noteq> []" by (auto simp: dw)
      then show ?R by (intro exI [of _ "?n + j"]) (auto simp: add.commute)
    next
      assume ?R
      then obtain j where j: "j < length cs" "k = i + 1 + j" "cs ! j = AT"
        "w = takeWhile is_word (drop (Suc j) cs)" "w \<noteq> []" by auto
      moreover have "?n \<le> j" using word [of j] j(3) by (metis AT_not_word not_le)
      ultimately show ?L by (intro exI [of _ "j - ?n"]) (auto simp: dw)
    qed
    moreover have "scan_tokens i (c # cs) = (i, takeWhile is_word cs) # scan_tokens (i + 1 + ?n) (dropWhile is_word cs)"
      using True by simp
    ultimately show ?thesis using 2(1) True split by auto
  qed
qed simp

text \<open>Tokens come in order, each behind the end of the one before.\<close>

lemma scan_tokens_sorted:
  "sorted_wrt (\<lambda>a b. fst a + length (snd a) < fst b) (scan_tokens i s) \<and> (\<forall>p \<in> set (scan_tokens i s). i \<le> fst p)"
proof (induction i s rule: scan_tokens.induct)
  case (2 i c cs)
  show ?case
  proof (cases "c = AT \<and> takeWhile is_word cs \<noteq> []")
    case True
    then have "scan_tokens i (c # cs) = (i, takeWhile is_word cs)
        # scan_tokens (i + 1 + length (takeWhile is_word cs)) (dropWhile is_word cs)" by simp
    then show ?thesis using 2(1) [OF True] by (force simp del: scan_tokens.simps)
  next
    case False
    then have "scan_tokens i (c # cs) = scan_tokens (i + 1) cs" by (simp only: scan_tokens.simps if_False)
    then show ?thesis using 2(2) [OF False] by (force simp del: scan_tokens.simps)
  qed
qed simp

lemma set_case_non_empty:
  "x \<in> set (case non_empty v of None \<Rightarrow> [] | Some u \<Rightarrow> [g u]) \<longleftrightarrow> (\<exists>u. v = Some u \<and> u \<noteq> [] \<and> x = g u)"
  by (cases v) (auto simp: non_empty_def)

lemma set_concat_map: "x \<in> set (concat (map f xs)) \<longleftrightarrow> (\<exists>i n. (i, n) \<in> set xs \<and> x \<in> set (f (i, n)))"
  by auto

lemma set_if_Nil: "x \<in> set (if b then [] else ys) \<longleftrightarrow> \<not> b \<and> x \<in> set ys"
  by simp

lemma deriveMentions_iff:
  "m \<in> set (deriveMentions t recorded) \<longleftrightarrow>
     (\<exists>i name. (i, name) \<in> set (scan_tokens 0 t) \<and> boundary t i \<and> (\<exists>uid. om_get recorded name = Some uid \<and> uid \<noteq> []
        \<and> m = \<lparr> mn_user_id = uid, mn_start = int i, mn_len = int (length name) + 1 \<rparr>))"
  unfolding deriveMentions_def set_concat_map prod.case set_if_Nil set_case_non_empty not_not ..

lemma computeMentions_iff:
  "m \<in> set (computeMentions t drafts) \<longleftrightarrow>
     (\<exists>i name. (i, name) \<in> set (scan_tokens 0 t)
        \<and> (\<exists>uid. om_get (drafts_by_name drafts) (to_lower name) = Some uid \<and> uid \<noteq> []
        \<and> m = \<lparr> mn_user_id = uid, mn_start = int i, mn_len = int (length name) + 1 \<rparr>))"
proof (cases "drafts = []")
  case True
  then show ?thesis by (simp add: computeMentions_def drafts_by_name_def)
next
  case False
  then show ?thesis
    unfolding computeMentions_def set_concat_map prod.case set_case_non_empty by (simp only: if_False set_concat_map prod.case set_case_non_empty)
qed

lemma sorted_wrt_short: "length xs \<le> 1 \<Longrightarrow> sorted_wrt P xs"
  by (cases xs) auto

lemma sorted_emit:
  assumes "sorted_wrt (\<lambda>a b. fst a + length (snd a) < fst b) ps"
    and "\<And>p m. p \<in> set ps \<Longrightarrow> m \<in> set (f p) \<Longrightarrow> mn_start m = int (fst p) \<and> mn_len m = int (length (snd p)) + 1"
    and "\<And>p. p \<in> set ps \<Longrightarrow> length (f p) \<le> 1"
  shows "sorted_wrt (\<lambda>a b. mn_start a + mn_len a \<le> mn_start b) (concat (map f ps))"
  using assms
proof (induction ps)
  case (Cons p ps)
  have "mn_start a + mn_len a \<le> mn_start b" if ab: "a \<in> set (f p)" "q \<in> set ps" "b \<in> set (f q)" for a b q
  proof -
    have "fst p + length (snd p) < fst q" using Cons.prems(1) ab(2) by auto
    moreover have "mn_start a + mn_len a = int (fst p) + int (length (snd p)) + 1" "mn_start b = int (fst q)"
      using Cons.prems(2) [of p a] Cons.prems(2) [of q b] ab by auto
    ultimately show ?thesis by linarith
  qed
  moreover have "sorted_wrt (\<lambda>a b. mn_start a + mn_len a \<le> mn_start b) (f p)"
    using Cons.prems(3) [of p] by (intro sorted_wrt_short) simp
  moreover have "sorted_wrt (\<lambda>a b. mn_start a + mn_len a \<le> mn_start b) (concat (map f ps))"
    using Cons.prems by (intro Cons.IH) auto
  ultimately show ?case by (auto simp: sorted_wrt_append)
qed simp

lemma length_case_non_empty: "length (case non_empty v of None \<Rightarrow> [] | Some u \<Rightarrow> [g u]) \<le> 1"
  by (simp split: option.split)

lemma deriveMentions_sorted: "sorted_wrt (\<lambda>a b. mn_start a + mn_len a \<le> mn_start b) (deriveMentions t recorded)"
  unfolding deriveMentions_def
  by (rule sorted_emit) (use scan_tokens_sorted [of 0 t] in \<open>auto simp: set_case_non_empty split: option.splits if_splits\<close>)

lemma computeMentions_sorted: "sorted_wrt (\<lambda>a b. mn_start a + mn_len a \<le> mn_start b) (computeMentions t drafts)"
proof -
  have "sorted_wrt (\<lambda>a b. mn_start a + mn_len a \<le> mn_start b) (concat (map (\<lambda>(i, name).
        case non_empty (om_get (drafts_by_name drafts) (to_lower name)) of
          None \<Rightarrow> []
        | Some uid \<Rightarrow> [\<lparr> mn_user_id = uid, mn_start = int i, mn_len = int (length name) + 1 \<rparr>])
        (scan_tokens 0 t)))"
    by (rule sorted_emit) (use scan_tokens_sorted [of 0 t] in \<open>auto split: option.splits\<close>)
  then show ?thesis by (simp add: computeMentions_def)
qed

section \<open>Lemmas: the caret\<close>

lemma word_start_le: "word_start t i \<le> i"
  by (induction t i rule: word_start.induct) auto

lemma word_start_word: "word_start t i \<le> j \<Longrightarrow> j < i \<Longrightarrow> is_word (t ! j)"
  by (induction t i rule: word_start.induct) (auto simp: less_Suc_eq split: if_splits)

lemma walk_left_start: "walk_left t (int i - 1) = int (word_start t i) - 1"
proof (induction t i rule: word_start.induct)
  case (1 t)
  then show ?case by (subst walk_left.simps) simp
next
  case (2 t i)
  then show ?case by (subst walk_left.simps) simp
qed

section \<open>Properties\<close>

text \<open>
  C19: \<open>deriveMentions\<close> is exact. A mention is emitted for precisely the \<open>@\<close>s that are not glued to a
  word and whose whole following word is the name of a recorded user, with that user's id and
  the range of the token; the mentions come in order and do not overlap.
\<close>

theorem deriveMentions_correct:
  "(m \<in> set (deriveMentions t recorded) \<longleftrightarrow>
      (\<exists>i. i < length t \<and> t ! i = AT \<and> boundary t i \<and> takeWhile is_word (drop (Suc i) t) \<noteq> []
        \<and> (\<exists>uid. om_get recorded (takeWhile is_word (drop (Suc i) t)) = Some uid \<and> uid \<noteq> []
            \<and> m = \<lparr> mn_user_id = uid, mn_start = int i,
                     mn_len = int (length (takeWhile is_word (drop (Suc i) t))) + 1 \<rparr>)))
   \<and> sorted_wrt (\<lambda>a b. mn_start a + mn_len a \<le> mn_start b) (deriveMentions t recorded)"
  by (simp only: deriveMentions_iff scan_tokens_iff deriveMentions_sorted add_0) blast

lemma active_tokens_eq:
  assumes "caret \<le> length t"
  shows "activeMentionToken t (int caret) =
    map_option (\<lambda>(start, query). \<lparr> tk_query = query, tk_start = int start, tk_end = int caret \<rparr>) (activeTokenAt t caret)"
  using assms word_start_le [of t caret]
  by (cases "word_start t caret")
     (auto simp: activeMentionToken_def activeTokenAt_def Let_def walk_left_start boundary_def nat_diff_distrib add.commute)

text \<open>
  The two clients agree on the token under the caret: for a caret inside the text,
  \<open>activeMentionToken\<close> of the app is \<open>activeTokenAt\<close> of the web client, with the caret as its end.
\<close>

theorem caret_tokens_agree:
  assumes "caret \<le> length t"
  shows "activeMentionToken t (int caret) =
    map_option (\<lambda>(start, query). \<lparr> tk_query = query, tk_start = int start, tk_end = int caret \<rparr>) (activeTokenAt t caret)"
  using assms by (rule active_tokens_eq)

theorem caret_tokens_agree_witness:
  "activeMentionToken (lit ''hi @bo'') 6 = Some \<lparr> tk_query = lit ''bo'', tk_start = 3, tk_end = 6 \<rparr>"
proof -
  have "activeTokenAt (lit ''hi @bo'') 6 = Some (3, lit ''bo'')" by code_simp
  with caret_tokens_agree [of 6 "lit ''hi @bo''"] show ?thesis by simp
qed

text \<open>
  The app finds mentions where there is none. \<open>computeMentions\<close> does not look at what stands
  before the \<open>@\<close>, so for an e-mail address whose domain is the name of a recorded user it emits a mention,
  although neither the app's own autocomplete nor the web client sees a token there.
\<close>

theorem email_becomes_mention:
  "computeMentions (lit ''me@bob.io'') [draftFromUser \<lparr> mub_id = lit ''u1'', mub_username = lit ''bob'',
       mub_display_name = None, mub_avatar_url = None \<rparr>]
     = [\<lparr> mn_user_id = lit ''u1'', mn_start = 2, mn_len = 4 \<rparr>]
   \<and> activeMentionToken (lit ''me@bob.io'') 6 = None
   \<and> deriveMentions (lit ''me@bob.io'') [(lit ''bob'', lit ''u1'')] = []"
proof (intro conjI)
  show "activeMentionToken (lit ''me@bob.io'') 6 = None" by code_simp
  show "deriveMentions (lit ''me@bob.io'') [(lit ''bob'', lit ''u1'')] = []" by code_simp
  show "computeMentions (lit ''me@bob.io'') [draftFromUser \<lparr> mub_id = lit ''u1'', mub_username = lit ''bob'',
       mub_display_name = None, mub_avatar_url = None \<rparr>]
     = [\<lparr> mn_user_id = lit ''u1'', mn_start = 2, mn_len = 4 \<rparr>]" by code_simp
qed

lemma inserted_token:
  assumes "start \<le> length val" "list_all is_word name" "name \<noteq> []" "rest = [] \<or> \<not> is_word (hd rest)"
  shows "(start, name) \<in> set (scan_tokens 0 (take start val @ AT # name @ rest))"
proof -
  have "takeWhile is_word (name @ rest) = name"
    using assms(2,4) by (cases rest) (auto simp: takeWhile_append list_all_iff)
  then show ?thesis
    using assms(1,3) by (auto simp: scan_tokens_iff nth_append intro!: exI [of _ start])
qed

lemma boundary_take: "start \<le> length val \<Longrightarrow> boundary (take start val @ rest) start = boundary val start"
  by (auto simp: boundary_def nth_append)

lemma activeTokenAt_facts:
  assumes "activeTokenAt val caret = Some (start, query)"
  shows "start < caret" "boundary val start"
  using assms word_start_le [of val caret]
  by (auto simp: activeTokenAt_def Let_def split: if_splits)

lemma space_not_word [simp]: "\<not> is_word 32"
  by (simp add: is_word_def)

text \<open>
  Choosing a user in the web text area works: the token under the caret is replaced by the
  user's name and a space, the caret lands behind the space, the rest of the text is unchanged, and the
  mentions handed to the parent contain that user at exactly the place of the token.
\<close>

theorem choose_web_mentions:
  assumes "activeTokenAt val (mb_caret s) = Some (start, query)" "mb_token s = Some (start, query)" "mb_caret s \<le> length val"
    and "list_all is_word (ul_username u)" "ul_username u \<noteq> []" "ul_id u \<noteq> []"
    and "choose_web val u s = (Some (nxt, ms), s')"
  shows "\<lparr> mn_user_id = ul_id u, mn_start = int start, mn_len = int (length (ul_username u)) + 1 \<rparr> \<in> set ms
    \<and> take (mb_caret s') nxt = take start val @ AT # ul_username u @ [32]
    \<and> drop (mb_caret s') nxt = drop (mb_caret s) val"
proof -
  have st: "start < mb_caret s" "boundary val start" using activeTokenAt_facts [OF assms(1)] by auto
  then have le: "start \<le> length val" using assms(3) by simp
  have sl: "js_slice val 0 (int start) = take start val" using js_slice_nat [of 0 start val] le by simp
  have r: "nxt = take start val @ AT # ul_username u @ 32 # drop (mb_caret s) val"
    "ms = deriveMentions nxt (om_set (mb_recorded s) (ul_username u) (ul_id u))"
    "mb_caret s' = start + length (ul_username u) + 2"
    using assms(2,3,7) le
    by (auto simp: choose_web_def Let_def box_emit_def sl js_slice_from_nat)
  have tok: "(start, ul_username u) \<in> set (scan_tokens 0 nxt)"
    using inserted_token [OF le assms(4,5), of "32 # drop (mb_caret s) val"] by (simp add: r(1))
  have "boundary nxt start" using st(2) boundary_take [OF le] by (simp add: r(1))
  with tok have "\<lparr> mn_user_id = ul_id u, mn_start = int start, mn_len = int (length (ul_username u)) + 1 \<rparr> \<in> set ms"
    using assms(6) unfolding r(2) deriveMentions_iff by (intro exI [of _ start] exI [of _ "ul_username u"]) simp
  then show ?thesis using le by (simp add: r(1,3))
qed

theorem choose_web_mentions_witness:
  "\<exists>ms s'. choose_web (lit ''hi @bo!'') \<lparr> ul_id = lit ''u1'', ul_username = lit ''bob'', ul_display_name = None, ul_avatar_url = None \<rparr>
      \<lparr> mb_recorded = [], mb_token = Some (3, lit ''bo''), mb_caret = 6, mb_highlight = 0 \<rparr> = (Some (lit ''hi @bob !'', ms), s')
    \<and> \<lparr> mn_user_id = lit ''u1'', mn_start = 3, mn_len = 4 \<rparr> \<in> set ms"
proof -
  let ?u = "\<lparr> ul_id = lit ''u1'', ul_username = lit ''bob'', ul_display_name = None, ul_avatar_url = None \<rparr>"
  let ?s = "\<lparr> mb_recorded = [], mb_token = Some (3, lit ''bo''), mb_caret = 6, mb_highlight = 0 \<rparr>"
  have c: "choose_web (lit ''hi @bo!'') ?u ?s = (Some (lit ''hi @bob !'',
      deriveMentions (lit ''hi @bob !'') [(lit ''bob'', lit ''u1'')]),
      \<lparr> mb_recorded = [(lit ''bob'', lit ''u1'')], mb_token = None, mb_caret = 8, mb_highlight = 0 \<rparr>)" by code_simp
  have "activeTokenAt (lit ''hi @bo!'') 6 = Some (3, lit ''bo'')" by code_simp
  moreover have "list_all is_word (lit ''bob'')" by code_simp
  ultimately show ?thesis using choose_web_mentions [OF _ _ _ _ _ _ c] c by simp
qed

lemma drafts_by_name_same:
  assumes "d \<in> set ds" "\<forall>e \<in> set ds. to_lower (dm_username e) = to_lower (dm_username d) \<longrightarrow> dm_user_id e = dm_user_id d"
  shows "om_get (drafts_by_name ds) (to_lower (dm_username d)) = Some (dm_user_id d)"
proof -
  have "om_get (fold (\<lambda>d m. om_set m (to_lower (dm_username d)) (dm_user_id d)) ds m) (to_lower (dm_username d))
      = Some (dm_user_id d)" if "d \<in> set ds \<or> om_get m (to_lower (dm_username d)) = Some (dm_user_id d)" for m
    using that assms(2) by (induction ds arbitrary: m) auto
  with assms(1) show ?thesis by (simp add: drafts_by_name_def)
qed

lemma field_token_facts:
  assumes "field_token s = Some tok"
  obtains start where "tk_start tok = int start" "boundary (fd_value s) start" "start \<le> length (fd_value s)"
    "tk_end tok = int (nat (tk_end tok))" "nat (tk_end tok) \<le> length (fd_value s)"
proof -
  obtain c where c: "activeMentionToken (fd_value s) c = Some tok"
    using assms by (auto simp: field_token_def split: if_splits)
  then have "0 \<le> c" "c \<le> int (length (fd_value s))" by (auto simp: activeMentionToken_def split: if_splits)
  then obtain k where k: "c = int k" "k \<le> length (fd_value s)" by (metis nat_le_iff nat_0_le)
  then obtain start q where "activeTokenAt (fd_value s) k = Some (start, q)" "tk_start tok = int start" "tk_end tok = int k"
    using active_tokens_eq [OF k(2)] c by auto
  with activeTokenAt_facts [of "fd_value s" k start q] k(2) show ?thesis by (intro that [of start]) auto
qed

text \<open>The draft of a chosen user is among the drafts afterwards, and the text is the inserted one.\<close>

lemma choose_mob_result:
  assumes "field_token s = Some tok"
  shows "draftFromUser u \<in> set (fd_drafts (choose_mob u s)) \<or>
      (\<exists>d \<in> set (fd_drafts (choose_mob u s)). dm_user_id d = mub_id u \<and> dm_username d = mub_username u)"
    "set (fd_drafts (choose_mob u s)) \<subseteq> insert (draftFromUser u) (set (fd_drafts s))"
    "fd_value (choose_mob u s) = fst (insertMention (fd_value s) tok (mub_username u))"
    "fst (fd_selection (choose_mob u s)) = int (snd (insertMention (fd_value s) tok (mub_username u)))"
  using assms by (auto simp: choose_mob_def Let_def list_ex_iff draftFromUser_def split: prod.splits)

text \<open>
  Choosing a user in the app works too: the token is replaced by the name (and a space unless the
  text ends there or goes on with one), the caret lands behind it, the draft is recorded, and what
  \<open>computeMentions\<close> derives contains the user at the place of the token, provided no draft gives
  the same name to another user.
\<close>

theorem choose_mob_mentions:
  assumes "field_token s = Some tok" "list_all is_word (mub_username u)" "mub_username u \<noteq> []" "mub_id u \<noteq> []"
    and "\<forall>d \<in> set (fd_drafts s). to_lower (dm_username d) = to_lower (mub_username u) \<longrightarrow> dm_user_id d = mub_id u"
    and "after = drop (nat (tk_end tok)) (fd_value s)" "sep = (if starts_with after [32] \<or> after = [] then [] else [32])"
  shows "\<lparr> mn_user_id = mub_id u, mn_start = tk_start tok, mn_len = int (length (mub_username u)) + 1 \<rparr>
      \<in> set (computeMentions (fd_value (choose_mob u s)) (fd_drafts (choose_mob u s)))
    \<and> fd_value (choose_mob u s) = take (nat (tk_start tok)) (fd_value s) @ AT # mub_username u @ sep @ after
    \<and> fst (fd_selection (choose_mob u s)) = tk_start tok + int (length (mub_username u) + 1 + length sep)"
proof -
  obtain start where st: "tk_start tok = int start" "boundary (fd_value s) start" "start \<le> length (fd_value s)"
    "tk_end tok = int (nat (tk_end tok))" "nat (tk_end tok) \<le> length (fd_value s)"
    by (rule field_token_facts [OF assms(1)])
  let ?s = "choose_mob u s"
  note res = choose_mob_result [OF assms(1), of u]
  have sl: "js_slice (fd_value s) 0 (tk_start tok) = take start (fd_value s)"
    using js_slice_nat [of 0 start "fd_value s"] st by simp
  have af: "js_slice_from (fd_value s) (tk_end tok) = after"
    using js_slice_from_nat [OF st(5)] st(4) assms(6) by simp
  have ins: "insertMention (fd_value s) tok (mub_username u)
      = (take start (fd_value s) @ AT # mub_username u @ sep @ after, start + length (mub_username u) + 1 + length sep)"
    using st(3) unfolding insertMention_def Let_def sl af assms(7) [symmetric] by simp
  have v: "fd_value ?s = take start (fd_value s) @ AT # mub_username u @ sep @ after"
    using res(3) ins by simp
  have "sep @ after = [] \<or> \<not> is_word (hd (sep @ after))"
    using assms(7) by (cases after) (auto split: if_splits)
  then have tok: "(start, mub_username u) \<in> set (scan_tokens 0 (fd_value ?s))"
    using inserted_token [OF st(3) assms(2,3), of "sep @ after"] by (simp add: v)
  obtain d where d: "d \<in> set (fd_drafts ?s)" "dm_user_id d = mub_id u" "dm_username d = mub_username u"
    using res(1) by (auto simp: draftFromUser_def)
  have "\<forall>e \<in> set (fd_drafts ?s). to_lower (dm_username e) = to_lower (dm_username d) \<longrightarrow> dm_user_id e = dm_user_id d"
    using res(2) assms(5) d by (auto simp: draftFromUser_def)
  from drafts_by_name_same [OF d(1) this] have "om_get (drafts_by_name (fd_drafts ?s)) (to_lower (mub_username u)) = Some (mub_id u)"
    using d by simp
  with tok have "\<lparr> mn_user_id = mub_id u, mn_start = int start, mn_len = int (length (mub_username u)) + 1 \<rparr>
      \<in> set (computeMentions (fd_value ?s) (fd_drafts ?s))"
    using assms(4) unfolding computeMentions_iff by (intro exI [of _ start] exI [of _ "mub_username u"]) simp
  then show ?thesis using v res(4) ins st(1) by simp
qed

theorem choose_mob_mentions_witness:
  "\<exists>s u. fd_value (choose_mob u s) = lit ''hi @bob !''
    \<and> \<lparr> mn_user_id = lit ''u1'', mn_start = 3, mn_len = 4 \<rparr>
        \<in> set (computeMentions (fd_value (choose_mob u s)) (fd_drafts (choose_mob u s)))"
proof -
  let ?u = "\<lparr> mub_id = lit ''u1'', mub_username = lit ''bob'', mub_display_name = None, mub_avatar_url = None \<rparr>"
  let ?s = "\<lparr> fd_value = lit ''hi @bo!'', fd_drafts = [], fd_selection = (6, 6), fd_caretOverride = None \<rparr>"
  let ?tok = "\<lparr> tk_query = lit ''bo'', tk_start = 3, tk_end = 6 \<rparr>"
  have p: "field_token ?s = Some ?tok" "list_all is_word (mub_username ?u)" "mub_username ?u \<noteq> []" "mub_id ?u \<noteq> []"
    "\<forall>d \<in> set (fd_drafts ?s). to_lower (dm_username d) = to_lower (mub_username ?u) \<longrightarrow> dm_user_id d = mub_id ?u"
    by code_simp+
  have "\<lparr> mn_user_id = lit ''u1'', mn_start = 3, mn_len = 4 \<rparr>
      \<in> set (computeMentions (fd_value (choose_mob ?u ?s)) (fd_drafts (choose_mob ?u ?s)))"
    using choose_mob_mentions [OF p refl refl, THEN conjunct1] by simp
  moreover have "fd_value (choose_mob ?u ?s) = lit ''hi @bob !''" by code_simp
  ultimately show ?thesis by blast
qed

section \<open>Captions\<close>

text \<open>
  The contract of a caption renderer: it keeps mentions inside the text and runs the loop over them
  in the order of their starts. The laws of what is shown follow from it, once for both clients.
\<close>

locale caption_renderer =
  fixes st :: "'m \<Rightarrow> int" and len :: "'m \<Rightarrow> int"
    and keeps :: "str \<Rightarrow> 'm \<Rightarrow> bool"
    and render :: "str \<Rightarrow> 'm list \<Rightarrow> 'm caption_seg list"
  assumes keeps_range: "keeps t m \<Longrightarrow> 0 \<le> st m \<and> 0 < len m \<and> st m + len m \<le> int (length t)"
    and render_loop: "t \<noteq> [] \<Longrightarrow> render t ms = caption_loop st len t 0 (sort_key st (filter (keeps t) ms))"
begin

definition raw :: "str \<Rightarrow> 'm caption_seg \<Rightarrow> str" where
  "raw t seg = (case seg of SegText u \<Rightarrow> u | SegMention m \<Rightarrow> js_slice t (st m) (st m + len m))"

definition shown :: "'m caption_seg list \<Rightarrow> 'm list" where
  "shown segs = concat (map (\<lambda>seg. case seg of SegText u \<Rightarrow> [] | SegMention m \<Rightarrow> [m]) segs)"

lemma shown_simps [simp]:
  "shown [] = []" "shown (SegText u # segs) = shown segs" "shown (SegMention m # segs) = m # shown segs"
  "shown (xs @ ys) = shown xs @ shown ys"
  by (simp_all add: shown_def)

lemma raw_simps [simp]: "raw t (SegText u) = u" "raw t (SegMention m) = js_slice t (st m) (st m + len m)"
  by (simp_all add: raw_def)

lemma js_slice_cat:
  "0 \<le> i \<Longrightarrow> i \<le> j \<Longrightarrow> j \<le> int (length t) \<Longrightarrow> js_slice t i j @ drop (nat j) t = drop (nat i) t"
proof -
  assume a: "0 \<le> i" "i \<le> j" "j \<le> int (length t)"
  then have "js_slice t i j = take (nat j - nat i) (drop (nat i) t)"
    using js_slice_nat [of "nat i" "nat j" t] by (simp add: nat_le_iff)
  moreover have "drop (nat j) t = drop (nat j - nat i) (drop (nat i) t)" using a by simp
  ultimately show ?thesis by (simp only: append_take_drop_id)
qed

lemma loop_covers:
  "0 \<le> c \<Longrightarrow> c \<le> int (length t) \<Longrightarrow> \<forall>m \<in> set ms. keeps t m
   \<Longrightarrow> concat (map (raw t) (caption_loop st len t c ms)) = drop (nat c) t"
proof (induction ms arbitrary: c)
  case Nil
  then show ?case by (auto simp: js_slice_from_def slice_pos_def min_def)
next
  case (Cons m ms)
  have k: "0 \<le> st m" "0 < len m" "st m + len m \<le> int (length t)" using Cons.prems keeps_range [of t m] by auto
  show ?case
  proof (cases "st m < c")
    case True
    with Cons show ?thesis by simp
  next
    case False
    have "concat (map (raw t) (caption_loop st len t (st m + len m) ms)) = drop (nat (st m + len m)) t"
      using Cons k by simp
    then have "concat (map (raw t) (SegMention m # caption_loop st len t (st m + len m) ms)) = drop (nat (st m)) t"
      using js_slice_cat [of "st m" "st m + len m" t] k by simp
    then show ?thesis
      using False Cons.prems k js_slice_cat [of c "st m" t] by auto
  qed
qed

lemma loop_ordered:
  "\<forall>m \<in> set ms. keeps t m \<Longrightarrow>
   sorted_wrt (\<lambda>a b. st a + len a \<le> st b) (shown (caption_loop st len t c ms))
   \<and> (\<forall>m \<in> set (shown (caption_loop st len t c ms)). c \<le> st m \<and> m \<in> set ms)"
proof (induction ms arbitrary: c)
  case (Cons m ms)
  have k: "0 < len m" using Cons.prems keeps_range [of t m] by auto
  have ih: "sorted_wrt (\<lambda>a b. st a + len a \<le> st b) (shown (caption_loop st len t d ms))"
    "\<forall>x \<in> set (shown (caption_loop st len t d ms)). d \<le> st x \<and> x \<in> set ms" for d
    using Cons.IH [of d] Cons.prems by simp_all
  show ?case
  proof (cases "st m < c")
    case True
    with ih [of c] show ?thesis by simp
  next
    case False
    then have "shown (caption_loop st len t c (m # ms)) = m # shown (caption_loop st len t (st m + len m) ms)"
      by simp
    moreover have "c \<le> st x \<and> x \<in> set ms" if "x \<in> set (shown (caption_loop st len t (st m + len m) ms))" for x
      using ih(2) [of "st m + len m"] that k False by fastforce
    ultimately show ?thesis using ih [of "st m + len m"] False by simp
  qed
qed simp

lemma loop_complete:
  "sorted (map st ms) \<Longrightarrow> m \<in> set ms \<Longrightarrow> m \<in> set (shown (caption_loop st len t c ms)) \<or> st m < c
   \<or> (\<exists>s \<in> set (shown (caption_loop st len t c ms)). st s \<le> st m \<and> st m < st s + len s)"
proof (induction ms arbitrary: c)
  case (Cons x ms)
  show ?case
  proof (cases "st x < c")
    case True
    with Cons.IH [of c] Cons.prems show ?thesis by auto
  next
    case False
    with Cons.IH [of "st x + len x"] Cons.prems show ?thesis by (auto split: if_splits)
  qed
qed simp

text \<open>Nothing of the text is lost, and what is shown are kept mentions in order, without overlap.\<close>

theorem render_covers: "t \<noteq> [] \<Longrightarrow> concat (map (raw t) (render t ms)) = t"
proof -
  assume a: "t \<noteq> []"
  have "concat (map (raw t) (caption_loop st len t 0 (sort_key st (filter (keeps t) ms)))) = drop (nat 0) t"
    by (rule loop_covers) simp_all
  then show ?thesis unfolding render_loop [OF a] by simp
qed

theorem render_ordered:
  "t \<noteq> [] \<Longrightarrow> sorted_wrt (\<lambda>a b. st a + len a \<le> st b) (shown (render t ms))
     \<and> (\<forall>m \<in> set (shown (render t ms)). m \<in> set ms \<and> keeps t m)"
proof -
  assume a: "t \<noteq> []"
  have k: "\<forall>m \<in> set (sort_key st (filter (keeps t) ms)). keeps t m" by simp
  let ?shown = "shown (caption_loop st len t 0 (sort_key st (filter (keeps t) ms)))"
  have o: "sorted_wrt (\<lambda>a b. st a + len a \<le> st b) ?shown"
    "\<forall>m \<in> set ?shown. 0 \<le> st m \<and> m \<in> set (sort_key st (filter (keeps t) ms))"
    using loop_ordered [OF k, of 0] by blast+
  have "set (sort_key st (filter (keeps t) ms)) = {m \<in> set ms. keeps t m}" by simp
  with o show ?thesis unfolding render_loop [OF a] by blast
qed

theorem render_complete:
  "t \<noteq> [] \<Longrightarrow> m \<in> set ms \<Longrightarrow> keeps t m \<Longrightarrow> m \<in> set (shown (render t ms))
     \<or> (\<exists>s \<in> set (shown (render t ms)). st s \<le> st m \<and> st m < st s + len s)"
proof -
  assume a: "t \<noteq> []" "m \<in> set ms" "keeps t m"
  then have "\<not> st m < 0" using keeps_range [of t m] by simp
  moreover have "m \<in> set (shown (render t ms)) \<or> st m < 0
      \<or> (\<exists>s \<in> set (shown (render t ms)). st s \<le> st m \<and> st m < st s + len s)"
    unfolding render_loop [OF a(1)] by (rule loop_complete) (use a in simp_all)
  ultimately show ?thesis by blast
qed

end

interpretation web_caption: caption_renderer mn_start mn_len web_keeps "\<lambda>t ms. renderCaption t (Some ms)"
proof
  show "web_keeps t m \<Longrightarrow> 0 \<le> mn_start m \<and> 0 < mn_len m \<and> mn_start m + mn_len m \<le> int (length t)" for t m
    by (simp add: web_keeps_def)
  show "t \<noteq> [] \<Longrightarrow> renderCaption t (Some ms) = caption_loop mn_start mn_len t 0 (sort_key mn_start (filter (web_keeps t) ms))"
    for t ms
    by (cases "sort_key mn_start (filter (web_keeps t) ms)")
       (simp_all add: renderCaption_def Let_def js_slice_from_def slice_pos_def)
qed

interpretation mob_caption: caption_renderer mmn_start mmn_len mob_keeps "\<lambda>t ms. segmentCaption t (Some ms)"
  by unfold_locales (auto simp: mob_keeps_def segmentCaption_def)

text \<open>What a segment stands for in the raw text, and the mentions of a rendering.\<close>

definition web_raw :: "str \<Rightarrow> mention caption_seg \<Rightarrow> str" where
  "web_raw t seg = (case seg of SegText u \<Rightarrow> u | SegMention m \<Rightarrow> js_slice t (mn_start m) (mn_start m + mn_len m))"

definition mob_raw :: "str \<Rightarrow> mob_mention caption_seg \<Rightarrow> str" where
  "mob_raw t seg = (case seg of SegText u \<Rightarrow> u | SegMention m \<Rightarrow> js_slice t (mmn_start m) (mmn_start m + mmn_len m))"

definition linked :: "'m caption_seg list \<Rightarrow> 'm list" where
  "linked segs = concat (map (\<lambda>seg. case seg of SegText u \<Rightarrow> [] | SegMention m \<Rightarrow> [m]) segs)"

lemma raw_eqs: "web_raw t = web_caption.raw t" "mob_raw t = mob_caption.raw t"
  "(linked :: mention caption_seg list \<Rightarrow> _) = web_caption.shown" "(linked :: mob_mention caption_seg list \<Rightarrow> _) = mob_caption.shown"
  by (simp_all add: fun_eq_iff web_raw_def mob_raw_def web_caption.raw_def mob_caption.raw_def linked_def
      web_caption.shown_def mob_caption.shown_def)

text \<open>
  A caption is cut without loss on both clients: replacing each link by the slice it stands for gives the
  caption back. The links are mentions of the post, in order and disjoint, and a valid
  mention is left out only if it starts inside one that is shown.
\<close>

theorem captions_cut_without_loss:
  assumes "t \<noteq> []"
  shows "concat (map (web_raw t) (renderCaption t (Some ms))) = t
    \<and> sorted_wrt (\<lambda>a b. mn_start a + mn_len a \<le> mn_start b) (linked (renderCaption t (Some ms)))
    \<and> (m \<in> set ms \<and> web_keeps t m \<longrightarrow> (\<exists>s \<in> set (linked (renderCaption t (Some ms))) \<inter> set ms.
          s = m \<or> mn_start s \<le> mn_start m \<and> mn_start m < mn_start s + mn_len s))
    \<and> concat (map (mob_raw t) (segmentCaption t (Some ns))) = t
    \<and> sorted_wrt (\<lambda>a b. mmn_start a + mmn_len a \<le> mmn_start b) (linked (segmentCaption t (Some ns)))
    \<and> (n \<in> set ns \<and> mob_keeps t n \<longrightarrow> (\<exists>s \<in> set (linked (segmentCaption t (Some ns))) \<inter> set ns.
          s = n \<or> mmn_start s \<le> mmn_start n \<and> mmn_start n < mmn_start s + mmn_len s))"
  unfolding raw_eqs
  using web_caption.render_covers [OF assms, of ms] web_caption.render_ordered [OF assms, of ms]
    web_caption.render_complete [OF assms, of m ms] mob_caption.render_covers [OF assms, of ns]
    mob_caption.render_ordered [OF assms, of ns] mob_caption.render_complete [OF assms, of n ns]
  by blast

theorem captions_cut_without_loss_witness:
  "concat (map (web_raw (lit ''hi @bob!'')) (renderCaption (lit ''hi @bob!'')
     (Some [\<lparr> mn_user_id = lit ''u1'', mn_start = 3, mn_len = 4, mn_username = lit ''robert'',
       mn_display_name = None, mn_avatar_url = None \<rparr>]))) = lit ''hi @bob!''
   \<and> length (renderCaption (lit ''hi @bob!'') (Some [\<lparr> mn_user_id = lit ''u1'', mn_start = 3, mn_len = 4, mn_username = lit ''robert'',
       mn_display_name = None, mn_avatar_url = None \<rparr>])) = 3"
proof
  show "concat (map (web_raw (lit ''hi @bob!'')) (renderCaption (lit ''hi @bob!'')
     (Some [\<lparr> mn_user_id = lit ''u1'', mn_start = 3, mn_len = 4, mn_username = lit ''robert'',
       mn_display_name = None, mn_avatar_url = None \<rparr>]))) = lit ''hi @bob!''"
    using captions_cut_without_loss [of "lit ''hi @bob!''"] by (simp add: lit_def)
  show "length (renderCaption (lit ''hi @bob!'') (Some [\<lparr> mn_user_id = lit ''u1'', mn_start = 3, mn_len = 4, mn_username = lit ''robert'',
       mn_display_name = None, mn_avatar_url = None \<rparr>])) = 3" by code_simp
qed

end
