(* ===== verification/Session.thy ===== *)
theory Session
  imports WebSocket MobileSocket RotatingCache Http
begin

text \<open>
  Identity: the warp stores (\<open>web/lib/warp.ts\<close>, \<open>mobile/lib/warpStore.ts\<close>, and the controls in
  \<open>web/providers/WarpProvider.tsx\<close> and \<open>mobile/lib/warp.tsx\<close>), the session providers
  (\<open>web/providers/SessionProvider.tsx\<close>, \<open>mobile/lib/session.tsx\<close>), the entry gate
  \<open>mobile/app/index.tsx\<close> and push registration (\<open>mobile/lib/push.ts\<close>, \<open>mobile/components/PushSync.tsx\<close>).
  The backend is an argument: what \<open>GET /v1/me\<close> answers under a warp header.
\<close>

section \<open>The warp store of the web client\<close>

record warp_target =
  wt_id :: str
  wt_username :: "str option"
  wt_email :: "str option"
  wt_avatar_url :: "str option"

text \<open>Stored text: absent or empty, a target, or anything else (no JSON, or JSON without a string id).\<close>

datatype warp_text = NoWarpText | WarpText warp_target | OtherWarpText

record warp_store =
  ws_current :: "warp_target option"
  ws_hydrated :: bool
  ws_listeners :: "nat list"
  ws_storage :: warp_text

definition warp_store0 :: "warp_text \<Rightarrow> warp_store" where
  "warp_store0 stored = \<lparr> ws_current = None, ws_hydrated = False, ws_listeners = [], ws_storage = stored \<rparr>"

text \<open>\<open>browser\<close>: there is a \<open>window\<close>. \<open>fails\<close>: \<open>localStorage\<close> throws.\<close>

definition web_hydrate :: "bool \<Rightarrow> bool \<Rightarrow> warp_store \<Rightarrow> warp_store" where
  "web_hydrate browser fails s =
     (if ws_hydrated s \<or> \<not> browser then s
      else let s = s\<lparr>ws_hydrated := True\<rparr> in
        if fails then s\<lparr>ws_current := None\<rparr>
        else case ws_storage s of
          NoWarpText \<Rightarrow> s
        | WarpText parsed \<Rightarrow> if wt_id parsed \<noteq> [] then s\<lparr>ws_current := Some parsed\<rparr> else s
        | OtherWarpText \<Rightarrow> s\<lparr>ws_current := None\<rparr>)"

definition getWarpTarget :: "bool \<Rightarrow> bool \<Rightarrow> warp_store \<Rightarrow> warp_target option \<times> warp_store" where
  "getWarpTarget browser fails s = (let s = web_hydrate browser fails s in (ws_current s, s))"

definition web_getWarpTargetId :: "bool \<Rightarrow> bool \<Rightarrow> warp_store \<Rightarrow> str option \<times> warp_store" where
  "web_getWarpTargetId browser fails s =
     (let (target, s) = getWarpTarget browser fails s in (map_option wt_id target, s))"

text \<open>The second component are the listeners that are called.\<close>

definition setWarpTarget :: "bool \<Rightarrow> bool \<Rightarrow> warp_target option \<Rightarrow> warp_store \<Rightarrow> warp_store \<times> nat list" where
  "setWarpTarget browser fails target s =
     (let s = (web_hydrate browser fails s)\<lparr>ws_current := target\<rparr>;
          s = (if browser \<and> \<not> fails
               then s\<lparr>ws_storage := (case target of Some t \<Rightarrow> WarpText t | None \<Rightarrow> NoWarpText)\<rparr> else s)
      in (s, ws_listeners s))"

definition subscribeWarp :: "nat \<Rightarrow> warp_store \<Rightarrow> warp_store" where
  "subscribeWarp l s = s\<lparr>ws_listeners := os_add (ws_listeners s) l\<rparr>"

definition unsubscribeWarp :: "nat \<Rightarrow> warp_store \<Rightarrow> warp_store" where
  "unsubscribeWarp l s = s\<lparr>ws_listeners := os_del (ws_listeners s) l\<rparr>"

definition warpServerSnapshot :: "warp_target option" where
  "warpServerSnapshot = None"

section \<open>The warp store of the app\<close>

text \<open>\<open>mp_hydration\<close>: not asked, asked with the text the secure store is about to answer, or settled.\<close>

datatype hydration = NotAsked | Asked warp_text | Settled

record mob_warp_store =
  mp_current :: "warp_target option"
  mp_hydrated :: bool
  mp_hydration :: hydration
  mp_listeners :: "nat list"
  mp_storage :: warp_text

definition ensureWarpHydrated :: "mob_warp_store \<Rightarrow> mob_warp_store" where
  "ensureWarpHydrated s = (if mp_hydration s = NotAsked then s\<lparr>mp_hydration := Asked (mp_storage s)\<rparr> else s)"

text \<open>The module asks for the stored target when it is imported.\<close>

definition mob_warp_store0 :: "warp_text \<Rightarrow> mob_warp_store" where
  "mob_warp_store0 stored = ensureWarpHydrated \<lparr> mp_current = None, mp_hydrated = False, mp_hydration = NotAsked,
     mp_listeners = [], mp_storage = stored \<rparr>"

definition hydration_settles :: "bool \<Rightarrow> mob_warp_store \<Rightarrow> mob_warp_store" where
  "hydration_settles fails s =
     (case mp_hydration s of
        Asked raw \<Rightarrow>
          (let s = (if fails then s else case raw of WarpText parsed \<Rightarrow> s\<lparr>mp_current := Some parsed\<rparr> | _ \<Rightarrow> s)
           in s\<lparr>mp_hydrated := True, mp_hydration := Settled\<rparr>)
      | _ \<Rightarrow> s)"

definition mob_getWarpTargetId :: "mob_warp_store \<Rightarrow> str option" where
  "mob_getWarpTargetId s = map_option wt_id (mp_current s)"

text \<open>\<open>resolveWarpTargetId\<close> waits for the hydration when it is not settled.\<close>

definition resolveWarpTargetId :: "bool \<Rightarrow> mob_warp_store \<Rightarrow> str option \<times> mob_warp_store" where
  "resolveWarpTargetId fails s =
     (let s = (if mp_hydrated s then s else hydration_settles fails (ensureWarpHydrated s))
      in (mob_getWarpTargetId s, s))"

definition persistWarpTarget :: "bool \<Rightarrow> warp_target option \<Rightarrow> mob_warp_store \<Rightarrow> mob_warp_store" where
  "persistWarpTarget fails target s =
     (let s = s\<lparr>mp_current := target\<rparr>
      in if fails then s
         else s\<lparr>mp_storage := (case target of Some t \<Rightarrow> WarpText t | None \<Rightarrow> NoWarpText)\<rparr>)"

definition mob_warp_subscribe :: "nat \<Rightarrow> mob_warp_store \<Rightarrow> mob_warp_store" where
  "mob_warp_subscribe l s = s\<lparr>mp_listeners := os_add (mp_listeners s) l\<rparr>"

definition mob_warp_snapshot :: "mob_warp_store \<Rightarrow> warp_target option" where
  "mob_warp_snapshot s = mp_current s"

section \<open>The session of the web client\<close>

record web_session =
  sn_me :: "me option"
  sn_loading :: bool

text \<open>\<open>load\<close>: \<open>me_at\<close> is what \<open>GET /v1/me\<close> answers under the warp header it is sent with.\<close>

definition web_session_load :: "(str option \<Rightarrow> js_error + me) \<Rightarrow> bool \<Rightarrow> warp_store \<times> web_session \<Rightarrow> warp_store \<times> web_session" where
  "web_session_load me_at fails st =
     (let (target, w) = web_getWarpTargetId True fails (fst st); s = snd st in
      case me_at (non_empty target) of
        Inr me1 \<Rightarrow> (w, s\<lparr>sn_me := Some me1, sn_loading := False\<rparr>)
      | Inl _ \<Rightarrow>
          if truthy target
          then let w = fst (setWarpTarget True fails None w) in
            (case me_at None of
               Inr me1 \<Rightarrow> (w, s\<lparr>sn_me := Some me1, sn_loading := False\<rparr>)
             | Inl _ \<Rightarrow> (w, s\<lparr>sn_me := None, sn_loading := False\<rparr>))
          else (w, s\<lparr>sn_me := None, sn_loading := False\<rparr>))"

text \<open>The effect that boots the session, and the cleanup React runs before the next one.\<close>

definition web_session_effect :: "bool \<Rightarrow> bool \<Rightarrow> web_session \<times> web_socket \<Rightarrow> web_session \<times> web_socket" where
  "web_session_effect ready authenticated st =
     (let (s, k) = st in
      if \<not> ready then (s, k)
      else if \<not> authenticated then (s\<lparr>sn_me := None, sn_loading := False\<rparr>, web_stop k)
      else (s\<lparr>sn_loading := True\<rparr>, web_start k))"

definition web_session_cleanup :: "bool \<Rightarrow> bool \<Rightarrow> web_session \<times> web_socket \<Rightarrow> web_session \<times> web_socket" where
  "web_session_cleanup ready authenticated st =
     (if ready \<and> authenticated then (fst st, web_stop (snd st)) else st)"

text \<open>\<open>useWarpControls\<close>: swap the target, drop the query cache (here a flag), reload the session.\<close>

record warp_run =
  wr_store :: warp_store
  wr_session :: web_session
  wr_cache_cleared :: bool
  wr_toast :: "str option"
  wr_route :: "str option"

definition web_warp_enter :: "(str option \<Rightarrow> js_error + me) \<Rightarrow> bool \<Rightarrow> warp_target \<Rightarrow> warp_store \<times> web_session \<Rightarrow> warp_run" where
  "web_warp_enter me_at fails target st =
     (let w = fst (setWarpTarget True fails (Some target) (fst st)); (w, s) = web_session_load me_at fails (w, snd st)
      in \<lparr> wr_store = w, wr_session = s, wr_cache_cleared = True,
           wr_toast = Some (lit ''Warping into @'' @ or_else (wt_username target) []), wr_route = Some (lit ''/'') \<rparr>)"

definition web_warp_exit :: "(str option \<Rightarrow> js_error + me) \<Rightarrow> bool \<Rightarrow> warp_store \<times> web_session \<Rightarrow> warp_run" where
  "web_warp_exit me_at fails st =
     (let w = fst (setWarpTarget True fails None (fst st)); (w, s) = web_session_load me_at fails (w, snd st)
      in \<lparr> wr_store = w, wr_session = s, wr_cache_cleared = True,
           wr_toast = Some (lit ''Exited warp''), wr_route = Some (lit ''/'') \<rparr>)"

section \<open>The session of the app\<close>

datatype session_status = LoadingStatus | ReadyStatus | ErrorStatus

record mob_session =
  se_me :: "mob_me option"
  se_status :: session_status
  se_unreadNotifications :: int
  se_unreadMessages :: int
  se_subscribers :: "nat list"

definition mob_session0 :: mob_session where
  "mob_session0 = \<lparr> se_me = None, se_status = LoadingStatus, se_unreadNotifications = 0, se_unreadMessages = 0,
     se_subscribers = [] \<rparr>"

definition mob_socket_effect :: "bool \<Rightarrow> mob_socket \<Rightarrow> mob_socket" where
  "mob_socket_effect isSignedIn k = (if isSignedIn then startSocket k else stopSocket k)"

text \<open>\<open>refreshBadges\<close>: the counts of the answer, or nothing on an error.\<close>

definition refreshBadges :: "js_error + int option \<times> int option \<Rightarrow> mob_session \<Rightarrow> mob_session" where
  "refreshBadges res s =
     (case res of Inl _ \<Rightarrow> s
      | Inr (notifications, messages) \<Rightarrow>
          s\<lparr>se_unreadNotifications := or_else notifications 0, se_unreadMessages := or_else messages 0\<rparr>)"

definition onUserChannelEvent :: "ws_event \<Rightarrow> mob_session \<Rightarrow> mob_session \<times> (nat \<times> ws_event) list" where
  "onUserChannelEvent e s =
     ((case e of
         EvNotification _ n \<Rightarrow>
           if an_kind n = lit ''dm.message'' then s\<lparr>se_unreadMessages := se_unreadMessages s + 1\<rparr>
           else s\<lparr>se_unreadNotifications := se_unreadNotifications s + 1\<rparr>
       | _ \<Rightarrow> s),
      map (\<lambda>f. (f, e)) (se_subscribers s))"

definition onUserEvent :: "nat \<Rightarrow> mob_session \<Rightarrow> mob_session" where
  "onUserEvent f s = s\<lparr>se_subscribers := os_add (se_subscribers s) f\<rparr>"

text \<open>\<open>load\<close>: its start, and its end with the answer of \<open>/v1/me\<close>; the result names the wallet it registers.\<close>

definition mob_load_start :: "mob_session \<Rightarrow> mob_session" where
  "mob_load_start s = s\<lparr>se_status := (if se_status s = ReadyStatus \<and> se_me s \<noteq> None then ReadyStatus else LoadingStatus)\<rparr>"

definition mob_load_end :: "js_error + mob_me \<Rightarrow> str option \<Rightarrow> mob_session \<times> cache_state
    \<Rightarrow> (mob_session \<times> cache_state) \<times> str option" where
  "mob_load_end res embeddedAddress st =
     (case res of
        Inl _ \<Rightarrow> (((fst st)\<lparr>se_status := ErrorStatus\<rparr>, snd st), None)
      | Inr me1 \<Rightarrow>
          (((fst st)\<lparr>se_me := Some me1, se_status := ReadyStatus\<rparr>, setPinnedIdentity (mme_username me1) (snd st)),
           if \<not> truthy (mme_wallet_address me1) \<and> truthy embeddedAddress then embeddedAddress else None))"

definition mob_wallet_registered :: "js_error + mob_me \<Rightarrow> mob_session \<Rightarrow> mob_session" where
  "mob_wallet_registered res s = (case res of Inl _ \<Rightarrow> s | Inr me1 \<Rightarrow> s\<lparr>se_me := Some me1\<rparr>)"

definition mob_auth_effect :: "bool \<Rightarrow> bool \<Rightarrow> mob_session \<times> cache_state \<Rightarrow> mob_session \<times> cache_state" where
  "mob_auth_effect isReady isSignedIn st =
     (if \<not> isReady then st
      else if \<not> isSignedIn
        then ((fst st)\<lparr>se_status := ReadyStatus, se_me := None\<rparr>, setPinnedIdentity None (snd st))
        else (mob_load_start (fst st), snd st))"

definition mob_setMe :: "(mob_me \<Rightarrow> mob_me) \<Rightarrow> mob_session \<Rightarrow> mob_session" where
  "mob_setMe updater s = s\<lparr>se_me := map_option updater (se_me s)\<rparr>"

definition needsOnboarding :: "mob_me option \<Rightarrow> bool" where
  "needsOnboarding m = (case m of None \<Rightarrow> False
     | Some me1 \<Rightarrow> \<not> or_else (mme_onboarded me1) (truthy (mme_username me1)))"

text \<open>The entry gate of the app.\<close>

datatype gate = Splash | SignIn | ConnectionErrorScreen | Onboarding | Tabs

definition entry_gate :: "bool \<Rightarrow> bool \<Rightarrow> mob_session \<Rightarrow> gate" where
  "entry_gate isReady isSignedIn s =
     (if \<not> isReady then Splash
      else if \<not> isSignedIn then SignIn
      else if se_status s = LoadingStatus then Splash
      else if se_status s = ErrorStatus then ConnectionErrorScreen
      else if se_me s = None then Splash
      else if needsOnboarding (se_me s) then Onboarding
      else Tabs)"

section \<open>Push notifications\<close>

text \<open>What the device and the backend answer to the steps of \<open>registerForPush\<close>; \<open>None\<close> when one throws.\<close>

record push_env =
  pe_isDevice :: bool
  pe_granted :: "bool option"
  pe_grantedOnRequest :: "bool option"
  pe_extraProjectId :: "str option"
  pe_easProjectId :: "str option"
  pe_expoToken :: "str option option"
  pe_postFails :: bool
  pe_deleteFails :: bool
  pe_storageFails :: bool

datatype push_event = PostPushToken str | DeletePushToken str

definition getProjectId :: "push_env \<Rightarrow> str option" where
  "getProjectId P = alt_opt (pe_extraProjectId P) (pe_easProjectId P)"

text \<open>Result, events, and the token stored on the device.\<close>

definition registerForPush :: "push_env \<Rightarrow> str option \<Rightarrow> str option \<times> push_event list \<times> str option" where
  "registerForPush P stored =
     (if \<not> pe_isDevice P then (None, [], stored)
      else case pe_granted P of None \<Rightarrow> (None, [], stored)
      | Some existing \<Rightarrow>
        (case (if existing then Some True else pe_grantedOnRequest P) of
           Some True \<Rightarrow>
             (case non_empty (getProjectId P) of None \<Rightarrow> (None, [], stored)
              | Some projectId \<Rightarrow>
                (case pe_expoToken P of None \<Rightarrow> (None, [], stored)
                 | Some data \<Rightarrow>
                   (case non_empty data of None \<Rightarrow> (None, [], stored)
                    | Some token \<Rightarrow>
                        if pe_postFails P then (None, [PostPushToken token], stored)
                        else (Some token, [PostPushToken token], if pe_storageFails P then stored else Some token))))
         | _ \<Rightarrow> (None, [], stored)))"

definition unregisterForPush :: "push_env \<Rightarrow> str option \<Rightarrow> push_event list \<times> str option" where
  "unregisterForPush P stored =
     (if pe_storageFails P then ([], stored)
      else case non_empty stored of None \<Rightarrow> ([], stored)
      | Some token \<Rightarrow> ([DeletePushToken token], None))"

text \<open>The route of a tapped notification. \<open>data\<close> is the payload object; \<open>str\<close> accepts non-empty text only.\<close>

definition push_str :: "json option \<Rightarrow> str option" where
  "push_str v = non_empty (json_str v)"

definition route :: "string \<Rightarrow> str option \<Rightarrow> str option \<Rightarrow> str option" where
  "route prefix v other = (case v of Some t \<Rightarrow> Some (lit prefix @ t) | None \<Rightarrow> other)"

definition notification_route :: "str \<Rightarrow> str option \<Rightarrow> str option \<Rightarrow> str option \<Rightarrow> str option \<Rightarrow> str option" where
  "notification_route kind marketId postId conversationId username =
     (if kind = lit ''dm.message'' then route ''/conversation/'' conversationId (Some (lit ''/messages''))
      else if kind = lit ''post.mention'' then route ''/post/'' postId (route ''/market/'' marketId None)
      else if kind = lit ''following.large_entry'' then route ''/market/'' marketId (route ''/post/'' postId None)
      else if kind = lit ''position.swing'' \<or> kind = lit ''market.matched'' \<or> kind = lit ''order.filled''
        then route ''/market/'' marketId None
      else if kind = lit ''follow.new'' \<or> kind = lit ''follow'' \<or> kind = lit ''follow.request'' \<or> kind = lit ''follow.accepted''
        then route ''/user/'' username (Some (lit ''/notifications''))
      else route ''/market/'' marketId (route ''/post/'' postId (route ''/conversation/'' conversationId
             (route ''/user/'' username None))))"

definition notificationHref :: "json option \<Rightarrow> str option" where
  "notificationHref data0 =
     (case data0 of
        None \<Rightarrow> None
      | Some JNull \<Rightarrow> None
      | Some data \<Rightarrow>
          notification_route (or_else (json_str (json_field data (lit ''kind''))) [])
            (push_str (json_field data (lit ''market_id'')))
            (push_str (json_field data (lit ''post_id'')))
            (push_str (json_field data (lit ''conversation_id'')))
            (alt_opt (case json_field data (lit ''user'') of None \<Rightarrow> None
                      | Some u \<Rightarrow> push_str (json_field u (lit ''username'')))
                     (push_str (json_field data (lit ''username'')))))"

text \<open>\<open>PushSync\<close>: the device is registered once per signed-in user; signing out resets the guard.\<close>

definition pushSync_effect :: "bool \<Rightarrow> str option \<Rightarrow> str option \<Rightarrow> str option \<times> bool" where
  "pushSync_effect isSignedIn meId registeredFor =
     (if \<not> isSignedIn then (None, False)
      else case non_empty meId of
        None \<Rightarrow> (registeredFor, False)
      | Some i \<Rightarrow> if registeredFor = Some i then (registeredFor, False) else (Some i, True))"

section \<open>Signing out\<close>

text \<open>\<open>logout\<close> of \<open>mobile/lib/auth.tsx\<close>: the hook runs while the token is still valid, then the session ends.\<close>

datatype logout_event = PushEvent push_event | PrivyLogout

definition runBeforeLogout :: "(push_env \<times> str option) option \<Rightarrow> logout_event list \<times> str option" where
  "runBeforeLogout hook = (case hook of None \<Rightarrow> ([], None)
     | Some (P, stored) \<Rightarrow> (case unregisterForPush P stored of (es, stored') \<Rightarrow> (map PushEvent es, stored')))"

definition wrappedLogout :: "(push_env \<times> str option) option \<Rightarrow> logout_event list" where
  "wrappedLogout hook = fst (runBeforeLogout hook) @ [PrivyLogout]"

text \<open>\<open>ensureWallet\<close>: the list of wallets as the \<open>i\<close>-th poll sees it; 20 polls of 250 ms after \<open>create\<close>.\<close>

fun poll_wallet :: "nat \<Rightarrow> nat \<Rightarrow> (nat \<Rightarrow> str list) \<Rightarrow> nat" where
  "poll_wallet 0 i wallets = i"
| "poll_wallet (Suc n) i wallets = (if wallets i \<noteq> [] then i else poll_wallet n (i + 1) wallets)"

definition ensureWallet :: "str list \<Rightarrow> bool \<Rightarrow> (nat \<Rightarrow> str list) \<Rightarrow> js_error + str" where
  "ensureWallet before createFails wallets =
     (case before of
        w # _ \<Rightarrow> Inr w
      | [] \<Rightarrow>
          if createFails then Inl Thrown
          else (case wallets (poll_wallet 20 0 wallets) of
                  w # _ \<Rightarrow> Inr w
                | [] \<Rightarrow> Inl (ErrorMsg (lit ''wallet creation did not complete''))))"

section \<open>Lemmas\<close>

lemma hydrate_cases:
  "ws_current (web_hydrate True fails s) =
     (if ws_hydrated s then ws_current s
      else if fails then None
      else case ws_storage s of NoWarpText \<Rightarrow> ws_current s
        | WarpText t \<Rightarrow> (if wt_id t \<noteq> [] then Some t else ws_current s) | OtherWarpText \<Rightarrow> None)"
  by (simp add: web_hydrate_def Let_def split: warp_text.splits)

lemma setWarpTarget_simps [simp]:
  "ws_current (fst (setWarpTarget b fails t s)) = t"
  "ws_storage (fst (setWarpTarget True False t s)) = (case t of Some x \<Rightarrow> WarpText x | None \<Rightarrow> NoWarpText)"
  by (simp_all add: setWarpTarget_def Let_def)

lemma poll_wallet_spec:
  "let k = poll_wallet n i wallets in i \<le> k \<and> k \<le> i + n \<and> (\<forall>j. i \<le> j \<and> j < k \<longrightarrow> wallets j = [])
     \<and> (k < i + n \<longrightarrow> wallets k \<noteq> [])"
proof (induction n i wallets rule: poll_wallet.induct)
  case (2 n i wallets)
  show ?case
  proof (cases "wallets i = []")
    case True
    have "j = i \<or> i + 1 \<le> j" if "i \<le> j" for j using that by auto
    with 2 True show ?thesis by (auto simp: Let_def)
  qed (auto simp: Let_def)
qed (auto simp: Let_def)

section \<open>Properties\<close>

text \<open>
  A bad warp cannot lock the web client out: if the backend knows the real user, then after
  \<open>load\<close> there is a profile, whatever the stored target is and whatever the backend says to it; and when the
  answer under the warp header was an error, the warp is gone from memory and storage and the
  profile is the real one.
\<close>

theorem web_warp_never_locks_out:
  assumes "me_at None = Inr m" "web_session_load me_at fails (w, s) = (w', s')"
  shows "sn_me s' \<noteq> None \<and> \<not> sn_loading s'
    \<and> (me_at (non_empty (fst (web_getWarpTargetId True fails w))) = Inl e \<longrightarrow>
        sn_me s' = Some m \<and> ws_current w' = None \<and> (\<not> fails \<longrightarrow> ws_storage w' = NoWarpText))"
proof -
  obtain target v where t: "web_getWarpTargetId True fails w = (target, v)" by fastforce
  show ?thesis
  proof (cases "me_at (non_empty target)")
    case (Inr m')
    with assms t show ?thesis by (auto simp: web_session_load_def)
  next
    case (Inl e')
    then have "truthy target" using assms(1) by (auto simp: non_empty_def split: if_splits)
    with Inl assms t show ?thesis by (auto simp: web_session_load_def Let_def)
  qed
qed

definition demo_me :: me where
  "demo_me = \<lparr> ul_id = lit ''u1'', ul_username = lit ''ann'', ul_display_name = None, ul_avatar_url = None,
     us_bio = None, us_links = [], us_private = False, us_trades_public = True, us_follower_count = 0,
     us_following_count = 0, us_post_count = 0, us_is_following = False, us_follow_requested = False, us_is_self = True,
     us_wallet_address = None,
     me_privy_did = lit ''did'', me_onboarded = True, me_is_admin = Some True, me_warp = None \<rparr>"

theorem web_warp_never_locks_out_witness:
  "\<exists>w' s'. web_session_load (\<lambda>h. case h of None \<Rightarrow> Inr demo_me | Some _ \<Rightarrow> Inl (ApiError 403 JNull)) False
      (warp_store0 (WarpText \<lparr> wt_id = lit ''u2'', wt_username = None, wt_email = None, wt_avatar_url = None \<rparr>),
       \<lparr> sn_me = None, sn_loading = True \<rparr>) = (w', s')
    \<and> sn_me s' = Some demo_me \<and> ws_current w' = None \<and> ws_storage w' = NoWarpText"
proof -
  let ?at = "\<lambda>h. case h of None \<Rightarrow> Inr demo_me | Some _ \<Rightarrow> Inl (ApiError 403 JNull)"
  let ?w = "warp_store0 (WarpText \<lparr> wt_id = lit ''u2'', wt_username = None, wt_email = None, wt_avatar_url = None \<rparr>)"
  let ?s = "\<lparr> sn_me = None, sn_loading = True \<rparr>"
  obtain w' s' where r: "web_session_load ?at False (?w, ?s) = (w', s')" by fastforce
  have "?at None = Inr demo_me" by simp
  moreover have "?at (non_empty (fst (web_getWarpTargetId True False ?w))) = Inl (ApiError 403 JNull)"
    by (simp add: web_getWarpTargetId_def getWarpTarget_def warp_store0_def web_hydrate_def Let_def non_empty_def)
  ultimately show ?thesis using web_warp_never_locks_out [of ?at demo_me False ?w ?s w' s'] r by simp
qed

text \<open>
  A warp survives a reload and an exit ends it: on both clients a fresh start reads back
  exactly the target that was set, and none after it was cleared. But the app has a gap the web client has not: its
  store is read asynchronously, and an answer that arrives after the warp was cleared brings the old target back.
\<close>

theorem warp_persists_and_resurrects:
  assumes "wt_id t \<noteq> []"
  shows "ws_current (web_hydrate True False (warp_store0 (ws_storage (fst (setWarpTarget True False (Some t) s))))) = Some t
    \<and> ws_current (web_hydrate True False (warp_store0 (ws_storage (fst (setWarpTarget True False None s))))) = None
    \<and> snd (resolveWarpTargetId False (mob_warp_store0 (mp_storage (persistWarpTarget False (Some t) p))))
        = (snd (resolveWarpTargetId False (mob_warp_store0 (WarpText t))))
    \<and> fst (resolveWarpTargetId False (mob_warp_store0 (mp_storage (persistWarpTarget False (Some t) p)))) = Some (wt_id t)
    \<and> fst (resolveWarpTargetId False (mob_warp_store0 (mp_storage (persistWarpTarget False None p)))) = None
    \<and> mob_getWarpTargetId (persistWarpTarget False None (mob_warp_store0 (WarpText t))) = None
    \<and> mob_getWarpTargetId (hydration_settles False (persistWarpTarget False None (mob_warp_store0 (WarpText t)))) = Some (wt_id t)
    \<and> ws_current (web_hydrate True False (fst (setWarpTarget True False None (warp_store0 (WarpText t))))) = None"
  using assms
  by (simp add: hydrate_cases warp_store0_def resolveWarpTargetId_def mob_warp_store0_def ensureWarpHydrated_def
      hydration_settles_def persistWarpTarget_def mob_getWarpTargetId_def Let_def)

theorem warp_persists_and_resurrects_witness:
  "mob_getWarpTargetId (hydration_settles False (persistWarpTarget False None (mob_warp_store0 (WarpText
     \<lparr> wt_id = lit ''u2'', wt_username = None, wt_email = None, wt_avatar_url = None \<rparr>)))) = Some (lit ''u2'')"
proof -
  let ?t = "\<lparr> wt_id = lit ''u2'', wt_username = None, wt_email = None, wt_avatar_url = None \<rparr>"
  have "wt_id ?t \<noteq> []" by simp
  from warp_persists_and_resurrects [OF this] show ?thesis by simp
qed

lemma push_str_Some: "push_str v = Some i \<Longrightarrow> i \<noteq> []"
  by (cases "json_str v") (auto simp: push_str_def non_empty_def split: if_splits)

lemma route_Some: "route p v d = Some h \<Longrightarrow> (\<exists>i. v = Some i \<and> h = lit p @ i) \<or> (v = None \<and> d = Some h)"
  by (cases v) (auto simp: route_def)

definition good_route :: "str option \<Rightarrow> bool" where
  "good_route r \<longleftrightarrow> (\<forall>h. r = Some h \<longrightarrow> h = lit ''/messages'' \<or> h = lit ''/notifications''
      \<or> (\<exists>p \<in> {''/conversation/'', ''/post/'', ''/market/'', ''/user/''}. \<exists>i. i \<noteq> [] \<and> h = lit p @ i))"

definition good_id :: "str option \<Rightarrow> bool" where
  "good_id v \<longleftrightarrow> v \<noteq> Some []"

lemma good_route_simps [simp]:
  "good_route None" "good_route (Some (lit ''/messages''))" "good_route (Some (lit ''/notifications''))"
  by (simp_all add: good_route_def)

lemma good_route_route [simp]:
  "p \<in> {''/conversation/'', ''/post/'', ''/market/'', ''/user/''} \<Longrightarrow> good_route r \<Longrightarrow> good_id v \<Longrightarrow> good_route (route p v r)"
proof (cases v)
  case (Some i)
  assume p: "p \<in> {''/conversation/'', ''/post/'', ''/market/'', ''/user/''}" and "good_id v"
  with Some have "i \<noteq> []" by (simp add: good_id_def)
  with p Some show ?thesis by (auto simp: route_def good_route_def)
qed (simp add: route_def)

lemma good_id_push [simp]: "good_id (push_str v)"
  using push_str_Some [of v] by (auto simp: good_id_def)

lemma good_id_alt [simp]: "good_id u \<Longrightarrow> good_id v \<Longrightarrow> good_id (alt_opt u v)"
  by (cases u) simp_all

lemma good_id_case [simp]: "good_id (case u of None \<Rightarrow> None | Some u \<Rightarrow> push_str (f u))"
  using push_str_Some by (cases u) (auto simp: good_id_def)

lemma route_None_iff: "route p v r = None \<longleftrightarrow> v = None \<and> r = None"
  by (cases v) (simp_all add: route_def)

lemma notification_route_good:
  "good_id m \<Longrightarrow> good_id p \<Longrightarrow> good_id c \<Longrightarrow> good_id u \<Longrightarrow> good_route (notification_route k m p c u)"
  by (simp add: notification_route_def)

lemma notificationHref_good: "good_route (notificationHref d)"
  by (simp add: notificationHref_def notification_route_good split: option.split json.split)

lemma market_route: "m \<noteq> None \<Longrightarrow> notification_route k m p c u \<noteq> None"
  unfolding notification_route_def by (simp only: route_None_iff option.distinct simp_thms split: if_split)

lemma market_leads_somewhere:
  "push_str (map_of fs (lit ''market_id'')) \<noteq> None \<Longrightarrow> notificationHref (Some (JObj fs)) \<noteq> None"
  unfolding notificationHref_def option.case json.case json_field.simps by (rule market_route)

text \<open>
  A tapped notification never leads to a broken route: the target is the list of messages or of
  notifications, or the page of a non-empty id; and whatever its kind, a payload with a market leads somewhere.
\<close>

theorem notificationHref_routes:
  "(notificationHref d = Some h \<longrightarrow> h = lit ''/messages'' \<or> h = lit ''/notifications''
      \<or> (\<exists>p \<in> {''/conversation/'', ''/post/'', ''/market/'', ''/user/''}. \<exists>i. i \<noteq> [] \<and> h = lit p @ i))
   \<and> (push_str (map_of fs (lit ''market_id'')) \<noteq> None \<longrightarrow> notificationHref (Some (JObj fs)) \<noteq> None)"
proof
  show "notificationHref d = Some h \<longrightarrow> h = lit ''/messages'' \<or> h = lit ''/notifications''
      \<or> (\<exists>p \<in> {''/conversation/'', ''/post/'', ''/market/'', ''/user/''}. \<exists>i. i \<noteq> [] \<and> h = lit p @ i)"
    using notificationHref_good [of d] unfolding good_route_def by blast
  show "push_str (map_of fs (lit ''market_id'')) \<noteq> None \<longrightarrow> notificationHref (Some (JObj fs)) \<noteq> None"
    using market_leads_somewhere by blast
qed

theorem notificationHref_routes_witness:
  "notificationHref (Some (JObj [(lit ''kind'', JStr (lit ''order.filled'')), (lit ''market_id'', JStr (lit ''m1''))])) \<noteq> None
   \<and> (\<exists>p \<in> {''/conversation/'', ''/post/'', ''/market/'', ''/user/''}. \<exists>i. i \<noteq> [] \<and> lit ''/post/7'' = lit p @ i)"
proof -
  have "notificationHref (Some (JObj [(lit ''kind'', JStr (lit ''post.mention'')), (lit ''post_id'', JStr (lit ''7''))])) = Some (lit ''/post/7'')"
    by code_simp
  moreover have "lit ''/post/7'' \<noteq> lit ''/messages''" "lit ''/post/7'' \<noteq> lit ''/notifications''" by simp_all
  moreover have "push_str (map_of [(lit ''kind'', JStr (lit ''order.filled'')), (lit ''market_id'', JStr (lit ''m1''))] (lit ''market_id'')) \<noteq> None"
    by code_simp
  ultimately show ?thesis
    using notificationHref_routes [of "Some (JObj [(lit ''kind'', JStr (lit ''post.mention'')), (lit ''post_id'', JStr (lit ''7''))])" "lit ''/post/7''"
        "[(lit ''kind'', JStr (lit ''order.filled'')), (lit ''market_id'', JStr (lit ''m1''))]"] by blast
qed

text \<open>
  \<open>ensureWallet\<close> waits long enough and not forever: without a wallet it succeeds exactly when one
  shows up at one of the 21 looks it takes after \<open>create\<close>, and it returns the first wallet of the first such look.
\<close>

theorem ensureWallet_polls:
  "ensureWallet [] False wallets = Inr w \<longleftrightarrow>
     (\<exists>i. i \<le> 20 \<and> wallets i \<noteq> [] \<and> w = hd (wallets i) \<and> list_all (\<lambda>j. wallets j = []) [0 ..< i])"
proof -
  define k where "k = poll_wallet 20 0 wallets"
  have k: "k \<le> 20" "\<forall>j<k. wallets j = []" "k < 20 \<longrightarrow> wallets k \<noteq> []"
    using poll_wallet_spec [of 20 0 wallets] by (auto simp: k_def Let_def)
  have first: "i = k" if "i \<le> 20" "wallets i \<noteq> []" "\<forall>j<i. wallets j = []" for i
    using that k by (metis le_neq_implies_less not_less_iff_gr_or_eq)
  have "ensureWallet [] False wallets = Inr w \<longleftrightarrow> wallets k \<noteq> [] \<and> w = hd (wallets k)"
    by (auto simp: ensureWallet_def k_def split: list.splits)
  also have "\<dots> \<longleftrightarrow> (\<exists>i. i \<le> 20 \<and> wallets i \<noteq> [] \<and> w = hd (wallets i) \<and> list_all (\<lambda>j. wallets j = []) [0 ..< i])"
  proof
    assume "wallets k \<noteq> [] \<and> w = hd (wallets k)"
    with k show "\<exists>i. i \<le> 20 \<and> wallets i \<noteq> [] \<and> w = hd (wallets i) \<and> list_all (\<lambda>j. wallets j = []) [0 ..< i]"
      by (intro exI [of _ k]) (simp add: list_all_iff)
  next
    assume "\<exists>i. i \<le> 20 \<and> wallets i \<noteq> [] \<and> w = hd (wallets i) \<and> list_all (\<lambda>j. wallets j = []) [0 ..< i]"
    then obtain i where i: "i \<le> 20" "wallets i \<noteq> []" "w = hd (wallets i)" "\<forall>j<i. wallets j = []"
      by (auto simp: list_all_iff)
    with first [OF i(1,2,4)] show "wallets k \<noteq> [] \<and> w = hd (wallets k)" by simp
  qed
  finally show ?thesis .
qed

end
