(* ===== verification/Reconnect.thy ===== *)
theory Reconnect
  imports WebSocket MobileSocket
begin

text \<open>
  That the realtime clients come back. Safety is in \<open>WebSocket\<close> and \<open>MobileSocket\<close>: an open socket is
  subscribed to the right channels. Here is the other half, for \<open>web/lib/ws.ts\<close> and \<open>mobile/lib/ws.ts\<close>:
  while the client is started it is never stuck, and a few steps of the platform that need nothing from the
  user end with an open, subscribed socket. The locale is the argument both share.
\<close>

section \<open>Repairing a state machine step by step\<close>

locale self_repairing =
  fixes act :: "'a \<Rightarrow> 's \<Rightarrow> 's option"
    and play :: "'a list \<Rightarrow> 's \<Rightarrow> 's option"
    and repair :: "'s \<Rightarrow> 'a option"
    and rank :: "'s \<Rightarrow> nat"
    and good :: "'s \<Rightarrow> bool"
  assumes play_Nil: "play [] s = Some s"
    and play_Cons: "act a s = Some t \<Longrightarrow> play (a # as) s = play as t"
    and progress: "good s \<Longrightarrow> 0 < rank s
    \<Longrightarrow> \<exists>a t. repair s = Some a \<and> act a s = Some t \<and> good t \<and> rank t < rank s"
begin

lemma repaired:
  assumes "good s"
  shows "\<exists>as t. length as \<le> rank s \<and> set as \<subseteq> {a. \<exists>u. repair u = Some a} \<and> play as s = Some t \<and> good t \<and> rank t = 0"
  using assms
proof (induction "rank s" arbitrary: s rule: less_induct)
  case less
  show ?case
  proof (cases "rank s = 0")
    case True
    with less.prems show ?thesis by (intro exI [of _ "[]"]) (simp add: play_Nil)
  next
    case False
    then obtain a u where u: "repair s = Some a" "act a s = Some u" "good u" "rank u < rank s"
      using progress [OF less.prems] by auto
    from less.hyps [OF u(4,3)] obtain as t where
      "length as \<le> rank u" "set as \<subseteq> {a. \<exists>u. repair u = Some a}" "play as u = Some t" "good t" "rank t = 0" by blast
    with u play_Cons [OF u(2), of as] show ?thesis by (intro exI [of _ "a # as"] exI [of _ t]) auto
  qed
qed

end

section \<open>The web socket\<close>

text \<open>Runs in which the session hands out a token whenever it is asked.\<close>

definition web_given :: "web_action \<Rightarrow> bool" where
  "web_given a = (case a of Token t \<Rightarrow> truthy t | _ \<Rightarrow> True)"

inductive web_fed :: "web_socket \<Rightarrow> bool" where
  init: "web_fed web_socket0"
| step: "web_fed s \<Longrightarrow> web_act a s = Some t \<Longrightarrow> web_given a \<Longrightarrow> web_fed t"

text \<open>What the platform does next when nobody touches the page, and how far the socket is from being open.\<close>

definition web_repair :: "str \<Rightarrow> web_socket \<Rightarrow> web_action option" where
  "web_repair t s =
     (case wk_ws s of
        Some i \<Rightarrow> (case sock_ready i s of Some OPENED \<Rightarrow> None | Some CONNECTING \<Rightarrow> Some (Opens i) | _ \<Rightarrow> Some (Closes i))
      | None \<Rightarrow> if wk_connecting s then Some (Token (Some t)) else Some Timer)"

definition web_rank :: "web_socket \<Rightarrow> nat" where
  "web_rank s =
     (case wk_ws s of
        Some i \<Rightarrow> (case sock_ready i s of Some OPENED \<Rightarrow> 0 | Some CONNECTING \<Rightarrow> 1 | _ \<Rightarrow> 4)
      | None \<Rightarrow> if wk_connecting s then 2 else 3)"

definition web_alive :: "web_socket \<Rightarrow> bool" where
  "web_alive s \<longleftrightarrow>
     (\<forall>i. wk_ws s = Some i \<longrightarrow> sock_ready i s \<noteq> None \<and> sock_ready i s \<noteq> Some CLOSED)
     \<and> (wk_tokenGetter s \<and> \<not> wk_closedByUs s \<longrightarrow> wk_ws s \<noteq> None \<or> wk_timer s \<noteq> None \<or> wk_connecting s)"

definition web_on :: "web_socket \<Rightarrow> bool" where
  "web_on s \<longleftrightarrow> web_fed s \<and> wk_tokenGetter s \<and> \<not> wk_closedByUs s"

lemma ready_upd:
  "sock_ready i (s\<lparr>wk_socks := upd_sock j f (wk_socks s)\<rparr>)
    = map_option (\<lambda>r. if i = j then so_ready (f (wk_socks s ! i)) else r) (sock_ready i s)"
  by (simp add: sock_ready_def nth_upd_sock)

lemma web_fed_reachable: "web_fed s \<Longrightarrow> web_reachable s"
  by (induction rule: web_fed.induct) (auto intro: web_reachable.init web_act_reachable)

lemma close_sock_ready: "so_ready k \<noteq> CLOSED \<Longrightarrow> so_ready (close_sock k) \<noteq> CLOSED"
  by (simp add: close_sock_def)

lemma send_open_alive: "web_alive (web_send_open ws (s\<lparr>wk_subs := subs\<rparr>)) = web_alive s"
  by (auto simp: web_alive_def web_send_open_def sock_ready_def nth_upd_sock)

lemma send_alive: "web_alive (web_send_open ws s) = web_alive s"
  by (auto simp: web_alive_def web_send_open_def sock_ready_def nth_upd_sock)

lemma web_act_alive:
  assumes "web_act a s = Some t" "web_given a" "web_alive s"
  shows "web_alive t"
proof (cases a)
  case (Mounts c h)
  with assms show ?thesis
    by (auto simp: useChannel_mount_def web_subscribe_def send_open_alive split: option.splits prod.splits)
next
  case (Unmounts c h)
  with assms show ?thesis
    by (auto simp: useChannel_unmount_def web_unsubscribe_def send_open_alive split: option.splits prod.splits)
next
  case (Sends ty c p)
  with assms show ?thesis by (auto simp: web_send_def send_alive)
next
  case (Token tok)
  with assms show ?thesis
    by (auto simp: web_given_def web_token_arrives_def web_alive_def sock_ready_def new_sock_def split: if_splits)
next
  case (Errs i)
  with assms show ?thesis
    by (auto simp: web_on_error_def web_alive_def ready_upd sock_ready_def nth_upd_sock close_sock_ready split: if_splits)
qed (use assms in \<open>auto simp: web_start_def web_connect_def web_alive_def web_stop_def web_close_current_def
    sock_ready_def nth_upd_sock web_on_open_def web_ready_def web_on_close_def Let_def web_scheduleReconnect_def
    web_timer_fires_def simp del: not_None_eq split: if_splits option.splits\<close>)

lemma web_fed_alive: "web_fed s \<Longrightarrow> web_alive s"
proof (induction rule: web_fed.induct)
  case init
  show ?case by (simp add: web_alive_def web_socket0_def)
qed (rule web_act_alive)

text \<open>Each repair step is possible, keeps the handlers, and brings the socket nearer to open.\<close>

lemma web_repair_step:
  assumes "web_on s" "0 < web_rank s" "t \<noteq> []"
  obtains a u where "web_repair t s = Some a" "web_act a s = Some u" "web_given a" "wk_subs u = wk_subs s"
    "wk_tokenGetter u" "\<not> wk_closedByUs u" "web_rank u < web_rank s"
proof -
  have alive: "web_alive s" and on: "wk_tokenGetter s" "\<not> wk_closedByUs s"
    using assms(1) web_fed_alive by (auto simp: web_on_def)
  show thesis
  proof (cases "wk_ws s")
    case None
    show thesis
    proof (cases "wk_connecting s")
      case True
      then show thesis
        using None on assms(3)
        by (intro that [of "Token (Some t)" "web_token_arrives (Some t) s"])
          (simp_all add: web_repair_def web_given_def web_token_arrives_def web_rank_def sock_ready_def new_sock_def)
    next
      case False
      then have "wk_timer s \<noteq> None" using alive on None by (simp add: web_alive_def)
      then show thesis
        using None False on
        by (intro that [of Timer "web_timer_fires s"])
          (simp_all add: web_repair_def web_given_def web_timer_fires_def web_connect_def web_rank_def del: not_None_eq)
    qed
  next
    case (Some i)
    then obtain r where r: "sock_ready i s = Some r" "r \<noteq> CLOSED" using alive by (auto simp: web_alive_def)
    then have i: "i < length (wk_socks s)" by (simp add: sock_ready_def split: if_splits)
    show thesis
    proof (cases r)
      case CONNECTING
      then show thesis
        using Some r on i
        by (intro that [of "Opens i" "web_on_open i (web_ready OPENED i s)"])
          (simp_all add: web_repair_def web_given_def web_on_open_def web_ready_def web_rank_def sock_ready_def nth_upd_sock)
    next
      case CLOSING
      then show thesis
        using Some r on i
        by (intro that [of "Closes i" "web_on_close (web_ready CLOSED i s)"])
          (simp_all add: web_repair_def web_given_def web_on_close_def web_scheduleReconnect_def web_ready_def web_rank_def Let_def)
    qed (use Some r assms(2) in \<open>simp_all add: web_rank_def\<close>)
  qed
qed

text \<open>A token is a non-empty string: its first character and the rest.\<close>

interpretation web_repairing: self_repairing web_act web_play "web_repair (ch # tk)" web_rank
    "\<lambda>s. web_on s \<and> wk_subs s = subs" for ch tk subs
proof
  fix s assume s: "web_on s \<and> wk_subs s = subs" "0 < web_rank s"
  obtain a u where "web_repair (ch # tk) s = Some a" "web_act a s = Some u" "web_given a" "wk_subs u = wk_subs s"
    "wk_tokenGetter u" "\<not> wk_closedByUs u" "web_rank u < web_rank s"
    by (rule web_repair_step [of s "ch # tk"]) (use s in simp_all)
  with s show "\<exists>a u. web_repair (ch # tk) s = Some a \<and> web_act a s = Some u \<and> (web_on u \<and> wk_subs u = subs) \<and> web_rank u < web_rank s"
    by (auto simp: web_on_def intro: web_fed.step)
qed simp_all

lemma web_rank_le: "web_rank s \<le> 4"
  by (auto simp: web_rank_def split: option.split ready_state.split)

lemma web_rank_0: "web_rank s = 0 \<longleftrightarrow> (\<exists>i. wk_ws s = Some i \<and> sock_ready i s = Some OPENED)"
  by (auto simp: web_rank_def split: option.splits ready_state.splits)

lemma web_repair_kinds: "web_repair t s = Some a \<Longrightarrow> a \<in> {Timer, Token (Some t)} \<union> range Opens \<union> range Closes"
  by (auto simp: web_repair_def split: option.splits ready_state.splits if_splits)


text \<open>The current socket fails: it errs, closes, and the client waits for its timer.\<close>

lemma web_fed_play: "web_fed s \<Longrightarrow> list_all web_given as \<Longrightarrow> web_play as s = Some t \<Longrightarrow> web_fed t"
  by (induction as arbitrary: s) (auto split: option.splits intro: web_fed.step)

definition broken_run :: "web_action list" where
  "broken_run = dm_run @ [Errs 0]"

lemma broken_run_result:
  "web_play broken_run web_socket0 = Some \<lparr> wk_ws = Some 0, wk_tokenGetter = True,
     wk_subs = [(lit ''dm:1'', [7]), (lit ''book:3'', [8]), (lit ''dm:2'', [8])],
     wk_backoff = 1000, wk_closedByUs = False, wk_connecting = False, wk_timer = None,
     wk_socks = [\<lparr> so_ready = CLOSING, so_sent = [WSub (lit ''dm:1''), WSub (lit ''book:3''), WSub (lit ''dm:2'')] \<rparr>] \<rparr>"
  by (simp add: broken_run_def dm_run_def web_run_simps web_on_error_def)


text \<open>
  Without a token it does not: \<open>connect\<close> returns without scheduling another attempt, and a session that once
  answers with no token leaves a started client with no socket, no timer and nothing to wait for.
\<close>

lemma web_null_token_strands:
  "\<exists>s. web_reachable s \<and> wk_tokenGetter s \<and> \<not> wk_closedByUs s \<and> wk_ws s = None \<and> wk_timer s = None \<and> \<not> wk_connecting s"
proof -
  let ?run = "[DoStart, Token None]"
  have "web_play ?run web_socket0 = Some (web_socket0\<lparr>wk_tokenGetter := True\<rparr>)"
    by (simp add: web_socket0_def web_start_def web_connect_def web_token_arrives_def)
  from run_reachable [OF this] have "web_reachable (web_socket0\<lparr>wk_tokenGetter := True\<rparr>)" .
  then show ?thesis by (intro exI [of _ "web_socket0\<lparr>wk_tokenGetter := True\<rparr>"]) (simp add: web_socket0_def)
qed

section \<open>The socket of the app\<close>

definition mob_given :: "mob_action \<Rightarrow> bool" where
  "mob_given a = (case a of MToken t \<Rightarrow> truthy t | _ \<Rightarrow> True)"

inductive mob_fed :: "mob_socket \<Rightarrow> bool" where
  init: "mob_fed mob_socket0"
| step: "mob_fed s \<Longrightarrow> mob_act a s = Some t \<Longrightarrow> mob_given a \<Longrightarrow> mob_fed t"

definition mob_repair :: "str \<Rightarrow> mob_socket \<Rightarrow> mob_action option" where
  "mob_repair t s =
     (case mw_ws s of
        Some i \<Rightarrow> (case mob_sock_ready i s of Some OPENED \<Rightarrow> None | Some CONNECTING \<Rightarrow> Some (MOpens i) | _ \<Rightarrow> Some (MCloses i))
      | None \<Rightarrow> if 0 < mw_pending s then Some (MToken (Some t)) else map_option (\<lambda>p. MTimer (fst p)) (find (\<lambda>_. True) (mw_timers s)))"

definition mob_rank :: "mob_socket \<Rightarrow> nat" where
  "mob_rank s =
     (case mw_ws s of
        Some i \<Rightarrow> (case mob_sock_ready i s of Some OPENED \<Rightarrow> 0 | Some CONNECTING \<Rightarrow> 1 | _ \<Rightarrow> 4)
      | None \<Rightarrow> if 0 < mw_pending s then 2 else 3)"

definition mob_alive :: "mob_socket \<Rightarrow> bool" where
  "mob_alive s \<longleftrightarrow>
     (\<forall>i. mw_ws s = Some i \<longrightarrow> mob_sock_ready i s \<noteq> None \<and> mob_sock_ready i s \<noteq> Some CLOSED)
     \<and> (mw_shouldRun s \<longrightarrow> mw_tokenGetter s \<and> (mw_ws s \<noteq> None \<or> mw_timers s \<noteq> [] \<or> 0 < mw_pending s))"

definition mob_on :: "mob_socket \<Rightarrow> bool" where
  "mob_on s \<longleftrightarrow> mob_fed s \<and> mw_shouldRun s"

lemma mob_fed_reachable: "mob_fed s \<Longrightarrow> mob_reachable s"
  by (induction rule: mob_fed.induct) (auto intro: mob_reachable.intros)

text \<open>\<open>connect\<close> keeps the first half and restores the second, whatever was taken away before.\<close>

definition mob_ready_ok :: "mob_socket \<Rightarrow> bool" where
  "mob_ready_ok s \<longleftrightarrow> (\<forall>i. mw_ws s = Some i \<longrightarrow> mob_sock_ready i s \<noteq> None \<and> mob_sock_ready i s \<noteq> Some CLOSED)"

lemma mob_connect_alive: "mob_ready_ok s \<Longrightarrow> (mw_shouldRun s \<Longrightarrow> mw_tokenGetter s) \<Longrightarrow> mob_alive (mob_connect s)"
  by (auto simp: mob_alive_def mob_ready_ok_def mob_connect_def mob_sock_ready_def split: if_splits)

lemma mob_rawSend_alive: "mob_alive (mob_rawSend ws s) = mob_alive s"
  by (auto simp: mob_alive_def mob_rawSend_def mob_sock_ready_def nth_upd_sock)

lemma mob_listeners_alive: "mob_alive (s\<lparr>mw_listeners := ls\<rparr>) = mob_alive s" "mob_alive (s\<lparr>mw_subscriptions := subs\<rparr>) = mob_alive s"
  by (simp_all add: mob_alive_def mob_sock_ready_def)

lemma mob_subscription_alive: "mob_alive (addSubscription c s) = mob_alive s" "mob_alive (removeSubscription c s) = mob_alive s"
  by (simp_all add: addSubscription_def removeSubscription_def Let_def mob_rawSend_alive mob_listeners_alive split: prod.split)

lemma mob_alive_connect: "mob_alive s \<Longrightarrow> mob_alive (mob_connect s)"
  by (rule mob_connect_alive) (auto simp: mob_alive_def mob_ready_ok_def)

lemma mob_act_alive:
  assumes "mob_act a s = Some t" "mob_given a" "mob_alive s"
  shows "mob_alive t"
proof (cases a)
  case (MMount l c)
  with assms show ?thesis
    by (auto simp: useSocket_mount_def Let_def mob_subscription_alive mob_listeners_alive intro!: mob_alive_connect split: option.splits)
next
  case (MUnmount l c)
  with assms show ?thesis
    by (auto simp: useSocket_unmount_def Let_def mob_subscription_alive mob_listeners_alive split: option.splits)
next
  case (MSend ty c p)
  with assms show ?thesis by (auto simp: wsSend_def mob_rawSend_alive)
next
  case MStart
  have "mob_alive (startSocket s)"
    unfolding startSocket_def using assms(3) by (intro mob_connect_alive) (auto simp: mob_alive_def mob_ready_ok_def mob_sock_ready_def)
  with MStart assms show ?thesis by simp
next
  case (MTimer j)
  have "mob_alive (mob_timer_fires j s)"
    unfolding mob_timer_fires_def using assms(3) by (intro mob_connect_alive) (auto simp: mob_alive_def mob_ready_ok_def mob_sock_ready_def)
  with MTimer assms show ?thesis by (simp del: not_None_eq split: if_splits)
next
  case (MOpens i)
  have "mob_alive (mob_on_open (mob_ready OPENED i s))"
    unfolding mob_on_open_def mob_rawSend_alive using assms(3)
    by (auto simp: mob_ready_def mob_alive_def mob_sock_ready_def nth_upd_sock)
  with MOpens assms show ?thesis by (simp split: if_splits)
next
  case (MErrs i)
  with assms show ?thesis
    by (auto simp: mob_on_error_def mob_alive_def mob_sock_ready_def nth_upd_sock close_sock_ready split: if_splits)
next
  case (MToken tok)
  with assms show ?thesis
    by (auto simp: mob_given_def mob_token_arrives_def mob_alive_def mob_sock_ready_def new_sock_def Let_def split: if_splits)
next
  case MStop
  with assms show ?thesis
    by (auto simp: stopSocket_def Let_def mob_alive_def split: option.splits)
next
  case (MCloses i)
  with assms show ?thesis
    by (auto simp: mob_on_close_def mob_alive_def mob_ready_def Let_def simp del: not_None_eq split: if_splits)
qed

lemma mob_fed_alive: "mob_fed s \<Longrightarrow> mob_alive s"
proof (induction rule: mob_fed.induct)
  case init
  show ?case by (simp add: mob_alive_def mob_socket0_def)
qed (rule mob_act_alive)

lemma mob_repair_step:
  assumes "mob_on s" "0 < mob_rank s" "t \<noteq> []"
  obtains a u where "mob_repair t s = Some a" "mob_act a s = Some u" "mob_given a" "mw_subscriptions u = mw_subscriptions s"
    "mw_shouldRun u" "mob_rank u < mob_rank s"
proof -
  have alive: "mob_alive s" and on: "mw_shouldRun s" using assms(1) mob_fed_alive by (auto simp: mob_on_def)
  show thesis
  proof (cases "mw_ws s")
    case None
    show thesis
    proof (cases "0 < mw_pending s")
      case True
      then show thesis
        using None on assms(3)
        by (intro that [of "MToken (Some t)" "mob_token_arrives (Some t) s"])
          (simp_all add: mob_repair_def mob_given_def mob_token_arrives_def mob_rank_def mob_sock_ready_def new_sock_def Let_def)
    next
      case False
      then obtain j d ts where ts: "mw_timers s = (j, d) # ts" using alive on None
        by (cases "mw_timers s") (auto simp: mob_alive_def)
      moreover have "mw_tokenGetter s" using alive on by (simp add: mob_alive_def)
      ultimately show thesis
        using None False on
        by (intro that [of "MTimer j" "mob_timer_fires j s"])
          (simp_all add: mob_repair_def mob_given_def mob_timer_fires_def mob_connect_def mob_rank_def)
    qed
  next
    case (Some i)
    then obtain r where r: "mob_sock_ready i s = Some r" "r \<noteq> CLOSED" using alive by (auto simp: mob_alive_def)
    then have i: "i < length (mw_socks s)" by (simp add: mob_sock_ready_def split: if_splits)
    show thesis
    proof (cases r)
      case CONNECTING
      then show thesis
        using Some r on i
        by (intro that [of "MOpens i" "mob_on_open (mob_ready OPENED i s)"])
          (simp_all add: mob_repair_def mob_given_def mob_on_open_def mob_rawSend_def sock_open_def mob_ready_def mob_rank_def
            mob_sock_ready_def nth_upd_sock)
    next
      case CLOSING
      then show thesis
        using Some r on i
        by (intro that [of "MCloses i" "mob_on_close (mob_ready CLOSED i s)"])
          (simp_all add: mob_repair_def mob_given_def mob_on_close_def mob_ready_def mob_rank_def Let_def)
    qed (use Some r assms(2) in \<open>simp_all add: mob_rank_def\<close>)
  qed
qed

interpretation mob_repairing: self_repairing mob_act mob_play "mob_repair (ch # tk)" mob_rank
    "\<lambda>s. mob_on s \<and> mw_subscriptions s = subs" for ch tk subs
proof
  fix s assume s: "mob_on s \<and> mw_subscriptions s = subs" "0 < mob_rank s"
  obtain a u where "mob_repair (ch # tk) s = Some a" "mob_act a s = Some u" "mob_given a"
    "mw_subscriptions u = mw_subscriptions s" "mw_shouldRun u" "mob_rank u < mob_rank s"
    by (rule mob_repair_step [of s "ch # tk"]) (use s in simp_all)
  with s show "\<exists>a u. mob_repair (ch # tk) s = Some a \<and> mob_act a s = Some u
      \<and> (mob_on u \<and> mw_subscriptions u = subs) \<and> mob_rank u < mob_rank s"
    by (auto simp: mob_on_def intro: mob_fed.step)
qed simp_all

lemma mob_rank_le: "mob_rank s \<le> 4"
  by (auto simp: mob_rank_def split: option.split ready_state.split)

lemma mob_rank_0: "mob_rank s = 0 \<longleftrightarrow> (\<exists>i. mw_ws s = Some i \<and> mob_sock_ready i s = Some OPENED)"
  by (auto simp: mob_rank_def split: option.splits ready_state.splits)

lemma mob_repair_kinds: "mob_repair t s = Some a \<Longrightarrow> a \<in> {MToken (Some t)} \<union> range MTimer \<union> range MOpens \<union> range MCloses"
  by (auto simp: mob_repair_def split: option.splits ready_state.splits if_splits)


lemma mob_fed_play: "mob_fed s \<Longrightarrow> list_all mob_given as \<Longrightarrow> mob_play as s = Some t \<Longrightarrow> mob_fed t"
  by (induction as arbitrary: s) (auto split: option.splits intro: mob_fed.step)

text \<open>The first half of the run with two sockets: the older one closes and takes the live one with it.\<close>

definition dropped_run :: "mob_action list" where
  "dropped_run = [MStart, MMount 7 (Some (lit ''dm:4'')), MToken (Some (lit ''t'')), MToken (Some (lit ''t'')), MOpens 0, MOpens 1, MCloses 0]"

lemma dropped_run_result:
  "mob_play dropped_run mob_socket0 = Some \<lparr> mw_ws = None, mw_isOpen = False, mw_shouldRun = True, mw_tokenGetter = True,
     mw_timers = [(0, 1000)], mw_reconnectTimer = Some 0, mw_nextTimer = 1, mw_backoff = 2000, mw_listeners = [7],
     mw_subscriptions = [(lit ''dm:4'', 1)], mw_pending = 0,
     mw_socks = [\<lparr> so_ready = CLOSED, so_sent = [] \<rparr>, \<lparr> so_ready = OPENED, so_sent = [WSub (lit ''dm:4'')] \<rparr>] \<rparr>"
  by (simp add: dropped_run_def mob_run_simps)


text \<open>The same one-off failure to get a token strands the app's socket until the next mount or start.\<close>

lemma mob_null_token_strands:
  "\<exists>s. mob_reachable s \<and> mw_shouldRun s \<and> mw_ws s = None \<and> mw_timers s = [] \<and> mw_pending s = 0"
proof -
  let ?t = "mob_socket0\<lparr>mw_tokenGetter := True, mw_shouldRun := True\<rparr>"
  have "mob_play [MStart, MToken None] mob_socket0 = Some ?t"
    by (simp add: mob_socket0_def startSocket_def mob_connect_def mob_token_arrives_def Let_def)
  from mob_run_reachable [OF this] have "mob_reachable ?t" .
  then show ?thesis by (intro exI [of _ ?t]) (simp add: mob_socket0_def)
qed

end
