(* ===== verification/Tickets.thy ===== *)
theory Tickets
  imports Trading MobileApi MobileSocket
begin

text \<open>
  The order tickets of both clients: \<open>web/components/MarketCard.tsx\<close> and \<open>TradeSheet.tsx\<close>,
  \<open>mobile/components/MarketCard.tsx\<close> and \<open>TradeSheet.tsx\<close>. Each is a form with a derived price, share
  count and cost, and a submission that signs and posts in the background while the form stays live. A
  component is a record of its React state; a promise that is under way is an entry of the run around it,
  and every event handler, timer and settled promise is a function of the state.
\<close>

section \<open>What the tickets share\<close>

text \<open>A toast as the web provider shows it, and the query keys a handler invalidates.\<close>

datatype toast_kind = SuccessToast | ErrorToast | InfoToast

definition QUICK_AMOUNTS :: "int list" where
  "QUICK_AMOUNTS = [5, 10, 25, 50]"

fun status_tradable :: "market_status \<Rightarrow> bool" where
  "status_tradable OPEN = True"
| "status_tradable MATCHED = True"
| "status_tradable SETTLING = True"
| "status_tradable _ = False"

text \<open>The filters of the two text fields: \<open>/[^0-9.]/g\<close> and \<open>/[^0-9]/g\<close> are removed.\<close>

definition amount_filter :: "str \<Rightarrow> str" where
  "amount_filter = filter (\<lambda>c. is_digit c \<or> c = 46)"

definition limit_filter :: "str \<Rightarrow> str" where
  "limit_filter = filter is_digit"

text \<open>A number text this long parses to \<open>Infinity\<close>, which \<open>Number.isFinite\<close> refuses.\<close>

definition finite_number :: "rat \<Rightarrow> bool" where
  "finite_number x \<longleftrightarrow> \<bar>x\<bar> < 2 ^ 1024"

text \<open>\<open>Math.min(99, Math.max(1, p))\<close>.\<close>

definition clamp_cents :: "int \<Rightarrow> int" where
  "clamp_cents p = min 99 (max 1 p)"

text \<open>The limit the user typed (\<open>parseInt\<close> of digits, an integer), or the market's price where there is none.\<close>

definition ticket_price :: "str option \<Rightarrow> int \<Rightarrow> int" where
  "ticket_price limit marketPrice =
     (case Option.bind (non_empty limit) parse_int of
        Some p \<Rightarrow> if finite_number p then clamp_cents \<lfloor>p\<rfloor> else clamp_cents marketPrice
      | None \<Rightarrow> clamp_cents marketPrice)"

definition ticket_dollars :: "str \<Rightarrow> rat" where
  "ticket_dollars amount = or_else (parse_float amount) 0"

definition side_text :: "side \<Rightarrow> str" where
  "side_text s = (case s of Yes \<Rightarrow> lit ''YES'' | No \<Rightarrow> lit ''NO'')"

definition fmt_cents :: "int \<Rightarrow> str" where
  "fmt_cents c = show_int c @ [162]"

section \<open>The market card of the web client\<close>

record web_card =
  kc_side :: "side option"
  kc_amount :: str
  kc_advanced :: bool
  kc_limitInput :: str
  kc_phase :: "order_status option"
  kc_details :: bool
  kc_settleConfirm :: bool
  kc_settling :: bool
  kc_idemKey :: str

definition web_card0 :: "str \<Rightarrow> web_card" where
  "web_card0 key = \<lparr> kc_side = None, kc_amount = lit ''10'', kc_advanced = False, kc_limitInput = [], kc_phase = None,
     kc_details = False, kc_settleConfirm = False, kc_settling = False, kc_idemKey = key \<rparr>"

record card_props =
  cd_market :: post_market
  cd_poster :: "user_lite option"
  cd_affiliateId :: "int option"
  cd_affiliatePostId :: "str option"
  cd_decimals :: nat

abbreviation card_market :: "card_props \<Rightarrow> market" where
  "card_market P \<equiv> pm_market (cd_market P)"

definition side_price :: "side option \<Rightarrow> market \<Rightarrow> int" where
  "side_price s m = (if s = Some No then mk_no_price_cents m else mk_yes_price_cents m)"

definition card_tradable :: "card_props \<Rightarrow> bool" where
  "card_tradable P = status_tradable (mk_status (card_market P))"

definition card_price :: "card_props \<Rightarrow> web_card \<Rightarrow> int" where
  "card_price P s = ticket_price (if kc_advanced s then Some (kc_limitInput s) else None) (side_price (kc_side s) (card_market P))"

definition card_shares :: "card_props \<Rightarrow> web_card \<Rightarrow> int" where
  "card_shares P s = web_sharesForSpend (ticket_dollars (kc_amount s)) (card_price P s)"

definition card_cost :: "card_props \<Rightarrow> web_card \<Rightarrow> int" where
  "card_cost P s = web_escrowUnits (cd_decimals P) (card_shares P s) (card_price P s)"

definition card_fee :: "card_props \<Rightarrow> web_card \<Rightarrow> int" where
  "card_fee P s = web_takerFeeUnits (cd_decimals P) (card_shares P s) (card_price P s)"

definition card_canSubmit :: "card_props \<Rightarrow> web_card \<Rightarrow> bool" where
  "card_canSubmit P s \<longleftrightarrow> card_tradable P \<and> kc_side s \<noteq> None \<and> 0 < card_shares P s \<and> kc_phase s = None"

definition card_collapse :: "web_card \<Rightarrow> web_card" where
  "card_collapse s = s\<lparr>kc_side := None, kc_advanced := False, kc_limitInput := [], kc_phase := None\<rparr>"

definition card_pick :: "card_props \<Rightarrow> side \<Rightarrow> web_card \<Rightarrow> web_card" where
  "card_pick P sd s = (if card_tradable P then s\<lparr>kc_phase := None, kc_side := Some sd\<rparr> else s)"

definition card_setAmount :: "str \<Rightarrow> web_card \<Rightarrow> web_card" where
  "card_setAmount t s = s\<lparr>kc_amount := amount_filter t\<rparr>"

definition card_setLimit :: "str \<Rightarrow> web_card \<Rightarrow> web_card" where
  "card_setLimit t s = s\<lparr>kc_limitInput := limit_filter t\<rparr>"

definition card_toggleAdvanced :: "web_card \<Rightarrow> web_card" where
  "card_toggleAdvanced s = s\<lparr>kc_advanced := \<not> kc_advanced s\<rparr>"

text \<open>
  \<open>place\<close> up to its \<open>await\<close>: the call of \<open>placeOrder\<close> it makes, with the price, shares and side of the
  render it closes over; then what it does when that call returns and when it throws, and the timer it sets.
\<close>

definition card_place :: "card_props \<Rightarrow> web_card \<Rightarrow> web_card \<times> place_order_params option" where
  "card_place P s =
     (case kc_side s of
        Some sd \<Rightarrow> if card_canSubmit P s then
            (s\<lparr>kc_phase := Some SIGNING\<rparr>, Some \<lparr> pp_market = card_market P, pp_side = sd, pp_priceCents = card_price P s,
               pp_shares = card_shares P s, pp_affiliateId = cd_affiliateId P, pp_affiliatePostId = cd_affiliatePostId P,
               pp_idempotencyKey = Some (kc_idemKey s) \<rparr>)
          else (s, None)
      | None \<Rightarrow> (s, None))"

definition order_in_text :: "place_order_params \<Rightarrow> str" where
  "order_in_text p = lit ''Buy '' @ side_text (pp_side p) @ [32, 183, 32] @ show_int (pp_shares p) @ lit '' shares @ ''
     @ fmt_cents (pp_priceCents p)"

definition card_placed :: "str \<Rightarrow> place_order_params \<Rightarrow> order \<Rightarrow> web_card \<Rightarrow> web_card \<times> (toast_kind \<times> str \<times> str) \<times> str list list" where
  "card_placed newKey p o1 s =
     (s\<lparr>kc_idemKey := newKey, kc_phase := Some (or_status o1)\<rparr>,
      (SuccessToast, lit ''Order in'', order_in_text p),
      [[lit ''book'', mk_id (pp_market p)], [lit ''orders''], [lit ''positions''], [lit ''feed'']])"

definition card_place_failed :: "js_error \<Rightarrow> web_card \<Rightarrow> web_card \<times> (toast_kind \<times> str \<times> str)" where
  "card_place_failed err s = (s\<lparr>kc_phase := None\<rparr>, (ErrorToast, lit ''Order failed'', web_errorMessage err))"

text \<open>\<open>settle\<close>: the flag while it runs, and its end.\<close>

definition card_settle_start :: "web_card \<Rightarrow> web_card" where
  "card_settle_start s = s\<lparr>kc_settling := True\<rparr>"

definition card_settle_end :: "card_props \<Rightarrow> js_error + unit \<Rightarrow> web_card \<Rightarrow> web_card \<times> (toast_kind \<times> str \<times> str) \<times> str list list" where
  "card_settle_end P r s =
     (case r of
        Inr _ \<Rightarrow> (s\<lparr>kc_settleConfirm := False, kc_settling := False\<rparr>,
                  (SuccessToast, lit ''Settlement requested'', lit ''The oracle is on it.''),
                  [[lit ''market'', mk_id (card_market P)], [lit ''feed'']])
      | Inl e \<Rightarrow> (s\<lparr>kc_settling := False\<rparr>, (ErrorToast, lit ''Couldn't settle'', web_errorMessage e), []))"

section \<open>Runs of the web card\<close>

text \<open>
  The card with the world around it: the calls of \<open>placeOrder\<close> that have not settled, the pending timers
  that will collapse it, and the history of the orders it handed out and of those that were accepted.
\<close>

record card_run =
  cr_card :: web_card
  cr_flying :: "place_order_params list"
  cr_timers :: nat
  cr_sent :: "place_order_params list"
  cr_accepted :: "place_order_params list"

definition card_run0 :: "str \<Rightarrow> card_run" where
  "card_run0 key = \<lparr> cr_card = web_card0 key, cr_flying = [], cr_timers = 0, cr_sent = [], cr_accepted = [] \<rparr>"

datatype card_event =
    PickSide side
  | TypeAmount str
  | TypeLimit str
  | ToggleAdvanced
  | CancelForm
  | PlaceTapped
  | Accepted nat order str
  | Refused nat js_error
  | CollapseTimer

definition drop_nth :: "nat \<Rightarrow> 'a list \<Rightarrow> 'a list" where
  "drop_nth i xs = take i xs @ drop (Suc i) xs"

definition card_place_tapped :: "card_props \<Rightarrow> card_run \<Rightarrow> card_run" where
  "card_place_tapped P r = (case card_place P (cr_card r) of
     (s, None) \<Rightarrow> r\<lparr>cr_card := s\<rparr>
   | (s, Some p) \<Rightarrow> r\<lparr>cr_card := s, cr_flying := cr_flying r @ [p], cr_sent := cr_sent r @ [p]\<rparr>)"

definition card_accepted :: "nat \<Rightarrow> order \<Rightarrow> str \<Rightarrow> card_run \<Rightarrow> card_run" where
  "card_accepted i o1 key r = (if i < length (cr_flying r)
     then r\<lparr>cr_card := fst (card_placed key (cr_flying r ! i) o1 (cr_card r)), cr_flying := drop_nth i (cr_flying r),
            cr_timers := Suc (cr_timers r), cr_accepted := cr_accepted r @ [cr_flying r ! i]\<rparr>
     else r)"

definition card_refused :: "nat \<Rightarrow> js_error \<Rightarrow> card_run \<Rightarrow> card_run" where
  "card_refused i e r = (if i < length (cr_flying r)
     then r\<lparr>cr_card := fst (card_place_failed e (cr_card r)), cr_flying := drop_nth i (cr_flying r)\<rparr> else r)"

fun card_act :: "card_props \<Rightarrow> card_event \<Rightarrow> card_run \<Rightarrow> card_run" where
  "card_act P (PickSide sd) r = r\<lparr>cr_card := card_pick P sd (cr_card r)\<rparr>"
| "card_act P (TypeAmount t) r = r\<lparr>cr_card := card_setAmount t (cr_card r)\<rparr>"
| "card_act P (TypeLimit t) r = r\<lparr>cr_card := card_setLimit t (cr_card r)\<rparr>"
| "card_act P ToggleAdvanced r = r\<lparr>cr_card := card_toggleAdvanced (cr_card r)\<rparr>"
| "card_act P CancelForm r = r\<lparr>cr_card := card_collapse (cr_card r)\<rparr>"
| "card_act P PlaceTapped r = card_place_tapped P r"
| "card_act P (Accepted i o1 key) r = card_accepted i o1 key r"
| "card_act P (Refused i e) r = card_refused i e r"
| "card_act P CollapseTimer r =
     (if 0 < cr_timers r then r\<lparr>cr_card := card_collapse (cr_card r), cr_timers := cr_timers r - 1\<rparr> else r)"

text \<open>
  A new key is a random UUID: it was not used before. A run is calm when the form is left alone while an
  order is under way: no side is picked, nothing is cancelled and no old timer fires in between.
\<close>

definition card_keys :: "card_run \<Rightarrow> str option set" where
  "card_keys r = insert (Some (kc_idemKey (cr_card r))) (pp_idempotencyKey ` set (cr_sent r))"

definition fresh_event :: "card_event \<Rightarrow> card_run \<Rightarrow> bool" where
  "fresh_event ev r = (case ev of Accepted i o1 key \<Rightarrow> Some key \<notin> card_keys r | _ \<Rightarrow> True)"

definition calm_event :: "card_event \<Rightarrow> card_run \<Rightarrow> bool" where
  "calm_event ev r = (case ev of PickSide sd \<Rightarrow> cr_flying r = [] | CancelForm \<Rightarrow> cr_flying r = []
     | CollapseTimer \<Rightarrow> cr_flying r = [] | _ \<Rightarrow> True)"

inductive card_reachable :: "bool \<Rightarrow> card_run \<Rightarrow> bool" for calm where
  start: "card_reachable calm (card_run0 key)"
| step: "card_reachable calm r \<Longrightarrow> fresh_event ev r \<Longrightarrow> (calm \<Longrightarrow> calm_event ev r) \<Longrightarrow> card_reachable calm (card_act P ev r)"

section \<open>Lemmas on the price and the amount\<close>

lemma clamp_cents_range: "1 \<le> clamp_cents p" "clamp_cents p \<le> 99"
  by (simp_all add: clamp_cents_def)

lemma clamp_cents_id [simp]: "1 \<le> p \<Longrightarrow> p \<le> 99 \<Longrightarrow> clamp_cents p = p"
  by (simp add: clamp_cents_def)

lemma ticket_price_range: "1 \<le> ticket_price limit m" "ticket_price limit m \<le> 99"
  by (simp_all add: ticket_price_def clamp_cents_range split: option.split)

lemma show_nat_is_digit: "\<forall>c \<in> set (show_nat n). is_digit c"
  using show_nat_all_digits [of n] by (simp add: all_digits_def list_all_iff)

lemma takeWhile_show_nat [simp]: "takeWhile is_digit (show_nat n) = show_nat n"
  using show_nat_is_digit [of n] by (simp add: takeWhile_eq_all_conv)

lemma dropWhile_show_nat [simp]: "dropWhile is_digit (show_nat n) = []"
  using show_nat_is_digit [of n] by (simp add: dropWhile_eq_Nil_conv)

lemma parse_int_show_nat: "n \<le> 2 ^ 53 \<Longrightarrow> parse_int (show_nat n) = Some (of_nat n)"
  using fl_exact [of "int n"] by (simp add: parse_int_def Let_def)

lemma parse_float_show_nat: "n \<le> 2 ^ 53 \<Longrightarrow> parse_float (show_nat n) = Some (of_nat n)"
  using fl_exact [of "int n"] by (simp add: parse_float_def Let_def)

lemma ticket_price_typed: "n \<le> 2 ^ 53 \<Longrightarrow> ticket_price (Some (show_nat n)) m = clamp_cents (int n)"
proof -
  assume n: "n \<le> 2 ^ 53"
  then have "(of_nat n :: rat) \<le> of_nat (2 ^ 53)" by (simp only: of_nat_le_iff)
  then have "finite_number (of_nat n)" by (simp add: finite_number_def)
  with n show ?thesis
    by (simp add: ticket_price_def non_empty_def parse_int_show_nat)
qed

lemma ticket_price_market: "\<not> truthy limit \<Longrightarrow> ticket_price limit m = clamp_cents m"
  by (simp add: ticket_price_def non_empty_def)

lemma cost_within_dollars:
  assumes "0 \<le> d" "d < 2 ^ 46" "1 \<le> p" "p \<le> 99" "2 \<le> D"
  shows "web_escrowUnits D (web_sharesForSpend (of_int d) p) p \<le> d * UNIT D"
proof -
  have "0 \<le> (d * 100) div p" using assms by (simp add: pos_imp_zdiv_nonneg_iff)
  moreover have "(d * 100) div p * p \<le> d * 100"
    using assms pos_mod_sign [of p "d * 100"] div_mult_mod_eq [of "d * 100" p] by linarith
  moreover have "(d * 100) div p * p * (UNIT D div 100) \<le> d * 100 * (UNIT D div 100)"
    using cent_pos [OF assms(5)] calculation(2) by (intro mult_right_mono) simp_all
  moreover have "web_escrowUnits D (web_sharesForSpend (of_int d) p) p = (d * 100) div p * p * (UNIT D div 100)"
    using assms calculation(1) by (simp add: sharesForSpend_whole escrow_exact)
  moreover have "d * UNIT D = d * 100 * (UNIT D div 100)"
    using arg_cong [OF UNIT_cent [OF assms(5)], of "(*) d"] by (simp only: mult.assoc)
  ultimately show ?thesis by metis
qed

section \<open>Lemmas on the web card\<close>

lemma card_place_Some:
  "card_place P s = (s', Some p) \<longleftrightarrow> (\<exists>sd. kc_side s = Some sd \<and> card_canSubmit P s \<and> s' = s\<lparr>kc_phase := Some SIGNING\<rparr>
     \<and> p = \<lparr> pp_market = card_market P, pp_side = sd, pp_priceCents = card_price P s, pp_shares = card_shares P s,
            pp_affiliateId = cd_affiliateId P, pp_affiliatePostId = cd_affiliatePostId P, pp_idempotencyKey = Some (kc_idemKey s) \<rparr>)"
  by (auto simp: card_place_def split: option.split)

lemma card_place_None: "card_place P s = (s', None) \<Longrightarrow> s' = s"
  by (auto simp: card_place_def split: option.splits if_splits)

lemma card_simps [simp]:
  "kc_idemKey (card_collapse s) = kc_idemKey s" "kc_idemKey (card_pick P sd s) = kc_idemKey s"
  "kc_idemKey (card_setAmount t s) = kc_idemKey s" "kc_phase (card_setAmount t s) = kc_phase s"
  "kc_idemKey (card_setLimit t s) = kc_idemKey s" "kc_phase (card_setLimit t s) = kc_phase s"
  "kc_idemKey (card_toggleAdvanced s) = kc_idemKey s" "kc_phase (card_toggleAdvanced s) = kc_phase s"
  "kc_phase (card_collapse s) = None"
  "kc_idemKey (fst (card_placed k p o1 s)) = k" "kc_idemKey (fst (card_place_failed e s)) = kc_idemKey s"
  by (simp_all add: card_collapse_def card_pick_def card_setAmount_def card_setLimit_def card_toggleAdvanced_def
      card_placed_def card_place_failed_def)

lemma drop_nth_single: "length xs \<le> 1 \<Longrightarrow> i < length xs \<Longrightarrow> drop_nth i xs = [] \<and> xs ! i = hd xs"
  by (cases xs) (auto simp: drop_nth_def)

text \<open>What holds of every order the card handed out, in any run; and what a calm run keeps on top.\<close>

definition sane_order :: "place_order_params \<Rightarrow> bool" where
  "sane_order p \<longleftrightarrow> 1 \<le> pp_priceCents p \<and> pp_priceCents p \<le> 99 \<and> 0 < pp_shares p
     \<and> status_tradable (mk_status (pp_market p))"

definition card_calm_inv :: "card_run \<Rightarrow> bool" where
  "card_calm_inv r \<longleftrightarrow> length (cr_flying r) \<le> 1
     \<and> (\<forall>p \<in> set (cr_flying r). pp_idempotencyKey p = Some (kc_idemKey (cr_card r)) \<and> kc_phase (cr_card r) = Some SIGNING)
     \<and> distinct (map pp_idempotencyKey (cr_accepted r))
     \<and> Some (kc_idemKey (cr_card r)) \<notin> pp_idempotencyKey ` set (cr_accepted r)
     \<and> set (cr_accepted r) \<union> set (cr_flying r) \<subseteq> set (cr_sent r)"

lemma card_sane:
  assumes "card_reachable calm r" shows "\<forall>p \<in> set (cr_sent r). sane_order p"
  using assms
proof induction
  case (step r ev P)
  then show ?case
    by (cases ev) (auto simp: card_place_tapped_def card_accepted_def card_refused_def card_place_Some sane_order_def
        card_canSubmit_def card_tradable_def card_price_def ticket_price_range split: option.splits prod.splits)
qed (simp add: card_run0_def)

lemma card_calm_step:
  assumes inv: "card_calm_inv r" and fresh: "fresh_event ev r" and calm: "calm_event ev r"
  shows "card_calm_inv (card_act P ev r)"
proof (cases ev)
  case PlaceTapped
  show ?thesis
  proof (cases "card_place P (cr_card r)")
    case (Pair s po)
    show ?thesis
    proof (cases po)
      case None
      then show ?thesis using inv Pair card_place_None [of P "cr_card r" s] PlaceTapped by (simp add: card_place_tapped_def)
    next
      case (Some p)
      with Pair have p: "card_place P (cr_card r) = (s, Some p)" by simp
      then have "cr_flying r = []" using inv by (cases "cr_flying r") (auto simp: card_place_Some card_calm_inv_def card_canSubmit_def)
      moreover have "card_act P ev r = r\<lparr>cr_card := s, cr_flying := cr_flying r @ [p], cr_sent := cr_sent r @ [p]\<rparr>"
        using p PlaceTapped by (simp add: card_place_tapped_def)
      moreover have "kc_idemKey s = kc_idemKey (cr_card r)" "kc_phase s = Some SIGNING"
        "pp_idempotencyKey p = Some (kc_idemKey (cr_card r))" using p by (auto simp: card_place_Some)
      ultimately show ?thesis using inv by (auto simp: card_calm_inv_def)
    qed
  qed
next
  case (Accepted i o1 key)
  show ?thesis
  proof (cases "i < length (cr_flying r)")
    case True
    with inv obtain p where p: "cr_flying r = [p]" "i = 0"
      unfolding card_calm_inv_def by (cases "cr_flying r") auto
    have "pp_idempotencyKey p \<noteq> Some key" "Some key \<notin> pp_idempotencyKey ` set (cr_accepted r)"
      using inv fresh p Accepted unfolding card_calm_inv_def by (auto simp: fresh_event_def card_keys_def)
    with p inv Accepted show ?thesis
      by (auto simp: card_accepted_def card_calm_inv_def drop_nth_def)
  qed (use inv Accepted in \<open>simp add: card_accepted_def\<close>)
next
  case (Refused i e)
  then show ?thesis using inv drop_nth_single [of "cr_flying r" i]
    by (auto simp: card_refused_def card_calm_inv_def)
qed (use inv calm in \<open>auto simp: card_calm_inv_def calm_event_def\<close>)

lemma card_calm:
  assumes "card_reachable True r" shows "card_calm_inv r"
  using assms by induction (simp add: card_calm_inv_def card_run0_def, rule card_calm_step, simp_all)

section \<open>What the web card guarantees\<close>

text \<open>
  Whatever the user, the timers and the backend do to a market card, every order it hands to
  \<open>placeOrder\<close> is well formed: a price between 1 and 99 cents, at least one share, in a market that is open
  for trading. While the form shows a phase, a further tap on the button hands out nothing.
\<close>

theorem web_card_orders_sane:
  assumes "card_reachable calm r"
  shows "(\<forall>p \<in> set (cr_sent r). 1 \<le> pp_priceCents p \<and> pp_priceCents p \<le> 99 \<and> 0 < pp_shares p
            \<and> status_tradable (mk_status (pp_market p)))
    \<and> (kc_phase (cr_card r) \<noteq> None \<longrightarrow> card_act P PlaceTapped r = r)"
proof
  show "\<forall>p \<in> set (cr_sent r). 1 \<le> pp_priceCents p \<and> pp_priceCents p \<le> 99 \<and> 0 < pp_shares p
      \<and> status_tradable (mk_status (pp_market p))"
    using card_sane [OF assms] by (simp add: sane_order_def)
  show "kc_phase (cr_card r) \<noteq> None \<longrightarrow> card_act P PlaceTapped r = r"
    by (simp add: card_place_tapped_def card_place_def card_canSubmit_def split: option.split)
qed

text \<open>
  C24: When the form is left alone while an order is being signed, the idempotency keys are right: at
  most one order is under way, and no two accepted orders were sent under the same key, nor will the next
  be sent under one that was accepted. (A refused order leaves its key for the retry.) Left alone means that while
  an order is under way no side is picked, the form is not cancelled, and no timer that collapses the form after an
  earlier order fires; and that the keys drawn are new ones.
\<close>

theorem web_card_keys_exact:
  assumes "card_reachable True r"
  shows "length (cr_flying r) \<le> 1 \<and> distinct (map pp_idempotencyKey (cr_accepted r))
    \<and> Some (kc_idemKey (cr_card r)) \<notin> pp_idempotencyKey ` set (cr_accepted r)"
  using card_calm [OF assms] by (simp add: card_calm_inv_def)

text \<open>
  For a whole-dollar amount the card spends no more than the amount: the escrow it shows and signs
  stays below it, at the limit the user typed (clamped to 1 to 99) or else at the price of the chosen side.
\<close>

theorem web_card_spends_amount:
  assumes "kc_amount s = show_nat d" "d < 2 ^ 46" "2 \<le> cd_decimals P"
  shows "card_cost P s \<le> int d * UNIT (cd_decimals P)
    \<and> (kc_advanced s \<and> kc_limitInput s = show_nat n \<and> n \<le> 2 ^ 53 \<longrightarrow> card_price P s = clamp_cents (int n))
    \<and> (\<not> kc_advanced s \<longrightarrow> card_price P s = clamp_cents (if kc_side s = Some No
          then mk_no_price_cents (card_market P) else mk_yes_price_cents (card_market P)))"
proof (intro conjI impI)
  have "parse_float (show_nat d) = Some (of_nat d)" using assms(2) by (intro parse_float_show_nat) simp
  then have "ticket_dollars (kc_amount s) = of_int (int d)" by (simp add: ticket_dollars_def assms(1))
  then show "card_cost P s \<le> int d * UNIT (cd_decimals P)"
    using cost_within_dollars [of "int d" "card_price P s" "cd_decimals P"] assms(2,3) ticket_price_range
    by (simp add: card_cost_def card_shares_def card_price_def)
  assume "kc_advanced s \<and> kc_limitInput s = show_nat n \<and> n \<le> 2 ^ 53"
  then show "card_price P s = clamp_cents (int n)" by (simp add: card_price_def ticket_price_typed)
next
  assume "\<not> kc_advanced s"
  then show "card_price P s = clamp_cents (if kc_side s = Some No
          then mk_no_price_cents (card_market P) else mk_yes_price_cents (card_market P))"
    by (simp add: card_price_def ticket_price_market side_price_def)
qed

text \<open>A card on an open market at 40 and 62 cents, and runs on it.\<close>

definition demo_props :: card_props where
  "demo_props = \<lparr> cd_market = \<lparr> pm_market = Market (lit ''m'') 7 \<lparr> ul_id = lit ''u'', ul_username = lit ''ann'',
        ul_display_name = None, ul_avatar_url = None \<rparr> (lit ''Rain?'') [] None OPEN None 40 62 (lit ''0'') [] None,
        pm_poster_position = None, pm_poster_pnl = None \<rparr>,
     cd_poster = None, cd_affiliateId = None, cd_affiliatePostId = None, cd_decimals = 6 \<rparr>"

definition demo_run :: "card_event list \<Rightarrow> card_run" where
  "demo_run evs = foldl (\<lambda>r ev. card_act demo_props ev r) (card_run0 (lit ''k0'')) evs"

definition demo_order :: "card_props \<Rightarrow> str \<Rightarrow> side \<Rightarrow> int \<Rightarrow> int \<Rightarrow> place_order_params" where
  "demo_order P key sd p n = \<lparr> pp_market = card_market P, pp_side = sd, pp_priceCents = p, pp_shares = n,
     pp_affiliateId = None, pp_affiliatePostId = None, pp_idempotencyKey = Some key \<rparr>"

text \<open>The amounts and the shares of the instances below, evaluated once.\<close>

lemma demo_parse: "parse_float (lit ''10'') = Some 10" "parse_float (lit ''50'') = Some 50"
  "web_sharesForSpend 10 40 = 25" "web_sharesForSpend 10 62 = 16" "web_sharesForSpend 50 40 = 125"
  "web_sharesForSpend 10 50 = 20" "web_sharesForSpend 1 99 = 1"
  "amount_filter (lit ''50'') = lit ''50''" "amount_filter (lit ''10'') = lit ''10''"
proof -
  have "parse_float (lit ''10'') = Some 10 \<and> parse_float (lit ''50'') = Some 50 \<and> web_sharesForSpend 10 40 = 25
    \<and> web_sharesForSpend 10 62 = 16 \<and> web_sharesForSpend 50 40 = 125 \<and> web_sharesForSpend 10 50 = 20 \<and> web_sharesForSpend 1 99 = 1
    \<and> amount_filter (lit ''50'') = lit ''50'' \<and> amount_filter (lit ''10'') = lit ''10''" by code_simp
  then show "parse_float (lit ''10'') = Some 10" "parse_float (lit ''50'') = Some 50"
    "web_sharesForSpend 10 40 = 25" "web_sharesForSpend 10 62 = 16" "web_sharesForSpend 50 40 = 125"
    "web_sharesForSpend 10 50 = 20" "web_sharesForSpend 1 99 = 1"
    "amount_filter (lit ''50'') = lit ''50''" "amount_filter (lit ''10'') = lit ''10''" by blast+
qed

lemmas demo_run_simps = demo_run_def card_run0_def web_card0_def demo_props_def card_pick_def card_tradable_def
  card_place_tapped_def card_place_def card_canSubmit_def card_shares_def card_price_def ticket_dollars_def
  ticket_price_market demo_parse side_price_def demo_order_def card_refused_def card_place_failed_def drop_nth_def
  card_setAmount_def

lemma demo_pick_twice:
  "cr_flying (demo_run [PickSide Yes, PlaceTapped, PickSide No, PlaceTapped])
    = [demo_order demo_props (lit ''k0'') Yes 40 25, demo_order demo_props (lit ''k0'') No 62 16]"
  by (simp add: demo_run_simps)

lemma demo_change_amount:
  "cr_sent (demo_run [PickSide Yes, PlaceTapped, Refused 0 e, TypeAmount (lit ''50''), PlaceTapped])
    = [demo_order demo_props (lit ''k0'') Yes 40 25, demo_order demo_props (lit ''k0'') Yes 40 125]"
  by (simp add: demo_run_simps)

fun run_ok :: "bool \<Rightarrow> card_event list \<Rightarrow> card_run \<Rightarrow> bool" where
  "run_ok calm [] r = True"
| "run_ok calm (ev # evs) r \<longleftrightarrow> fresh_event ev r \<and> (calm \<longrightarrow> calm_event ev r) \<and> run_ok calm evs (card_act demo_props ev r)"

lemma run_ok_reachable:
  "card_reachable calm r \<Longrightarrow> run_ok calm evs r \<Longrightarrow> card_reachable calm (foldl (\<lambda>r ev. card_act demo_props ev r) r evs)"
  by (induction evs arbitrary: r) (auto intro: card_reachable.step)

lemma demo_run_reachable: "run_ok calm evs (card_run0 (lit ''k0'')) \<Longrightarrow> card_reachable calm (demo_run evs)"
  unfolding demo_run_def by (rule run_ok_reachable [OF card_reachable.start])

lemma demo_pick_twice_reachable: "card_reachable False (demo_run [PickSide Yes, PlaceTapped, PickSide No, PlaceTapped])"
  by (rule demo_run_reachable) (simp add: fresh_event_def)

lemma demo_change_amount_reachable:
  "card_reachable True (demo_run [PickSide Yes, PlaceTapped, Refused 0 e, TypeAmount (lit ''50''), PlaceTapped])"
  by (rule demo_run_reachable) (simp add: fresh_event_def calm_event_def demo_run_simps)

text \<open>
  The key of an order is not always its own. Picking a side (or cancelling) while an order is being
  signed clears the phase, and a second, different order goes out next to the first under the same
  idempotency key; and after a refusal the user may change the amount and tap again, which sends a different
  order under the key of the refused one. The backend binds a key to the body it came with and answers the
  second with a conflict.
\<close>

theorem web_card_key_reused:
  "(\<exists>r p q. card_reachable False r \<and> cr_flying r = [p, q] \<and> pp_side p \<noteq> pp_side q
      \<and> pp_idempotencyKey p = pp_idempotencyKey q)
   \<and> (\<exists>r p q. card_reachable True r \<and> cr_sent r = [p, q] \<and> pp_shares p \<noteq> pp_shares q
      \<and> pp_idempotencyKey p = pp_idempotencyKey q)"
proof
  show "\<exists>r p q. card_reachable False r \<and> cr_flying r = [p, q] \<and> pp_side p \<noteq> pp_side q
      \<and> pp_idempotencyKey p = pp_idempotencyKey q"
    by (rule exI, intro exI conjI, rule demo_pick_twice_reachable, rule demo_pick_twice) (simp_all add: demo_order_def)
  show "\<exists>r p q. card_reachable True r \<and> cr_sent r = [p, q] \<and> pp_shares p \<noteq> pp_shares q
      \<and> pp_idempotencyKey p = pp_idempotencyKey q"
    by (rule exI, intro exI conjI, rule demo_change_amount_reachable [where e = Thrown], rule demo_change_amount)
      (simp_all add: demo_order_def)
qed

theorem web_card_orders_sane_witness:
  "\<exists>r :: card_run. cr_sent r = [demo_order demo_props (lit ''k0'') Yes 40 25, demo_order demo_props (lit ''k0'') No 62 16]
    \<and> 0 < pp_shares (hd (cr_sent r))"
proof -
  let ?r = "demo_run [PickSide Yes, PlaceTapped, PickSide No, PlaceTapped]"
  have "cr_sent ?r = [demo_order demo_props (lit ''k0'') Yes 40 25, demo_order demo_props (lit ''k0'') No 62 16]"
    by (simp add: demo_run_simps)
  with web_card_orders_sane [OF demo_pick_twice_reachable]
  have "cr_sent ?r = [demo_order demo_props (lit ''k0'') Yes 40 25, demo_order demo_props (lit ''k0'') No 62 16]
    \<and> 0 < pp_shares (hd (cr_sent ?r))" by simp
  then show ?thesis by (rule exI)
qed

text \<open>An order that is accepted, the form collapsing after it, and a second order under way.\<close>

definition demo_resting :: order where
  "demo_resting = \<lparr> or_id = lit ''o1'', or_market_id = lit ''m'', or_market = None, or_side = Yes, or_price_cents = 40,
     or_shares = 25, or_filled_shares = 0, or_status = RESTING, or_affiliate_post_id = None, or_created_at = [] \<rparr>"

abbreviation demo_two_orders :: card_run where
  "demo_two_orders \<equiv> demo_run [PickSide Yes, PlaceTapped, Accepted 0 demo_resting (lit ''k1''), CollapseTimer, PickSide No, PlaceTapped]"

lemma demo_two_orders_run:
  "card_reachable True demo_two_orders"
  "cr_accepted demo_two_orders = [demo_order demo_props (lit ''k0'') Yes 40 25]"
  "cr_flying demo_two_orders = [demo_order demo_props (lit ''k1'') No 62 16]"
  "kc_idemKey (cr_card demo_two_orders) = lit ''k1''"
proof -
  show "card_reachable True demo_two_orders"
    by (rule demo_run_reachable)
       (simp add: fresh_event_def calm_event_def demo_run_simps card_accepted_def card_placed_def card_collapse_def card_keys_def)
qed (simp_all add: demo_run_simps card_accepted_def card_placed_def card_collapse_def)

theorem web_card_keys_exact_witness:
  "card_reachable True demo_two_orders \<and> length (cr_accepted demo_two_orders) = 1 \<and> length (cr_flying demo_two_orders) = 1
   \<and> Some (kc_idemKey (cr_card demo_two_orders)) \<notin> pp_idempotencyKey ` set (cr_accepted demo_two_orders)"
  using web_card_keys_exact [OF demo_two_orders_run(1)] demo_two_orders_run by simp

theorem web_card_spends_amount_witness:
  "card_cost demo_props ((web_card0 [])\<lparr>kc_amount := show_nat 10, kc_side := Some Yes\<rparr>) \<le> 10000000"
  using web_card_spends_amount [of "(web_card0 [])\<lparr>kc_amount := show_nat 10, kc_side := Some Yes\<rparr>" 10 demo_props]
  by (simp add: demo_props_def UNIT_def)

section \<open>The trade sheet of the web client\<close>

text \<open>
  \<open>TradeSheet\<close>: the same form in a sheet that always has a side, closes after a successful order, and is
  read-only while an administrator is warped.
\<close>

record web_sheet =
  wh_side :: side
  wh_amount :: str
  wh_advanced :: bool
  wh_limitInput :: str
  wh_phase :: "order_status option"
  wh_idemKey :: str

record sheet_props =
  hp_market :: market
  hp_affiliateId :: "int option"
  hp_affiliatePostId :: "str option"
  hp_warped :: bool
  hp_decimals :: nat

definition web_sheet0 :: "side \<Rightarrow> str \<Rightarrow> web_sheet" where
  "web_sheet0 initialSide key = \<lparr> wh_side = initialSide, wh_amount = lit ''10'', wh_advanced = False,
     wh_limitInput = [], wh_phase = None, wh_idemKey = key \<rparr>"

definition sheet_price :: "sheet_props \<Rightarrow> web_sheet \<Rightarrow> int" where
  "sheet_price P s = ticket_price (if wh_advanced s then Some (wh_limitInput s) else None)
     (if wh_side s = Yes then mk_yes_price_cents (hp_market P) else mk_no_price_cents (hp_market P))"

definition sheet_shares :: "sheet_props \<Rightarrow> web_sheet \<Rightarrow> int" where
  "sheet_shares P s = web_sharesForSpend (ticket_dollars (wh_amount s)) (sheet_price P s)"

definition sheet_cost :: "sheet_props \<Rightarrow> web_sheet \<Rightarrow> int" where
  "sheet_cost P s = web_escrowUnits (hp_decimals P) (sheet_shares P s) (sheet_price P s)"

definition sheet_fee :: "sheet_props \<Rightarrow> web_sheet \<Rightarrow> int" where
  "sheet_fee P s = web_takerFeeUnits (hp_decimals P) (sheet_shares P s) (sheet_price P s)"

definition sheet_canTrade :: "sheet_props \<Rightarrow> web_sheet \<Rightarrow> bool" where
  "sheet_canTrade P s \<longleftrightarrow> status_tradable (mk_status (hp_market P)) \<and> 0 < sheet_shares P s \<and> \<not> hp_warped P \<and> wh_phase s = None"

definition sheet_place :: "sheet_props \<Rightarrow> web_sheet \<Rightarrow> web_sheet \<times> place_order_params option" where
  "sheet_place P s = (if sheet_canTrade P s
     then (s\<lparr>wh_phase := Some SIGNING\<rparr>, Some \<lparr> pp_market = hp_market P, pp_side = wh_side s, pp_priceCents = sheet_price P s,
            pp_shares = sheet_shares P s, pp_affiliateId = hp_affiliateId P, pp_affiliatePostId = hp_affiliatePostId P,
            pp_idempotencyKey = Some (wh_idemKey s) \<rparr>)
     else (s, None))"

definition sheet_placed :: "str \<Rightarrow> place_order_params \<Rightarrow> order \<Rightarrow> web_sheet \<Rightarrow> web_sheet \<times> (toast_kind \<times> str \<times> str) \<times> str list list" where
  "sheet_placed newKey p o1 s =
     (s\<lparr>wh_idemKey := newKey, wh_phase := Some (or_status o1)\<rparr>,
      (SuccessToast, lit ''Order in'', order_in_text p),
      [[lit ''book'', mk_id (pp_market p)], [lit ''orders''], [lit ''positions'']])"

definition sheet_place_failed :: "js_error \<Rightarrow> web_sheet \<Rightarrow> web_sheet \<times> (toast_kind \<times> str \<times> str)" where
  "sheet_place_failed err s = (s\<lparr>wh_phase := None\<rparr>, (ErrorToast, lit ''Order failed'', web_errorMessage err))"

text \<open>The label of the submit button, in both tickets.\<close>

datatype submit_label = PhaseLabel bool order_status | ReadOnlyLabel | BuyLabel side int

definition card_label :: "card_props \<Rightarrow> web_card \<Rightarrow> side \<Rightarrow> submit_label" where
  "card_label P s sd = (case kc_phase s of Some ph \<Rightarrow> PhaseLabel (ph = SIGNING) ph | None \<Rightarrow> BuyLabel sd (card_price P s))"

definition sheet_label :: "sheet_props \<Rightarrow> web_sheet \<Rightarrow> submit_label" where
  "sheet_label P s = (case wh_phase s of Some ph \<Rightarrow> PhaseLabel (ph = SIGNING) ph
     | None \<Rightarrow> if hp_warped P then ReadOnlyLabel else BuyLabel (wh_side s) (sheet_price P s))"

end
