(* ===== verification/MobileTickets.thy ===== *)
theory MobileTickets
  imports Tickets
begin

text \<open>
  The order tickets of the app: \<open>mobile/components/MarketCard.tsx\<close> (the card in a post, with its three
  tiers and live prices) and \<open>TradeSheet.tsx\<close> (the ticket sheet, the price stepper and the settlement
  sheet). Both submit the same way, written here once as \<open>mob_submit\<close> over the events of \<open>mob_trade_event\<close>.
\<close>

section \<open>Signing and submitting\<close>

record mob_order_body =
  mb_market_id :: str
  mb_side :: side
  mb_price_cents :: int
  mb_shares :: int
  mb_max_cost :: rat
  mb_expiry :: int
  mb_nonce :: int
  mb_auth :: auth3009_payload
  mb_affiliate_post_id :: "str option"
  mb_affiliate_id :: "str option"

datatype mob_trade_event =
    EnsureWallet
  | LinkWallet str
  | ReadNonce
  | MobPrompt str typed_data
  | PostMobOrder mob_order_body
  | PostMobSettle str auth3009_payload

text \<open>What a ticket closes over: configuration, wallet, backend answers, and the two readings of the clock.\<close>

record mob_trade_env =
  mt_config :: mob_config
  mt_decimals :: nat
  mt_hash :: "typed_data \<Rightarrow> str"
  mt_wallet :: "js_error + str"
  mt_order_nonce :: "js_error + int"
  mt_sign :: "str \<Rightarrow> typed_data \<Rightarrow> js_error + str"
  mt_now_build :: int
  mt_now_sign :: int
  mt_random :: "8 word list"
  mt_post_order :: "mob_order_body \<Rightarrow> js_error + mob_order"
  mt_post_settle :: "js_error + unit"

record mob_ticket =
  mq_market :: mob_market
  mq_side :: side
  mq_price :: int
  mq_shares :: int
  mq_affiliatePostId :: "str option"
  mq_affiliateId :: "int option"

definition mob_ticket_cost :: "mob_trade_env \<Rightarrow> mob_ticket \<Rightarrow> int" where
  "mob_ticket_cost E q = mob_maxCostUnits (mt_decimals E) (mq_shares q) (mq_price q)"

definition mob_ticket_order :: "mob_trade_env \<Rightarrow> mob_ticket \<Rightarrow> str \<Rightarrow> int \<Rightarrow> built_order option" where
  "mob_ticket_order E q address nonce = mob_buildOrder (mt_hash E) (mt_config E) (mt_now_build E) address
     \<lparr> op_chainMarketId = mmk_chain_market_id (mq_market q), op_side = mq_side q, op_priceCents = mq_price q,
       op_shares = mq_shares q, op_maxCost = mob_ticket_cost E q,
       op_affiliatePostId = Some (Big (or_else (mq_affiliateId q) 0)), op_expiry = None, op_nonce = Big nonce \<rparr>"

definition sign_auth :: "mob_trade_env \<Rightarrow> str \<Rightarrow> receive_auth_opts \<Rightarrow> (mob_trade_event, auth3009_payload) io" where
  "sign_auth E address opts = io_call
     (MobPrompt address (receive_auth_typed_data (mt_config E) (mt_now_sign E) address
        (or_else (ro_nonce opts) (mob_randomBytes32 (mt_random E))) opts))
     (mob_signReceiveAuthorization (mt_config E) (mt_now_sign E) (mt_random E) (mt_sign E) address opts)"

definition mob_body :: "mob_trade_env \<Rightarrow> mob_ticket \<Rightarrow> int \<Rightarrow> built_order \<Rightarrow> auth3009_payload \<Rightarrow> mob_order_body" where
  "mob_body E q nonce bo auth = \<lparr> mb_market_id = mmk_id (mq_market q), mb_side = mq_side q, mb_price_cents = mq_price q,
     mb_shares = mq_shares q, mb_max_cost = num_of_big (mob_ticket_cost E q), mb_expiry = bm_expiry (bo_message bo),
     mb_nonce = nonce, mb_auth = auth, mb_affiliate_post_id = mq_affiliatePostId q,
     mb_affiliate_id = map_option show_int (mq_affiliateId q) \<rparr>"

definition mob_submit :: "mob_trade_env \<Rightarrow> mob_ticket \<Rightarrow> (mob_trade_event, mob_order) io" where
  "mob_submit E q =
     io_bind (io_call EnsureWallet (mt_wallet E)) (\<lambda>address.
     io_bind (io_call (LinkWallet address) (Inr ())) (\<lambda>_.
     io_bind (io_call ReadNonce (mt_order_nonce E)) (\<lambda>nonce.
       case mob_ticket_order E q address nonce of
         None \<Rightarrow> io_throw Thrown
       | Some bo \<Rightarrow>
           io_bind (sign_auth E address \<lparr> ro_to = None, ro_value = mob_ticket_cost E q, ro_validSeconds = None,
               ro_token = None, ro_nonce = Some (bo_digest bo) \<rparr>) (\<lambda>auth.
             let body = mob_body E q nonce bo auth in io_call (PostMobOrder body) (mt_post_order E body)))))"

text \<open>\<open>SettleSheet\<close>: the five cents, and the settlement they pay for.\<close>

definition mob_settle :: "mob_trade_env \<Rightarrow> mob_market \<Rightarrow> (mob_trade_event, unit) io" where
  "mob_settle E m =
     io_bind (io_call EnsureWallet (mt_wallet E)) (\<lambda>address.
     io_bind (sign_auth E address \<lparr> ro_to = None, ro_value = mob_dollarsToUnits (mt_decimals E) (fl (5 / 100)),
         ro_validSeconds = None, ro_token = None, ro_nonce = None \<rparr>) (\<lambda>auth.
       io_call (PostMobSettle (mmk_id m) auth) (mt_post_settle E)))"

section \<open>The market card of the app\<close>

record mob_card =
  jc_market :: mob_market
  jc_expanded :: bool
  jc_side :: "side option"
  jc_amount :: str
  jc_limitInput :: str
  jc_stage :: "order_status option"
  jc_error :: "str option"
  jc_details :: bool
  jc_settling :: bool

definition mob_card0 :: "mob_market \<Rightarrow> bool \<Rightarrow> mob_card" where
  "mob_card0 m standalone = \<lparr> jc_market = m, jc_expanded = standalone, jc_side = None, jc_amount = lit ''10'',
     jc_limitInput = [], jc_stage = None, jc_error = None, jc_details = False, jc_settling = False \<rparr>"

text \<open>Live prices and status: the callback of \<open>useBookChannel\<close>, which listens only while the card is expanded.\<close>

fun live_market :: "ws_event \<Rightarrow> mob_market \<Rightarrow> mob_market" where
  "live_market (EvBookDelta c i ys ns yp np)
     (MobMarket a b cr t q sq ca ru so se st di y n v ex rf cd pc cc mp) =
   MobMarket a b cr t q sq ca ru so se st di (alt_opt yp y) (alt_opt np n) v ex rf cd pc cc mp"
| "live_market (EvMarketUpdate c i status dir mk)
     (MobMarket a b cr t q sq ca ru so se st di y n v ex rf cd pc cc mp) =
   MobMarket a b cr t q sq ca ru so se status (alt_opt dir di) y n v ex rf cd pc cc mp"
| "live_market _ m = m"

definition mob_card_on_book :: "ws_event \<Rightarrow> mob_card \<Rightarrow> mob_card" where
  "mob_card_on_book e s = (if jc_expanded s then s\<lparr>jc_market := live_market e (jc_market s)\<rparr> else s)"

definition mob_card_channel :: "mob_card \<Rightarrow> str option" where
  "mob_card_channel s = book_channel (if jc_expanded s then Some (mmk_id (jc_market s)) else None)"

definition mob_card_tradable :: "mob_card \<Rightarrow> bool" where
  "mob_card_tradable s = status_tradable (mmk_status (jc_market s))"

definition mob_card_price :: "mob_card \<Rightarrow> int" where
  "mob_card_price s = ticket_price (Some (jc_limitInput s))
     (or_else (if jc_side s = Some No then mmk_no_price_cents (jc_market s) else mmk_yes_price_cents (jc_market s)) 50)"

definition mob_card_shares :: "mob_card \<Rightarrow> int" where
  "mob_card_shares s = mob_sharesForSpend (ticket_dollars (jc_amount s)) (mob_card_price s)"

definition mob_card_payToWin :: "mob_card \<Rightarrow> rat \<times> rat" where
  "mob_card_payToWin s = mob_payToWin (mob_card_shares s) (mob_card_price s)"

definition mob_card_busy :: "mob_card \<Rightarrow> bool" where
  "mob_card_busy s \<longleftrightarrow> jc_stage s = Some SIGNING \<or> jc_stage s = Some QUEUED"

definition mob_card_canSubmit :: "mob_card \<Rightarrow> bool" where
  "mob_card_canSubmit s \<longleftrightarrow> mob_card_tradable s \<and> jc_side s \<noteq> None \<and> 0 < mob_card_shares s \<and> \<not> mob_card_busy s"

definition resetTrade :: "mob_card \<Rightarrow> mob_card" where
  "resetTrade s = s\<lparr>jc_side := None, jc_limitInput := [], jc_stage := None, jc_error := None\<rparr>"

definition toggleExpand :: "mob_card \<Rightarrow> mob_card" where
  "toggleExpand s = (if jc_expanded s then (resetTrade (s\<lparr>jc_details := False\<rparr>))\<lparr>jc_expanded := False\<rparr>
     else s\<lparr>jc_expanded := True\<rparr>)"

definition mob_pick :: "side \<Rightarrow> mob_card \<Rightarrow> mob_card" where
  "mob_pick sd s = (if mob_card_tradable s
     then s\<lparr>jc_stage := None, jc_error := None, jc_side := (if jc_side s = Some sd then None else Some sd), jc_expanded := True\<rparr>
     else s)"

definition toggleDetails :: "mob_card \<Rightarrow> mob_card" where
  "toggleDetails s = s\<lparr>jc_details := \<not> jc_details s\<rparr>"

definition mob_card_setAmount :: "str \<Rightarrow> mob_card \<Rightarrow> mob_card" where
  "mob_card_setAmount v s = s\<lparr>jc_amount := amount_filter v\<rparr>"

definition mob_card_setLimit :: "str \<Rightarrow> mob_card \<Rightarrow> mob_card" where
  "mob_card_setLimit v s = s\<lparr>jc_limitInput := limit_filter v\<rparr>"

text \<open>
  \<open>submit\<close>: the ticket it closes over when it may start, the stage after the signature, and the end. The end
  gives a toast (title, body, icon) and the invalidated queries, or the error line.
\<close>

definition mob_card_submit :: "str option \<Rightarrow> int option \<Rightarrow> mob_card \<Rightarrow> mob_card \<times> mob_ticket option" where
  "mob_card_submit postId affiliateId s =
     (case jc_side s of
        Some sd \<Rightarrow> if mob_card_canSubmit s
          then (s\<lparr>jc_error := None, jc_stage := Some SIGNING\<rparr>,
                Some \<lparr> mq_market = jc_market s, mq_side = sd, mq_price = mob_card_price s, mq_shares = mob_card_shares s,
                       mq_affiliatePostId = postId, mq_affiliateId = affiliateId \<rparr>)
          else (s, None)
      | None \<Rightarrow> (s, None))"

definition mob_card_signed :: "mob_card \<Rightarrow> mob_card" where
  "mob_card_signed s = s\<lparr>jc_stage := Some QUEUED\<rparr>"

definition placed_text :: "bool \<Rightarrow> mob_ticket \<Rightarrow> str" where
  "placed_text singular q = side_text (mq_side q) @ [32, 183, 32] @ show_int (mq_shares q) @ lit '' share''
     @ (if singular \<and> mq_shares q = 1 then [] else lit ''s'') @ lit '' @ '' @ fmt_cents (mq_price q)"

definition mob_card_done :: "mob_ticket \<Rightarrow> js_error + mob_order \<Rightarrow> mob_card \<Rightarrow> mob_card \<times> (str \<times> str \<times> str) option \<times> str list list" where
  "mob_card_done q r s = (case r of
     Inr _ \<Rightarrow> (resetTrade s, Some (lit ''Order placed'', placed_text True q, lit ''checkmark-circle''),
               [[lit ''book'', mmk_id (mq_market q)], [lit ''orders''], [lit ''positions''], [lit ''feed'']])
   | Inl e \<Rightarrow> (s\<lparr>jc_error := Some (mob_errorMessage e), jc_stage := None\<rparr>, None, []))"

definition mob_card_settled :: "mob_card \<Rightarrow> mob_card" where
  "mob_card_settled s = s\<lparr>jc_market := live_market (EvMarketUpdate [] [] SETTLING None None) (jc_market s)\<rparr>"

datatype mob_label = ConfirmInWallet | Submitting | BuyAt side int | PickASide

definition mob_card_label :: "mob_card \<Rightarrow> mob_label" where
  "mob_card_label s = (if jc_stage s = Some SIGNING then ConfirmInWallet else if jc_stage s = Some QUEUED then Submitting
     else case jc_side s of Some sd \<Rightarrow> BuyAt sd (mob_card_price s) | None \<Rightarrow> PickASide)"

text \<open>What the one line of the collapsed card shows on its right.\<close>

datatype card_corner =
    SettledCorner "rat option" "side option" "str option"
  | ChipCorner market_status "bool option"
  | PillsCorner "int option" "int option"
  | CollapseCorner

definition mob_card_corner :: "rat option \<Rightarrow> side option \<Rightarrow> mob_card \<Rightarrow> card_corner" where
  "mob_card_corner posterPnl posterSide s =
     (let m = jc_market s in
      if mmk_status m = SETTLED then SettledCorner posterPnl posterSide
        (if posterSide = None \<and> posterPnl = None
         then Some (if mmk_resolved_fifty m = Some True then lit ''50/50''
                    else if mmk_direction m = Some True then lit ''YES'' else lit ''NO'')
         else None)
      else if \<not> mob_card_tradable s then ChipCorner (mmk_status m) (mmk_direction m)
      else if \<not> jc_expanded s then PillsCorner (mmk_yes_price_cents m) (mmk_no_price_cents m)
      else CollapseCorner)"

section \<open>The ticket sheet of the app\<close>

record mob_sheet =
  js_side :: side
  js_amount :: str
  js_advanced :: bool
  js_limitOverride :: "int option"
  js_stage :: "order_status option"
  js_error :: "str option"

definition mob_sheet0 :: "side \<Rightarrow> mob_sheet" where
  "mob_sheet0 initialSide = \<lparr> js_side = initialSide, js_amount = lit ''10'', js_advanced = False,
     js_limitOverride = None, js_stage = None, js_error = None \<rparr>"

definition mob_sheet_price :: "mob_market \<Rightarrow> mob_sheet \<Rightarrow> int" where
  "mob_sheet_price m s = or_else (alt_opt (js_limitOverride s)
     (if js_side s = Yes then mmk_yes_price_cents m else mmk_no_price_cents m)) 50"

text \<open>The amount field of the sheet is not filtered: \<open>parseFloat\<close> is the argument \<open>spend\<close> (0 for \<open>NaN\<close>).\<close>

definition mob_sheet_shares :: "mob_market \<Rightarrow> rat \<Rightarrow> mob_sheet \<Rightarrow> int" where
  "mob_sheet_shares m spend s = mob_sharesForSpend spend (mob_sheet_price m s)"

definition mob_sheet_canSubmit :: "mob_market \<Rightarrow> rat \<Rightarrow> mob_sheet \<Rightarrow> bool" where
  "mob_sheet_canSubmit m spend s \<longleftrightarrow> 0 < mob_sheet_shares m spend s \<and> js_stage s \<noteq> Some SIGNING \<and> js_stage s \<noteq> Some QUEUED"

definition mob_sheet_pick :: "side \<Rightarrow> mob_sheet \<Rightarrow> mob_sheet" where
  "mob_sheet_pick sd s = s\<lparr>js_side := sd, js_limitOverride := None\<rparr>"

definition mob_sheet_reset :: "mob_sheet \<Rightarrow> mob_sheet" where
  "mob_sheet_reset s = s\<lparr>js_stage := None, js_error := None\<rparr>"

definition mob_sheet_submit :: "mob_market \<Rightarrow> rat \<Rightarrow> str option \<Rightarrow> int option \<Rightarrow> mob_sheet \<Rightarrow> mob_sheet \<times> mob_ticket" where
  "mob_sheet_submit m spend postId affiliateId s =
     (s\<lparr>js_error := None, js_stage := Some SIGNING\<rparr>,
      \<lparr> mq_market = m, mq_side = js_side s, mq_price = mob_sheet_price m s, mq_shares = mob_sheet_shares m spend s,
        mq_affiliatePostId = postId, mq_affiliateId = affiliateId \<rparr>)"

definition mob_sheet_done :: "mob_ticket \<Rightarrow> js_error + mob_order \<Rightarrow> mob_sheet \<Rightarrow> mob_sheet \<times> (str \<times> str \<times> str) option \<times> bool" where
  "mob_sheet_done q r s = (case r of
     Inr _ \<Rightarrow> (s\<lparr>js_stage := None\<rparr>, Some (lit ''Order placed'', placed_text False q, lit ''checkmark-circle''), True)
   | Inl e \<Rightarrow> (s\<lparr>js_error := Some (mob_errorMessage e), js_stage := None\<rparr>, None, False))"

definition price_step :: "int \<Rightarrow> int \<Rightarrow> int" where
  "price_step d v = max 1 (min 99 (v + d))"

record settle_sheet =
  ss_busy :: bool
  ss_error :: "str option"

definition settle_start :: "settle_sheet \<Rightarrow> settle_sheet" where
  "settle_start s = s\<lparr>ss_busy := True, ss_error := None\<rparr>"

definition settle_done :: "js_error + unit \<Rightarrow> settle_sheet \<Rightarrow> settle_sheet \<times> (str \<times> str \<times> str) option \<times> bool" where
  "settle_done r s = (case r of
     Inr _ \<Rightarrow> (s\<lparr>ss_busy := False\<rparr>, Some (lit ''Settlement requested'', lit ''The oracle is on it.'', lit ''hourglass''), True)
   | Inl e \<Rightarrow> (s\<lparr>ss_error := Some (mob_errorMessage e), ss_busy := False\<rparr>, None, False))"

section \<open>Lemmas\<close>

definition mob_posts :: "mob_trade_event list \<Rightarrow> mob_order_body list" where
  "mob_posts es = concat (map (\<lambda>e. case e of PostMobOrder b \<Rightarrow> [b] | _ \<Rightarrow> []) es)"

definition mob_prompts :: "mob_trade_event list \<Rightarrow> typed_data list" where
  "mob_prompts es = concat (map (\<lambda>e. case e of MobPrompt a d \<Rightarrow> [d] | _ \<Rightarrow> []) es)"

lemma mob_events_simps [simp]:
  "mob_posts [] = []" "mob_posts (e # es) = (case e of PostMobOrder b \<Rightarrow> [b] | _ \<Rightarrow> []) @ mob_posts es"
  "mob_prompts [] = []" "mob_prompts (e # es) = (case e of MobPrompt a d \<Rightarrow> [d] | _ \<Rightarrow> []) @ mob_prompts es"
  by (simp_all add: mob_posts_def mob_prompts_def)

lemma mob_ticket_order_Some:
  obtains bo where "mob_ticket_order E q address nonce = Some bo" "bm_expiry (bo_message bo) = mt_now_build E div 1000 + 600"
  by (simp add: mob_ticket_order_def mob_buildOrder_def Let_def)

lemma sign_auth_result:
  assumes "snd (sign_auth E address opts) = Inr auth"
  shows "ap_from auth = address" "ap_to auth = or_else (ro_to opts) (mcf_markets_contract (mt_config E))"
    "ap_value auth = num_of_big (ro_value opts)"
    "ap_valid_before auth = mt_now_sign E div 1000 + or_else (ro_validSeconds opts) 3600"
    "ap_nonce auth = or_else (ro_nonce opts) (mob_randomBytes32 (mt_random E))"
  using assms by (auto simp: sign_auth_def io_call_def mob_signReceiveAuthorization_def Let_def split: sum.splits prod.splits)

lemma sign_auth_events: "fst (sign_auth E address opts) = [MobPrompt address (receive_auth_typed_data (mt_config E) (mt_now_sign E)
    address (or_else (ro_nonce opts) (mob_randomBytes32 (mt_random E))) opts)]"
  by (simp add: sign_auth_def io_call_def)

text \<open>The whole pipeline, once wallet and nonce are there: one prompt, and a post exactly when it is signed.\<close>

lemma mob_submit_events:
  assumes "mt_wallet E = Inr address" "mt_order_nonce E = Inr nonce" "mob_ticket_order E q address nonce = Some bo"
  defines "opts \<equiv> \<lparr> ro_to = None, ro_value = mob_ticket_cost E q, ro_validSeconds = None, ro_token = None, ro_nonce = Some (bo_digest bo) \<rparr>"
  shows "fst (mob_submit E q) = [EnsureWallet, LinkWallet address, ReadNonce] @ fst (sign_auth E address opts)
    @ (case snd (sign_auth E address opts) of Inl e \<Rightarrow> [] | Inr auth \<Rightarrow> [PostMobOrder (mob_body E q nonce bo auth)])"
  using assms(1-3) by (simp add: mob_submit_def io_bind_simps opts_def Let_def split: sum.split)

lemma mob_submit_stops:
  assumes "isl (mt_wallet E) \<or> isl (mt_order_nonce E)"
  shows "mob_posts (fst (mob_submit E q)) = []" "mob_prompts (fst (mob_submit E q)) = []"
  using assms by (auto simp: mob_submit_def io_bind_simps split: sum.splits)

section \<open>What the app's tickets guarantee\<close>

text \<open>
  The typed data of an order, read off the body that is posted: the body names the market by the identifier of the
  backend, the chain by its own, which is the argument, as are the maker and the exact \<open>maxCost\<close>.
\<close>

definition posted_order_data :: "mob_config \<Rightarrow> int \<Rightarrow> str \<Rightarrow> int \<Rightarrow> mob_order_body \<Rightarrow> typed_data" where
  "posted_order_data c chainMarketId maker maxCost b = \<lparr> td_domain = mob_ORDER_DOMAIN c, td_types = mob_ORDER_TYPES,
     td_primaryType = lit ''Order'',
     td_message =
       [(lit ''marketId'', TdInt chainMarketId), (lit ''side'', TdInt (if mb_side b = Yes then 0 else 1)),
        (lit ''price'', TdInt (mb_price_cents b)), (lit ''shares'', TdInt (mb_shares b)), (lit ''maxCost'', TdInt maxCost),
        (lit ''affiliatePostId'', TdInt (or_else (Option.bind (mb_affiliate_id b) parse_bigint) 0)),
        (lit ''expiry'', TdInt (mb_expiry b)), (lit ''nonce'', TdInt (mb_nonce b)), (lit ''maker'', TdText maker)] \<rparr>"

lemma ticket_order_data:
  assumes "mob_ticket_order E q address nonce = Some bo"
  shows "bo_digest bo = mt_hash E (posted_order_data (mt_config E) (mmk_chain_market_id (mq_market q)) address
    (mob_ticket_cost E q) (mob_body E q nonce bo auth))"
  using assms by (cases "mq_affiliateId q")
    (auto simp: mob_ticket_order_def mob_buildOrder_def Let_def posted_order_data_def mob_body_def)

text \<open>
  C2: In the app, too, one signature binds the payment to the order. A ticket prompts at most once and posts at most
  one order, which is the ticket's: its market, side, price and number of shares. It comes with an authorization over
  the \<open>maxCost\<close> of exactly these shares at this price, from the user's wallet to the markets contract, which outlives
  it and whose nonce is the digest of the order with exactly the side, price, shares, affiliate, expiry and nonce
  that are posted; and this authorization is what the user was prompted for.
\<close>

theorem mob_submit_binds_funding:
  assumes "mt_now_build E \<le> mt_now_sign E"
  shows "length (mob_prompts (fst (mob_submit E q))) \<le> 1 \<and> length (mob_posts (fst (mob_submit E q))) \<le> 1
    \<and> (\<forall>b \<in> set (mob_posts (fst (mob_submit E q))). \<exists>address.
        let cost = mob_maxCostUnits (mt_decimals E) (mb_shares b) (mb_price_cents b) in
          mt_wallet E = Inr address \<and> mt_order_nonce E = Inr (mb_nonce b)
        \<and> mb_market_id b = mmk_id (mq_market q) \<and> mb_side b = mq_side q
        \<and> mb_price_cents b = mq_price q \<and> mb_shares b = mq_shares q \<and> mb_max_cost b = num_of_big cost
        \<and> ap_nonce (mb_auth b) = mt_hash E (posted_order_data (mt_config E) (mmk_chain_market_id (mq_market q)) address cost b)
        \<and> ap_value (mb_auth b) = mb_max_cost b \<and> ap_from (mb_auth b) = address
        \<and> ap_to (mb_auth b) = mcf_markets_contract (mt_config E) \<and> mb_expiry b < ap_valid_before (mb_auth b)
        \<and> map td_message (mob_prompts (fst (mob_submit E q))) =
            [[(lit ''from'', TdText address), (lit ''to'', TdText (ap_to (mb_auth b))), (lit ''value'', TdText (show_int cost)),
              (lit ''validAfter'', TdInt 0), (lit ''validBefore'', TdInt (ap_valid_before (mb_auth b))),
              (lit ''nonce'', TdText (ap_nonce (mb_auth b)))]])"
proof (cases "isl (mt_wallet E) \<or> isl (mt_order_nonce E)")
  case True
  then show ?thesis using mob_submit_stops [of E q] by simp
next
  case False
  then obtain address nonce where w: "mt_wallet E = Inr address" "mt_order_nonce E = Inr nonce"
    by (cases "mt_wallet E"; cases "mt_order_nonce E") auto
  obtain bo where bo: "mob_ticket_order E q address nonce = Some bo" "bm_expiry (bo_message bo) = mt_now_build E div 1000 + 600"
    by (rule mob_ticket_order_Some)
  have "mt_now_build E div 1000 \<le> mt_now_sign E div 1000" using assms by (rule zdiv_mono1) simp
  then show ?thesis
    using mob_submit_events [OF w bo(1)] w bo(2) sign_auth_result [of E address] ticket_order_data [OF bo(1), symmetric]
    by (auto simp: sign_auth_events mob_body_def mob_ticket_cost_def receive_auth_typed_data_def Let_def split: sum.splits)
qed

text \<open>
  Both clients quote the same. On a market with the same prices, with the same side, amount and limit, the
  web card (its limit field open) and the app's card show the same price and the same number of shares.
\<close>

theorem tickets_agree:
  assumes "kc_side w = jc_side a" "kc_amount w = jc_amount a" "kc_limitInput w = jc_limitInput a" "kc_advanced w"
    and "mmk_yes_price_cents (jc_market a) = Some (mk_yes_price_cents (card_market P))"
    and "mmk_no_price_cents (jc_market a) = Some (mk_no_price_cents (card_market P))"
  shows "card_price P w = mob_card_price a \<and> card_shares P w = mob_card_shares a"
  using assms by (simp add: card_price_def mob_card_price_def card_shares_def mob_card_shares_def side_price_def
      web_sharesForSpend_def mob_sharesForSpend_def)

text \<open>
  A submission of the app's card is sane, as on the web, and shown as busy; but busy is only the stage of
  the form. Picking a side while a submission runs resets it, and the same user can submit a second order in
  parallel: it reads the same order nonce, and the post gets a key of its own.
\<close>

theorem mob_card_submits:
  assumes "mob_card_submit post aff s = (s', Some q)"
  shows "1 \<le> mq_price q \<and> mq_price q \<le> 99 \<and> 0 < mq_shares q \<and> status_tradable (mmk_status (mq_market q)) \<and> jc_side s = Some (mq_side q)
    \<and> snd (mob_card_submit post aff s') = None
    \<and> (jc_side s = Some sd \<and> sd' \<noteq> sd \<longrightarrow> (0 < mob_card_shares (mob_pick sd' s') \<longleftrightarrow>
         (\<exists>q'. snd (mob_card_submit post aff (mob_pick sd' s')) = Some q' \<and> mq_side q' = sd')))"
  using assms
  by (auto simp: mob_card_submit_def mob_card_canSubmit_def mob_card_tradable_def mob_card_busy_def mob_pick_def
      mob_card_price_def ticket_price_range split: option.splits if_splits)

text \<open>An open market at 40 and 62 cents, a card on it with a side, and a wallet that signs.\<close>

definition demo_profile :: mob_user_profile where
  "demo_profile = \<lparr> mup_id = lit ''u'', mup_username = lit ''ann'', mup_display_name = None, mup_bio = None,
     mup_avatar_url = None, mup_links = None, mup_is_private = False, mup_trades_visibility = None, mup_post_count = 0,
     mup_follower_count = 0, mup_following_count = 0, mup_is_following = None, mup_follow_requested = None,
     mup_follows_you = None, mup_is_me = None, mup_can_view = None, mup_can_view_trades = None \<rparr>"

definition demo_mob_market :: mob_market where
  "demo_mob_market = MobMarket (lit ''m'') 7 demo_profile None (lit ''Rain?'') [] None None None None OPEN None
     (Some 40) (Some 62) 0 None None [] None None None"

definition demo_card :: "side \<Rightarrow> mob_card" where
  "demo_card sd = (mob_card0 demo_mob_market True)\<lparr>jc_side := Some sd\<rparr>"

definition demo_mob_env :: mob_trade_env where
  "demo_mob_env = \<lparr> mt_config = load_mob_config (\<lambda>_. None), mt_decimals = 6, mt_hash = (\<lambda>_. lit ''0xd1''),
     mt_wallet = Inr (lit ''0xA''), mt_order_nonce = Inr 3, mt_sign = (\<lambda>_ _. Inr (lit ''0x'')), mt_now_build = 1000000,
     mt_now_sign = 1000500, mt_random = [], mt_post_order = (\<lambda>_. Inl NetworkError), mt_post_settle = Inr () \<rparr>"

lemma mob_sharesForSpend_web: "mob_sharesForSpend = web_sharesForSpend"
  by (intro ext) (simp add: web_sharesForSpend_def mob_sharesForSpend_def)

lemma demo_card_values:
  "mob_card_price (demo_card Yes) = 40" "mob_card_shares (demo_card Yes) = 25"
  "mob_card_price (demo_card No) = 62" "mob_card_shares (demo_card No) = 16"
  by (simp_all add: mob_card_price_def mob_card_shares_def demo_card_def mob_card0_def demo_mob_market_def ticket_price_market
      ticket_dollars_def demo_parse mob_sharesForSpend_web)

lemma demo_card_simps [simp]:
  "jc_side (demo_card sd) = Some sd" "jc_stage (demo_card sd) = None" "jc_amount (demo_card sd) = lit ''10''"
  "jc_limitInput (demo_card sd) = []" "jc_market (demo_card sd) = demo_mob_market"
  "mmk_status demo_mob_market = OPEN" "mmk_yes_price_cents demo_mob_market = Some 40"
  "mmk_no_price_cents demo_mob_market = Some 62"
  by (simp_all add: demo_card_def mob_card0_def demo_mob_market_def)

definition demo_ticket :: "side \<Rightarrow> mob_ticket" where
  "demo_ticket sd = \<lparr> mq_market = demo_mob_market, mq_side = sd, mq_price = mob_card_price (demo_card sd),
     mq_shares = mob_card_shares (demo_card sd), mq_affiliatePostId = None, mq_affiliateId = None \<rparr>"

lemma demo_card_submits:
  "mob_card_submit None None (demo_card Yes) = ((demo_card Yes)\<lparr>jc_error := None, jc_stage := Some SIGNING\<rparr>, Some (demo_ticket Yes))"
  by (simp add: mob_card_submit_def mob_card_canSubmit_def demo_card_values demo_ticket_def mob_card_tradable_def
      mob_card_busy_def)

theorem mob_card_submits_witness:
  "mq_price (demo_ticket Yes) = 40 \<and> 0 < mq_shares (demo_ticket Yes)
    \<and> (\<exists>q'. snd (mob_card_submit None None (mob_pick No ((demo_card Yes)\<lparr>jc_error := None, jc_stage := Some SIGNING\<rparr>))) = Some q'
        \<and> mq_side q' = No)"
proof -
  have side: "jc_side (demo_card Yes) = Some Yes" by (simp add: demo_card_def)
  have "mob_pick No ((demo_card Yes)\<lparr>jc_error := None, jc_stage := Some SIGNING\<rparr>) = demo_card No"
    by (simp add: mob_pick_def mob_card_tradable_def demo_card_def mob_card0_def demo_mob_market_def)
  then show ?thesis
    using mob_card_submits [OF demo_card_submits, of Yes No] side by (simp add: demo_card_values demo_ticket_def [of Yes])
qed

theorem tickets_agree_witness:
  "card_shares demo_props ((web_card0 [])\<lparr>kc_side := Some No, kc_advanced := True\<rparr>) = 16"
proof -
  let ?w = "(web_card0 [])\<lparr>kc_side := Some No, kc_advanced := True\<rparr>"
  have "card_shares demo_props ?w = mob_card_shares (demo_card No)"
    by (rule tickets_agree [THEN conjunct2]) (simp_all add: web_card0_def demo_props_def)
  then show ?thesis by (simp add: demo_card_values)
qed

theorem mob_submit_binds_funding_witness:
  "\<exists>b. mob_posts (fst (mob_submit demo_mob_env (demo_ticket Yes))) = [b] \<and> ap_nonce (mb_auth b) = lit ''0xd1''
     \<and> mb_shares b = 25 \<and> mb_price_cents b = 40 \<and> mb_expiry b = 1600 \<and> mb_expiry b < ap_valid_before (mb_auth b)"
proof -
  let ?bs = "mob_posts (fst (mob_submit demo_mob_env (demo_ticket Yes)))"
  have "mt_now_build demo_mob_env \<le> mt_now_sign demo_mob_env" by (simp add: demo_mob_env_def)
  note all = mob_submit_binds_funding [OF this, of "demo_ticket Yes"]
  have w: "mt_wallet demo_mob_env = Inr (lit ''0xA'')" "mt_order_nonce demo_mob_env = Inr 3" by (simp_all add: demo_mob_env_def)
  obtain bo where bo: "mob_ticket_order demo_mob_env (demo_ticket Yes) (lit ''0xA'') 3 = Some bo"
    "bm_expiry (bo_message bo) = mt_now_build demo_mob_env div 1000 + 600" by (rule mob_ticket_order_Some)
  obtain b where b: "?bs = [b]" "mb_expiry b = 1600"
    using mob_submit_events [OF w bo(1)] bo(2)
    by (auto simp: sign_auth_events mob_body_def sign_auth_def io_call_def mob_signReceiveAuthorization_def Let_def demo_mob_env_def
        split: sum.splits prod.splits)
  have "mt_hash demo_mob_env d = lit ''0xd1''" for d by (simp add: demo_mob_env_def)
  with all b(1) have "ap_nonce (mb_auth b) = lit ''0xd1'' \<and> mb_shares b = mq_shares (demo_ticket Yes)
      \<and> mb_price_cents b = mq_price (demo_ticket Yes) \<and> mb_expiry b < ap_valid_before (mb_auth b)"
    by (simp add: Let_def)
  with b show ?thesis by (intro exI [of _ b]) (simp add: demo_ticket_def demo_card_values)
qed

end
