(* ===== verification/Threads.thy ===== *)
theory Threads
  imports Trading MobileSocket
begin

text \<open>
  The conversation screens: \<open>web/app/(app)/messages/[id]/page.tsx\<close> and \<open>messages/page.tsx\<close>,
  \<open>mobile/app/conversation/[id].tsx\<close>. A thread is a record of the component's state; the frames of the
  channel, the pages of the history, the keystrokes and the outcomes of a send are functions of it. What a
  function also tells the outside (frames of the shared socket, the request of a send) is in its result.
\<close>

text \<open>JavaScript's \<open><\<close> on strings: by code unit.\<close>

fun str_less :: "str \<Rightarrow> str \<Rightarrow> bool" where
  "str_less _ [] = False"
| "str_less [] (d # ds) = True"
| "str_less (c # cs) (d # ds) \<longleftrightarrow> c < d \<or> (c = d \<and> str_less cs ds)"

section \<open>The thread of the web client\<close>

record web_thread =
  wt_text :: str
  wt_live :: "message list"
  wt_typingUsers :: "str list"
  wt_sending :: bool
  wt_attaching :: bool
  wt_typingTimer :: bool

definition web_thread0 :: web_thread where
  "web_thread0 = \<lparr> wt_text = [], wt_live = [], wt_typingUsers = [], wt_sending = False, wt_attaching = False,
     wt_typingTimer = False \<rparr>"

definition dm_frame :: "string \<Rightarrow> str \<Rightarrow> wire" where
  "dm_frame type conv = WOther (lit type) (lit ''dm:'' @ conv) None"

text \<open>
  What is shown: the history (or the seed, until a page is there) and the live messages, each id once, oldest
  first. The \<open>filter\<close> with a growing set is \<open>first_by\<close>; \<open>localeCompare\<close> orders texts by collation keys, which are
  a parameter \<open>ck\<close>, and \<open>sort\<close> is stable.
\<close>

fun first_by :: "('a \<Rightarrow> 'b) \<Rightarrow> 'b list \<Rightarrow> 'a list \<Rightarrow> 'a list" where
  "first_by f seen [] = []"
| "first_by f seen (x # xs) =
     (if f x \<in> set seen then first_by f seen xs else x # first_by f (f x # seen) xs)"

definition web_known :: "messages_page list option \<Rightarrow> message list option \<Rightarrow> message list \<Rightarrow> message list" where
  "web_known pages seeded live =
     (case pages of Some ps \<Rightarrow> concat (map pg_messages ps) | None \<Rightarrow> or_else seeded []) @ live"

definition web_messages :: "(str \<Rightarrow> 'k :: linorder) \<Rightarrow> messages_page list option \<Rightarrow> message list option \<Rightarrow> web_thread \<Rightarrow> message list" where
  "web_messages ck pages seeded s =
     sort_key (\<lambda>m. ck (ms_created_at m)) (first_by ms_id [] (web_known pages seeded (wt_live s)))"

text \<open>The callback of \<open>useChannel\<close>; \<open>me\<close> is the id of the signed-in user, if it is known.\<close>

definition web_thread_frame :: "str \<Rightarrow> str option \<Rightarrow> ws_frame \<Rightarrow> web_thread \<Rightarrow> web_thread \<times> wire list" where
  "web_thread_frame conv me frame s =
     (case frame of
        MessageNew _ msg \<Rightarrow>
          (s\<lparr>wt_live := wt_live s @ [msg], wt_typingUsers := os_del (wt_typingUsers s) (ul_id (ms_sender msg))\<rparr>,
           [dm_frame ''read'' conv])
      | TypingStart _ u \<Rightarrow> (if Some u \<noteq> me then s\<lparr>wt_typingUsers := os_add (wt_typingUsers s) u\<rparr> else s, [])
      | TypingStop _ u \<Rightarrow> (s\<lparr>wt_typingUsers := os_del (wt_typingUsers s) u\<rparr>, [])
      | _ \<Rightarrow> (s, []))"

definition web_onType :: "str \<Rightarrow> str \<Rightarrow> web_thread \<Rightarrow> web_thread \<times> wire list" where
  "web_onType conv v s = (s\<lparr>wt_text := v, wt_typingTimer := True\<rparr>, [dm_frame ''typing.start'' conv])"

definition web_typing_timer :: "str \<Rightarrow> web_thread \<Rightarrow> web_thread \<times> wire list" where
  "web_typing_timer conv s = (s\<lparr>wt_typingTimer := False\<rparr>, [dm_frame ''typing.stop'' conv])"

text \<open>
  \<open>send\<close> up to its \<open>await\<close>, with the text of the render it closes over; then its two ends. The request is the
  body and the medium.
\<close>

definition web_thread_send :: "str \<Rightarrow> str \<Rightarrow> str option \<Rightarrow> web_thread \<Rightarrow> web_thread \<times> wire list \<times> (str option \<times> str option) option" where
  "web_thread_send conv closed_text mediaId s =
     (let body = js_trim closed_text in
      if body = [] \<and> \<not> truthy mediaId then (s, [], None)
      else (s\<lparr>wt_sending := True, wt_text := []\<rparr>, [dm_frame ''typing.stop'' conv],
            Some (non_empty (Some body), mediaId)))"

definition web_thread_sent :: "message \<Rightarrow> web_thread \<Rightarrow> web_thread" where
  "web_thread_sent msg s = s\<lparr>wt_live := wt_live s @ [msg], wt_sending := False\<rparr>"

definition web_thread_send_failed :: "str \<Rightarrow> js_error \<Rightarrow> web_thread \<Rightarrow> web_thread \<times> str \<times> str" where
  "web_thread_send_failed closed_text err s =
     (s\<lparr>wt_text := js_trim closed_text, wt_sending := False\<rparr>, lit ''Message not sent'', web_errorMessage err)"

definition web_attach_start :: "web_thread \<Rightarrow> web_thread" where
  "web_attach_start s = s\<lparr>wt_attaching := True\<rparr>"

definition web_attach_end :: "web_thread \<Rightarrow> web_thread" where
  "web_attach_end s = s\<lparr>wt_attaching := False\<rparr>"

definition web_react_message :: "str option \<Rightarrow> message \<Rightarrow> str \<Rightarrow> http_method \<times> str \<times> str" where
  "web_react_message me m emoji =
     (let mine = list_ex (\<lambda>r. mr_emoji r = emoji \<and> Some (mr_user_id r) = me) (ms_reactions m)
      in (if mine then DELETE else PUT, ms_id m, emoji))"

text \<open>The line under the last own message.\<close>

definition web_seen :: "str option \<Rightarrow> str option \<Rightarrow> message list \<Rightarrow> bool" where
  "web_seen me peerReadAt ms =
     (case find (\<lambda>m. Some (ul_id (ms_sender m)) = me) (rev ms) of
        None \<Rightarrow> False
      | Some m \<Rightarrow> (case non_empty peerReadAt of None \<Rightarrow> False | Some seen_at \<Rightarrow> \<not> str_less seen_at (ms_created_at m)))"

text \<open>A message starts a group when it is the first or its predecessor has another sender.\<close>

definition web_gap :: "message list \<Rightarrow> nat \<Rightarrow> bool" where
  "web_gap ms i \<longleftrightarrow> i = 0 \<or> ul_id (ms_sender (ms ! (i - 1))) \<noteq> ul_id (ms_sender (ms ! i))"

text \<open>The conversation list: the thread seeds it writes, and what a row shows.\<close>

definition conversation_seeds :: "conversation list \<Rightarrow> (str, message list) omap \<Rightarrow> (str, message list) omap" where
  "conversation_seeds cs m = fold (\<lambda>c m. om_set m (cv_id c) (cv_recent_messages c)) cs m"

definition conversation_peer :: "str option \<Rightarrow> conversation \<Rightarrow> user_lite option" where
  "conversation_peer me c =
     (case filter (\<lambda>m. Some (ul_id m) \<noteq> me) (cv_members c) of
        p # _ \<Rightarrow> Some p
      | [] \<Rightarrow> (case cv_members c of p # _ \<Rightarrow> Some p | [] \<Rightarrow> None))"

definition conversation_preview :: "conversation \<Rightarrow> str" where
  "conversation_preview c =
     (if cv_recent_messages c = [] then lit ''Say hi''
      else let m = last (cv_recent_messages c)
           in or_else (ms_body m) (if ms_media m \<noteq> None then lit ''Sent an attachment'' else []))"

section \<open>The thread of the app\<close>

record mob_thread =
  mh_messages :: "mob_message list"
  mh_loading :: bool
  mh_cursor :: "str option"
  mh_hasMore :: bool
  mh_text :: str
  mh_sending :: bool
  mh_typers :: "mob_user_profile list"
  mh_reactFor :: "str option"
  mh_typingTimer :: bool
  mh_lastTypingSent :: int
  mh_otherLastRead :: "str option"

definition newest_first :: "mob_message \<Rightarrow> mob_message \<Rightarrow> int" where
  "newest_first a b = (if str_less (mms_created_at a) (mms_created_at b) then 1 else - 1)"

definition other_member :: "str option \<Rightarrow> mob_conversation \<Rightarrow> mob_conversation_member option" where
  "other_member me c = find (\<lambda>m. Some (mup_id m) \<noteq> me) (mcv_members c)"

text \<open>The first render; \<open>engine_sort\<close> is the engine's \<open>sort\<close> (the comparator is not consistent on equal times).\<close>

definition mob_thread0 ::
  "((mob_message \<Rightarrow> mob_message \<Rightarrow> int) \<Rightarrow> mob_message list \<Rightarrow> mob_message list) \<Rightarrow> str option \<Rightarrow> mob_conversation option \<Rightarrow> mob_thread" where
  "mob_thread0 engine_sort me seed =
     \<lparr> mh_messages = engine_sort newest_first (case seed of None \<Rightarrow> [] | Some c \<Rightarrow> mcv_recent_messages c),
       mh_loading = (seed = None), mh_cursor = None, mh_hasMore = True, mh_text = [], mh_sending = False, mh_typers = [],
       mh_reactFor = None, mh_typingTimer = False, mh_lastTypingSent = 0,
       mh_otherLastRead = Option.bind (Option.bind seed (other_member me)) mcm_last_read_at \<rparr>"

definition mob_load_ok :: "mob_message list \<Rightarrow> str option \<Rightarrow> mob_thread \<Rightarrow> mob_thread" where
  "mob_load_ok items next1 s = s\<lparr>mh_messages := items, mh_cursor := next1, mh_hasMore := truthy next1, mh_loading := False\<rparr>"

definition mob_load_failed :: "mob_thread \<Rightarrow> mob_thread" where
  "mob_load_failed s = s\<lparr>mh_loading := False\<rparr>"

text \<open>\<open>loadOlder\<close>: the cursor it asks with, and the page it appends.\<close>

definition mob_older_request :: "mob_thread \<Rightarrow> str option" where
  "mob_older_request s = (if mh_hasMore s then non_empty (mh_cursor s) else None)"

definition mob_older_ok :: "mob_message list \<Rightarrow> str option \<Rightarrow> mob_thread \<Rightarrow> mob_thread" where
  "mob_older_ok items next1 s = s\<lparr>mh_messages := mh_messages s @ items, mh_cursor := next1, mh_hasMore := truthy next1\<rparr>"

text \<open>The callback of \<open>useDmChannel\<close>; its result tells whether it marks the conversation read.\<close>

definition mob_thread_event :: "str option \<Rightarrow> ws_event \<Rightarrow> mob_thread \<Rightarrow> mob_thread \<times> bool" where
  "mob_thread_event me e s =
     (case e of
        EvMessageNew _ msg \<Rightarrow>
          (s\<lparr>mh_messages := (if mms_id msg \<in> mms_id ` set (mh_messages s) then mh_messages s else msg # mh_messages s),
             mh_typers := filter (\<lambda>u. mup_id u \<noteq> mup_id (mms_sender msg)) (mh_typers s)\<rparr>,
           Some (mup_id (mms_sender msg)) \<noteq> me)
      | EvTypingStart _ u \<Rightarrow>
          (if Some (mup_id u) \<noteq> me
           then s\<lparr>mh_typers := (if mup_id u \<in> mup_id ` set (mh_typers s) then mh_typers s else mh_typers s @ [u])\<rparr> else s, False)
      | EvTypingStop _ u \<Rightarrow> (s\<lparr>mh_typers := filter (\<lambda>v. mup_id v \<noteq> mup_id u) (mh_typers s)\<rparr>, False)
      | EvRead _ u seen_at \<Rightarrow> (if Some u \<noteq> me then s\<lparr>mh_otherLastRead := Some seen_at\<rparr> else s, False)
      | EvReaction _ mid rs \<Rightarrow>
          (s\<lparr>mh_messages := map (\<lambda>m. if mms_id m = mid then m\<lparr>mms_reactions := Some rs\<rparr> else m) (mh_messages s)\<rparr>, False)
      | _ \<Rightarrow> (s, False))"

text \<open>\<open>onType\<close> and the timer it sets, with the typing frames they send.\<close>

definition mob_onType :: "int \<Rightarrow> str \<Rightarrow> mob_thread \<Rightarrow> mob_thread \<times> bool list" where
  "mob_onType now v s =
     (let due = now - mh_lastTypingSent s > 2500
      in (s\<lparr>mh_text := v, mh_lastTypingSent := (if due then now else mh_lastTypingSent s), mh_typingTimer := True\<rparr>,
          if due then [True] else []))"

definition mob_typing_timer :: "mob_thread \<Rightarrow> mob_thread \<times> bool list" where
  "mob_typing_timer s = (s\<lparr>mh_typingTimer := False\<rparr>, [False])"

text \<open>
  The message shown until the backend answers: its id is the clock, its sender the profile without its counts.
\<close>

definition optimistic_message :: "(int \<Rightarrow> str) \<Rightarrow> str \<Rightarrow> mob_user_profile \<Rightarrow> int \<Rightarrow> str \<Rightarrow> mob_message" where
  "optimistic_message isoString conv me now body =
     \<lparr> mms_id = lit ''tmp-'' @ show_int now, mms_conversation_id = conv,
       mms_sender = \<lparr> mup_id = mup_id me, mup_username = mup_username me, mup_display_name = mup_display_name me, mup_bio = None,
         mup_avatar_url = mup_avatar_url me, mup_links = None, mup_is_private = False, mup_trades_visibility = None,
         mup_post_count = 0, mup_follower_count = 0, mup_following_count = 0, mup_is_following = None,
         mup_follow_requested = None, mup_follows_you = None, mup_is_me = None, mup_can_view = None, mup_can_view_trades = None \<rparr>,
       mms_body = non_empty (Some body), mms_media = None, mms_reply_to_id = None, mms_post_id = None, mms_shared_post = None,
       mms_reactions = None, mms_my_reaction = None, mms_created_at = isoString now, mms_read_by = None, mms_pending = Some True \<rparr>"

text \<open>\<open>send\<close>: the state, the request (body, medium) with the temporary id and the trimmed text its ends close over.\<close>

record sending =
  sd_body :: str
  sd_mediaId :: "str option"
  sd_tmpId :: str

definition mob_thread_send ::
  "(int \<Rightarrow> str) \<Rightarrow> str \<Rightarrow> mob_user_profile option \<Rightarrow> int \<Rightarrow> str \<Rightarrow> str option \<Rightarrow> mob_thread \<Rightarrow> mob_thread \<times> bool list \<times> sending option" where
  "mob_thread_send isoString conv me now closed_text mediaId s =
     (let body = js_trim closed_text in
      if body = [] \<and> \<not> truthy mediaId then (s, [], None)
      else (case me of
              None \<Rightarrow> (s\<lparr>mh_sending := True\<rparr>, [False], None)
            | Some u \<Rightarrow>
                (let opt = optimistic_message isoString conv u now body
                 in (s\<lparr>mh_sending := True,
                       mh_messages := (if truthy mediaId then mh_messages s else opt # mh_messages s), mh_text := []\<rparr>,
                     [False], Some \<lparr> sd_body = body, sd_mediaId = mediaId, sd_tmpId = mms_id opt \<rparr>))))"

definition mob_thread_sent :: "sending \<Rightarrow> mob_message \<Rightarrow> mob_thread \<Rightarrow> mob_thread" where
  "mob_thread_sent q res s =
     s\<lparr>mh_messages := res # filter (\<lambda>m. mms_id m \<noteq> sd_tmpId q) (mh_messages s), mh_sending := False\<rparr>"

definition mob_thread_send_failed :: "sending \<Rightarrow> mob_thread \<Rightarrow> mob_thread" where
  "mob_thread_send_failed q s =
     s\<lparr>mh_messages := filter (\<lambda>m. mms_id m \<noteq> sd_tmpId q) (mh_messages s), mh_text := sd_body q, mh_sending := False\<rparr>"

definition mob_attach_start :: "mob_thread \<Rightarrow> mob_thread" where
  "mob_attach_start s = s\<lparr>mh_sending := True\<rparr>"

definition mob_attach_end :: "mob_thread \<Rightarrow> mob_thread" where
  "mob_attach_end s = s\<lparr>mh_sending := False\<rparr>"

definition mob_react :: "str \<Rightarrow> str \<Rightarrow> mob_thread \<Rightarrow> mob_thread \<times> str \<times> str" where
  "mob_react messageId emoji s = (s\<lparr>mh_reactFor := None\<rparr>, messageId, emoji)"

definition mob_longPress :: "str \<Rightarrow> mob_thread \<Rightarrow> mob_thread" where
  "mob_longPress item s = s\<lparr>mh_reactFor := (if mh_reactFor s = Some item then None else Some item)\<rparr>"

definition mob_show_loading :: "mob_thread \<Rightarrow> bool" where
  "mob_show_loading s \<longleftrightarrow> mh_loading s \<and> mh_messages s = []"

definition seenByOther :: "str option \<Rightarrow> mob_thread \<Rightarrow> bool" where
  "seenByOther me s =
     (case find (\<lambda>m. Some (mup_id (mms_sender m)) = me) (mh_messages s) of
        None \<Rightarrow> False
      | Some m \<Rightarrow> (case non_empty (mh_otherLastRead s) of None \<Rightarrow> False | Some seen_at \<Rightarrow> \<not> str_less seen_at (mms_created_at m)))"

text \<open>The reaction counts under a bubble: the entries with a positive count, in order.\<close>

definition bubble_reactions :: "mob_message \<Rightarrow> (str \<times> int) list" where
  "bubble_reactions m = filter (\<lambda>(e, n). 0 < n) (or_else (mms_reactions m) [])"

datatype bubble_card = SharedPostCard mob_shared_post | PostUnavailable | NoCard

definition bubble_card_of :: "mob_message \<Rightarrow> bubble_card" where
  "bubble_card_of m = (case mms_shared_post m of Some sp \<Rightarrow> SharedPostCard sp
     | None \<Rightarrow> if truthy (mms_post_id m) then PostUnavailable else NoCard)"

section \<open>Lemmas on the web thread\<close>

lemma first_by_mem:
  "m \<in> set (first_by f seen xs) \<longleftrightarrow> f m \<notin> set seen \<and> map_of (map (\<lambda>x. (f x, x)) xs) (f m) = Some m"
  by (induction xs arbitrary: seen) auto

lemma first_by_distinct: "distinct (map f (first_by f seen xs))"
proof (induction xs arbitrary: seen)
  case (Cons x xs)
  have "f x \<notin> f ` set (first_by f (f x # seen) xs)" by (auto simp: first_by_mem)
  with Cons show ?case by simp
qed simp

text \<open>The specification of a thread: a log that keeps the first message it is given under an id.\<close>

definition log_deliver :: "message \<Rightarrow> (str \<Rightarrow> message option) \<Rightarrow> str \<Rightarrow> message option" where
  "log_deliver m L = (if L (ms_id m) = None then L(ms_id m \<mapsto> m) else L)"

definition thread_log :: "messages_page list option \<Rightarrow> message list option \<Rightarrow> web_thread \<Rightarrow> str \<Rightarrow> message option" where
  "thread_log pages seeded s = map_of (map (\<lambda>m. (ms_id m, m)) (web_known pages seeded (wt_live s)))"

datatype web_thread_action = GotFrame ws_frame | Typed str | TypingTimerFires | SendTapped "str option" | SendOk message
  | SendFailed str js_error | AttachStarts | AttachEnds

fun web_thread_act :: "str \<Rightarrow> str option \<Rightarrow> web_thread_action \<Rightarrow> web_thread \<Rightarrow> web_thread" where
  "web_thread_act conv me (GotFrame f) s = fst (web_thread_frame conv me f s)"
| "web_thread_act conv me (Typed v) s = fst (web_onType conv v s)"
| "web_thread_act conv me TypingTimerFires s = fst (web_typing_timer conv s)"
| "web_thread_act conv me (SendTapped mid) s = fst (web_thread_send conv (wt_text s) mid s)"
| "web_thread_act conv me (SendOk msg) s = web_thread_sent msg s"
| "web_thread_act conv me (SendFailed t e) s = fst (web_thread_send_failed t e s)"
| "web_thread_act conv me AttachStarts s = web_attach_start s"
| "web_thread_act conv me AttachEnds s = web_attach_end s"

definition delivered :: "web_thread_action \<Rightarrow> message list" where
  "delivered a = (case a of GotFrame (MessageNew _ m) \<Rightarrow> [m] | SendOk m \<Rightarrow> [m] | _ \<Rightarrow> [])"

lemma live_grows: "wt_live (web_thread_act conv me a s) = wt_live s @ delivered a"
proof (cases a)
  case (GotFrame f)
  then show ?thesis by (cases f) (simp_all add: web_thread_frame_def delivered_def)
qed (simp_all add: delivered_def web_onType_def web_typing_timer_def web_thread_send_def Let_def web_thread_sent_def
      web_thread_send_failed_def web_attach_start_def web_attach_end_def)

lemma map_of_snoc: "map_of (xs @ [(k, v)]) = (if map_of xs k = None then (map_of xs)(k \<mapsto> v) else map_of xs)"
  by (rule ext) (auto simp: map_add_def split: option.split)

lemma thread_log_act:
  "thread_log pages seeded (web_thread_act conv me a s) = fold log_deliver (delivered a) (thread_log pages seeded s)"
proof (cases "delivered a")
  case Nil
  then show ?thesis by (simp add: thread_log_def web_known_def live_grows)
next
  case (Cons m ms)
  then have "delivered a = [m]" by (auto simp: delivered_def split: web_thread_action.splits ws_frame.splits)
  then show ?thesis
    by (simp add: thread_log_def web_known_def live_grows log_deliver_def map_of_snoc flip: append_assoc del: map_of_append append_assoc)
qed

lemma thread_log_run:
  "thread_log pages seeded (foldl (\<lambda>s a. web_thread_act conv me a s) s as)
    = fold log_deliver (concat (map delivered as)) (thread_log pages seeded s)"
  by (induction as arbitrary: s) (simp_all add: thread_log_act)

text \<open>
  C15: The web thread refines a log with one entry per message. Whatever is typed, sent, pushed and answered,
  in whatever order (a message of one's own arrives as a frame and as the answer), the shown list is the log
  that keeps the first copy of every message, oldest first: each id once, in order of time, nothing
  lost and nothing invented, and later copies change nothing.
\<close>

theorem web_thread_refines_log:
  fixes ck :: "str \<Rightarrow> 'k :: linorder"
  shows "let shown = web_messages ck pages seeded (foldl (\<lambda>s a. web_thread_act conv me a s) s as);
             log = fold log_deliver (concat (map delivered as)) (thread_log pages seeded s)
    in distinct (map ms_id shown) \<and> sorted (map (\<lambda>m. ck (ms_created_at m)) shown)
      \<and> (\<forall>m. m \<in> set shown \<longleftrightarrow> log (ms_id m) = Some m)"
proof -
  let ?t = "foldl (\<lambda>s a. web_thread_act conv me a s) s as"
  let ?first = "first_by ms_id [] (web_known pages seeded (wt_live ?t))"
  have "distinct (map ms_id ?first)" by (rule first_by_distinct)
  then have "distinct (map ms_id (web_messages ck pages seeded ?t))" by (simp add: web_messages_def distinct_map)
  moreover have "sorted (map (\<lambda>m. ck (ms_created_at m)) (web_messages ck pages seeded ?t))"
    by (simp add: web_messages_def)
  moreover have "m \<in> set (web_messages ck pages seeded ?t)
      \<longleftrightarrow> fold log_deliver (concat (map delivered as)) (thread_log pages seeded s) (ms_id m) = Some m" for m
    unfolding thread_log_run [of pages seeded conv me s as, symmetric]
    by (simp add: web_messages_def first_by_mem thread_log_def)
  ultimately show ?thesis by (simp add: Let_def)
qed

section \<open>Lemmas on the app's thread\<close>

text \<open>What an event does to the messages alone, and a run of events.\<close>

definition event_messages :: "ws_event \<Rightarrow> mob_message list \<Rightarrow> mob_message list" where
  "event_messages e ms =
     (case e of
        EvMessageNew _ msg \<Rightarrow> if mms_id msg \<in> mms_id ` set ms then ms else msg # ms
      | EvReaction _ mid rs \<Rightarrow> map (\<lambda>m. if mms_id m = mid then m\<lparr>mms_reactions := Some rs\<rparr> else m) ms
      | _ \<Rightarrow> ms)"

abbreviation mob_thread_events :: "str option \<Rightarrow> ws_event list \<Rightarrow> mob_thread \<Rightarrow> mob_thread" where
  "mob_thread_events me es s \<equiv> foldl (\<lambda>s e. fst (mob_thread_event me e s)) s es"

lemma event_messages: "mh_messages (fst (mob_thread_event me e s)) = event_messages e (mh_messages s)"
  by (cases e) (simp_all add: mob_thread_event_def event_messages_def)

lemma events_messages: "mh_messages (mob_thread_events me es s) = fold event_messages es (mh_messages s)"
  by (induction es arbitrary: s) (simp_all add: event_messages)

definition new_ids :: "ws_event list \<Rightarrow> str set" where
  "new_ids es = {mms_id m | c m. EvMessageNew c m \<in> set es}"

definition without :: "str \<Rightarrow> mob_message list \<Rightarrow> mob_message list" where
  "without t ms = filter (\<lambda>m. mms_id m \<noteq> t) ms"

lemma without_ids: "mms_id ` set (without t ms) = mms_id ` set ms - {t}"
  by (auto simp: without_def)

lemma without_id [simp]: "t \<notin> mms_id ` set ms \<Longrightarrow> without t ms = ms"
  by (auto simp: without_def intro: filter_True)

lemma without_event:
  assumes "t \<notin> new_ids [e]"
  shows "without t (event_messages e ms) = event_messages e (without t ms)"
proof (cases e)
  case (EvMessageNew c m)
  then have t: "mms_id m \<noteq> t" using assms by (auto simp: new_ids_def)
  then have "mms_id m \<in> mms_id ` set (without t ms) \<longleftrightarrow> mms_id m \<in> mms_id ` set ms" by (simp only: without_ids) blast
  then show ?thesis using EvMessageNew t by (simp add: event_messages_def) (simp add: without_def)
next
  case (EvReaction c mid rs)
  have "without t (map (\<lambda>m. if mms_id m = mid then m\<lparr>mms_reactions := Some rs\<rparr> else m) ms)
      = map (\<lambda>m. if mms_id m = mid then m\<lparr>mms_reactions := Some rs\<rparr> else m) (without t ms)"
    by (induction ms) (auto simp: without_def)
  with EvReaction show ?thesis by (simp add: event_messages_def)
qed (simp_all add: event_messages_def)

lemma without_events: "t \<notin> new_ids es \<Longrightarrow> without t (fold event_messages es ms) = fold event_messages es (without t ms)"
proof (induction es arbitrary: ms)
  case (Cons e es)
  then have "t \<notin> new_ids [e]" "t \<notin> new_ids es" by (auto simp: new_ids_def)
  with Cons.IH show ?case by (simp add: without_event)
qed simp

lemma send_Some:
  assumes "mob_thread_send isoString conv me now txt mediaId s = (s1, ws, Some q)"
  obtains u where "me = Some u" "sd_body q = js_trim txt" "sd_tmpId q = lit ''tmp-'' @ show_int now" "sd_mediaId q = mediaId"
    "mh_messages s1 = (if truthy mediaId then mh_messages s else optimistic_message isoString conv u now (js_trim txt) # mh_messages s)"
    "mh_text s1 = []" "mh_sending s1"
  using assms by (auto simp: mob_thread_send_def Let_def optimistic_message_def split: if_splits option.splits)

lemma without_optimistic:
  assumes "mob_thread_send isoString conv me now txt mediaId s = (s1, ws, Some q)" "sd_tmpId q \<notin> mms_id ` set (mh_messages s)"
  shows "without (sd_tmpId q) (mh_messages s1) = mh_messages s"
  using assms(1)
proof (rule send_Some)
  fix u assume u: "sd_tmpId q = lit ''tmp-'' @ show_int now"
    "mh_messages s1 = (if truthy mediaId then mh_messages s else optimistic_message isoString conv u now (js_trim txt) # mh_messages s)"
  then have "without (sd_tmpId q) (mh_messages s1) = without (sd_tmpId q) (mh_messages s)"
    by (simp add: without_def optimistic_message_def)
  with assms(2) show ?thesis by simp
qed

text \<open>
  A send of the app leaves no trace but its message. Whatever arrives while it is under way, a refused send
  ends with exactly the messages there would be without it and its text back in the field, and an
  accepted one with its message in front of those. But a message that was pushed before the
  answer came is not recognized: the list then has two entries with its id, exactly in that case.
\<close>

theorem mob_send_leaves_no_trace:
  assumes "mob_thread_send isoString conv me now txt mediaId s = (s1, ws, Some q)"
    and "sd_tmpId q \<notin> mms_id ` set (mh_messages s) \<union> new_ids es"
    and "distinct (map mms_id (mh_messages (mob_thread_events u es s)))"
  shows "mh_messages (mob_thread_send_failed q (mob_thread_events u es s1)) = mh_messages (mob_thread_events u es s)
    \<and> mh_text (mob_thread_send_failed q (mob_thread_events u es s1)) = js_trim txt
    \<and> mh_messages (mob_thread_sent q res (mob_thread_events u es s1)) = res # mh_messages (mob_thread_events u es s)
    \<and> (distinct (map mms_id (mh_messages (mob_thread_sent q res (mob_thread_events u es s1))))
        \<longleftrightarrow> mms_id res \<notin> mms_id ` set (mh_messages (mob_thread_events u es s)))"
proof -
  have "without (sd_tmpId q) (mh_messages (mob_thread_events u es s1)) = mh_messages (mob_thread_events u es s)"
    using without_optimistic [OF assms(1)] assms(2) by (simp add: events_messages without_events)
  moreover have "sd_body q = js_trim txt" using assms(1) by (rule send_Some)
  ultimately show ?thesis
    using assms(3) by (simp add: mob_thread_send_failed_def mob_thread_sent_def without_def)
qed

section \<open>Typing\<close>

text \<open>The times at which a run of keystrokes tells the peer that typing has begun.\<close>

fun typing_starts :: "(int \<times> str) list \<Rightarrow> mob_thread \<Rightarrow> int list" where
  "typing_starts [] s = []"
| "typing_starts ((now, v) # ks) s =
     (let (t, ws) = mob_onType now v s in map (\<lambda>_. now) ws @ typing_starts ks t)"

lemma typing_starts_spaced:
  "successively (\<lambda>a b. 2500 < b - a) (mh_lastTypingSent s # typing_starts ks s)"
  by (induction ks s rule: typing_starts.induct) (auto simp: mob_onType_def Let_def)

lemma spaced_span:
  assumes "successively (\<lambda>a b. 2500 < b - a) (x # xs)" "xs \<noteq> []"
  shows "2500 * int (length xs) < last xs - (x :: int)"
  using assms
proof (induction xs arbitrary: x)
  case (Cons y ys)
  then have step: "2500 < y - x" "successively (\<lambda>a b. 2500 < b - a) (y # ys)" by simp_all
  show ?case
  proof (cases "ys = []")
    case False
    with Cons.IH [OF step(2)] step(1) show ?thesis by simp
  qed (use step in simp)
qed simp

lemma typing_starts_times: "set (typing_starts ks s) \<subseteq> fst ` set ks"
proof (induction ks arbitrary: s)
  case (Cons k ks)
  obtain now v where k: "k = (now, v)" by (cases k)
  show ?case using Cons.IH unfolding k by (fastforce simp: mob_onType_def Let_def)
qed simp

text \<open>
  The app throttles its typing frames. Over any run of keystrokes, two starts are more than 2.5 seconds
  apart, so keystrokes within a window of length \<open>T\<close> milliseconds send at most \<open>T / 2500 + 1\<close> of them.
\<close>

theorem typing_throttled:
  assumes "\<forall>k \<in> set ks. a \<le> fst k \<and> fst k \<le> a + T"
  shows "successively (\<lambda>x y. 2500 < y - x) (typing_starts ks s)
    \<and> (2500 * (int (length (typing_starts ks s)) - 1) \<le> T \<or> typing_starts ks s = [])"
proof (cases "typing_starts ks s")
  case (Cons x xs)
  have sp: "successively (\<lambda>a b. 2500 < b - a) (x # xs)"
    using typing_starts_spaced [of s ks] unfolding Cons by simp
  have "x \<in> fst ` set ks" using typing_starts_times [of ks s] unfolding Cons by auto
  moreover have "last (x # xs) \<in> fst ` set ks"
    using typing_starts_times [of ks s] last_in_set [of "x # xs"] unfolding Cons by blast
  ultimately have "a \<le> x" "last (x # xs) \<le> a + T" using assms by auto
  then have "2500 * int (length xs) \<le> T" using spaced_span [OF sp] by (cases "xs = []") auto
  with sp Cons show ?thesis by simp
qed simp

text \<open>Who types: on both clients each peer once, and never the user.\<close>

definition web_typing_ok :: "str \<Rightarrow> web_thread \<Rightarrow> bool" where
  "web_typing_ok me s \<longleftrightarrow> distinct (wt_typingUsers s) \<and> me \<notin> set (wt_typingUsers s)"

definition mob_typing_ok :: "str \<Rightarrow> mob_thread \<Rightarrow> bool" where
  "mob_typing_ok me s \<longleftrightarrow> distinct (map mup_id (mh_typers s)) \<and> me \<notin> mup_id ` set (mh_typers s)"

lemma web_typing_act: "web_typing_ok me s \<Longrightarrow> web_typing_ok me (web_thread_act conv (Some me) a s)"
proof (cases a)
  case (GotFrame f)
  then show "web_typing_ok me s \<Longrightarrow> ?thesis"
    by (cases f) (auto simp: web_thread_frame_def web_typing_ok_def)
qed (auto simp: web_typing_ok_def web_onType_def web_typing_timer_def web_thread_send_def Let_def web_thread_sent_def
      web_thread_send_failed_def web_attach_start_def web_attach_end_def)

lemma distinct_map_filter_id: "distinct (map f xs) \<Longrightarrow> distinct (map f (filter P xs))"
  by (simp add: distinct_map inj_on_def)

lemma mob_typing_event: "mob_typing_ok me s \<Longrightarrow> mob_typing_ok me (fst (mob_thread_event (Some me) e s))"
  by (cases e) (auto simp: mob_thread_event_def mob_typing_ok_def distinct_map_filter_id)

lemma mob_typing_events: "mob_typing_ok me s \<Longrightarrow> mob_typing_ok me (mob_thread_events (Some me) es s)"
  by (induction es arbitrary: s) (simp_all add: mob_typing_event)

lemma web_typing_acts: "web_typing_ok me s \<Longrightarrow> web_typing_ok me (foldl (\<lambda>s a. web_thread_act conv (Some me) a s) s as)"
  by (induction as arbitrary: s) (simp_all add: web_typing_act)

text \<open>
  The typing bubbles are right on both clients: after any run of frames and user actions every peer who types is
  listed once, the user is never listed, and a message takes its sender off the list.
\<close>

theorem typing_bubbles_sane:
  "distinct (wt_typingUsers (foldl (\<lambda>s a. web_thread_act conv (Some me) a s) web_thread0 as))
   \<and> me \<notin> set (wt_typingUsers (foldl (\<lambda>s a. web_thread_act conv (Some me) a s) web_thread0 as))
   \<and> distinct (map mup_id (mh_typers (mob_thread_events (Some me) es (mob_thread0 srt (Some me) seed))))
   \<and> me \<notin> mup_id ` set (mh_typers (mob_thread_events (Some me) es (mob_thread0 srt (Some me) seed)))
   \<and> ul_id (ms_sender w) \<notin> set (wt_typingUsers (fst (web_thread_frame conv m (MessageNew ch w) s)))
   \<and> mup_id (mms_sender n) \<notin> mup_id ` set (mh_typers (fst (mob_thread_event m (EvMessageNew ch n) t)))"
proof -
  have "web_typing_ok me web_thread0" by (simp add: web_typing_ok_def web_thread0_def)
  from web_typing_acts [OF this] have "web_typing_ok me (foldl (\<lambda>s a. web_thread_act conv (Some me) a s) web_thread0 as)" .
  moreover have "mob_typing_ok me (mob_thread0 srt (Some me) seed)" by (simp add: mob_typing_ok_def mob_thread0_def)
  from mob_typing_events [OF this] have "mob_typing_ok me (mob_thread_events (Some me) es (mob_thread0 srt (Some me) seed))" .
  ultimately show ?thesis
    by (auto simp: web_typing_ok_def mob_typing_ok_def web_thread_frame_def mob_thread_event_def)
qed

section \<open>Read receipts\<close>

lemma find_all2:
  "list_all2 R xs ys \<Longrightarrow> (\<And>x y. R x y \<Longrightarrow> P x = Q y) \<Longrightarrow> rel_option R (find P xs) (find Q ys)"
  by (induction rule: list_all2_induct) auto

text \<open>
  Both clients agree on \<open>Seen\<close>. When the app holds the web client's messages, newest first (the same senders and
  times), and both have the same read marker of the peer, they show the receipt in the same cases.
\<close>

theorem seen_agrees:
  assumes "list_all2 (\<lambda>w m. ul_id (ms_sender w) = mup_id (mms_sender m) \<and> ms_created_at w = mms_created_at m) (rev ws) (mh_messages s)"
    and "peerReadAt = mh_otherLastRead s"
  shows "web_seen me peerReadAt ws = seenByOther me s"
proof -
  let ?R = "\<lambda>w m. ul_id (ms_sender w) = mup_id (mms_sender m) \<and> ms_created_at w = mms_created_at m"
  have "rel_option ?R (find (\<lambda>w. Some (ul_id (ms_sender w)) = me) (rev ws)) (find (\<lambda>m. Some (mup_id (mms_sender m)) = me) (mh_messages s))"
    by (rule find_all2 [OF assms(1)]) simp
  then show ?thesis using assms(2)
    by (cases "find (\<lambda>w. Some (ul_id (ms_sender w)) = me) (rev ws)";
        cases "find (\<lambda>m. Some (mup_id (mms_sender m)) = me) (mh_messages s)")
       (auto simp: web_seen_def seenByOther_def split: option.split)
qed

section \<open>Runs\<close>

definition demo_person :: "str \<Rightarrow> mob_user_profile" where
  "demo_person uid = \<lparr> mup_id = uid, mup_username = uid, mup_display_name = None, mup_bio = None, mup_avatar_url = None,
     mup_links = None, mup_is_private = False, mup_trades_visibility = None, mup_post_count = 0, mup_follower_count = 0,
     mup_following_count = 0, mup_is_following = None, mup_follow_requested = None, mup_follows_you = None, mup_is_me = None,
     mup_can_view = None, mup_can_view_trades = None \<rparr>"

definition demo_msg :: "str \<Rightarrow> str \<Rightarrow> str \<Rightarrow> str \<Rightarrow> mob_message" where
  "demo_msg mid uid body time = \<lparr> mms_id = mid, mms_conversation_id = lit ''c'', mms_sender = demo_person uid, mms_body = Some body,
     mms_media = None, mms_reply_to_id = None, mms_post_id = None, mms_shared_post = None, mms_reactions = None,
     mms_my_reaction = None, mms_created_at = time, mms_read_by = None, mms_pending = None \<rparr>"

definition demo_thread :: mob_thread where
  "demo_thread = (mob_thread0 (\<lambda>_ xs. xs) (Some (lit ''u'')) None)\<lparr>mh_messages := [demo_msg (lit ''m1'') (lit ''p'') (lit ''hi'') (lit ''1'')], mh_text := lit ''yo''\<rparr>"

text \<open>The backend pushes the own message before it answers: the app ends with two copies of it.\<close>

theorem mob_send_leaves_no_trace_witness:
  "\<exists>s1 ws q. mob_thread_send show_int (lit ''c'') (Some (demo_person (lit ''u''))) 5000 (lit ''yo'') None demo_thread = (s1, ws, Some q)
    \<and> mh_messages (mob_thread_sent q (demo_msg (lit ''m2'') (lit ''u'') (lit ''yo'') (lit ''2''))
          (mob_thread_events None [EvMessageNew (lit ''dm:c'') (demo_msg (lit ''m2'') (lit ''u'') (lit ''yo'') (lit ''2''))] s1))
        = [demo_msg (lit ''m2'') (lit ''u'') (lit ''yo'') (lit ''2''), demo_msg (lit ''m2'') (lit ''u'') (lit ''yo'') (lit ''2''),
           demo_msg (lit ''m1'') (lit ''p'') (lit ''hi'') (lit ''1'')]"
proof -
  let ?msg = "demo_msg (lit ''m2'') (lit ''u'') (lit ''yo'') (lit ''2'')"
  let ?es = "[EvMessageNew (lit ''dm:c'') ?msg]"
  have trim: "js_trim (lit ''yo'') = lit ''yo''" by (simp add: js_trim_def lit_def is_space_def)
  obtain s1 ws q where r: "mob_thread_send show_int (lit ''c'') (Some (demo_person (lit ''u''))) 5000 (lit ''yo'') None demo_thread
      = (s1, ws, Some q)" "sd_tmpId q = lit ''tmp-'' @ show_int 5000"
    by (simp add: mob_thread_send_def trim Let_def optimistic_message_def)
  have m: "mh_messages demo_thread = [demo_msg (lit ''m1'') (lit ''p'') (lit ''hi'') (lit ''1'')]" by (simp add: demo_thread_def)
  have ids: "mms_id (demo_msg i u b t) = i" for i u b t by (simp add: demo_msg_def)
  have n: "sd_tmpId q \<notin> mms_id ` set (mh_messages demo_thread) \<union> new_ids ?es"
    using r(2) by (auto simp: m ids new_ids_def lit_def)
  have d: "mh_messages (mob_thread_events None ?es demo_thread) = [?msg, demo_msg (lit ''m1'') (lit ''p'') (lit ''hi'') (lit ''1'')]"
    unfolding events_messages by (simp add: event_messages_def m ids)
  have "distinct (map mms_id (mh_messages (mob_thread_events None ?es demo_thread)))" unfolding d by (simp add: ids)
  from mob_send_leaves_no_trace [OF r(1) n this, of ?msg] d r(1) show ?thesis by auto
qed

theorem typing_throttled_witness:
  "typing_starts [(5000, lit ''a''), (6000, lit ''ab''), (7600, lit ''abc'')] demo_thread = [5000, 7600]
   \<and> 2500 * (int (length (typing_starts [(5000, lit ''a''), (6000, lit ''ab''), (7600, lit ''abc'')] demo_thread)) - 1) \<le> 2600"
proof -
  let ?ks = "[(5000 :: int, lit ''a''), (6000, lit ''ab''), (7600, lit ''abc'')]"
  have e: "typing_starts ?ks demo_thread = [5000, 7600]"
    by (simp add: mob_onType_def Let_def demo_thread_def mob_thread0_def)
  have "\<forall>k \<in> set ?ks. 5000 \<le> fst k \<and> fst k \<le> 5000 + 2600" by simp
  from typing_throttled [OF this, of demo_thread] e show ?thesis by simp
qed

theorem seen_agrees_witness:
  "seenByOther (Some (lit ''p'')) (demo_thread\<lparr>mh_otherLastRead := Some (lit ''2'')\<rparr>)"
proof -
  let ?w = "\<lparr> ms_id = lit ''m1'', ms_conversation_id = lit ''c'', ms_sender = \<lparr> ul_id = lit ''p'', ul_username = lit ''p'',
     ul_display_name = None, ul_avatar_url = None \<rparr>, ms_body = None, ms_media = None, ms_reply_to_id = None, ms_reactions = [],
     ms_created_at = lit ''1'' \<rparr>"
  have "web_seen (Some (lit ''p'')) (Some (lit ''2'')) [?w] = seenByOther (Some (lit ''p'')) (demo_thread\<lparr>mh_otherLastRead := Some (lit ''2'')\<rparr>)"
    by (rule seen_agrees) (simp_all add: demo_thread_def demo_msg_def demo_person_def)
  moreover have "web_seen (Some (lit ''p'')) (Some (lit ''2'')) [?w]"
    by (simp add: web_seen_def non_empty_def) (simp add: lit_def)
  ultimately show ?thesis by simp
qed

end
