(* ===== verification/Composer.thy ===== *)
theory Composer
  imports MobileTickets Mentions Reconnect "HOL-Library.Multiset"
begin

text \<open>
  The upload engine of the app's composer, \<open>mobile/app/(tabs)/create.tsx\<close>: media are uploaded in the background
  from the moment they are picked, at most three at a time; an edit or a removal cancels the upload of
  the item, and a result that arrives late is dropped. The record is the state of the component; a call of
  \<open>runUpload\<close> that has not finished is an entry of \<open>cp_runs\<close> with the flag of its \<open>AbortController\<close>. The
  ghost \<open>cp_log\<close> records which file an upload that finished had sent, and the id it got.
\<close>

section \<open>State\<close>

datatype upload_status = UpQueued | UpLoading rat | UpReady str | UpFailed str

record upload_item =
  ui_key :: str
  ui_attempt :: nat
  ui_uri :: str
  ui_kind :: media_kind
  ui_mime :: str
  ui_status :: upload_status

record upload_run =
  ur_key :: str
  ur_attempt :: nat
  ur_uri :: str
  ur_aborted :: bool

datatype composer_stage = ComposerIdle | Finishing | SigningStage | PostingStage | ComposerError str

datatype mob_attachment =
    ExistingMarket mob_market side rat "int option"
  | NewMarket mob_market_candidate side rat int

record composer =
  cp_media :: "upload_item list"
  cp_caption :: str
  cp_mentionDrafts :: "draft_mention list"
  cp_attachment :: "mob_attachment option"
  cp_stage :: composer_stage
  cp_editingIndex :: "nat option"
  cp_page :: nat
  cp_dragIndex :: "nat option"
  cp_dragAnchor :: rat
  cp_controllers :: "str list"
  cp_inFlight :: "str list"
  cp_itemSeq :: nat
  cp_runs :: "upload_run list"
  cp_log :: "(str \<times> str) list"

definition UPLOAD_CONCURRENCY :: nat where "UPLOAD_CONCURRENCY = 3"
definition MAX_MEDIA :: nat where "MAX_MEDIA = 10"
definition NEW_MARKET_MIN_SPEND :: rat where "NEW_MARKET_MIN_SPEND = 1"

definition composer0 :: composer where
  "composer0 = \<lparr> cp_media = [], cp_caption = [], cp_mentionDrafts = [], cp_attachment = None, cp_stage = ComposerIdle,
     cp_editingIndex = None, cp_page = 0, cp_dragIndex = None, cp_dragAnchor = 0, cp_controllers = [], cp_inFlight = [],
     cp_itemSeq = 0, cp_runs = [], cp_log = [] \<rparr>"

text \<open>\<open>toString(36)\<close> of a non-negative integer, \<open>nextKey\<close> and \<open>tokenOf\<close>.\<close>

fun show_radix36 :: "nat \<Rightarrow> str" where
  "show_radix36 n = (if n < 36 then [] else show_radix36 (n div 36))
     @ [of_nat (if n mod 36 < 10 then 48 + n mod 36 else 87 + n mod 36)]"

declare show_radix36.simps [simp del]

definition nextKey :: "nat \<Rightarrow> nat \<Rightarrow> str" where
  "nextKey now itemSeq = lit ''m'' @ show_radix36 now @ lit ''-'' @ show_nat itemSeq"

definition tokenOf :: "str \<Rightarrow> nat \<Rightarrow> str" where
  "tokenOf key attempt = key @ lit '':'' @ show_nat attempt"

section \<open>The upload engine\<close>

fun is_uploading :: "upload_status \<Rightarrow> bool" where
  "is_uploading (UpLoading _) = True"
| "is_uploading _ = False"

fun is_settled :: "upload_status \<Rightarrow> bool" where
  "is_settled (UpReady _) = True"
| "is_settled (UpFailed _) = True"
| "is_settled _ = False"

fun is_failed :: "upload_status \<Rightarrow> bool" where
  "is_failed (UpFailed _) = True"
| "is_failed _ = False"

lemma failed_not_uploading [dest]: "is_failed st \<Longrightarrow> \<not> is_uploading st"
  by (cases st) simp_all

definition active_uploads :: "upload_item list \<Rightarrow> nat" where
  "active_uploads media = length (filter (\<lambda>m. is_uploading (ui_status m)) media)"

definition abort_token :: "str \<Rightarrow> composer \<Rightarrow> composer" where
  "abort_token token s = (if token \<in> set (cp_controllers s)
     then s\<lparr>cp_runs := map (\<lambda>r. if tokenOf (ur_key r) (ur_attempt r) = token then r\<lparr>ur_aborted := True\<rparr> else r) (cp_runs s)\<rparr>
     else s)"

text \<open>The guarded start of \<open>runUpload\<close>.\<close>

definition runUpload :: "upload_item \<Rightarrow> composer \<Rightarrow> composer" where
  "runUpload item s =
     (let token = tokenOf (ui_key item) (ui_attempt item) in
      if token \<in> set (cp_inFlight s) then s
      else s\<lparr>cp_inFlight := os_add (cp_inFlight s) token, cp_controllers := os_add (cp_controllers s) token,
             cp_runs := cp_runs s @ [\<lparr> ur_key = ui_key item, ur_attempt = ui_attempt item, ur_uri = ui_uri item, ur_aborted = False \<rparr>]\<rparr>)"

text \<open>\<open>patch\<close>: only the exact attempt is changed.\<close>

definition patch_status :: "str \<Rightarrow> nat \<Rightarrow> upload_status \<Rightarrow> upload_item list \<Rightarrow> upload_item list" where
  "patch_status key attempt st media =
     map (\<lambda>m. if ui_key m = key \<and> ui_attempt m = attempt then m\<lparr>ui_status := st\<rparr> else m) media"

definition upload_progress :: "nat \<Rightarrow> rat \<Rightarrow> composer \<Rightarrow> composer" where
  "upload_progress i f s =
     (if i < length (cp_runs s) then
        let r = cp_runs s ! i in
        s\<lparr>cp_media := map (\<lambda>m. if ui_key m = ur_key r \<and> ui_attempt m = ur_attempt r \<and> is_uploading (ui_status m)
                              then m\<lparr>ui_status := UpLoading f\<rparr> else m) (cp_media s)\<rparr>
      else s)"

text \<open>The end of \<open>runUpload\<close>: the result is applied unless the controller was aborted; then \<open>finally\<close>.\<close>

definition upload_finished :: "nat \<Rightarrow> js_error + str \<Rightarrow> composer \<Rightarrow> composer" where
  "upload_finished i res s =
     (if i < length (cp_runs s) then
        let r = cp_runs s ! i; token = tokenOf (ur_key r) (ur_attempt r);
            st = (case res of Inr mediaId \<Rightarrow> UpReady mediaId | Inl e \<Rightarrow> UpFailed (mob_errorMessage e)) in
        s\<lparr>cp_media := (if ur_aborted r then cp_media s else patch_status (ur_key r) (ur_attempt r) st (cp_media s)),
          cp_inFlight := os_del (cp_inFlight s) token, cp_controllers := os_del (cp_controllers s) token,
          cp_runs := drop_nth i (cp_runs s),
          cp_log := (case res of Inr mediaId \<Rightarrow> cp_log s @ [(ur_uri r, mediaId)] | Inl _ \<Rightarrow> cp_log s)\<rparr>
      else s)"

text \<open>The scheduler: the effect that runs after every change of the media, on the media just rendered.\<close>

definition to_start :: "upload_item list \<Rightarrow> upload_item list" where
  "to_start media = take (UPLOAD_CONCURRENCY - active_uploads media) (filter (\<lambda>m. ui_status m = UpQueued) media)"

definition schedule :: "composer \<Rightarrow> composer" where
  "schedule s =
     (let start = to_start (cp_media s);
          starting = map (\<lambda>m. tokenOf (ui_key m) (ui_attempt m)) start;
          s = s\<lparr>cp_media := map (\<lambda>m. if tokenOf (ui_key m) (ui_attempt m) \<in> set starting
                                    then m\<lparr>ui_status := UpLoading 0\<rparr> else m) (cp_media s)\<rparr>
      in fold runUpload start s)"

section \<open>What the user does\<close>

text \<open>\<open>pick\<close>: how many may be chosen, and the chosen assets (uri, whether it is a video, MIME type).\<close>

definition pick_limit :: "composer \<Rightarrow> nat option" where
  "pick_limit s = (if length (cp_media s) < MAX_MEDIA then Some (MAX_MEDIA - length (cp_media s)) else None)"

definition picked_item :: "nat \<Rightarrow> nat \<Rightarrow> str \<times> bool \<times> str option \<Rightarrow> upload_item" where
  "picked_item now itemSeq a = (case a of (uri, video, mime) \<Rightarrow>
     \<lparr> ui_key = nextKey now itemSeq, ui_attempt = 0, ui_uri = uri, ui_kind = (if video then VideoMedia else ImageMedia),
       ui_mime = or_else mime (if video then lit ''video/mp4'' else lit ''image/jpeg''), ui_status = UpQueued \<rparr>)"

definition pick_done :: "nat \<Rightarrow> (str \<times> bool \<times> str option) list \<Rightarrow> composer \<Rightarrow> composer" where
  "pick_done now assets s =
     (let added = map (\<lambda>(i, a). picked_item now (cp_itemSeq s + i) a) (enumerate 0 assets);
          next1 = take MAX_MEDIA (cp_media s @ added)
      in s\<lparr>cp_media := next1, cp_itemSeq := cp_itemSeq s + length assets,
           cp_page := min (length (cp_media s)) (length next1 - 1)\<rparr>)"

definition remove_nth :: "nat \<Rightarrow> 'a list \<Rightarrow> 'a list" where
  "remove_nth i xs = take i xs @ drop (Suc i) xs"

definition removeAt :: "nat \<Rightarrow> composer \<Rightarrow> composer" where
  "removeAt index s =
     (let s' = (if index < length (cp_media s)
                then abort_token (tokenOf (ui_key (cp_media s ! index)) (ui_attempt (cp_media s ! index))) s else s)
      in s'\<lparr>cp_media := remove_nth index (cp_media s), cp_page := min (cp_page s) (length (cp_media s) - 1)\<rparr>)"

definition retry_upload :: "str \<Rightarrow> composer \<Rightarrow> composer" where
  "retry_upload key s =
     s\<lparr>cp_media := map (\<lambda>m. if ui_key m = key \<and> is_failed (ui_status m)
        then m\<lparr>ui_attempt := ui_attempt m + 1, ui_status := UpQueued\<rparr> else m) (cp_media s)\<rparr>"

definition edited_item :: "str \<Rightarrow> upload_item \<Rightarrow> upload_item" where
  "edited_item uri m = m\<lparr>ui_uri := uri, ui_kind := ImageMedia, ui_mime := lit ''image/jpeg'', ui_attempt := ui_attempt m + 1,
     ui_status := UpQueued\<rparr>"

definition applyEdit :: "nat \<Rightarrow> str \<Rightarrow> composer \<Rightarrow> composer" where
  "applyEdit index uri s =
     (let s' = (if index < length (cp_media s)
                then abort_token (tokenOf (ui_key (cp_media s ! index)) (ui_attempt (cp_media s ! index))) s else s)
      in s'\<lparr>cp_media := (if index < length (cp_media s) then (cp_media s)[index := edited_item uri (cp_media s ! index)] else cp_media s),
            cp_editingIndex := None\<rparr>)"

text \<open>\<open>moveItem\<close>, and the drag that lifts an item and moves it one slot per 28 percent of the width.\<close>

definition moveItem :: "nat \<Rightarrow> nat \<Rightarrow> composer \<Rightarrow> composer" where
  "moveItem from to s = (if from < length (cp_media s)
     then let rest = remove_nth from (cp_media s) in s\<lparr>cp_media := take to rest @ (cp_media s ! from) # drop to rest\<rparr> else s)"

definition startDrag :: "nat \<Rightarrow> composer \<Rightarrow> composer" where
  "startDrag index s = s\<lparr>cp_dragIndex := Some index, cp_dragAnchor := 0\<rparr>"

definition endDrag :: "composer \<Rightarrow> composer" where
  "endDrag s = s\<lparr>cp_dragIndex := None, cp_dragAnchor := 0\<rparr>"

definition dragMove :: "rat \<Rightarrow> rat \<Rightarrow> composer \<Rightarrow> composer" where
  "dragMove w dx s =
     (case cp_dragIndex s of None \<Rightarrow> s
      | Some i \<Rightarrow>
          (let moved = num_sub dx (cp_dragAnchor s) in
           if moved < - num_mul w (fl (28 / 100)) \<and> 0 < i
           then (moveItem i (i - 1) s)\<lparr>cp_dragIndex := Some (i - 1), cp_dragAnchor := dx, cp_page := i - 1\<rparr>
           else if moved > num_mul w (fl (28 / 100)) \<and> i + 1 < length (cp_media s)
           then (moveItem i (i + 1) s)\<lparr>cp_dragIndex := Some (i + 1), cp_dragAnchor := dx, cp_page := i + 1\<rparr>
           else s))"

definition composer_abort_all :: "composer \<Rightarrow> composer" where
  "composer_abort_all s = fold abort_token (cp_controllers s) s"

definition composer_reset :: "composer \<Rightarrow> composer" where
  "composer_reset s = (composer_abort_all s)\<lparr>cp_controllers := [], cp_inFlight := [], cp_media := [], cp_caption := [],
     cp_mentionDrafts := [], cp_attachment := None, cp_stage := ComposerIdle, cp_editingIndex := None\<rparr>"

section \<open>May it be posted\<close>

definition composer_busy :: "composer \<Rightarrow> bool" where
  "composer_busy s \<longleftrightarrow> cp_stage s = Finishing \<or> cp_stage s = SigningStage \<or> cp_stage s = PostingStage"

definition attachmentInvalid :: "mob_attachment option \<Rightarrow> bool" where
  "attachmentInvalid a = (case a of Some (NewMarket c sd spend p) \<Rightarrow> spend < NEW_MARKET_MIN_SPEND \<or> mmc_question c = [] | _ \<Rightarrow> False)"

definition composer_canPost :: "composer \<Rightarrow> bool" where
  "composer_canPost s \<longleftrightarrow> cp_media s \<noteq> [] \<and> \<not> composer_busy s \<and> \<not> attachmentInvalid (cp_attachment s)"

text \<open>The condition \<open>waitForUploads\<close> polls for.\<close>

definition uploads_settled :: "composer \<Rightarrow> bool" where
  "uploads_settled s \<longleftrightarrow> list_all (\<lambda>m. is_settled (ui_status m)) (cp_media s)"

section \<open>Keys and tokens\<close>

lemma split_at_last:
  assumes "u @ c # d = v @ c # e" "c \<notin> set d" "c \<notin> set e"
  shows "u = v" "d = e"
proof -
  have tw: "takeWhile (\<lambda>x. x \<noteq> c) (rev (w @ c # z)) = rev z" if "c \<notin> set z" for w z
    using that by (simp add: takeWhile_append)
  have "rev d = rev e" using tw [OF assms(2), of u] tw [OF assms(3), of v] assms(1) by simp
  then show "d = e" by simp
  with assms(1) show "u = v" by simp
qed

lemma digits_not: "\<not> is_digit c \<Longrightarrow> c \<notin> set (show_nat n)"
  using show_nat_is_digit by auto

lemma tokenOf_inject [simp]: "tokenOf k a = tokenOf k' a' \<longleftrightarrow> k = k' \<and> a = a'"
proof
  assume "tokenOf k a = tokenOf k' a'"
  then have "k @ 58 # show_nat a = k' @ 58 # show_nat a'" by (simp add: tokenOf_def lit_def)
  from split_at_last [OF this] digits_not [of 58] show "k = k' \<and> a = a'"
    by (auto simp: is_digit_def)
qed simp

lemma nextKey_seq: "nextKey now i = nextKey now' j \<Longrightarrow> i = j"
proof -
  assume "nextKey now i = nextKey now' j"
  then have "(lit ''m'' @ show_radix36 now) @ 45 # show_nat i = (lit ''m'' @ show_radix36 now') @ 45 # show_nat j"
    by (simp add: nextKey_def lit_def)
  from split_at_last(2) [OF this] show "i = j" using digits_not [of 45] by (auto simp: is_digit_def)
qed

definition key_below :: "nat \<Rightarrow> str \<Rightarrow> bool" where
  "key_below n key \<longleftrightarrow> (\<exists>now i. i < n \<and> key = nextKey now i)"

lemma key_below_mono: assumes "key_below n k" "n \<le> m" shows "key_below m k"
proof -
  obtain now i where "i < n" "k = nextKey now i" using assms(1) by (auto simp: key_below_def)
  with assms(2) have "i < m \<and> k = nextKey now i" by simp
  then show ?thesis unfolding key_below_def by blast
qed

lemma key_below_fresh: "key_below n (nextKey now i) \<Longrightarrow> i < n"
  by (auto simp: key_below_def dest: nextKey_seq)

section \<open>The invariant of the engine\<close>

definition run_id :: "upload_run \<Rightarrow> str \<times> nat" where
  "run_id r = (ur_key r, ur_attempt r)"

text \<open>
  How a run and an item of the same key are related: the run is of the item's attempt exactly while the item
  is uploading, and then sends its file and is not aborted; every other run is of an earlier attempt.
\<close>

definition run_fits :: "upload_run \<Rightarrow> upload_item \<Rightarrow> bool" where
  "run_fits r m \<longleftrightarrow> ur_key r = ui_key m \<longrightarrow> ur_attempt r \<le> ui_attempt m
     \<and> (ur_attempt r = ui_attempt m \<longrightarrow> is_uploading (ui_status m) \<and> \<not> ur_aborted r \<and> ur_uri r = ui_uri m)"

definition keys_ok :: "nat \<Rightarrow> upload_item list \<Rightarrow> upload_run list \<Rightarrow> bool" where
  "keys_ok n ms rs \<longleftrightarrow> distinct (map ui_key ms) \<and> distinct (map run_id rs)
     \<and> ui_key ` set ms \<subseteq> Collect (key_below n) \<and> ur_key ` set rs \<subseteq> Collect (key_below n)"

definition runs_ok :: "upload_item list \<Rightarrow> upload_run list \<Rightarrow> bool" where
  "runs_ok ms rs \<longleftrightarrow> (\<forall>r \<in> set rs. \<forall>m \<in> set ms. run_fits r m)
     \<and> (\<forall>r \<in> set rs. \<not> ur_aborted r \<longrightarrow> (\<exists>m \<in> set ms. ui_key m = ur_key r \<and> ui_attempt m = ur_attempt r))
     \<and> (\<forall>m \<in> set ms. is_uploading (ui_status m) \<longrightarrow> (\<exists>r \<in> set rs. run_id r = (ui_key m, ui_attempt m)))"

definition tokens_ok :: "upload_run list \<Rightarrow> str list \<Rightarrow> str list \<Rightarrow> bool" where
  "tokens_ok rs fs cs \<longleftrightarrow> (\<forall>t \<in> set fs. \<exists>r \<in> set rs. t = tokenOf (ur_key r) (ur_attempt r))
     \<and> (\<forall>r \<in> set rs. \<not> ur_aborted r \<longrightarrow> tokenOf (ur_key r) (ur_attempt r) \<in> set fs \<inter> set cs)"

definition log_ok :: "upload_item list \<Rightarrow> (str \<times> str) list \<Rightarrow> bool" where
  "log_ok ms lg \<longleftrightarrow> (\<forall>m \<in> set ms. \<forall>mediaId. ui_status m = UpReady mediaId \<longrightarrow> (ui_uri m, mediaId) \<in> set lg)"

definition composer_inv :: "composer \<Rightarrow> bool" where
  "composer_inv s \<longleftrightarrow> keys_ok (cp_itemSeq s) (cp_media s) (cp_runs s) \<and> runs_ok (cp_media s) (cp_runs s)
     \<and> tokens_ok (cp_runs s) (cp_inFlight s) (cp_controllers s) \<and> log_ok (cp_media s) (cp_log s)
     \<and> active_uploads (cp_media s) \<le> UPLOAD_CONCURRENCY \<and> length (cp_media s) \<le> MAX_MEDIA"

lemma composer_invI:
  assumes "keys_ok n ms rs" "runs_ok ms rs" "tokens_ok rs fs cs" "log_ok ms lg" "active_uploads ms \<le> UPLOAD_CONCURRENCY"
    "length ms \<le> MAX_MEDIA" "cp_itemSeq t = n" "cp_media t = ms" "cp_runs t = rs" "cp_inFlight t = fs"
    "cp_controllers t = cs" "cp_log t = lg"
  shows "composer_inv t"
  using assms by (simp add: composer_inv_def)

lemma inv_fits: "composer_inv s \<Longrightarrow> r \<in> set (cp_runs s) \<Longrightarrow> m \<in> set (cp_media s) \<Longrightarrow> run_fits r m"
  by (simp add: composer_inv_def runs_ok_def)

lemma same_key: "distinct (map ui_key ms) \<Longrightarrow> m \<in> set ms \<Longrightarrow> m' \<in> set ms \<Longrightarrow> ui_key m = ui_key m' \<Longrightarrow> m = m'"
  by (auto simp: distinct_map dest: inj_onD)

lemma drop_nth_set:
  assumes "distinct (map f xs)" "i < length xs"
  shows "set (drop_nth i xs) = {x \<in> set xs. f x \<noteq> f (xs ! i)}" "distinct (map f (drop_nth i xs))"
proof -
  have split: "xs = take i xs @ xs ! i # drop (Suc i) xs" by (rule id_take_nth_drop [OF assms(2)])
  have d: "distinct (map f (take i xs @ xs ! i # drop (Suc i) xs))" using assms(1) by (subst (asm) split)
  have "set xs = set (take i xs @ xs ! i # drop (Suc i) xs)" by (subst split) (rule refl)
  with d show "set (drop_nth i xs) = {x \<in> set xs. f x \<noteq> f (xs ! i)}" by (auto simp: drop_nth_def image_iff)
  from d show "distinct (map f (drop_nth i xs))" by (simp add: drop_nth_def)
qed

lemma remove_nth_drop: "remove_nth i xs = drop_nth i xs"
  by (simp add: remove_nth_def drop_nth_def)

text \<open>Steps that change nothing but the progress of an item.\<close>

definition keeps_item :: "(upload_item \<Rightarrow> upload_item) \<Rightarrow> bool" where
  "keeps_item f \<longleftrightarrow> (\<forall>m. ui_key (f m) = ui_key m \<and> ui_attempt (f m) = ui_attempt m \<and> ui_uri (f m) = ui_uri m
     \<and> is_uploading (ui_status (f m)) = is_uploading (ui_status m)
     \<and> (\<forall>mediaId. ui_status (f m) = UpReady mediaId \<longrightarrow> ui_status m = UpReady mediaId))"

lemma keeps_item_inv:
  assumes f: "keeps_item f" and inv: "composer_inv s"
  shows "composer_inv (s\<lparr>cp_media := map f (cp_media s)\<rparr>)"
proof -
  have keep: "ui_key (f m) = ui_key m" "ui_attempt (f m) = ui_attempt m" "ui_uri (f m) = ui_uri m"
    "is_uploading (ui_status (f m)) = is_uploading (ui_status m)" for m using f unfolding keeps_item_def by blast+
  have fit: "run_fits r (f m) = run_fits r m" for r m by (simp add: run_fits_def keep)
  have "keys_ok n (map f ms) rs = keys_ok n ms rs" for n ms rs
    by (simp add: keys_ok_def image_image comp_def keep)
  moreover have "runs_ok (map f ms) rs = runs_ok ms rs" for ms rs by (simp add: runs_ok_def fit keep)
  moreover have "log_ok ms lg \<Longrightarrow> log_ok (map f ms) lg" for ms lg
    unfolding log_ok_def
  proof (intro ballI allI impI)
    fix x mediaId assume lg: "\<forall>m \<in> set ms. \<forall>mediaId. ui_status m = UpReady mediaId \<longrightarrow> (ui_uri m, mediaId) \<in> set lg"
      and x: "x \<in> set (map f ms)" "ui_status x = UpReady mediaId"
    then obtain m where m: "m \<in> set ms" "x = f m" by auto
    with f x(2) have "ui_status m = UpReady mediaId" unfolding keeps_item_def by blast
    with lg m show "(ui_uri x, mediaId) \<in> set lg" by (auto simp: keep)
  qed
  moreover have "active_uploads (map f ms) = active_uploads ms" for ms by (induction ms) (simp_all add: active_uploads_def keep)
  ultimately show ?thesis using inv by (simp add: composer_inv_def)
qed

lemma progress_inv: assumes "composer_inv s" shows "composer_inv (upload_progress i f s)"
proof -
  have "keeps_item (\<lambda>m. if ui_key m = k \<and> ui_attempt m = a \<and> is_uploading (ui_status m) then m\<lparr>ui_status := UpLoading f\<rparr> else m)" for k a
    by (simp add: keeps_item_def)
  from keeps_item_inv [OF this assms] assms show ?thesis by (simp add: upload_progress_def Let_def)
qed

text \<open>The end of a run.\<close>

lemma patch_mem:
  "x \<in> set (patch_status k a st ms) \<longleftrightarrow>
     (\<exists>m \<in> set ms. x = (if ui_key m = k \<and> ui_attempt m = a then m\<lparr>ui_status := st\<rparr> else m))"
  by (simp only: patch_status_def set_map image_iff)

lemma patch_keys: "map ui_key (patch_status k a st ms) = map ui_key ms"
  by (simp add: patch_status_def)

lemma patch_simps [simp]: "length (patch_status k a st ms) = length ms" "ui_key ` set (patch_status k a st ms) = ui_key ` set ms"
  by (simp add: patch_status_def) (metis list.set_map patch_keys)

lemma patch_active: "\<not> is_uploading st \<Longrightarrow> active_uploads (patch_status k a st ms) \<le> active_uploads ms"
  by (induction ms) (auto simp: active_uploads_def patch_status_def)

lemma run_id_iff: "run_id r = run_id r' \<longleftrightarrow> ur_key r = ur_key r' \<and> ur_attempt r = ur_attempt r'"
  by (simp add: run_id_def)

lemma finished_inv:
  assumes inv: "composer_inv s" shows "composer_inv (upload_finished i res s)"
proof (cases "i < length (cp_runs s)")
  case False
  with inv show ?thesis by (simp add: upload_finished_def)
next
  case True
  define r where "r = cp_runs s ! i"
  let ?ms = "cp_media s" and ?rs = "cp_runs s"
  let ?st = "case res of Inr mediaId \<Rightarrow> UpReady mediaId | Inl e \<Rightarrow> UpFailed (mob_errorMessage e)"
  let ?ms' = "if ur_aborted r then ?ms else patch_status (ur_key r) (ur_attempt r) ?st ?ms"
  let ?lg' = "case res of Inr mediaId \<Rightarrow> cp_log s @ [(ur_uri r, mediaId)] | Inl _ \<Rightarrow> cp_log s"
  have keys: "keys_ok (cp_itemSeq s) ?ms ?rs" and runs: "runs_ok ?ms ?rs"
    and toks: "tokens_ok ?rs (cp_inFlight s) (cp_controllers s)" and lg: "log_ok ?ms (cp_log s)"
    and act: "active_uploads ?ms \<le> UPLOAD_CONCURRENCY" and len: "length ?ms \<le> MAX_MEDIA"
    using inv by (simp_all add: composer_inv_def)
  have rin: "r \<in> set ?rs" using True by (simp add: r_def)
  have dk: "distinct (map ui_key ?ms)" and dr: "distinct (map run_id ?rs)" using keys by (simp_all add: keys_ok_def)
  have rest: "set (drop_nth i ?rs) = {x \<in> set ?rs. run_id x \<noteq> run_id r}" "distinct (map run_id (drop_nth i ?rs))"
    using drop_nth_set [OF dr True] by (simp_all add: r_def)
  have st: "\<not> is_uploading ?st" by (cases res) simp_all
  have mem: "x \<in> set ?ms' \<longleftrightarrow> (\<exists>m \<in> set ?ms. x = (if \<not> ur_aborted r \<and> ui_key m = ur_key r \<and> ui_attempt m = ur_attempt r
      then m\<lparr>ui_status := ?st\<rparr> else m))" for x by (auto simp: patch_mem)
  have fits: "run_fits q m" if "q \<in> set ?rs" "m \<in> set ?ms" for q m using runs that by (simp add: runs_ok_def)
  have "keys_ok (cp_itemSeq s) ?ms' (drop_nth i ?rs)"
    using keys rest by (auto simp: keys_ok_def patch_keys)
  moreover have "runs_ok ?ms' (drop_nth i ?rs)"
    unfolding runs_ok_def
  proof (intro conjI ballI impI)
    fix q x assume q: "q \<in> set (drop_nth i ?rs)" and "x \<in> set ?ms'"
    then obtain m where m: "m \<in> set ?ms" "x = (if \<not> ur_aborted r \<and> ui_key m = ur_key r \<and> ui_attempt m = ur_attempt r
      then m\<lparr>ui_status := ?st\<rparr> else m)" unfolding mem by blast
    have "q \<in> set ?rs" "run_id q \<noteq> run_id r" using q rest by auto
    then show "run_fits q x" using fits [of q m] m by (auto simp: run_fits_def run_id_iff)
  next
    fix q assume q: "q \<in> set (drop_nth i ?rs)" "\<not> ur_aborted q"
    then have "q \<in> set ?rs" using rest by auto
    with runs q(2) obtain m where m: "m \<in> set ?ms" "ui_key m = ur_key q" "ui_attempt m = ur_attempt q"
      unfolding runs_ok_def by blast
    then have "(if \<not> ur_aborted r \<and> ui_key m = ur_key r \<and> ui_attempt m = ur_attempt r then m\<lparr>ui_status := ?st\<rparr> else m) \<in> set ?ms'"
      unfolding mem by blast
    then show "\<exists>m \<in> set ?ms'. ui_key m = ur_key q \<and> ui_attempt m = ur_attempt q"
      by (rule bexI [rotated]) (use m in simp)
  next
    fix x assume x: "x \<in> set ?ms'" "is_uploading (ui_status x)"
    then obtain m where m: "m \<in> set ?ms" "x = (if \<not> ur_aborted r \<and> ui_key m = ur_key r \<and> ui_attempt m = ur_attempt r
      then m\<lparr>ui_status := ?st\<rparr> else m)" unfolding mem by blast
    with x(2) st have xm: "x = m" "\<not> (\<not> ur_aborted r \<and> ui_key m = ur_key r \<and> ui_attempt m = ur_attempt r)"
      by (auto split: if_splits)
    obtain q where q: "q \<in> set ?rs" "run_id q = (ui_key m, ui_attempt m)"
      using runs m(1) xm(1) x(2) unfolding runs_ok_def by blast
    have "run_id q \<noteq> run_id r"
    proof
      assume "run_id q = run_id r"
      then have "run_fits r m" "ur_key r = ui_key m" "ur_attempt r = ui_attempt m" using q m(1) fits [OF rin] by (auto simp: run_id_def)
      with xm(2) show False by (simp add: run_fits_def)
    qed
    with q rest have "q \<in> set (drop_nth i ?rs)" by simp
    with q(2) xm(1) show "\<exists>q \<in> set (drop_nth i ?rs). run_id q = (ui_key x, ui_attempt x)" by blast
  qed
  moreover have "tokens_ok (drop_nth i ?rs) (os_del (cp_inFlight s) (tokenOf (ur_key r) (ur_attempt r)))
      (os_del (cp_controllers s) (tokenOf (ur_key r) (ur_attempt r)))"
    using toks rest by (fastforce simp: tokens_ok_def run_id_iff)
  moreover have "log_ok ?ms' ?lg'"
    unfolding log_ok_def
  proof (intro ballI allI impI)
    fix x mediaId assume x: "x \<in> set ?ms'" "ui_status x = UpReady mediaId"
    then obtain m where m: "m \<in> set ?ms" "x = (if \<not> ur_aborted r \<and> ui_key m = ur_key r \<and> ui_attempt m = ur_attempt r
      then m\<lparr>ui_status := ?st\<rparr> else m)" unfolding mem by blast
    show "(ui_uri x, mediaId) \<in> set ?lg'"
    proof (cases "\<not> ur_aborted r \<and> ui_key m = ur_key r \<and> ui_attempt m = ur_attempt r")
      case True
      with m x(2) have "res = Inr mediaId" "ui_uri x = ui_uri m" by (cases res; simp)+
      moreover have "ur_uri r = ui_uri m" using fits [OF rin m(1)] True by (simp add: run_fits_def)
      ultimately show ?thesis by simp
    next
      case False
      then have "(ui_uri x, mediaId) \<in> set (cp_log s)" using lg m x(2) by (auto simp: log_ok_def)
      then show ?thesis by (cases res) simp_all
    qed
  qed
  moreover have "active_uploads ?ms' \<le> UPLOAD_CONCURRENCY" using order.trans [OF patch_active [OF st] act] act by simp
  moreover have "length ?ms' \<le> MAX_MEDIA" using len by simp
  ultimately show ?thesis
    by (rule composer_invI) (use True in \<open>simp_all add: upload_finished_def Let_def flip: r_def split del: if_split\<close>)
qed

text \<open>The scheduler.\<close>

definition fresh_run :: "upload_item \<Rightarrow> upload_run" where
  "fresh_run m = \<lparr> ur_key = ui_key m, ur_attempt = ui_attempt m, ur_uri = ui_uri m, ur_aborted = False \<rparr>"

lemma fresh_run_simps [simp]: "ur_key (fresh_run m) = ui_key m" "ur_attempt (fresh_run m) = ui_attempt m"
  "ur_uri (fresh_run m) = ui_uri m" "\<not> ur_aborted (fresh_run m)"
  by (simp_all add: fresh_run_def)

abbreviation item_token :: "upload_item \<Rightarrow> str" where
  "item_token m \<equiv> tokenOf (ui_key m) (ui_attempt m)"

lemma runUpload_fold:
  assumes "distinct (map item_token xs)" "set (map item_token xs) \<inter> set (cp_inFlight s) = {}"
  shows "cp_runs (fold runUpload xs s) = cp_runs s @ map fresh_run xs
    \<and> set (cp_inFlight (fold runUpload xs s)) = set (cp_inFlight s) \<union> item_token ` set xs
    \<and> set (cp_controllers (fold runUpload xs s)) = set (cp_controllers s) \<union> item_token ` set xs
    \<and> cp_media (fold runUpload xs s) = cp_media s \<and> cp_log (fold runUpload xs s) = cp_log s
    \<and> cp_itemSeq (fold runUpload xs s) = cp_itemSeq s"
  using assms
proof (induction xs arbitrary: s)
  case (Cons x xs)
  have one: "cp_runs (runUpload x s) = cp_runs s @ [fresh_run x]" "set (cp_inFlight (runUpload x s)) = insert (item_token x) (set (cp_inFlight s))"
    "set (cp_controllers (runUpload x s)) = insert (item_token x) (set (cp_controllers s))" "cp_media (runUpload x s) = cp_media s"
    "cp_log (runUpload x s) = cp_log s" "cp_itemSeq (runUpload x s) = cp_itemSeq s"
    using Cons.prems(2) by (simp_all add: runUpload_def Let_def fresh_run_def)
  have "distinct (map item_token xs)" "set (map item_token xs) \<inter> set (cp_inFlight (runUpload x s)) = {}"
    using Cons.prems by (auto simp: one)
  from Cons.IH [OF this] show ?case by (simp add: one)
qed simp

definition started :: "upload_item list \<Rightarrow> upload_item \<Rightarrow> upload_item" where
  "started ms m = (if m \<in> set (to_start ms) then m\<lparr>ui_status := UpLoading 0\<rparr> else m)"

lemma to_start_props: "m \<in> set (to_start ms) \<Longrightarrow> m \<in> set ms \<and> ui_status m = UpQueued"
  by (auto simp: to_start_def dest: in_set_takeD)

lemma distinct_tokens: "distinct (map ui_key ms) \<Longrightarrow> distinct (map item_token ms)"
  by (auto simp: distinct_map inj_on_def)

lemma to_start_tokens: "distinct (map ui_key ms) \<Longrightarrow> distinct (map item_token (to_start ms))"
  unfolding to_start_def by (auto simp: distinct_map inj_on_def dest!: in_set_takeD)

lemma starting_started:
  assumes "distinct (map ui_key ms)"
  shows "map (\<lambda>m. if item_token m \<in> set (map item_token (to_start ms)) then m\<lparr>ui_status := UpLoading 0\<rparr> else m) ms
    = map (started ms) ms"
proof (rule map_cong [OF refl])
  fix m assume m: "m \<in> set ms"
  have "item_token m \<in> set (map item_token (to_start ms)) \<longleftrightarrow> m \<in> set (to_start ms)"
    using same_key [OF assms m] to_start_props by fastforce
  then show "(if item_token m \<in> set (map item_token (to_start ms)) then m\<lparr>ui_status := UpLoading 0\<rparr> else m) = started ms m"
    by (simp add: started_def)
qed

lemma started_simps [simp]:
  "ui_key (started ms m) = ui_key m" "ui_attempt (started ms m) = ui_attempt m" "ui_uri (started ms m) = ui_uri m"
  "is_uploading (ui_status (started ms m)) \<longleftrightarrow> m \<in> set (to_start ms) \<or> is_uploading (ui_status m)"
  by (simp_all add: started_def)

lemma length_filter_card: "distinct xs \<Longrightarrow> length (filter P xs) = card {x \<in> set xs. P x}"
  using distinct_card [of "filter P xs"] by (simp add: Int_def conj_commute)

lemma started_active:
  assumes "distinct (map ui_key ms)" "active_uploads ms \<le> UPLOAD_CONCURRENCY"
  shows "active_uploads (map (started ms) ms) \<le> UPLOAD_CONCURRENCY"
proof -
  have d: "distinct ms" using assms(1) by (simp add: distinct_map)
  have "active_uploads (map (started ms) ms) = card {m \<in> set ms. m \<in> set (to_start ms) \<or> is_uploading (ui_status m)}"
    using length_filter_card [OF d] by (simp add: active_uploads_def filter_map comp_def)
  also have "\<dots> \<le> card (set (to_start ms) \<union> {m \<in> set ms. is_uploading (ui_status m)})"
    by (rule card_mono) auto
  also have "\<dots> \<le> card (set (to_start ms)) + card {m \<in> set ms. is_uploading (ui_status m)}" by (rule card_Un_le)
  also have "\<dots> \<le> length (to_start ms) + active_uploads ms"
    using card_length [of "to_start ms"] length_filter_card [OF d] by (simp add: active_uploads_def)
  also have "\<dots> \<le> UPLOAD_CONCURRENCY" using assms(2) by (auto simp: to_start_def min_def)
  finally show ?thesis .
qed

lemma schedule_media:
  assumes "composer_inv s"
  shows "cp_media (schedule s) = map (started (cp_media s)) (cp_media s)"
    "cp_runs (schedule s) = cp_runs s @ map fresh_run (to_start (cp_media s))"
    "set (cp_inFlight (schedule s)) = set (cp_inFlight s) \<union> item_token ` set (to_start (cp_media s))"
    "set (cp_controllers (schedule s)) = set (cp_controllers s) \<union> item_token ` set (to_start (cp_media s))"
    "cp_log (schedule s) = cp_log s" "cp_itemSeq (schedule s) = cp_itemSeq s"
proof -
  let ?ms = "cp_media s"
  have dk: "distinct (map ui_key ?ms)" using assms by (simp add: composer_inv_def keys_ok_def)
  have "item_token m \<notin> set (cp_inFlight s)" if m: "m \<in> set (to_start ?ms)" for m
  proof
    assume "item_token m \<in> set (cp_inFlight s)"
    then obtain r where "r \<in> set (cp_runs s)" "ur_key r = ui_key m" "ur_attempt r = ui_attempt m"
      using assms by (auto simp: composer_inv_def tokens_ok_def)
    then show False using inv_fits [OF assms, of r m] to_start_props [OF m] by (simp add: run_fits_def)
  qed
  then have "set (map item_token (to_start ?ms)) \<inter> set (cp_inFlight (s\<lparr>cp_media := map (started ?ms) ?ms\<rparr>)) = {}" by auto
  note fold = runUpload_fold [OF to_start_tokens [OF dk] this]
  have "schedule s = fold runUpload (to_start ?ms) (s\<lparr>cp_media := map (started ?ms) ?ms\<rparr>)"
    unfolding schedule_def Let_def starting_started [OF dk] by (rule refl)
  with fold show "cp_media (schedule s) = map (started (cp_media s)) (cp_media s)"
    "cp_runs (schedule s) = cp_runs s @ map fresh_run (to_start (cp_media s))"
    "set (cp_inFlight (schedule s)) = set (cp_inFlight s) \<union> item_token ` set (to_start (cp_media s))"
    "set (cp_controllers (schedule s)) = set (cp_controllers s) \<union> item_token ` set (to_start (cp_media s))"
    "cp_log (schedule s) = cp_log s" "cp_itemSeq (schedule s) = cp_itemSeq s" by simp_all
qed

lemma fresh_run_id [simp]: "run_id (fresh_run m) = (ui_key m, ui_attempt m)"
  by (simp add: run_id_def)

lemma start_not_running:
  assumes "composer_inv s" "r \<in> set (cp_runs s)" "m \<in> set (to_start (cp_media s))"
  shows "run_id r \<noteq> (ui_key m, ui_attempt m)"
  using inv_fits [OF assms(1,2), of m] to_start_props [OF assms(3)] by (auto simp: run_fits_def run_id_def)

lemma keys_ok_add:
  assumes keys: "keys_ok n ms rs" and keep: "map ui_key ms' = map ui_key ms" and sub: "set st \<subseteq> set ms"
    and ids: "distinct (map run_id (map fresh_run st))" "\<And>r m. r \<in> set rs \<Longrightarrow> m \<in> set st \<Longrightarrow> run_id r \<noteq> run_id (fresh_run m)"
  shows "keys_ok n ms' (rs @ map fresh_run st)"
proof -
  have k: "distinct (map ui_key ms)" "distinct (map run_id rs)" "ui_key ` set ms \<subseteq> Collect (key_below n)"
    "ur_key ` set rs \<subseteq> Collect (key_below n)" using keys by (simp_all only: keys_ok_def)
  have "set (map run_id rs) \<inter> set (map run_id (map fresh_run st)) = {}" using ids(2) unfolding set_map by blast
  with k(2) ids(1) have d: "distinct (map run_id (rs @ map fresh_run st))" by (simp only: map_append distinct_append simp_thms)
  have e: "ur_key ` set (rs @ map fresh_run st) = ur_key ` set rs \<union> ui_key ` set st"
    by (simp add: image_Un image_image)
  have "ui_key ` set st \<subseteq> ui_key ` set ms" using sub by (rule image_mono)
  with k(3,4) have u: "ur_key ` set (rs @ map fresh_run st) \<subseteq> Collect (key_below n)" unfolding e by blast
  have "ui_key ` set ms' = ui_key ` set ms" using arg_cong [OF keep, of set] unfolding set_map .
  moreover have "distinct (map ui_key ms')" using k(1) unfolding keep .
  ultimately show ?thesis using k(3) d u by (simp only: keys_ok_def simp_thms)
qed

lemma schedule_keys:
  assumes inv: "composer_inv s"
  shows "keys_ok (cp_itemSeq s) (map (started (cp_media s)) (cp_media s)) (cp_runs s @ map fresh_run (to_start (cp_media s)))"
proof (rule keys_ok_add)
  show k: "keys_ok (cp_itemSeq s) (cp_media s) (cp_runs s)" using inv by (simp only: composer_inv_def)
  show "map ui_key (map (started (cp_media s)) (cp_media s)) = map ui_key (cp_media s)" by simp
  show "set (to_start (cp_media s)) \<subseteq> set (cp_media s)" using to_start_props by blast
  have "distinct (map ui_key (cp_media s))" using k by (simp only: keys_ok_def)
  from to_start_tokens [OF this] have "distinct (map (\<lambda>m. tokenOf (ui_key m) (ui_attempt m)) (to_start (cp_media s)))" .
  then show "distinct (map run_id (map fresh_run (to_start (cp_media s))))"
    by (induction "to_start (cp_media s)") (auto simp: distinct_map inj_on_def)
  show "run_id r \<noteq> run_id (fresh_run m)" if "r \<in> set (cp_runs s)" "m \<in> set (to_start (cp_media s))" for r m
    using start_not_running [OF inv that] by simp
qed

lemma schedule_runs:
  assumes inv: "composer_inv s"
  defines "ms \<equiv> cp_media s" and "rs \<equiv> cp_runs s" and "st \<equiv> to_start (cp_media s)"
  shows "runs_ok (map (started ms) ms) (rs @ map fresh_run st)"
  unfolding runs_ok_def
proof (intro conjI ballI impI)
  have dk: "distinct (map ui_key ms)" using inv by (simp add: composer_inv_def keys_ok_def ms_def)
  fix r x assume r: "r \<in> set (rs @ map fresh_run st)" and "x \<in> set (map (started ms) ms)"
  then obtain m where m: "m \<in> set ms" "x = started ms m" by auto
  show "run_fits r x"
  proof (cases "r \<in> set rs")
    case True
    with m show ?thesis using inv_fits [OF inv, of r m] start_not_running [OF inv, of r m]
      by (auto simp: run_fits_def run_id_def rs_def ms_def)
  next
    case False
    with r obtain y where y: "y \<in> set st" "r = fresh_run y" by auto
    then have "ui_key y = ui_key m \<Longrightarrow> y = m" using same_key [OF dk _ m(1)] to_start_props by (simp add: st_def ms_def)
    with y m(2) show ?thesis by (auto simp: run_fits_def st_def ms_def)
  qed
next
  fix r assume r: "r \<in> set (rs @ map fresh_run st)" "\<not> ur_aborted r"
  have "\<exists>m \<in> set ms. ui_key m = ur_key r \<and> ui_attempt m = ur_attempt r"
  proof (cases "r \<in> set rs")
    case True
    with inv r(2) show ?thesis by (simp add: composer_inv_def runs_ok_def rs_def ms_def)
  next
    case False
    with r(1) obtain m where "m \<in> set st" "r = fresh_run m" by auto
    then show ?thesis using to_start_props unfolding st_def ms_def by (intro bexI [of _ m]) simp_all
  qed
  then obtain m where "m \<in> set ms" "ui_key m = ur_key r" "ui_attempt m = ur_attempt r" by blast
  then show "\<exists>x \<in> set (map (started ms) ms). ui_key x = ur_key r \<and> ui_attempt x = ur_attempt r"
    by (intro bexI [of _ "started ms m"]) simp_all
next
  fix x assume "x \<in> set (map (started ms) ms)" "is_uploading (ui_status x)"
  then obtain m where m: "m \<in> set ms" "x = started ms m" "m \<in> set st \<or> is_uploading (ui_status m)" by (auto simp: st_def ms_def)
  from m(3) show "\<exists>r \<in> set (rs @ map fresh_run st). run_id r = (ui_key x, ui_attempt x)"
  proof
    assume "m \<in> set st"
    then show ?thesis using m(2) by (intro bexI [of _ "fresh_run m"]) simp_all
  next
    assume "is_uploading (ui_status m)"
    with inv m(1) obtain r where "r \<in> set rs" "run_id r = (ui_key m, ui_attempt m)"
      unfolding composer_inv_def runs_ok_def rs_def ms_def by blast
    then show ?thesis using m(2) by (intro bexI [of _ r]) simp_all
  qed
qed

lemma tokens_ok_add:
  assumes "tokens_ok rs fs cs" "set fs' = set fs \<union> item_token ` set st" "set cs' = set cs \<union> item_token ` set st"
  shows "tokens_ok (rs @ map fresh_run st) fs' cs'"
  unfolding tokens_ok_def assms(2,3)
proof (intro conjI ballI impI)
  fix t assume "t \<in> set fs \<union> item_token ` set st"
  then show "\<exists>r \<in> set (rs @ map fresh_run st). t = tokenOf (ur_key r) (ur_attempt r)"
  proof
    assume "t \<in> item_token ` set st"
    then obtain m where "m \<in> set st" "t = item_token m" by blast
    then show ?thesis by (intro bexI [of _ "fresh_run m"]) simp_all
  qed (use assms(1) in \<open>auto simp: tokens_ok_def\<close>)
next
  fix r assume "r \<in> set (rs @ map fresh_run st)" "\<not> ur_aborted r"
  then show "tokenOf (ur_key r) (ur_attempt r) \<in> (set fs \<union> item_token ` set st) \<inter> (set cs \<union> item_token ` set st)"
    using assms(1) by (cases "r \<in> set rs") (auto simp: tokens_ok_def)
qed

lemma schedule_inv:
  assumes inv: "composer_inv s" shows "composer_inv (schedule s)"
proof -
  have dk: "distinct (map ui_key (cp_media s))" and act: "active_uploads (cp_media s) \<le> UPLOAD_CONCURRENCY"
    and toks: "tokens_ok (cp_runs s) (cp_inFlight s) (cp_controllers s)"
    using inv by (simp_all add: composer_inv_def keys_ok_def)
  note sch = schedule_media [OF inv]
  have "log_ok (map (started (cp_media s)) (cp_media s)) (cp_log s)"
    using inv by (auto simp: composer_inv_def log_ok_def started_def split: if_splits)
  moreover have "length (map (started (cp_media s)) (cp_media s)) \<le> MAX_MEDIA" using inv by (simp add: composer_inv_def)
  ultimately show ?thesis
    by (intro composer_invI [OF schedule_keys [OF inv] schedule_runs [OF inv] tokens_ok_add [OF toks sch(3,4)] _ started_active [OF dk act]])
       (simp_all add: sch)
qed

text \<open>Aborting the run of an item, and the steps that do.\<close>

definition abort_run :: "str \<times> nat \<Rightarrow> upload_run list \<Rightarrow> upload_run list" where
  "abort_run i rs = map (\<lambda>r. if run_id r = i then r\<lparr>ur_aborted := True\<rparr> else r) rs"

lemma abort_token_runs:
  assumes "tokens_ok (cp_runs s) (cp_inFlight s) (cp_controllers s)"
  shows "abort_token (tokenOf k a) s = s\<lparr>cp_runs := abort_run (k, a) (cp_runs s)\<rparr>"
proof (cases "tokenOf k a \<in> set (cp_controllers s)")
  case True
  then show ?thesis by (simp add: abort_token_def abort_run_def run_id_def)
next
  case False
  have "(if run_id r = (k, a) then r\<lparr>ur_aborted := True\<rparr> else r) = r" if "r \<in> set (cp_runs s)" for r
    using assms that False by (cases r) (auto simp: tokens_ok_def run_id_def)
  then have "abort_run (k, a) (cp_runs s) = cp_runs s" by (simp add: abort_run_def map_idI)
  with False show ?thesis by (simp add: abort_token_def)
qed

lemma abort_run_mem:
  "r \<in> set (abort_run i rs) \<Longrightarrow> \<exists>q \<in> set rs. run_id r = run_id q \<and> ur_key r = ur_key q \<and> ur_attempt r = ur_attempt q
     \<and> ur_uri r = ur_uri q \<and> ur_aborted r = (ur_aborted q \<or> run_id q = i)"
  by (auto simp: abort_run_def run_id_def)

lemma abort_run_ids: "map run_id (abort_run i rs) = map run_id rs" "map ur_key (abort_run i rs) = map ur_key rs"
  by (simp_all add: abort_run_def run_id_def)

lemma abort_run_keys: "ur_key ` set (abort_run i rs) = ur_key ` set rs"
  using arg_cong [OF abort_run_ids(2), of set] by (simp only: set_map)

lemma abort_keys_ok: "keys_ok n ms (abort_run i rs) = keys_ok n ms rs"
  by (simp add: keys_ok_def abort_run_ids abort_run_keys)

lemma abort_tokens_ok: "tokens_ok rs fs cs \<Longrightarrow> tokens_ok (abort_run i rs) fs cs"
  unfolding tokens_ok_def
proof (intro conjI ballI impI)
  assume t: "(\<forall>t \<in> set fs. \<exists>r \<in> set rs. t = tokenOf (ur_key r) (ur_attempt r))
     \<and> (\<forall>r \<in> set rs. \<not> ur_aborted r \<longrightarrow> tokenOf (ur_key r) (ur_attempt r) \<in> set fs \<inter> set cs)"
  fix tk assume "tk \<in> set fs"
  with t obtain r where r: "r \<in> set rs" "tk = tokenOf (ur_key r) (ur_attempt r)" by blast
  let ?q = "if run_id r = i then r\<lparr>ur_aborted := True\<rparr> else r"
  have "?q \<in> set (abort_run i rs)" using r(1) unfolding abort_run_def set_map by (rule imageI)
  then show "\<exists>r \<in> set (abort_run i rs). tk = tokenOf (ur_key r) (ur_attempt r)"
    by (rule bexI [rotated]) (simp add: r(2))
next
  assume t: "(\<forall>t \<in> set fs. \<exists>r \<in> set rs. t = tokenOf (ur_key r) (ur_attempt r))
     \<and> (\<forall>r \<in> set rs. \<not> ur_aborted r \<longrightarrow> tokenOf (ur_key r) (ur_attempt r) \<in> set fs \<inter> set cs)"
  fix r assume "r \<in> set (abort_run i rs)" "\<not> ur_aborted r"
  then show "tokenOf (ur_key r) (ur_attempt r) \<in> set fs \<inter> set cs" using t abort_run_mem [of r i rs] by auto
qed

text \<open>
  An item leaves its attempt behind: it is removed, or replaced by one of a later attempt that is not
  uploading. The others stay. Its run, if there is one, is aborted.
\<close>

lemma leave_runs_ok:
  assumes runs: "runs_ok ms rs" and keys: "distinct (map ui_key ms)" and m: "m \<in> set ms"
    and others: "\<And>x. x \<in> set ms' \<Longrightarrow> x \<in> set ms - {m} \<or> (ui_key x = ui_key m \<and> ui_attempt m < ui_attempt x \<and> \<not> is_uploading (ui_status x))"
    and kept: "set ms - {m} \<subseteq> set ms'"
  shows "runs_ok ms' (abort_run (ui_key m, ui_attempt m) rs)"
  unfolding runs_ok_def
proof (intro conjI ballI impI)
  fix r x assume "r \<in> set (abort_run (ui_key m, ui_attempt m) rs)" and x: "x \<in> set ms'"
  from abort_run_mem [OF this(1)] obtain q where q: "q \<in> set rs" "ur_key r = ur_key q" "ur_attempt r = ur_attempt q"
    "ur_uri r = ur_uri q" "ur_aborted r = (ur_aborted q \<or> run_id q = (ui_key m, ui_attempt m))" by blast
  from others [OF x] show "run_fits r x"
  proof
    assume x: "x \<in> set ms - {m}"
    then have "ui_key x \<noteq> ui_key m" using same_key [OF keys _ m] by auto
    moreover have "run_fits q x" using runs q(1) x by (simp add: runs_ok_def)
    ultimately show ?thesis using q by (auto simp: run_fits_def run_id_def)
  next
    assume x: "ui_key x = ui_key m \<and> ui_attempt m < ui_attempt x \<and> \<not> is_uploading (ui_status x)"
    have "run_fits q m" using runs q(1) m by (simp add: runs_ok_def)
    then show ?thesis using x q by (auto simp: run_fits_def)
  qed
next
  fix r assume "r \<in> set (abort_run (ui_key m, ui_attempt m) rs)" and live: "\<not> ur_aborted r"
  from abort_run_mem [OF this(1)] live obtain q where q: "q \<in> set rs" "ur_key r = ur_key q" "ur_attempt r = ur_attempt q"
    "\<not> ur_aborted q" "run_id q \<noteq> (ui_key m, ui_attempt m)" by auto
  then obtain x where x: "x \<in> set ms" "ui_key x = ur_key q" "ui_attempt x = ur_attempt q" using runs by (auto simp: runs_ok_def)
  with q(5) have "x \<in> set ms'" using kept by (auto simp: run_id_def)
  with x q show "\<exists>x \<in> set ms'. ui_key x = ur_key r \<and> ui_attempt x = ur_attempt r" by auto
next
  fix x assume "x \<in> set ms'" "is_uploading (ui_status x)"
  then have "x \<in> set ms" "is_uploading (ui_status x)" using others by auto
  then obtain q where q: "q \<in> set rs" "run_id q = (ui_key x, ui_attempt x)" using runs unfolding runs_ok_def by blast
  then have "(ui_key x, ui_attempt x) \<in> set (map run_id (abort_run (ui_key m, ui_attempt m) rs))"
    unfolding abort_run_ids set_map by (metis image_eqI)
  then show "\<exists>r \<in> set (abort_run (ui_key m, ui_attempt m) rs). run_id r = (ui_key x, ui_attempt x)" by auto
qed

text \<open>What removal and editing have in common.\<close>

lemma leave_inv:
  assumes inv: "composer_inv s" and m: "m \<in> set (cp_media s)"
    and others: "\<And>x. x \<in> set ms' \<Longrightarrow> x \<in> set (cp_media s) - {m} \<or> (ui_key x = ui_key m \<and> ui_attempt m < ui_attempt x \<and> ui_status x = UpQueued)"
    and kept: "set (cp_media s) - {m} \<subseteq> set ms'" and dist: "distinct (map ui_key ms')" and len: "length ms' \<le> length (cp_media s)"
    and t: "cp_itemSeq t = cp_itemSeq s" "cp_media t = ms'" "cp_runs t = cp_runs (abort_token (item_token m) s)"
      "cp_inFlight t = cp_inFlight s" "cp_controllers t = cp_controllers s" "cp_log t = cp_log s"
  shows "composer_inv t"
proof -
  let ?ms = "cp_media s" and ?rs = "cp_runs s"
  have keys: "keys_ok (cp_itemSeq s) ?ms ?rs" and runs: "runs_ok ?ms ?rs"
    and toks: "tokens_ok ?rs (cp_inFlight s) (cp_controllers s)" and lg: "log_ok ?ms (cp_log s)"
    and act: "active_uploads ?ms \<le> UPLOAD_CONCURRENCY" and len': "length ?ms \<le> MAX_MEDIA"
    using inv by (simp_all add: composer_inv_def)
  have dk: "distinct (map ui_key ?ms)" using keys by (simp add: keys_ok_def)
  have up: "{x \<in> set ms'. is_uploading (ui_status x)} \<subseteq> {x \<in> set ?ms. is_uploading (ui_status x)}" using others by fastforce
  have d: "distinct ?ms" "distinct ms'" using dk dist by (simp_all add: distinct_map)
  have "active_uploads ms' \<le> active_uploads ?ms"
    unfolding active_uploads_def length_filter_card [OF d(1)] length_filter_card [OF d(2)] by (rule card_mono [OF _ up]) simp
  moreover have "ui_key ` set ms' \<subseteq> ui_key ` set ?ms" using others m by fastforce
  then have "keys_ok (cp_itemSeq s) ms' (abort_run (ui_key m, ui_attempt m) ?rs)"
    unfolding abort_keys_ok using keys dist by (auto simp: keys_ok_def)
  moreover have "runs_ok ms' (abort_run (ui_key m, ui_attempt m) ?rs)"
    by (rule leave_runs_ok [OF runs dk m _ kept]) (use others in fastforce)
  moreover have "log_ok ms' (cp_log s)" using lg others by (fastforce simp: log_ok_def)
  moreover have "cp_runs t = abort_run (ui_key m, ui_attempt m) ?rs" using t(3) by (simp add: abort_token_runs [OF toks])
  ultimately show ?thesis
    using abort_tokens_ok [OF toks] act len len' t by (intro composer_invI) simp_all
qed

lemma remove_nth_mem:
  assumes "distinct (map f xs)" "i < length xs"
  shows "set (remove_nth i xs) = set xs - {xs ! i}" "distinct (map f (remove_nth i xs))" "length (remove_nth i xs) = length xs - 1"
proof -
  have "f x = f (xs ! i) \<longleftrightarrow> x = xs ! i" if "x \<in> set xs" for x
    using assms that by (metis distinct_map inj_onD nth_mem)
  then show "set (remove_nth i xs) = set xs - {xs ! i}" using drop_nth_set(1) [OF assms] by (auto simp: remove_nth_drop)
  show "distinct (map f (remove_nth i xs))" using drop_nth_set(2) [OF assms] by (simp add: remove_nth_drop)
  show "length (remove_nth i xs) = length xs - 1" using assms(2) by (simp add: remove_nth_def)
qed

lemma abort_token_simps [simp]:
  "cp_itemSeq (abort_token tk s) = cp_itemSeq s" "cp_media (abort_token tk s) = cp_media s"
  "cp_inFlight (abort_token tk s) = cp_inFlight s" "cp_controllers (abort_token tk s) = cp_controllers s"
  "cp_log (abort_token tk s) = cp_log s"
  by (simp_all add: abort_token_def)

lemma removeAt_inv: assumes inv: "composer_inv s" shows "composer_inv (removeAt i s)"
proof (cases "i < length (cp_media s)")
  case False
  with inv show ?thesis by (simp add: removeAt_def composer_inv_def remove_nth_def)
next
  case True
  let ?m = "cp_media s ! i"
  have dk: "distinct (map ui_key (cp_media s))" using inv by (simp add: composer_inv_def keys_ok_def)
  note rem = remove_nth_mem [OF dk True]
  show ?thesis
    by (rule leave_inv [OF inv, of ?m "remove_nth i (cp_media s)"]) (use True rem in \<open>simp_all add: removeAt_def Let_def\<close>)
qed

lemma applyEdit_inv: assumes inv: "composer_inv s" shows "composer_inv (applyEdit i uri s)"
proof (cases "i < length (cp_media s)")
  case False
  with inv show ?thesis by (simp add: applyEdit_def composer_inv_def)
next
  case True
  let ?m = "cp_media s ! i" and ?ms = "cp_media s"
  have dk: "distinct (map ui_key ?ms)" using inv by (simp add: composer_inv_def keys_ok_def)
  have "distinct ?ms" using dk by (simp add: distinct_map)
  then have mem: "set (?ms[i := edited_item uri ?m]) = insert (edited_item uri ?m) (set ?ms - {?m})"
    using True by (rule set_update_distinct)
  have keys: "map ui_key (?ms[i := edited_item uri ?m]) = map ui_key ?ms"
  proof -
    have "ui_key (edited_item uri ?m) = map ui_key ?ms ! i" using True by (simp add: edited_item_def)
    then show ?thesis by (simp only: map_update list_update_id)
  qed
  show ?thesis
  proof (rule leave_inv [OF inv, of ?m "?ms[i := edited_item uri ?m]"])
    show "x \<in> set ?ms - {?m} \<or> (ui_key x = ui_key ?m \<and> ui_attempt ?m < ui_attempt x \<and> ui_status x = UpQueued)"
      if "x \<in> set (?ms[i := edited_item uri ?m])" for x
      using that unfolding mem by (elim insertE) (simp_all add: edited_item_def)
    show "set ?ms - {?m} \<subseteq> set (?ms[i := edited_item uri ?m])" unfolding mem by blast
    show "distinct (map ui_key (?ms[i := edited_item uri ?m]))" unfolding keys by (rule dk)
  qed (use True in \<open>simp_all add: applyEdit_def Let_def\<close>)
qed

text \<open>A retry, fresh items, another order, and the reset.\<close>

lemma retry_inv: assumes inv: "composer_inv s" shows "composer_inv (retry_upload key s)"
proof -
  let ?f = "\<lambda>m. if ui_key m = key \<and> is_failed (ui_status m)
      then m\<lparr>ui_attempt := ui_attempt m + 1, ui_status := UpQueued\<rparr> else m"
  let ?ms = "cp_media s" and ?rs = "cp_runs s"
  have f: "ui_key (?f m) = ui_key m" "is_uploading (ui_status (?f m)) = is_uploading (ui_status m)"
    "is_uploading (ui_status m) \<Longrightarrow> ?f m = m" for m by (cases "ui_status m"; simp)+
  have keys: "keys_ok (cp_itemSeq s) ?ms ?rs" and runs: "runs_ok ?ms ?rs" using inv by (simp_all add: composer_inv_def)
  have "map ui_key (map ?f ?ms) = map ui_key ?ms" by simp
  then have "keys_ok (cp_itemSeq s) (map ?f ?ms) ?rs" using keys unfolding keys_ok_def by (simp only: set_map [symmetric])
  moreover have "runs_ok (map ?f ?ms) ?rs"
    unfolding runs_ok_def
  proof (intro conjI ballI impI)
    fix r x assume r: "r \<in> set ?rs" and "x \<in> set (map ?f ?ms)"
    then obtain m where m: "m \<in> set ?ms" "x = ?f m" by auto
    then show "run_fits r x" using inv_fits [OF inv r m(1)] by (auto simp: run_fits_def)
  next
    fix r assume r: "r \<in> set ?rs" "\<not> ur_aborted r"
    then obtain m where m: "m \<in> set ?ms" "ui_key m = ur_key r" "ui_attempt m = ur_attempt r" using runs by (auto simp: runs_ok_def)
    have "is_uploading (ui_status m)" using m inv_fits [OF inv r(1) m(1)] by (simp add: run_fits_def)
    then have "?f m = m" by (rule f(3))
    moreover have "?f m \<in> ?f ` set ?ms" using m(1) by (rule imageI)
    ultimately have "m \<in> set (map ?f ?ms)" by (simp only: set_map)
    with m show "\<exists>x \<in> set (map ?f ?ms). ui_key x = ur_key r \<and> ui_attempt x = ur_attempt r" by blast
  next
    fix x assume "x \<in> set (map ?f ?ms)" "is_uploading (ui_status x)"
    then obtain m where m: "m \<in> set ?ms" "x = ?f m" by auto
    with \<open>is_uploading (ui_status x)\<close> have u: "is_uploading (ui_status m)" by (simp only: f(2))
    then have "x = m" using f(3) m(2) by (simp only:)
    with m(1) u runs show "\<exists>r \<in> set ?rs. run_id r = (ui_key x, ui_attempt x)" unfolding runs_ok_def by blast
  qed
  moreover have "log_ok (map ?f ?ms) (cp_log s)" using inv by (auto simp: composer_inv_def log_ok_def split: if_splits)
  moreover have "active_uploads (map ?f ms) = active_uploads ms" for ms
    by (induction ms) (auto simp: active_uploads_def)
  ultimately show ?thesis
    using inv by (intro composer_invI [of "cp_itemSeq s" "map ?f ?ms" ?rs]) (simp_all add: composer_inv_def retry_upload_def)
qed

lemma runs_ok_mono:
  assumes "runs_ok ms rs" "set ms \<subseteq> set ms'"
    and "\<And>x r. x \<in> set ms' - set ms \<Longrightarrow> r \<in> set rs \<Longrightarrow> ur_key r \<noteq> ui_key x"
    and "\<And>x. x \<in> set ms' - set ms \<Longrightarrow> \<not> is_uploading (ui_status x)"
  shows "runs_ok ms' rs"
  unfolding runs_ok_def
proof (intro conjI ballI impI)
  fix r x assume "r \<in> set rs" "x \<in> set ms'"
  then show "run_fits r x" using assms(1) assms(3) [of x r] by (cases "x \<in> set ms") (auto simp: runs_ok_def run_fits_def)
next
  fix r assume "r \<in> set rs" "\<not> ur_aborted r"
  with assms(1,2) show "\<exists>m \<in> set ms'. ui_key m = ur_key r \<and> ui_attempt m = ur_attempt r" unfolding runs_ok_def by blast
next
  fix m assume "m \<in> set ms'" "is_uploading (ui_status m)"
  with assms(1,4) show "\<exists>r \<in> set rs. run_id r = (ui_key m, ui_attempt m)" unfolding runs_ok_def by blast
qed

lemma picked_simps [simp]: "ui_key (picked_item now n a) = nextKey now n" "ui_status (picked_item now n a) = UpQueued"
  by (simp_all add: picked_item_def split: prod.split)

lemma pick_inv: assumes inv: "composer_inv s" shows "composer_inv (pick_done now assets s)"
proof -
  let ?ms = "cp_media s" and ?rs = "cp_runs s" and ?n = "cp_itemSeq s"
  let ?added = "map (\<lambda>(i, a). picked_item now (?n + i) a) (enumerate 0 assets)"
  let ?new = "take (MAX_MEDIA - length ?ms) ?added"
  have keys: "keys_ok ?n ?ms ?rs" and runs: "runs_ok ?ms ?rs" and len: "length ?ms \<le> MAX_MEDIA"
    using inv by (simp_all add: composer_inv_def)
  have media: "take MAX_MEDIA (?ms @ ?added) = ?ms @ ?new" using len by simp
  have added_keys: "map ui_key ?added = map (\<lambda>i. nextKey now (?n + i)) [0..<length assets]"
    by (rule nth_equalityI) (simp_all add: nth_enumerate_eq)
  have new: "\<exists>i < length assets. ui_key x = nextKey now (?n + i) \<and> ui_status x = UpQueued" if "x \<in> set ?new" for x
    using in_set_takeD [OF that] by (auto simp: in_set_enumerate_eq)
  have fresh: "\<not> key_below ?n (ui_key x)" if "x \<in> set ?new" for x
    using new [OF that] key_below_fresh [of ?n now] by fastforce
  have "distinct (map ui_key ?added)" unfolding added_keys by (auto simp: distinct_map inj_on_def dest: nextKey_seq)
  then have dn: "distinct (map ui_key ?new)" by (simp add: take_map distinct_take flip: take_map)
  have "ui_key ` set ?new \<subseteq> Collect (key_below (?n + length assets))"
  proof
    fix k assume "k \<in> ui_key ` set ?new"
    with new obtain i where "i < length assets" "k = nextKey now (?n + i)" by blast
    then have "?n + i < ?n + length assets \<and> k = nextKey now (?n + i)" by simp
    then show "k \<in> Collect (key_below (?n + length assets))" unfolding key_below_def by blast
  qed
  moreover have "Collect (key_below ?n) \<subseteq> Collect (key_below (?n + length assets))" using key_below_mono by auto
  moreover have "ui_key ` set ?ms \<inter> ui_key ` set ?new = {}" using fresh keys by (auto simp: keys_ok_def)
  ultimately have "keys_ok (?n + length assets) (?ms @ ?new) ?rs"
    using keys dn unfolding keys_ok_def map_append distinct_append set_append image_Un set_map by blast
  moreover have "runs_ok (?ms @ ?new) ?rs"
  proof (rule runs_ok_mono [OF runs])
    fix x r assume "x \<in> set (?ms @ ?new) - set ?ms" "r \<in> set ?rs"
    then show "ur_key r \<noteq> ui_key x" using fresh [of x] keys by (auto simp: keys_ok_def)
  next
    fix x assume "x \<in> set (?ms @ ?new) - set ?ms"
    then have "x \<in> set ?new" by auto
    from new [OF this] show "\<not> is_uploading (ui_status x)" by auto
  qed simp
  moreover have "log_ok (?ms @ ?new) (cp_log s)"
    using inv new unfolding composer_inv_def log_ok_def by fastforce
  moreover have "filter (\<lambda>m. is_uploading (ui_status m)) ?new = []" using new by (fastforce simp: filter_empty_conv)
  then have "active_uploads (?ms @ ?new) = active_uploads ?ms" by (simp add: active_uploads_def)
  moreover have "length (?ms @ ?new) \<le> MAX_MEDIA" unfolding media [symmetric] by simp
  ultimately show ?thesis
    using inv by (intro composer_invI [of "?n + length assets" "?ms @ ?new" ?rs])
      (simp_all add: composer_inv_def pick_done_def Let_def media)
qed

lemma moveItem_mset:
  assumes "i < length (cp_media s)" shows "mset (cp_media (moveItem i j s)) = mset (cp_media s)"
proof -
  let ?ms = "cp_media s"
  have mid: "mset (take j xs @ x # drop j xs) = add_mset x (mset xs)" for x and xs :: "'b list"
    by (metis append_take_drop_id mset.simps(2) mset_append union_mset_add_mset_right)
  have "mset (cp_media (moveItem i j s)) = add_mset (?ms ! i) (mset (remove_nth i ?ms))"
    using assms by (simp add: moveItem_def Let_def mid del: mset_append)
  also have "\<dots> = mset (take i ?ms @ ?ms ! i # drop (Suc i) ?ms)" by (simp add: remove_nth_def)
  also have "take i ?ms @ ?ms ! i # drop (Suc i) ?ms = ?ms" by (rule id_take_nth_drop [OF assms, symmetric])
  finally show ?thesis .
qed

lemma mset_inv:
  assumes inv: "composer_inv s" and "mset (cp_media t) = mset (cp_media s)"
    and t: "cp_itemSeq t = cp_itemSeq s" "cp_runs t = cp_runs s" "cp_inFlight t = cp_inFlight s"
      "cp_controllers t = cp_controllers s" "cp_log t = cp_log s"
  shows "composer_inv t"
proof -
  have "set (cp_media t) = set (cp_media s)" using assms(2) by (rule mset_eq_setD)
  moreover have "distinct (map ui_key (cp_media t)) = distinct (map ui_key (cp_media s))"
    by (rule mset_eq_imp_distinct_iff) (simp add: assms(2))
  moreover have "active_uploads (cp_media t) = active_uploads (cp_media s)" "length (cp_media t) = length (cp_media s)"
    unfolding active_uploads_def by (metis assms(2) mset_filter size_mset)+
  ultimately show ?thesis using inv t by (simp add: composer_inv_def keys_ok_def runs_ok_def log_ok_def)
qed

lemma moveItem_inv: assumes "composer_inv s" shows "composer_inv (moveItem i j s)"
proof (cases "i < length (cp_media s)")
  case True
  from mset_inv [OF assms moveItem_mset [OF True]] show ?thesis by (simp add: moveItem_def Let_def)
qed (simp add: moveItem_def assms)

lemma composer_inv_ui:
  "composer_inv (s\<lparr>cp_dragIndex := d, cp_dragAnchor := a, cp_page := p\<rparr>) = composer_inv s"
  "composer_inv (s\<lparr>cp_dragIndex := d, cp_dragAnchor := a\<rparr>) = composer_inv s"
  by (simp_all add: composer_inv_def)

lemma dragMove_inv: "composer_inv s \<Longrightarrow> composer_inv (dragMove w dx s)"
  by (simp add: dragMove_def Let_def composer_inv_ui moveItem_inv split: option.split)

lemma abort_all_runs:
  "cp_runs (fold abort_token tks s) = map (\<lambda>r. if tokenOf (ur_key r) (ur_attempt r) \<in> set tks \<inter> set (cp_controllers s)
      then r\<lparr>ur_aborted := True\<rparr> else r) (cp_runs s)
    \<and> cp_controllers (fold abort_token tks s) = cp_controllers s \<and> cp_itemSeq (fold abort_token tks s) = cp_itemSeq s
    \<and> cp_log (fold abort_token tks s) = cp_log s"
proof (induction tks arbitrary: s)
  case (Cons tk tks)
  have "cp_runs (abort_token tk s) = map (\<lambda>r. if tokenOf (ur_key r) (ur_attempt r) = tk \<and> tk \<in> set (cp_controllers s)
      then r\<lparr>ur_aborted := True\<rparr> else r) (cp_runs s)"
    by (cases "tk \<in> set (cp_controllers s)") (simp_all add: abort_token_def)
  then show ?case by (auto simp: Cons.IH)
qed simp

lemma reset_inv: assumes inv: "composer_inv s" shows "composer_inv (composer_reset s)"
proof -
  let ?rs' = "cp_runs (composer_abort_all s)"
  have toks: "tokens_ok (cp_runs s) (cp_inFlight s) (cp_controllers s)" using inv by (simp add: composer_inv_def)
  have rs': "?rs' = map (\<lambda>r. if tokenOf (ur_key r) (ur_attempt r) \<in> set (cp_controllers s)
      then r\<lparr>ur_aborted := True\<rparr> else r) (cp_runs s)"
    using abort_all_runs [of "cp_controllers s" s] by (simp add: composer_abort_all_def)
  have "ur_aborted r" if "r \<in> set ?rs'" for r
    using that toks unfolding rs' by (fastforce simp: tokens_ok_def split: if_splits)
  moreover have "map run_id ?rs' = map run_id (cp_runs s)" "map ur_key ?rs' = map ur_key (cp_runs s)"
    unfolding rs' by (simp_all add: run_id_def)
  then have "keys_ok (cp_itemSeq s) [] ?rs'" using inv unfolding composer_inv_def keys_ok_def by (simp only: set_map [symmetric]) simp
  moreover have "cp_itemSeq (composer_abort_all s) = cp_itemSeq s"
    using abort_all_runs [of "cp_controllers s" s] by (simp add: composer_abort_all_def)
  ultimately show ?thesis
    by (intro composer_invI [of "cp_itemSeq s" "[]" ?rs' "[]" "[]" "cp_log (composer_abort_all s)"])
      (auto simp: composer_reset_def runs_ok_def tokens_ok_def log_ok_def active_uploads_def)
qed

section \<open>Runs of the composer\<close>

datatype composer_event =
    Picked nat "(str \<times> bool \<times> str option) list"
  | Scheduled
  | Progressed nat rat
  | UploadEnds nat "js_error + str"
  | RemoveTapped nat
  | RetryTapped str
  | Edited nat str
  | DragStarts nat
  | DragMoves rat rat
  | DragEnds
  | ResetAll

fun composer_act :: "composer_event \<Rightarrow> composer \<Rightarrow> composer" where
  "composer_act (Picked now assets) s = pick_done now assets s"
| "composer_act Scheduled s = schedule s"
| "composer_act (Progressed i f) s = upload_progress i f s"
| "composer_act (UploadEnds i res) s = upload_finished i res s"
| "composer_act (RemoveTapped i) s = removeAt i s"
| "composer_act (RetryTapped key) s = retry_upload key s"
| "composer_act (Edited i uri) s = applyEdit i uri s"
| "composer_act (DragStarts i) s = startDrag i s"
| "composer_act (DragMoves w dx) s = dragMove w dx s"
| "composer_act DragEnds s = endDrag s"
| "composer_act ResetAll s = composer_reset s"

abbreviation composer_run :: "composer_event list \<Rightarrow> composer \<Rightarrow> composer" where
  "composer_run evs s \<equiv> fold composer_act evs s"

lemma composer_act_inv: "composer_inv s \<Longrightarrow> composer_inv (composer_act e s)"
  by (cases e) (simp_all add: pick_inv schedule_inv progress_inv finished_inv removeAt_inv retry_inv applyEdit_inv
      dragMove_inv reset_inv startDrag_def endDrag_def composer_inv_ui)

lemma composer0_inv: "composer_inv composer0"
  by (simp add: composer_inv_def composer0_def keys_ok_def runs_ok_def tokens_ok_def log_ok_def active_uploads_def)

lemma composer_run_inv: "composer_inv s \<Longrightarrow> composer_inv (composer_run evs s)"
  by (induction evs arbitrary: s) (simp_all add: composer_act_inv)

section \<open>What the invariant means\<close>

lemma run_ids_unique:
  assumes "distinct (map run_id rs)" "r \<in> set rs" "q \<in> set rs" "run_id r = run_id q" shows "r = q"
  using assms by (auto simp: distinct_map dest: inj_onD)

text \<open>
  C6: In every run of the composer at most three files are uploading and at most ten are attached; an item
  that shows an upload has exactly one request under way that will report to it, and that request is
  sending the item's present file; and a request that was not cancelled belongs to an item of the composer
  which is uploading it, so that nothing is sent for an item that was removed, replaced or retried.
\<close>

theorem uploads_exactly_once:
  "let s = composer_run evs composer0 in
   active_uploads (cp_media s) \<le> UPLOAD_CONCURRENCY \<and> length (cp_media s) \<le> MAX_MEDIA
   \<and> (\<forall>m. m \<in> set (cp_media s) \<and> is_uploading (ui_status m) \<longrightarrow>
        (\<exists>!r. r \<in> set (cp_runs s) \<and> ur_key r = ui_key m \<and> ur_attempt r = ui_attempt m)
        \<and> (\<exists>r \<in> set (cp_runs s). ur_key r = ui_key m \<and> ur_attempt r = ui_attempt m \<and> ur_uri r = ui_uri m \<and> \<not> ur_aborted r))
   \<and> (\<forall>r. r \<in> set (cp_runs s) \<and> \<not> ur_aborted r \<longrightarrow>
        (\<exists>m \<in> set (cp_media s). ui_key m = ur_key r \<and> ui_attempt m = ur_attempt r \<and> is_uploading (ui_status m) \<and> ui_uri m = ur_uri r))"
proof -
  define s where "s = composer_run evs composer0"
  have inv: "composer_inv s" unfolding s_def by (rule composer_run_inv [OF composer0_inv])
  then have runs: "runs_ok (cp_media s) (cp_runs s)" and ids: "distinct (map run_id (cp_runs s))"
    by (simp_all only: composer_inv_def keys_ok_def)
  have up: "(\<exists>!r. r \<in> set (cp_runs s) \<and> ur_key r = ui_key m \<and> ur_attempt r = ui_attempt m)
      \<and> (\<exists>r \<in> set (cp_runs s). ur_key r = ui_key m \<and> ur_attempt r = ui_attempt m \<and> ur_uri r = ui_uri m \<and> \<not> ur_aborted r)"
    if m: "m \<in> set (cp_media s)" "is_uploading (ui_status m)" for m
  proof -
    obtain r where r: "r \<in> set (cp_runs s)" "ur_key r = ui_key m" "ur_attempt r = ui_attempt m"
      using runs m by (auto simp: runs_ok_def run_id_def)
    moreover have "q = r" if "q \<in> set (cp_runs s)" "ur_key q = ui_key m" "ur_attempt q = ui_attempt m" for q
      using run_ids_unique [OF ids that(1) r(1)] that r by (simp add: run_id_def)
    moreover have "ur_uri r = ui_uri m" "\<not> ur_aborted r" using inv_fits [OF inv r(1) m(1)] r by (simp_all add: run_fits_def)
    ultimately show ?thesis by blast
  qed
  have live: "\<exists>m \<in> set (cp_media s). ui_key m = ur_key r \<and> ui_attempt m = ur_attempt r \<and> is_uploading (ui_status m) \<and> ui_uri m = ur_uri r"
    if r: "r \<in> set (cp_runs s)" "\<not> ur_aborted r" for r
  proof -
    obtain m where m: "m \<in> set (cp_media s)" "ui_key m = ur_key r" "ui_attempt m = ur_attempt r"
      using runs r by (auto simp: runs_ok_def)
    with inv_fits [OF inv r(1) m(1)] show ?thesis by (auto simp: run_fits_def)
  qed
  from up live inv show ?thesis
    unfolding s_def [symmetric] Let_def by (intro conjI) (auto simp: composer_inv_def)
qed

definition two_picks :: "composer_event list" where
  "two_picks = [Picked 0 [([1], False, None), ([2], False, None)], Scheduled]"

definition edit_race :: "composer_event list" where
  "edit_race = [Picked 0 [([1], False, None)], Scheduled, Edited 0 [2], Scheduled, UploadEnds 0 (Inr [65]), UploadEnds 0 (Inr [66])]"

definition one_upload :: "composer_event list" where
  "one_upload = [Picked 0 [([1], False, None)], Scheduled, UploadEnds 0 (Inr [65])]"

text \<open>The instances of the theorems on uploads, evaluated once.\<close>

lemma demo_uploads:
  "active_uploads (cp_media (composer_run two_picks composer0)) = 2 \<and> cp_media (composer_run two_picks composer0) \<noteq> []
   \<and> (let m = hd (cp_media (composer_run two_picks composer0)) in is_uploading (ui_status m) \<and> ui_key m = nextKey 0 0 \<and> ui_attempt m = 0)
   \<and> cp_media (composer_run edit_race composer0)
      = [\<lparr> ui_key = nextKey 0 0, ui_attempt = 1, ui_uri = [2], ui_kind = ImageMedia, ui_mime = lit ''image/jpeg'', ui_status = UpReady [66] \<rparr>]
   \<and> cp_media (composer_run one_upload composer0)
      = [\<lparr> ui_key = nextKey 0 0, ui_attempt = 0, ui_uri = [1], ui_kind = ImageMedia, ui_mime = lit ''image/jpeg'', ui_status = UpReady [65] \<rparr>]
   \<and> cp_stage (composer_run one_upload composer0) = ComposerIdle
   \<and> (let s = composer_run [Picked 0 [([1], False, None)]] composer0 in to_start (cp_media s) \<noteq> [] \<and> 0 < length (cp_runs (schedule s))
        \<and> length (filter (\<lambda>m. ui_status m = UpQueued) (cp_media s)) = 1 \<and> length (cp_runs s) = 0
        \<and> uploads_settled (upload_finished 0 (Inr [65]) (schedule s)))"
  by code_simp

theorem uploads_exactly_once_witness:
  "active_uploads (cp_media (composer_run two_picks composer0)) = 2
   \<and> (\<exists>!r. r \<in> set (cp_runs (composer_run two_picks composer0)) \<and> ur_key r = nextKey 0 0 \<and> ur_attempt r = 0)"
proof -
  let ?m = "hd (cp_media (composer_run two_picks composer0))"
  have "active_uploads (cp_media (composer_run two_picks composer0)) = 2" using demo_uploads by blast
  moreover have "cp_media (composer_run two_picks composer0) \<noteq> []" "is_uploading (ui_status ?m)" "ui_key ?m = nextKey 0 0"
    "ui_attempt ?m = 0" using demo_uploads unfolding Let_def by blast+
  moreover have "?m \<in> set (cp_media (composer_run two_picks composer0))" using calculation(2) by simp
  moreover note uploads_exactly_once [of two_picks, unfolded Let_def, THEN conjunct2, THEN conjunct2, THEN conjunct1,
      THEN spec [of _ ?m], THEN mp, THEN conjunct1]
  ultimately show ?thesis by (simp only: simp_thms)
qed

text \<open>
  C20: Whatever the user picked, edited, removed, retried or dragged, and in whatever order the uploads
  ended, an id that the composer holds ready for an item was answered to an upload of the file the item
  shows: no post carries the picture as it was before an edit.
\<close>

theorem posted_media_is_current:
  assumes "m \<in> set (cp_media (composer_run evs composer0))" "ui_status m = UpReady mediaId"
  shows "(ui_uri m, mediaId) \<in> set (cp_log (composer_run evs composer0))"
proof -
  have "composer_inv (composer_run evs composer0)" by (rule composer_run_inv [OF composer0_inv])
  with assms show ?thesis by (simp add: composer_inv_def log_ok_def)
qed

theorem posted_media_is_current_witness:
  "map (\<lambda>m. (ui_uri m, ui_status m)) (cp_media (composer_run edit_race composer0)) = [([2], UpReady [66])]
   \<and> ([2], [66]) \<in> set (cp_log (composer_run edit_race composer0))"
proof -
  have e: "cp_media (composer_run edit_race composer0)
      = [\<lparr> ui_key = nextKey 0 0, ui_attempt = 1, ui_uri = [2], ui_kind = ImageMedia, ui_mime = lit ''image/jpeg'', ui_status = UpReady [66] \<rparr>]"
    using demo_uploads by blast
  with posted_media_is_current [of "hd (cp_media (composer_run edit_race composer0))" edit_race "[66]"]
  show ?thesis by simp
qed

section \<open>The engine comes to rest\<close>

text \<open>What happens without the user: an effect of the scheduler that starts something, and the end of a request.\<close>

inductive upload_step :: "composer \<Rightarrow> composer \<Rightarrow> bool" where
  Starts: "to_start (cp_media s) \<noteq> [] \<Longrightarrow> upload_step s (schedule s)"
| Ends: "i < length (cp_runs s) \<Longrightarrow> upload_step s (upload_finished i res s)"

definition queued_count :: "upload_item list \<Rightarrow> nat" where
  "queued_count ms = length (filter (\<lambda>m. ui_status m = UpQueued) ms)"

definition upload_rank :: "composer \<Rightarrow> nat" where
  "upload_rank s = 2 * queued_count (cp_media s) + length (cp_runs s)"

lemma queued_started:
  assumes "distinct (map ui_key ms)"
  shows "queued_count (map (started ms) ms) + length (to_start ms) = queued_count ms"
proof -
  have d: "distinct ms" using assms by (simp add: distinct_map)
  then have ds: "distinct (to_start ms)" by (simp add: to_start_def distinct_take)
  let ?Q = "{m \<in> set ms. ui_status m = UpQueued}"
  have sub: "set (to_start ms) \<subseteq> ?Q" using to_start_props by blast
  have "ui_status (started ms m) = UpQueued \<longleftrightarrow> ui_status m = UpQueued \<and> m \<notin> set (to_start ms)" for m
    by (simp add: started_def)
  then have "queued_count (map (started ms) ms) = card {m \<in> set ms. ui_status m = UpQueued \<and> m \<notin> set (to_start ms)}"
    unfolding length_filter_card [OF d, symmetric] by (simp add: queued_count_def filter_map comp_def)
  also have "{m \<in> set ms. ui_status m = UpQueued \<and> m \<notin> set (to_start ms)} = ?Q - set (to_start ms)" by blast
  also have "card (?Q - set (to_start ms)) = card ?Q - length (to_start ms)"
    using card_Diff_subset [OF _ sub] distinct_card [OF ds] by simp
  finally show ?thesis
    using card_mono [OF _ sub] distinct_card [OF ds] by (simp add: queued_count_def length_filter_card [OF d])
qed

lemma queued_patch: "st \<noteq> UpQueued \<Longrightarrow> queued_count (patch_status k a st ms) \<le> queued_count ms"
  by (induction ms) (auto simp: queued_count_def patch_status_def)

lemma upload_step_rank:
  assumes "upload_step s t" "composer_inv s"
  shows "composer_inv t \<and> upload_rank t < upload_rank s \<and> map ui_key (cp_media t) = map ui_key (cp_media s)"
  using assms
proof cases
  case Starts
  have "distinct (map ui_key (cp_media s))" using assms(2) by (simp add: composer_inv_def keys_ok_def)
  from queued_started [OF this] have "2 * queued_count (map (started (cp_media s)) (cp_media s)) + length (to_start (cp_media s))
      < 2 * queued_count (cp_media s)" using Starts(2) by (simp flip: length_greater_0_conv)
  then show ?thesis
    by (simp add: upload_rank_def schedule_media [OF assms(2)] schedule_inv [OF assms(2)] Starts(1))
next
  case (Ends i res)
  have "queued_count (cp_media t) \<le> queued_count (cp_media s)" "length (cp_runs t) < length (cp_runs s)"
    "map ui_key (cp_media t) = map ui_key (cp_media s)"
    using Ends(2) unfolding Ends(1)
    by (simp_all add: upload_finished_def Let_def queued_patch patch_keys drop_nth_def split: sum.split)
  then show ?thesis using finished_inv [OF assms(2)] by (simp add: upload_rank_def Ends(1))
qed

lemma upload_stuck: assumes inv: "composer_inv s" shows "uploads_settled s \<or> (\<exists>u. upload_step s u)"
proof (cases "cp_runs s")
  case (Cons r rs)
  then show ?thesis using upload_step.Ends [of 0 s "Inr []"] by auto
next
  case Nil
  then have quiet: "\<not> is_uploading (ui_status m)" if "m \<in> set (cp_media s)" for m
    using inv that unfolding composer_inv_def runs_ok_def by auto
  then have "filter (\<lambda>m. is_uploading (ui_status m)) (cp_media s) = []" by (simp add: filter_empty_conv)
  then have idle: "active_uploads (cp_media s) = 0" by (simp add: active_uploads_def)
  show ?thesis
  proof (cases "uploads_settled s")
    case False
    then obtain m where m: "m \<in> set (cp_media s)" "\<not> is_settled (ui_status m)" by (auto simp: uploads_settled_def list_all_iff)
    with quiet [OF m(1)] have "ui_status m = UpQueued" by (cases "ui_status m") simp_all
    with m(1) have "filter (\<lambda>m. ui_status m = UpQueued) (cp_media s) \<noteq> []" by (auto simp: filter_empty_conv)
    then have "to_start (cp_media s) \<noteq> []" using idle by (simp add: to_start_def UPLOAD_CONCURRENCY_def)
    then show ?thesis using upload_step.Starts by blast
  qed simp
qed

lemma upload_steps_rank:
  "(upload_step ^^ n) s t \<Longrightarrow> composer_inv s
    \<Longrightarrow> composer_inv t \<and> n + upload_rank t \<le> upload_rank s \<and> map ui_key (cp_media t) = map ui_key (cp_media s)"
proof (induction n arbitrary: t)
  case (Suc n)
  then obtain u where "(upload_step ^^ n) s u" "upload_step u t" by auto
  with Suc.IH [OF this(1) Suc.prems(2)] upload_step_rank [OF this(2)] show ?case by simp
qed simp

text \<open>
  C21: The uploads always come to an end, so that the wait before a post does: from every state the composer
  can reach, whatever order the requests end in and whatever they answer, the scheduler and the requests
  can take at most as many steps as there are requests, and two for each queued file; the items stay, and a
  step is possible until each of them is ready or has failed.
\<close>

theorem uploads_settle:
  assumes "(upload_step ^^ n) (composer_run evs composer0) t"
  shows "n \<le> 2 * queued_count (cp_media (composer_run evs composer0)) + length (cp_runs (composer_run evs composer0))
    \<and> map ui_key (cp_media t) = map ui_key (cp_media (composer_run evs composer0))
    \<and> (uploads_settled t \<or> (\<exists>u. upload_step t u))"
  using upload_steps_rank [OF assms composer_run_inv [OF composer0_inv]] upload_stuck [of t] by (simp add: upload_rank_def)

theorem uploads_settle_witness:
  "let s = composer_run [Picked 0 [([1], False, None)]] composer0; t = upload_finished 0 (Inr [65]) (schedule s) in
   (upload_step ^^ 2) s t \<and> queued_count (cp_media s) = 1 \<and> cp_runs s = [] \<and> uploads_settled t
   \<and> map ui_key (cp_media t) = map ui_key (cp_media s)"
proof -
  let ?s = "composer_run [Picked 0 [([1], False, None)]] composer0"
  let ?t = "upload_finished 0 (Inr [65]) (schedule ?s)"
  have demo: "to_start (cp_media ?s) \<noteq> []" "0 < length (cp_runs (schedule ?s))"
    "length (filter (\<lambda>m. ui_status m = UpQueued) (cp_media ?s)) = 1" "length (cp_runs ?s) = 0" "uploads_settled ?t"
    using demo_uploads unfolding Let_def by blast+
  then have "upload_step ?s (schedule ?s)" by (intro upload_step.Starts)
  moreover have "upload_step (schedule ?s) ?t" by (rule upload_step.Ends [OF demo(2)])
  ultimately have "(upload_step ^^ 2) ?s ?t" by (auto simp: numeral_2_eq_2)
  moreover have "queued_count (cp_media ?s) = 1" "length (cp_runs ?s) = 0" "uploads_settled ?t"
    using demo by (simp_all only: queued_count_def)
  ultimately show ?thesis using uploads_settle [of 2 "[Picked 0 [([1], False, None)]]" ?t] by (simp add: Let_def)
qed

end
