(* ===== verification/Publish.thy ===== *)
theory Publish
  imports Composer
begin

text \<open>
  Publishing a post from the app: \<open>post\<close> of \<open>mobile/app/(tabs)/create.tsx\<close>, which creates a market, publishes
  and bets in three separate calls, and the attachment editor of \<open>mobile/components/AttachMarket.tsx\<close> it takes
  the bet from. What the pipeline shows and sends is a log of events, as in \<open>Trading\<close>.
\<close>

section \<open>The attachment\<close>

definition attachment_side :: "mob_attachment \<Rightarrow> side" where
  "attachment_side a = (case a of ExistingMarket m sd spend limit \<Rightarrow> sd | NewMarket c sd spend p \<Rightarrow> sd)"

definition attachment_spend :: "mob_attachment \<Rightarrow> rat" where
  "attachment_spend a = (case a of ExistingMarket m sd spend limit \<Rightarrow> spend | NewMarket c sd spend p \<Rightarrow> spend)"

definition attachment_price :: "mob_attachment \<Rightarrow> int" where
  "attachment_price a = (case a of
     NewMarket c sd spend p \<Rightarrow> p
   | ExistingMarket m sd spend limit \<Rightarrow>
       or_else (alt_opt limit (if sd = Yes then mmk_yes_price_cents m else mmk_no_price_cents m)) 50)"

section \<open>Signing the bet of a post\<close>

record signed_order =
  si_side :: side
  si_price_cents :: int
  si_shares :: int
  si_max_cost :: rat
  si_expiry :: int
  si_nonce :: int
  si_auth :: auth3009_payload

definition signOrderPayload :: "mob_trade_env \<Rightarrow> mob_attachment \<Rightarrow> int \<Rightarrow> int \<Rightarrow> (mob_trade_event, signed_order) io" where
  "signOrderPayload E a chainMarketId affiliateId =
     io_bind (io_call EnsureWallet (mt_wallet E)) (\<lambda>address.
     io_bind (io_call (LinkWallet address) (Inr ())) (\<lambda>_.
     io_bind (io_call ReadNonce (mt_order_nonce E)) (\<lambda>nonce.
       let price = attachment_price a; shares = mob_sharesForSpend (attachment_spend a) price in
       if shares \<le> 0 then io_throw (ErrorMsg (lit ''bet amount too small''))
       else let maxCost = mob_maxCostUnits (mt_decimals E) shares price in
         case mob_buildOrder (mt_hash E) (mt_config E) (mt_now_build E) address
             \<lparr> op_chainMarketId = chainMarketId, op_side = attachment_side a, op_priceCents = price, op_shares = shares,
               op_maxCost = maxCost, op_affiliatePostId = Some (Big affiliateId), op_expiry = None, op_nonce = Big nonce \<rparr> of
           None \<Rightarrow> io_throw Thrown
         | Some bo \<Rightarrow>
             io_bind (sign_auth E address \<lparr> ro_to = None, ro_value = maxCost, ro_validSeconds = None, ro_token = None,
                 ro_nonce = Some (bo_digest bo) \<rparr>) (\<lambda>auth.
               io_return \<lparr> si_side = attachment_side a, si_price_cents = price, si_shares = shares,
                 si_max_cost = num_of_big maxCost, si_expiry = bm_expiry (bo_message bo), si_nonce = nonce, si_auth = auth \<rparr>))))"

section \<open>The pipeline\<close>

record create_market_body =
  cm_title :: str
  cm_question :: str
  cm_settlement_query :: str
  cm_initial_order :: signed_order

record mob_post_body =
  pd_caption :: "str option"
  pd_kind :: post_kind
  pd_media_ids :: "str list"
  pd_market_id :: "str option"
  pd_mentions :: "mention_input list"

datatype publish_event =
    StageShown composer_stage
  | Trade mob_trade_event
  | CreateMarketCall create_market_body
  | CreatePostCall mob_post_body

text \<open>The backend's answers: the id of a new market; the id and the affiliate number of a new post.\<close>

record publish_env =
  pe_trade :: mob_trade_env
  pe_create :: "create_market_body \<Rightarrow> js_error + str"
  pe_publish :: "mob_post_body \<Rightarrow> js_error + str \<times> int option"

definition io_lift :: "('e \<Rightarrow> 'f) \<Rightarrow> ('e, 'a) io \<Rightarrow> ('f, 'a) io" where
  "io_lift f m = (map f (fst m), snd m)"

definition show_stage :: "composer_stage \<Rightarrow> (publish_event, unit) io" where
  "show_stage st = io_call (StageShown st) (Inr ())"

text \<open>The check of the settled items: an error if an upload failed, else their ids.\<close>

definition media_ids :: "upload_item list \<Rightarrow> js_error + str list" where
  "media_ids items =
     (let failed = filter (\<lambda>m. is_failed (ui_status m)) items in
      if failed \<noteq> [] then Inl (ErrorMsg
        (if length failed = length items
         then lit ''Media upload failed. Tap retry on the attachment, then post again.''
         else show_nat (length failed) @ lit '' upload'' @ (if length failed > 1 then lit ''s'' else [])
           @ lit '' failed. Retry them, then post again.''))
      else let ids = map (\<lambda>m. case ui_status m of UpReady mediaId \<Rightarrow> mediaId | _ \<Rightarrow> []) items in
        if list_ex (\<lambda>i. i = []) ids then Inl (ErrorMsg (lit ''Media isn't ready yet. Try again.'')) else Inr ids)"

definition publish_market :: "publish_env \<Rightarrow> mob_attachment option \<Rightarrow> (publish_event, str option) io" where
  "publish_market P att = (case att of
     None \<Rightarrow> io_return None
   | Some (ExistingMarket m sd spend limit) \<Rightarrow> io_return (Some (mmk_id m))
   | Some (NewMarket c sd spend p) \<Rightarrow>
       io_bind (show_stage SigningStage) (\<lambda>_.
       io_bind (io_lift Trade (signOrderPayload (pe_trade P) (NewMarket c sd spend p) 0 0)) (\<lambda>initialOrder.
         let body = \<lparr> cm_title = mmc_title c, cm_question = mmc_question c,
               cm_settlement_query = candidateSettlementQuery c, cm_initial_order = initialOrder \<rparr>
         in io_bind (io_call (CreateMarketCall body) (pe_create P body)) (\<lambda>mid. io_return (Some mid)))))"

definition bet_body :: "mob_market \<Rightarrow> str \<Rightarrow> int option \<Rightarrow> signed_order \<Rightarrow> mob_order_body" where
  "bet_body m postId affiliateId so = \<lparr> mb_market_id = mmk_id m, mb_side = si_side so, mb_price_cents = si_price_cents so,
     mb_shares = si_shares so, mb_max_cost = si_max_cost so, mb_expiry = si_expiry so, mb_nonce = si_nonce so,
     mb_auth = si_auth so, mb_affiliate_post_id = Some postId, mb_affiliate_id = map_option show_int affiliateId \<rparr>"

definition publish_bet :: "publish_env \<Rightarrow> mob_attachment option \<Rightarrow> str \<Rightarrow> int option \<Rightarrow> (publish_event, unit) io" where
  "publish_bet P att postId affiliateId = (case att of
     Some (ExistingMarket m sd spend limit) \<Rightarrow>
       io_bind (show_stage SigningStage) (\<lambda>_.
       io_bind (io_lift Trade (signOrderPayload (pe_trade P) (ExistingMarket m sd spend limit) (mmk_chain_market_id m)
           (or_else affiliateId 0))) (\<lambda>orderPayload.
       io_bind (show_stage PostingStage) (\<lambda>_.
         let body = bet_body m postId affiliateId orderPayload in
         io_bind (io_call (Trade (PostMobOrder body)) (mt_post_order (pe_trade P) body)) (\<lambda>_. io_return ()))))
   | _ \<Rightarrow> io_return ())"

definition post_body :: "composer \<Rightarrow> upload_item list \<Rightarrow> str list \<Rightarrow> str option \<Rightarrow> mob_post_body" where
  "post_body s media_now mediaIds marketId =
     (let finalCaption = js_trim (cp_caption s) in
      \<lparr> pd_caption = (if finalCaption = [] then None else Some finalCaption),
        pd_kind = (case media_now of m # _ \<Rightarrow> if ui_kind m = VideoMedia then Video else Photo | [] \<Rightarrow> Photo),
        pd_media_ids = mediaIds, pd_market_id = marketId,
        pd_mentions = computeMentions finalCaption (cp_mentionDrafts s) \<rparr>)"

text \<open>
  \<open>post\<close> runs on the composer \<open>s\<close> of the tap. \<open>waited\<close> are the settled items if it had to wait for them,
  and \<open>media_now\<close> the media of the screen when the post is sent.
\<close>

definition post_tapped :: "publish_env \<Rightarrow> composer \<Rightarrow> upload_item list \<Rightarrow> upload_item list \<Rightarrow> (publish_event, unit) io" where
  "post_tapped P s waited media_now =
     io_bind (if uploads_settled s then io_return (cp_media s)
              else io_bind (show_stage Finishing) (\<lambda>_. io_return waited)) (\<lambda>items.
       case media_ids items of
         Inl e \<Rightarrow> io_throw e
       | Inr mediaIds \<Rightarrow>
           io_bind (publish_market P (cp_attachment s)) (\<lambda>marketId.
           io_bind (show_stage PostingStage) (\<lambda>_.
             let body = post_body s media_now mediaIds marketId in
             io_bind (io_call (CreatePostCall body) (pe_publish P body)) (\<lambda>(postId, affiliateId).
               publish_bet P (cp_attachment s) postId affiliateId))))"

text \<open>The end of \<open>post\<close>: the toast and the reset, or the error.\<close>

definition post_toast :: "mob_attachment option \<Rightarrow> str \<times> str option \<times> str" where
  "post_toast att = (case att of
     Some (NewMarket c sd spend p) \<Rightarrow> (lit ''Posted. Market is OPEN.'',
       Some (lit ''You're committed. Waiting for someone to take your bet.''), lit ''flash'')
   | _ \<Rightarrow> (lit ''Posted'', None, lit ''checkmark-circle''))"

definition post_end :: "js_error + unit \<Rightarrow> composer \<Rightarrow> composer \<times> (str \<times> str option \<times> str) option" where
  "post_end r s = (case r of
     Inr _ \<Rightarrow> (composer_reset s, Some (post_toast (cp_attachment s)))
   | Inl e \<Rightarrow> (s\<lparr>cp_stage := ComposerError (mob_errorMessage e)\<rparr>, None))"

section \<open>Lemmas on the events\<close>

definition created_posts :: "publish_event list \<Rightarrow> mob_post_body list" where
  "created_posts es = concat (map (\<lambda>e. case e of CreatePostCall b \<Rightarrow> [b] | _ \<Rightarrow> []) es)"

definition created_markets :: "publish_event list \<Rightarrow> create_market_body list" where
  "created_markets es = concat (map (\<lambda>e. case e of CreateMarketCall b \<Rightarrow> [b] | _ \<Rightarrow> []) es)"

definition placed_bets :: "publish_event list \<Rightarrow> mob_order_body list" where
  "placed_bets es = concat (map (\<lambda>e. case e of Trade (PostMobOrder b) \<Rightarrow> [b] | _ \<Rightarrow> []) es)"

definition stages_shown :: "publish_event list \<Rightarrow> composer_stage list" where
  "stages_shown es = concat (map (\<lambda>e. case e of StageShown st \<Rightarrow> [st] | _ \<Rightarrow> []) es)"

text \<open>
  The stage a call is made in, and whether every call of a run is made while its stage is shown; \<open>shown\<close> is the stage shown
  so far, nothing at the tap.
\<close>

fun stage_of_call :: "publish_event \<Rightarrow> composer_stage" where
  "stage_of_call (StageShown st) = st"
| "stage_of_call (Trade (PostMobOrder _)) = PostingStage"
| "stage_of_call (Trade _) = SigningStage"
| "stage_of_call (CreateMarketCall _) = SigningStage"
| "stage_of_call (CreatePostCall _) = PostingStage"

fun staged :: "composer_stage option \<Rightarrow> publish_event list \<Rightarrow> bool" where
  "staged shown [] = True"
| "staged shown (StageShown st # es) = staged (Some st) es"
| "staged shown (e # es) = (shown = Some (stage_of_call e) \<and> staged shown es)"

lemma created_simps [simp]:
  "created_posts [] = []" "created_posts (e # es) = (case e of CreatePostCall b \<Rightarrow> [b] | _ \<Rightarrow> []) @ created_posts es"
  "created_posts (es @ fs) = created_posts es @ created_posts fs"
  "created_markets [] = []" "created_markets (e # es) = (case e of CreateMarketCall b \<Rightarrow> [b] | _ \<Rightarrow> []) @ created_markets es"
  "created_markets (es @ fs) = created_markets es @ created_markets fs"
  "placed_bets [] = []" "placed_bets (e # es) = (case e of Trade (PostMobOrder b) \<Rightarrow> [b] | _ \<Rightarrow> []) @ placed_bets es"
  "placed_bets (es @ fs) = placed_bets es @ placed_bets fs"
  "stages_shown [] = []" "stages_shown (e # es) = (case e of StageShown st \<Rightarrow> [st] | _ \<Rightarrow> []) @ stages_shown es"
  "stages_shown (es @ fs) = stages_shown es @ stages_shown fs"
  by (simp_all add: created_posts_def created_markets_def placed_bets_def stages_shown_def)

lemma lift_simps [simp]:
  "snd (io_lift f m) = snd m" "created_posts (fst (io_lift Trade m)) = []" "created_markets (fst (io_lift Trade m)) = []"
  "stages_shown (fst (io_lift Trade m)) = []" "placed_bets (fst (io_lift Trade m)) = mob_posts (fst m)"
  by (simp_all add: io_lift_def created_posts_def created_markets_def stages_shown_def placed_bets_def mob_posts_def comp_def)

lemma show_stage_simps [simp]: "fst (show_stage st) = [StageShown st]" "snd (show_stage st) = Inr ()"
  by (simp_all add: show_stage_def)

lemma signOrderPayload_sends_nothing [simp]: "mob_posts (fst (signOrderPayload E a i j)) = []"
  by (auto simp: signOrderPayload_def io_bind_simps Let_def sign_auth_events mob_posts_def split: sum.split option.split)

lemma staged_trade:
  assumes "mob_posts xs = []"
  shows "staged (Some SigningStage) (map Trade xs @ fs) = staged (Some SigningStage) fs"
  using assms
proof (induction xs)
  case (Cons x xs)
  then show ?case by (cases x) (simp_all add: mob_posts_def)
qed simp

lemma media_ids_Inr:
  assumes "media_ids items = Inr ids"
  shows "list_all2 (\<lambda>m i. ui_status m = UpReady i \<and> i \<noteq> []) items ids"
proof -
  have ids: "ids = map (\<lambda>m. case ui_status m of UpReady mediaId \<Rightarrow> mediaId | _ \<Rightarrow> []) items" "\<not> list_ex (\<lambda>i. i = []) ids"
    using assms by (auto simp: media_ids_def Let_def split: if_splits)
  have "ui_status m = UpReady i \<and> i \<noteq> []" if "m \<in> set items" "i = (case ui_status m of UpReady mediaId \<Rightarrow> mediaId | _ \<Rightarrow> [])" for m i
  proof -
    have "i \<in> set ids" using that by (auto simp: ids(1))
    then have "i \<noteq> []" using ids(2) by (auto simp: list_ex_iff)
    with that(2) show ?thesis by (cases "ui_status m") simp_all
  qed
  then show ?thesis by (simp add: ids(1) list_all2_conv_all_nth)
qed

lemma publish_market_events:
  "created_posts (fst (publish_market P att)) = []" "placed_bets (fst (publish_market P att)) = []"
  "length (created_markets (fst (publish_market P att))) \<le> 1"
  "st \<in> set (stages_shown (fst (publish_market P att))) \<Longrightarrow> st = SigningStage"
  by (auto simp: publish_market_def io_bind_simps Let_def split: option.splits mob_attachment.splits sum.splits)

lemma publish_bet_events:
  "created_posts (fst (publish_bet P att pid aff)) = []" "created_markets (fst (publish_bet P att pid aff)) = []"
  "length (placed_bets (fst (publish_bet P att pid aff))) \<le> 1"
  "st \<in> set (stages_shown (fst (publish_bet P att pid aff))) \<Longrightarrow> st = SigningStage \<or> st = PostingStage"
  "b \<in> set (placed_bets (fst (publish_bet P att pid aff)))
    \<Longrightarrow> mb_affiliate_post_id b = Some pid \<and> mb_affiliate_id b = map_option show_int aff"
  by (auto simp: publish_bet_def io_bind_simps Let_def bet_body_def split: option.splits mob_attachment.splits sum.splits)

lemma lift_staged [simp]: "staged (Some SigningStage) (fst (io_lift Trade (signOrderPayload E a i j)) @ fs) = staged (Some SigningStage) fs"
    "staged (Some SigningStage) (fst (io_lift Trade (signOrderPayload E a i j)))"
  using staged_trade [OF signOrderPayload_sends_nothing, of E a i j] staged_trade [OF signOrderPayload_sends_nothing, of E a i j "[]"]
  by (simp_all add: io_lift_def)

lemma publish_market_staged:
  "staged shown (fst (publish_market P att))"
  by (auto simp: publish_market_def io_bind_simps Let_def split: option.splits mob_attachment.splits sum.splits)

lemma publish_market_staged_then:
  "staged shown (fst (publish_market P att) @ StageShown st # es) = staged (Some st) es"
  by (auto simp: publish_market_def io_bind_simps Let_def split: option.splits mob_attachment.splits sum.splits)

lemma publish_bet_staged: "staged shown (fst (publish_bet P att pid aff))"
  by (auto simp: publish_bet_def io_bind_simps Let_def split: option.splits mob_attachment.splits sum.splits)

lemma publish_bet_done:
  assumes "snd (publish_bet P att pid aff) = Inr ()" "att = Some (ExistingMarket m sd spend limit)"
  shows "placed_bets (fst (publish_bet P att pid aff)) \<noteq> []"
  using assms by (auto simp: publish_bet_def io_bind_simps Let_def split: sum.splits)

lemma publish_market_id:
  assumes "snd (publish_market P att) = Inr mid"
  shows "(case att of None \<Rightarrow> mid = None | Some (ExistingMarket m sd spend limit) \<Rightarrow> mid = Some (mmk_id m)
    | Some (NewMarket c sd spend p) \<Rightarrow> (\<exists>i body. mid = Some i \<and> pe_create P body = Inr i \<and> created_markets (fst (publish_market P att)) = [body]))"
  using assms by (auto simp: publish_market_def io_bind_simps Let_def split: option.splits mob_attachment.splits sum.splits)

text \<open>The items a post is made of, and what \<open>post_tapped\<close> does with them, outcome by outcome.\<close>

definition post_items :: "composer \<Rightarrow> upload_item list \<Rightarrow> upload_item list" where
  "post_items s waited = (if uploads_settled s then cp_media s else waited)"

definition finishing_events :: "composer \<Rightarrow> publish_event list" where
  "finishing_events s = (if uploads_settled s then [] else [StageShown Finishing])"

lemma finishing_simps [simp]:
  "created_posts (finishing_events s) = []" "created_markets (finishing_events s) = []" "placed_bets (finishing_events s) = []"
  "st \<in> set (stages_shown (finishing_events s)) \<Longrightarrow> st = Finishing"
  by (auto simp: finishing_events_def split: if_splits)

lemma finishing_staged: "(\<And>shown. staged shown es) \<Longrightarrow> staged None (finishing_events s @ es)"
  "uploads_settled s \<or> finishing_events s @ es \<noteq> [] \<and> hd (finishing_events s @ es) = StageShown Finishing"
  by (simp_all add: finishing_events_def)

lemma stage_disables_post:
  "st \<in> {Finishing, SigningStage, PostingStage} \<Longrightarrow> \<not> composer_canPost (s\<lparr>cp_stage := st\<rparr>)"
  by (auto simp: composer_canPost_def composer_busy_def)

lemma post_tapped_unfold:
  "post_tapped P s waited media_now =
     (case media_ids (post_items s waited) of
        Inl e \<Rightarrow> (finishing_events s, Inl e)
      | Inr ids \<Rightarrow>
          (case publish_market P (cp_attachment s) of
             (es, Inl e) \<Rightarrow> (finishing_events s @ es, Inl e)
           | (es, Inr mid) \<Rightarrow>
               let body = post_body s media_now ids mid; es' = finishing_events s @ es @ [StageShown PostingStage, CreatePostCall body] in
               (case pe_publish P body of
                  Inl e \<Rightarrow> (es', Inl e)
                | Inr (pid, aff) \<Rightarrow> (es' @ fst (publish_bet P (cp_attachment s) pid aff), snd (publish_bet P (cp_attachment s) pid aff)))))"
  by (simp add: post_tapped_def io_bind_def post_items_def finishing_events_def Let_def io_return_def io_throw_def io_call_def show_stage_def
      split: sum.split prod.split)

section \<open>Properties\<close>

lemma post_tapped_effects:
  assumes "post_items s waited = cp_media (composer_run evs composer0)" "post_tapped P s waited media_now = (es, r)"
  shows "length (created_markets es) \<le> 1 \<and> length (created_posts es) \<le> 1 \<and> length (placed_bets es) \<le> 1
    \<and> (\<forall>b \<in> set (created_posts es).
         list_all2 (\<lambda>m i. (ui_uri m, i) \<in> set (cp_log (composer_run evs composer0))) (post_items s waited) (pd_media_ids b)
       \<and> (case cp_attachment s of None \<Rightarrow> pd_market_id b = None
          | Some (ExistingMarket m sd spend limit) \<Rightarrow> pd_market_id b = Some (mmk_id m)
          | Some (NewMarket c sd spend p) \<Rightarrow> \<exists>i body. created_markets es = [body] \<and> pe_create P body = Inr i \<and> pd_market_id b = Some i))
    \<and> (\<forall>b \<in> set (placed_bets es). \<exists>body pid aff. created_posts es = [body] \<and> pe_publish P body = Inr (pid, aff)
         \<and> mb_affiliate_post_id b = Some pid \<and> mb_affiliate_id b = map_option show_int aff)
    \<and> (r = Inr () \<longrightarrow> created_posts es \<noteq> [] \<and> (\<forall>m sd spend limit. cp_attachment s = Some (ExistingMarket m sd spend limit) \<longrightarrow> placed_bets es \<noteq> []))"
proof (cases "media_ids (post_items s waited)")
  case (Inl e)
  then show ?thesis using assms(2) by (auto simp: post_tapped_unfold)
next
  case (Inr ids)
  obtain em rm where m: "publish_market P (cp_attachment s) = (em, rm)" by fastforce
  note mk = publish_market_events [where P = P and att = "cp_attachment s", unfolded m fst_conv]
  have inv: "composer_inv (composer_run evs composer0)" by (rule composer_run_inv [OF composer0_inv])
  have current: "list_all2 (\<lambda>m i. (ui_uri m, i) \<in> set (cp_log (composer_run evs composer0))) (post_items s waited) ids"
    using media_ids_Inr [OF Inr] inv assms(1)
    by (auto simp: composer_inv_def log_ok_def list_all2_conv_all_nth)
  show ?thesis
  proof (cases rm)
    case (Inl e)
    then show ?thesis using assms(2) Inr m mk by (auto simp: post_tapped_unfold)
  next
    case mid: (Inr mid)
    define body where "body = post_body s media_now ids mid"
    have b: "pd_media_ids body = ids" "pd_market_id body = mid" by (simp_all add: body_def post_body_def Let_def)
    note market = publish_market_id [of P "cp_attachment s" mid, unfolded m mid snd_conv fst_conv, OF refl]
    show ?thesis
    proof (cases "pe_publish P body")
      case (Inl e)
      then have "es = finishing_events s @ em @ [StageShown PostingStage, CreatePostCall body]" "r = Inl e"
        using assms(2) Inr m mid by (simp_all add: post_tapped_unfold Let_def body_def)
      then show ?thesis using mk current b market
        by (auto split: option.splits mob_attachment.splits)
    next
      case (Inr pa)
      obtain pid aff where pa: "pa = (pid, aff)" by fastforce
      have es: "es = finishing_events s @ em @ [StageShown PostingStage, CreatePostCall body] @ fst (publish_bet P (cp_attachment s) pid aff)"
        "r = snd (publish_bet P (cp_attachment s) pid aff)"
        using assms(2) \<open>media_ids (post_items s waited) = Inr ids\<close> m mid Inr pa by (simp_all add: post_tapped_unfold Let_def body_def)
      then show ?thesis
        using mk current b market publish_bet_events [where P = P and att = "cp_attachment s" and pid = pid and aff = aff]
          publish_bet_done [of P "cp_attachment s" pid aff] Inr pa
        by (auto split: option.splits mob_attachment.splits)
    qed
  qed
qed

lemma post_tapped_stages:
  assumes "post_tapped P s waited media_now = (es, r)"
  shows "staged None es \<and> (uploads_settled s \<or> es \<noteq> [] \<and> hd es = StageShown Finishing)
    \<and> list_all (\<lambda>st. st \<in> {Finishing, SigningStage, PostingStage} \<and> \<not> composer_canPost (s\<lparr>cp_stage := st\<rparr>)) (stages_shown es)"
proof -
  have "\<exists>xs. es = finishing_events s @ xs \<and> (\<forall>shown. staged shown xs) \<and> set (stages_shown xs) \<subseteq> {SigningStage, PostingStage}"
  proof (cases "media_ids (post_items s waited)")
    case (Inl e)
    then have "es = finishing_events s @ []" using assms by (simp add: post_tapped_unfold)
    then show ?thesis by (intro exI [of _ "[]"]) simp
  next
    case ids: (Inr ids)
    obtain em rm where m: "publish_market P (cp_attachment s) = (em, rm)" by fastforce
    have em: "staged shown em" "staged shown (em @ StageShown PostingStage # fs) = staged (Some PostingStage) fs"
      "set (stages_shown em) \<subseteq> {SigningStage, PostingStage}" for shown fs
      using publish_market_staged [of shown P "cp_attachment s"] publish_market_staged_then [of shown P "cp_attachment s"]
        publish_market_events(4) [of _ P "cp_attachment s"] by (auto simp: m)
    show ?thesis
    proof (cases rm)
      case (Inl e)
      then have "es = finishing_events s @ em" using assms ids m by (simp add: post_tapped_unfold)
      then show ?thesis using em by (intro exI [of _ em]) simp
    next
      case (Inr mid)
      define body where "body = post_body s media_now ids mid"
      define bet where "bet = (case pe_publish P body of Inl _ \<Rightarrow> [] | Inr (pid, aff) \<Rightarrow> fst (publish_bet P (cp_attachment s) pid aff))"
      have "es = finishing_events s @ em @ StageShown PostingStage # CreatePostCall body # bet"
        using assms ids m Inr by (simp add: post_tapped_unfold Let_def body_def bet_def split: sum.splits prod.splits)
      moreover have "staged shown bet" "set (stages_shown bet) \<subseteq> {SigningStage, PostingStage}" for shown
        using publish_bet_staged by (auto simp: bet_def split: sum.splits dest: publish_bet_events(4))
      ultimately show ?thesis using em
        by (intro exI [of _ "em @ StageShown PostingStage # CreatePostCall body # bet"]) simp
    qed
  qed
  then obtain xs where xs: "es = finishing_events s @ xs" "\<And>shown. staged shown xs" "set (stages_shown xs) \<subseteq> {SigningStage, PostingStage}"
    by blast
  have "set (stages_shown es) \<subseteq> {Finishing, SigningStage, PostingStage}"
    using xs(3) finishing_simps(4) [of _ s] unfolding xs(1) by auto
  with xs(2) finishing_staged(1) [of xs s] finishing_staged(2) [of s xs] stage_disables_post [of _ s] show ?thesis
    unfolding xs(1) list_all_iff by blast
qed

text \<open>
  C7: What one tap on Post sends, whatever the wallet and the backend answer. At most one market, one post and
  one bet are created. A post carries the id of every item of the composer, in order, each uploaded from the
  file the item shows, and the market it was attached to or which was created for it. A bet goes out only
  after the post was accepted, and names it as its affiliate. A tap that succeeds has published, and placed
  the bet on an existing market. No call is made before its stage is on the screen: signing for the calls of the wallet and
  the new market, posting for the post and the bet; a tap before the uploads have settled first shows that it is
  finishing them. Post is disabled in every stage shown.
\<close>

theorem mob_post_effects:
  assumes "post_items s waited = cp_media (composer_run evs composer0)" "post_tapped P s waited media_now = (es, r)"
  shows "length (created_markets es) \<le> 1 \<and> length (created_posts es) \<le> 1 \<and> length (placed_bets es) \<le> 1
    \<and> (\<forall>b \<in> set (created_posts es).
         list_all2 (\<lambda>m i. (ui_uri m, i) \<in> set (cp_log (composer_run evs composer0))) (post_items s waited) (pd_media_ids b)
       \<and> (case cp_attachment s of None \<Rightarrow> pd_market_id b = None
          | Some (ExistingMarket m sd spend limit) \<Rightarrow> pd_market_id b = Some (mmk_id m)
          | Some (NewMarket c sd spend p) \<Rightarrow> \<exists>i body. created_markets es = [body] \<and> pe_create P body = Inr i \<and> pd_market_id b = Some i))
    \<and> (\<forall>b \<in> set (placed_bets es). \<exists>body pid aff. created_posts es = [body] \<and> pe_publish P body = Inr (pid, aff)
         \<and> mb_affiliate_post_id b = Some pid \<and> mb_affiliate_id b = map_option show_int aff)
    \<and> (r = Inr () \<longrightarrow> created_posts es \<noteq> [] \<and> (\<forall>m sd spend limit. cp_attachment s = Some (ExistingMarket m sd spend limit) \<longrightarrow> placed_bets es \<noteq> []))
    \<and> staged None es \<and> (uploads_settled s \<or> es \<noteq> [] \<and> hd es = StageShown Finishing)
    \<and> list_all (\<lambda>st. st \<in> {Finishing, SigningStage, PostingStage} \<and> \<not> composer_canPost (s\<lparr>cp_stage := st\<rparr>)) (stages_shown es)"
  using post_tapped_effects [OF assms] post_tapped_stages [OF assms(2)] by blast

text \<open>One picture, uploaded, with a bet on an open market; the backend takes the post and refuses the bet.\<close>

definition demo_composer :: composer where
  "demo_composer = (composer_run one_upload composer0)\<lparr>cp_attachment := Some (ExistingMarket demo_mob_market Yes 10 None)\<rparr>"

definition demo_publish :: publish_env where
  "demo_publish = \<lparr> pe_trade = demo_mob_env, pe_create = (\<lambda>_. Inl NetworkError), pe_publish = (\<lambda>_. Inr (lit ''p1'', Some 5)) \<rparr>"

lemma demo_media: "cp_media (composer_run one_upload composer0)
    = [\<lparr> ui_key = nextKey 0 0, ui_attempt = 0, ui_uri = [1], ui_kind = ImageMedia, ui_mime = lit ''image/jpeg'', ui_status = UpReady [65] \<rparr>]"
  using demo_uploads by blast

lemma demo_shares: "mob_sharesForSpend 10 40 = 25"
  by (simp add: mob_sharesForSpend_web demo_parse)

lemma demo_bet_signs: "\<exists>so. snd (signOrderPayload demo_mob_env (ExistingMarket demo_mob_market Yes 10 None) i j) = Inr so"
proof -
  have price: "attachment_price (ExistingMarket demo_mob_market Yes 10 None) = 40" by (simp add: attachment_price_def)
  have spend: "attachment_spend (ExistingMarket demo_mob_market Yes 10 None) = 10" by (simp add: attachment_spend_def)
  show ?thesis
    unfolding signOrderPayload_def price spend
    by (simp add: demo_shares io_bind_simps demo_mob_env_def mob_buildOrder_def Let_def sign_auth_def mob_signReceiveAuthorization_def
        split: prod.split)
qed

lemma demo_post:
  "post_items demo_composer [] = cp_media (composer_run one_upload composer0)"
  "media_ids (cp_media demo_composer) = Inr [[65]]"
  "length (created_posts (fst (post_tapped demo_publish demo_composer [] []))) = 1"
  "length (placed_bets (fst (post_tapped demo_publish demo_composer [] []))) = 1"
  "snd (post_tapped demo_publish demo_composer [] []) = Inl NetworkError"
proof -
  let ?att = "ExistingMarket demo_mob_market Yes 10 None"
  have media: "cp_media demo_composer = cp_media (composer_run one_upload composer0)" "cp_attachment demo_composer = Some ?att"
    by (simp_all add: demo_composer_def)
  have set: "uploads_settled demo_composer" by (simp add: uploads_settled_def media demo_media)
  then show items: "post_items demo_composer [] = cp_media (composer_run one_upload composer0)" by (simp add: post_items_def media)
  show ids: "media_ids (cp_media demo_composer) = Inr [[65]]" by (simp add: media demo_media media_ids_def)
  obtain so where so: "snd (signOrderPayload demo_mob_env ?att (mmk_chain_market_id demo_mob_market) 5) = Inr so"
    using demo_bet_signs by blast
  have env: "pe_trade demo_publish = demo_mob_env" "pe_publish demo_publish b = Inr (lit ''p1'', Some 5)"
    "mt_post_order demo_mob_env q = Inl NetworkError" for b q
    by (simp_all add: demo_publish_def demo_mob_env_def)
  have bet: "length (placed_bets (fst (publish_bet demo_publish (Some ?att) (lit ''p1'') (Some 5)))) = 1"
    "snd (publish_bet demo_publish (Some ?att) (lit ''p1'') (Some 5)) = Inl NetworkError"
    "created_posts (fst (publish_bet demo_publish (Some ?att) (lit ''p1'') (Some 5))) = []"
    using so by (simp_all add: publish_bet_def io_bind_simps Let_def env)
  have mkt: "publish_market demo_publish (Some ?att) = ([], Inr (Some (mmk_id demo_mob_market)))"
    by (simp add: publish_market_def io_return_def)
  have "media_ids (post_items demo_composer []) = Inr [[65]]" using ids by (simp only: items media)
  then show "length (created_posts (fst (post_tapped demo_publish demo_composer [] []))) = 1"
    "length (placed_bets (fst (post_tapped demo_publish demo_composer [] []))) = 1"
    "snd (post_tapped demo_publish demo_composer [] []) = Inl NetworkError"
    using bet by (simp_all add: post_tapped_unfold media mkt env Let_def)
qed

theorem mob_post_effects_witness:
  "\<exists>b. created_posts (fst (post_tapped demo_publish demo_composer [] [])) = [b] \<and> pd_market_id b = Some (mmk_id demo_mob_market)
     \<and> list_all2 (\<lambda>m i. (ui_uri m, i) \<in> set (cp_log (composer_run one_upload composer0))) (post_items demo_composer []) (pd_media_ids b)
     \<and> (\<forall>o1 \<in> set (placed_bets (fst (post_tapped demo_publish demo_composer [] []))). mb_affiliate_post_id o1 = Some (lit ''p1''))"
proof -
  obtain es r where run: "post_tapped demo_publish demo_composer [] [] = (es, r)" by fastforce
  obtain b where b: "created_posts es = [b]" using demo_post(3) run by (auto simp: length_Suc_conv)
  have att: "cp_attachment demo_composer = Some (ExistingMarket demo_mob_market Yes 10 None)" by (simp add: demo_composer_def)
  have "pe_publish demo_publish x = Inr (lit ''p1'', Some 5)" for x by (simp add: demo_publish_def)
  with mob_post_effects [OF demo_post(1) run] show ?thesis by (auto simp: run b att)
qed

text \<open>
  The three calls are not one. When the bet on an existing market fails after the post was accepted, the
  composer keeps everything and Post is enabled again; and whatever the second tap meets, it publishes the same
  post once more. When publishing fails after the market was created, a second tap that gets its order
  signed creates a second market on the same question.
\<close>

theorem failed_tap_repeats:
  assumes ready: "composer_canPost s" "uploads_settled s" and run: "post_tapped P s waited media_now = (es, Inl e)"
    and t: "t = fst (post_end (Inl e) s)" and again: "post_tapped Q t waited media_now = (fs, r)"
  shows "composer_canPost t \<and> cp_media t = cp_media s \<and> cp_caption t = cp_caption s
    \<and> (\<forall>m sd spend limit b. cp_attachment s = Some (ExistingMarket m sd spend limit) \<and> created_posts es = [b] \<longrightarrow> created_posts fs = [b])
    \<and> (\<forall>c sd spend p b so. cp_attachment s = Some (NewMarket c sd spend p) \<and> created_markets es = [b]
          \<and> snd (signOrderPayload (pe_trade Q) (NewMarket c sd spend p) 0 0) = Inr so
        \<longrightarrow> (\<exists>b'. created_markets fs = [b'] \<and> cm_question b' = cm_question b \<and> cm_settlement_query b' = cm_settlement_query b))"
proof -
  have t_eq: "t = s\<lparr>cp_stage := ComposerError (mob_errorMessage e)\<rparr>" by (simp add: t post_end_def)
  have same: "post_items t waited = cp_media s" "post_items s waited = cp_media s" "uploads_settled t" "cp_attachment t = cp_attachment s"
    "finishing_events t = []" "finishing_events s = []" "post_body t = post_body s"
    using ready(2) by (simp_all add: t_eq post_items_def uploads_settled_def finishing_events_def post_body_def fun_eq_iff)
  have "composer_canPost t" using ready(1) by (simp add: t_eq composer_canPost_def composer_busy_def)
  moreover have "cp_media t = cp_media s" "cp_caption t = cp_caption s" by (simp_all add: t_eq)
  moreover have "created_posts fs = [b]" if "cp_attachment s = Some (ExistingMarket m sd spend limit)" "created_posts es = [b]" for m sd spend limit b
    using run again that publish_bet_events(1)
    by (auto simp: post_tapped_unfold same publish_market_def io_return_def Let_def split: sum.splits prod.splits)
  moreover have "\<exists>b'. created_markets fs = [b'] \<and> cm_question b' = cm_question b \<and> cm_settlement_query b' = cm_settlement_query b"
    if a: "cp_attachment s = Some (NewMarket c sd spend p)" "created_markets es = [b]"
      and so: "snd (signOrderPayload (pe_trade Q) (NewMarket c sd spend p) 0 0) = Inr so" for c sd spend p b so
  proof -
    obtain ids where ids: "media_ids (cp_media s) = Inr ids"
      using run a(2) by (cases "media_ids (cp_media s)") (auto simp: post_tapped_unfold same)
    have made: "created_markets (fst (post_tapped R u waited media_now)) = created_markets (fst (publish_market R (cp_attachment s)))"
      if "u = s \<or> u = t" for R u
      using that same ids publish_bet_events(2) by (auto simp: post_tapped_unfold Let_def split: sum.split prod.split)
    have q: "cm_question x = mmc_question c \<and> cm_settlement_query x = candidateSettlementQuery c"
      if "x \<in> set (created_markets (fst (publish_market R (Some (NewMarket c sd spend p)))))" for R x
      using that by (auto simp: publish_market_def io_bind_simps Let_def split: sum.splits)
    have "\<exists>b'. created_markets (fst (publish_market Q (Some (NewMarket c sd spend p)))) = [b']"
      using so by (simp add: publish_market_def io_bind_simps Let_def split: sum.split)
    then obtain b' where "created_markets (fst (publish_market Q (Some (NewMarket c sd spend p)))) = [b']" by blast
    moreover have b: "created_markets (fst (publish_market P (Some (NewMarket c sd spend p)))) = [b]" using made [of s P] run a by simp
    moreover have "created_markets fs = created_markets (fst (publish_market Q (Some (NewMarket c sd spend p))))"
      using made [of t Q] again a(1) by simp
    moreover have "cm_question b = mmc_question c \<and> cm_settlement_query b = candidateSettlementQuery c" by (rule q [of b P]) (simp add: b)
    ultimately show ?thesis using q [of b' Q] by simp
  qed
  ultimately show ?thesis by blast
qed

theorem failed_tap_repeats_witness:
  "\<exists>b. created_posts (fst (post_tapped demo_publish demo_composer [] [])) = [b]
     \<and> created_posts (fst (post_tapped demo_publish (fst (post_end (Inl NetworkError) demo_composer)) [] [])) = [b]"
proof -
  obtain es where run: "post_tapped demo_publish demo_composer [] [] = (es, Inl NetworkError)"
    using demo_post(5) by (cases "post_tapped demo_publish demo_composer [] []") simp
  obtain fs r where again: "post_tapped demo_publish (fst (post_end (Inl NetworkError) demo_composer)) [] [] = (fs, r)" by fastforce
  obtain b where b: "created_posts es = [b]" using demo_post(3) run by (auto simp: length_Suc_conv)
  have media: "cp_media demo_composer = cp_media (composer_run one_upload composer0)"
    and att: "cp_attachment demo_composer = Some (ExistingMarket demo_mob_market Yes 10 None)" by (simp_all add: demo_composer_def)
  have stage: "cp_stage demo_composer = ComposerIdle" using demo_uploads by (simp add: demo_composer_def)
  have "composer_canPost demo_composer" "uploads_settled demo_composer"
    by (simp_all add: composer_canPost_def composer_busy_def attachmentInvalid_def media demo_media att stage uploads_settled_def)
  from failed_tap_repeats [OF this run refl again] b att have "created_posts fs = [b]" by blast
  then show ?thesis using b by (simp add: run again)
qed

section \<open>Finding and editing the attachment\<close>

text \<open>
  \<open>parseFloat(text) || 0\<close> of a text field without a filter: white space, a sign, digits with a point, an
  exponent; what follows is ignored. The one text left out is \<open>Infinity\<close>, which no rational is.
\<close>

definition text_dollars :: "str \<Rightarrow> rat" where
  "text_dollars t =
     (let u = dropWhile is_space t;
          neg = (u \<noteq> [] \<and> hd u = 45);
          u1 = (if u \<noteq> [] \<and> (hd u = 45 \<or> hd u = 43) then tl u else u);
          d = takeWhile is_digit u1; r = dropWhile is_digit u1;
          point = (r \<noteq> [] \<and> hd r = 46);
          f = (if point then takeWhile is_digit (tl r) else []);
          r2 = (if point then dropWhile is_digit (tl r) else r);
          x1 = (if r2 \<noteq> [] \<and> (hd r2 = 101 \<or> hd r2 = 69) then tl r2 else []);
          xneg = (x1 \<noteq> [] \<and> hd x1 = 45);
          x = takeWhile is_digit (if x1 \<noteq> [] \<and> (hd x1 = 45 \<or> hd x1 = 43) then tl x1 else x1);
          m = of_nat (digits_value (d @ f)) / 10 ^ length f;
          v = (if x = [] then m else if xneg then m / 10 ^ digits_value x else m * 10 ^ digits_value x)
      in if d = [] \<and> f = [] then 0 else fl (if neg then - v else v))"

record mob_attach =
  at_query :: str
  at_matches :: "mob_market list"
  at_suggested :: "(str \<times> mob_market_candidate) list"
  at_searching :: bool
  at_candidates :: "mob_market_candidate list option"
  at_generating :: bool
  at_genError :: "str option"
  at_debounce :: "str option"

definition mob_attach0 :: mob_attach where
  "mob_attach0 = \<lparr> at_query = [], at_matches = [], at_suggested = [], at_searching = False, at_candidates = None,
     at_generating = False, at_genError = None, at_debounce = None \<rparr>"

text \<open>The search: the effect on the query (after its cleanup), the timer, and the answer.\<close>

definition attach_search_effect :: "mob_attachment option \<Rightarrow> mob_attach \<Rightarrow> mob_attach" where
  "attach_search_effect v s =
     (let s = s\<lparr>at_debounce := None\<rparr>; q = js_trim (at_query s) in
      if v \<noteq> None then s
      else if length q < 2 then s\<lparr>at_matches := [], at_suggested := []\<rparr>
      else s\<lparr>at_debounce := Some q\<rparr>)"

definition attach_timer_fires :: "mob_attach \<Rightarrow> mob_attach \<times> str option" where
  "attach_timer_fires s = (case at_debounce s of
     None \<Rightarrow> (s, None) | Some q \<Rightarrow> (s\<lparr>at_debounce := None, at_searching := True\<rparr>, Some q))"

definition attach_search_ended :: "js_error + mob_market list option \<times> (str \<times> mob_market_candidate) list option \<Rightarrow> mob_attach \<Rightarrow> mob_attach" where
  "attach_search_ended r s = (case r of
     Inr (markets, generated) \<Rightarrow> s\<lparr>at_matches := or_else markets [], at_suggested := or_else generated [], at_searching := False\<rparr>
   | Inl e \<Rightarrow> s\<lparr>at_searching := False\<rparr>)"

definition attach_generate :: "mob_attach \<Rightarrow> mob_attach" where
  "attach_generate s = s\<lparr>at_generating := True, at_genError := None, at_candidates := None\<rparr>"

definition attach_generated :: "js_error + mob_market_candidate list option \<times> mob_market list option \<Rightarrow> mob_attach \<Rightarrow> mob_attach" where
  "attach_generated r s = (case r of
     Inr (cands, existing) \<Rightarrow> s\<lparr>at_candidates := Some (take 3 (or_else cands [])),
        at_matches := (case existing of Some (m # ms) \<Rightarrow> m # ms | _ \<Rightarrow> at_matches s), at_generating := False\<rparr>
   | Inl e \<Rightarrow> s\<lparr>at_genError := Some (mob_errorMessage e), at_generating := False\<rparr>)"

text \<open>What tapping a match, a suggestion or a candidate attaches.\<close>

definition pick_match :: "mob_market \<Rightarrow> mob_attachment" where
  "pick_match m = ExistingMarket m Yes 10 None"

definition pick_suggested :: "mob_market_candidate \<Rightarrow> mob_attachment" where
  "pick_suggested c = NewMarket c Yes 5 50"

definition pick_candidate :: "mob_market_candidate \<Rightarrow> mob_attachment" where
  "pick_candidate c = (case mmc_existing_market c of Some m \<Rightarrow> pick_match m | None \<Rightarrow> pick_suggested c)"

text \<open>\<open>AttachedEditor\<close>: the attachment it edits in place, and the text of its amount field.\<close>

record attached_editor =
  ae_value :: mob_attachment
  ae_amountText :: str

definition open_editor :: "mob_attachment \<Rightarrow> attached_editor" where
  "open_editor a = \<lparr> ae_value = a, ae_amountText = show_int \<lfloor>attachment_spend a\<rfloor> \<rparr>"

definition editor_shares :: "attached_editor \<Rightarrow> int" where
  "editor_shares s = mob_sharesForSpend (text_dollars (ae_amountText s)) (attachment_price (ae_value s))"

definition editor_payToWin :: "attached_editor \<Rightarrow> rat \<times> rat" where
  "editor_payToWin s = mob_payToWin (editor_shares s) (attachment_price (ae_value s))"

definition editor_belowMin :: "attached_editor \<Rightarrow> bool" where
  "editor_belowMin s = (case ae_value s of
     NewMarket c sd spend p \<Rightarrow> text_dollars (ae_amountText s) < NEW_MARKET_MIN_SPEND | _ \<Rightarrow> False)"

datatype editor_action = EditSpend str | EditSide side | EditMakerPrice int | EditLimit int

fun editor_act :: "editor_action \<Rightarrow> attached_editor \<Rightarrow> attached_editor" where
  "editor_act (EditSpend t) s = s\<lparr>ae_amountText := t, ae_value := (case ae_value s of
     ExistingMarket m sd spend limit \<Rightarrow> ExistingMarket m sd (text_dollars t) limit
   | NewMarket c sd spend p \<Rightarrow> NewMarket c sd (text_dollars t) p)\<rparr>"
| "editor_act (EditSide sd') s = s\<lparr>ae_value := (case ae_value s of
     ExistingMarket m sd spend limit \<Rightarrow> ExistingMarket m sd' spend limit | NewMarket c sd spend p \<Rightarrow> NewMarket c sd' spend p)\<rparr>"
| "editor_act (EditMakerPrice p') s = s\<lparr>ae_value := (case ae_value s of
     NewMarket c sd spend p \<Rightarrow> NewMarket c sd spend p' | a \<Rightarrow> a)\<rparr>"
| "editor_act (EditLimit p') s = s\<lparr>ae_value := (case ae_value s of
     ExistingMarket m sd spend limit \<Rightarrow> ExistingMarket m sd spend (Some p') | a \<Rightarrow> a)\<rparr>"

lemma picked_amounts: "text_dollars (show_int 10) = 10" "text_dollars (show_int 5) = 5"
proof -
  have "text_dollars (show_int 10) = 10 \<and> text_dollars (show_int 5) = 5" by code_simp
  then show "text_dollars (show_int 10) = 10" "text_dollars (show_int 5) = 5" by blast+
qed

lemma editor_spend:
  "attachment_spend (ae_value s) = text_dollars (ae_amountText s)
   \<Longrightarrow> attachment_spend (ae_value (editor_act a s)) = text_dollars (ae_amountText (editor_act a s))"
  by (cases a; cases "ae_value s") (simp_all add: attachment_spend_def)

lemma editor_run_spend:
  "attachment_spend (ae_value s) = text_dollars (ae_amountText s)
   \<Longrightarrow> attachment_spend (ae_value (fold editor_act as s)) = text_dollars (ae_amountText (fold editor_act as s))"
  by (induction as arbitrary: s) (simp_all add: editor_spend)

lemma picked_spend:
  assumes "a \<in> {pick_match m, pick_suggested c, pick_candidate c}"
  shows "attachment_spend (ae_value (open_editor a)) = text_dollars (ae_amountText (open_editor a))"
  using assms by (auto simp: open_editor_def pick_match_def pick_suggested_def pick_candidate_def attachment_spend_def picked_amounts
      split: option.split)

lemma signOrderPayload_result:
  assumes "snd (signOrderPayload E a i j) = Inr so"
  shows "si_side so = attachment_side a \<and> si_price_cents so = attachment_price a
    \<and> si_shares so = mob_sharesForSpend (attachment_spend a) (attachment_price a) \<and> 0 < si_shares so
    \<and> si_max_cost so = num_of_big (mob_maxCostUnits (mt_decimals E) (si_shares so) (si_price_cents so))
    \<and> ap_value (si_auth so) = si_max_cost so"
  using assms
  by (auto simp: signOrderPayload_def snd_io_bind_Inr Let_def dest: sign_auth_result(3) split: if_splits option.splits)

text \<open>
  The app signs the bet the user sees. After any editing of a picked attachment, the order that is signed for
  it has the side and the price of the editor and the number of shares the editor shows for the amount in its
  field, and the authorization is over that order's whole cost.
\<close>

theorem mob_attachment_signed_as_shown:
  assumes "a \<in> {pick_match m, pick_suggested c, pick_candidate c}"
    and "snd (signOrderPayload E (ae_value (fold editor_act as (open_editor a))) i j) = Inr so"
  shows "si_side so = attachment_side (ae_value (fold editor_act as (open_editor a)))
    \<and> si_price_cents so = attachment_price (ae_value (fold editor_act as (open_editor a)))
    \<and> si_shares so = editor_shares (fold editor_act as (open_editor a)) \<and> 0 < si_shares so
    \<and> ap_value (si_auth so) = num_of_big (mob_maxCostUnits (mt_decimals E) (si_shares so) (si_price_cents so))"
  using signOrderPayload_result [OF assms(2)] editor_run_spend [OF picked_spend [OF assms(1)], of as]
  by (simp add: editor_shares_def)

theorem mob_attachment_signed_as_shown_witness:
  "\<exists>so. snd (signOrderPayload demo_mob_env (pick_match demo_mob_market) 7 0) = Inr so \<and> si_shares so = 25 \<and> si_price_cents so = 40"
proof -
  let ?c = "\<lparr> mmc_title = [], mmc_question = [], mmc_settlementQuery = None, mmc_settlement_query = None, mmc_suggestedCloseNote = None,
    mmc_suggested_close_note = None, mmc_category = None, mmc_rule = None, mmc_sources = None, mmc_existing_market = None \<rparr>"
  obtain so where so: "snd (signOrderPayload demo_mob_env (pick_match demo_mob_market) 7 0) = Inr so"
    using demo_bet_signs by (auto simp: pick_match_def)
  have "attachment_price (pick_match demo_mob_market) = 40" by (simp add: attachment_price_def pick_match_def)
  moreover have "editor_shares (open_editor (pick_match demo_mob_market)) = 25"
    by (simp add: editor_shares_def open_editor_def calculation) (simp add: pick_match_def attachment_spend_def picked_amounts demo_shares)
  ultimately show ?thesis
    using so mob_attachment_signed_as_shown [of "pick_match demo_mob_market" demo_mob_market ?c demo_mob_env "[]" 7 0 so]
    by (simp add: open_editor_def)
qed

end
