(* ===== verification/WebCreate.thy ===== *)
theory WebCreate
  imports Tickets Publish
begin

text \<open>
  The create page of the web client, \<open>web/app/(app)/create/page.tsx\<close>, and its market field
  \<open>web/components/AttachMarket.tsx\<close>: uploads, the attached bet, and the one request that publishes post and
  market together, under an idempotency key the page keeps for good.
\<close>

section \<open>The market field\<close>

datatype web_attachment =
    WebExisting market side int int
  | WebNew market_candidate side int int

record attach_field =
  af_value :: "web_attachment option"
  af_queryText :: str
  af_candidates :: "market_candidate list option"
  af_generating :: bool
  af_side :: side
  af_amount :: str
  af_slider :: int
  af_advanced :: bool
  af_fullDetails :: bool
  af_limitInput :: str
  af_deps :: "side \<times> int \<times> int"

text \<open>\<open>priceCents\<close> and \<open>shares\<close>, as the field shows them.\<close>

definition attach_priceCents :: "attach_field \<Rightarrow> int" where
  "attach_priceCents f = (case af_value f of
     Some (WebNew c sd p n) \<Rightarrow> clamp_cents (af_slider f)
   | Some (WebExisting m sd p n) \<Rightarrow>
       ticket_price (if af_advanced f then Some (af_limitInput f) else None)
         (if af_side f = Yes then mk_yes_price_cents m else mk_no_price_cents m)
   | None \<Rightarrow> 50)"

definition attach_shares :: "attach_field \<Rightarrow> int" where
  "attach_shares f = web_sharesForSpend (ticket_dollars (af_amount f)) (attach_priceCents f)"

definition attach_cost :: "nat \<Rightarrow> attach_field \<Rightarrow> rat" where
  "attach_cost D f = or_else (web_unitsToDollars D (Inr (web_escrowUnits D (attach_shares f) (attach_priceCents f)))) 0"

definition newMarketTooSmall :: "nat \<Rightarrow> attach_field \<Rightarrow> bool" where
  "newMarketTooSmall D f \<longleftrightarrow> (case af_value f of Some (WebNew c sd p n) \<Rightarrow> attach_cost D f < 1 | _ \<Rightarrow> False)"

definition attach_shown :: "attach_field \<Rightarrow> side \<times> int \<times> int" where
  "attach_shown f = (af_side f, attach_priceCents f, attach_shares f)"

text \<open>The effect that pushes the parameters up: it runs when one of \<open>side\<close>, \<open>priceCents\<close>, \<open>shares\<close> changed.\<close>

fun with_params :: "side \<times> int \<times> int \<Rightarrow> web_attachment \<Rightarrow> web_attachment" where
  "with_params (sd, p, n) (WebExisting m _ _ _) = WebExisting m sd p n"
| "with_params (sd, p, n) (WebNew c _ _ _) = WebNew c sd p n"

definition attach_effect :: "attach_field \<Rightarrow> attach_field" where
  "attach_effect f = (if attach_shown f = af_deps f then f
     else f\<lparr>af_deps := attach_shown f, af_value := map_option (with_params (attach_shown f)) (af_value f)\<rparr>)"

text \<open>The handlers of the field; a market is picked only while none is attached.\<close>

datatype attach_action =
    TypeQuery str
  | GenerateTapped
  | Generated "js_error + market_candidate list"
  | PickMarket market
  | PickCandidate market_candidate
  | ClearAttachment
  | PickAttachSide side
  | TypeAmount str
  | MoveSlider int
  | ToggleAdvanced
  | TypeLimit str
  | ToggleFullDetails

definition attach_select :: "web_attachment \<Rightarrow> attach_field \<Rightarrow> attach_field" where
  "attach_select v f = (if af_value f = None then f\<lparr>af_candidates := None, af_value := Some v\<rparr> else f)"

definition attach_clear :: "attach_field \<Rightarrow> attach_field" where
  "attach_clear f = f\<lparr>af_value := None, af_candidates := None, af_advanced := False, af_fullDetails := False, af_limitInput := []\<rparr>"

fun attach_handle :: "attach_action \<Rightarrow> attach_field \<Rightarrow> attach_field" where
  "attach_handle (TypeQuery t) f = f\<lparr>af_queryText := t\<rparr>"
| "attach_handle GenerateTapped f = f\<lparr>af_generating := True\<rparr>"
| "attach_handle (Generated (Inr cs)) f = f\<lparr>af_candidates := Some (take 3 cs), af_generating := False\<rparr>"
| "attach_handle (Generated (Inl e)) f = f\<lparr>af_generating := False\<rparr>"
| "attach_handle (PickMarket m) f = attach_select (WebExisting m Yes (mk_yes_price_cents m) 0) f"
| "attach_handle (PickCandidate c) f = attach_select (WebNew c Yes 50 0) f"
| "attach_handle ClearAttachment f = attach_clear f"
| "attach_handle (PickAttachSide sd) f = f\<lparr>af_side := sd\<rparr>"
| "attach_handle (TypeAmount t) f = f\<lparr>af_amount := amount_filter t\<rparr>"
| "attach_handle (MoveSlider i) f = f\<lparr>af_slider := i\<rparr>"
| "attach_handle ToggleAdvanced f = f\<lparr>af_advanced := \<not> af_advanced f\<rparr>"
| "attach_handle (TypeLimit t) f = f\<lparr>af_limitInput := limit_filter t\<rparr>"
| "attach_handle ToggleFullDetails f = f\<lparr>af_fullDetails := \<not> af_fullDetails f\<rparr>"

definition attach_act :: "attach_action \<Rightarrow> attach_field \<Rightarrow> attach_field" where
  "attach_act a f = attach_effect (attach_handle a f)"

definition attach0 :: attach_field where
  "attach0 = attach_effect \<lparr> af_value = None, af_queryText = [], af_candidates = None, af_generating = False, af_side = Yes,
     af_amount = lit ''10'', af_slider = 50, af_advanced = False, af_fullDetails = False, af_limitInput = [], af_deps = (No, 0, 0) \<rparr>"

text \<open>\<open>attachmentValid\<close> of the page.\<close>

definition web_attachmentValid :: "nat \<Rightarrow> web_attachment option \<Rightarrow> bool" where
  "web_attachmentValid D a = (case a of
     None \<Rightarrow> True
   | Some (WebExisting m sd p n) \<Rightarrow> n > 0
   | Some (WebNew c sd p n) \<Rightarrow> n > 0 \<and> or_else (web_unitsToDollars D (Inr (web_escrowUnits D n p))) 0 \<ge> 1)"

fun attachment_params :: "web_attachment \<Rightarrow> side \<times> int \<times> int" where
  "attachment_params (WebExisting m sd p n) = (sd, p, n)"
| "attachment_params (WebNew c sd p n) = (sd, p, n)"

lemma params_with [simp]: "attachment_params (with_params q v) = q"
  by (cases q; cases v) simp_all

text \<open>After each render the dependencies are those shown, and the attachment has them, or no shares yet.\<close>

definition attach_ok :: "attach_field \<Rightarrow> bool" where
  "attach_ok f \<longleftrightarrow> af_deps f = attach_shown f
     \<and> (\<forall>v. af_value f = Some v \<longrightarrow> attachment_params v = attach_shown f \<or> snd (snd (attachment_params v)) = 0)"

lemma with_params_shown:
  "attach_shown (f\<lparr>af_deps := d, af_value := map_option (with_params q) (af_value f)\<rparr>) = attach_shown f"
proof -
  have "attach_priceCents (f\<lparr>af_deps := d, af_value := map_option (with_params q) (af_value f)\<rparr>) = attach_priceCents f"
    by (cases q) (simp add: attach_priceCents_def split: option.split web_attachment.split)
  then show ?thesis by (simp add: attach_shown_def attach_shares_def)
qed

lemma attach_effect_ok:
  assumes "\<And>v. af_value f = Some v \<Longrightarrow> attachment_params v = af_deps f \<or> snd (snd (attachment_params v)) = 0"
  shows "attach_ok (attach_effect f)"
  using assms by (auto simp: attach_effect_def attach_ok_def with_params_shown)

lemma attach_act_ok: assumes "attach_ok f" shows "attach_ok (attach_act a f)"
  unfolding attach_act_def
proof (rule attach_effect_ok)
  fix v assume v: "af_value (attach_handle a f) = Some v"
  have "af_deps (attach_handle a f) = af_deps f"
    by (induction a f rule: attach_handle.induct) (simp_all add: attach_select_def attach_clear_def)
  moreover have "af_value f = Some v \<or> snd (snd (attachment_params v)) = 0"
    using v by (induction a f rule: attach_handle.induct) (auto simp: attach_select_def attach_clear_def split: if_splits)
  ultimately show "attachment_params v = af_deps (attach_handle a f) \<or> snd (snd (attachment_params v)) = 0"
    using assms by (auto simp: attach_ok_def)
qed

lemma attach0_ok: "attach_ok attach0"
  unfolding attach0_def by (rule attach_effect_ok) simp

lemma attach_run_ok: "attach_ok f \<Longrightarrow> attach_ok (fold attach_act as f)"
  by (induction as arbitrary: f) (simp_all add: attach_act_ok)

lemma attach_price_range: "1 \<le> attach_priceCents f \<and> attach_priceCents f \<le> 99"
  by (auto simp: attach_priceCents_def clamp_cents_range ticket_price_range split: option.split web_attachment.split)

section \<open>The page\<close>

record web_upload =
  wu_key :: str
  wu_name :: str
  wu_progress :: int
  wu_media :: "media_item option"
  wu_failed :: bool

datatype progress_state = SigningChip | StatusChip market_status

record create_page =
  cg_uploads :: "web_upload list"
  cg_caption :: str
  cg_mentions :: "mention_input list"
  cg_attach :: attach_field
  cg_posting :: bool
  cg_idem :: str
  cg_progress :: "(str \<times> progress_state) option"

definition create_page0 :: "str \<Rightarrow> create_page" where
  "create_page0 idem = \<lparr> cg_uploads = [], cg_caption = [], cg_mentions = [], cg_attach = attach0, cg_posting = False,
     cg_idem = idem, cg_progress = None \<rparr>"

text \<open>\<open>addFiles\<close>: each file with its fresh key; the number is limited by the uploads just rendered.\<close>

definition addFiles :: "(str \<times> str) list \<Rightarrow> create_page \<Rightarrow> create_page" where
  "addFiles files s = s\<lparr>cg_uploads := cg_uploads s @ map (\<lambda>(key, name).
     \<lparr> wu_key = key, wu_name = name, wu_progress = 0, wu_media = None, wu_failed = False \<rparr>)
       (js_slice files 0 (10 - int (length (cg_uploads s))))\<rparr>"

definition upd_upload :: "str \<Rightarrow> (web_upload \<Rightarrow> web_upload) \<Rightarrow> create_page \<Rightarrow> create_page" where
  "upd_upload key f s = s\<lparr>cg_uploads := map (\<lambda>x. if wu_key x = key then f x else x) (cg_uploads s)\<rparr>"

definition web_upload_ended :: "str \<Rightarrow> js_error + media_item \<Rightarrow> create_page \<Rightarrow> create_page" where
  "web_upload_ended key r s = (case r of
     Inr media \<Rightarrow> upd_upload key (\<lambda>x. x\<lparr>wu_media := Some media\<rparr>) s
   | Inl e \<Rightarrow> upd_upload key (\<lambda>x. x\<lparr>wu_failed := True\<rparr>) s)"

definition removeUpload :: "str \<Rightarrow> create_page \<Rightarrow> create_page" where
  "removeUpload key s = s\<lparr>cg_uploads := filter (\<lambda>x. wu_key x \<noteq> key) (cg_uploads s)\<rparr>"

definition uploadsPending :: "create_page \<Rightarrow> bool" where
  "uploadsPending s \<longleftrightarrow> list_ex (\<lambda>u. wu_media u = None \<and> \<not> wu_failed u) (cg_uploads s)"

definition web_mediaIds :: "create_page \<Rightarrow> str list" where
  "web_mediaIds s = concat (map (\<lambda>u. case wu_media u of None \<Rightarrow> [] | Some m \<Rightarrow> [mi_id m]) (cg_uploads s))"

definition web_canPost :: "nat \<Rightarrow> bool \<Rightarrow> create_page \<Rightarrow> bool" where
  "web_canPost D warped s \<longleftrightarrow> \<not> cg_posting s \<and> \<not> uploadsPending s \<and> \<not> warped
     \<and> web_attachmentValid D (af_value (cg_attach s)) \<and> (web_mediaIds s \<noteq> [] \<or> js_trim (cg_caption s) \<noteq> [])"

section \<open>Publishing\<close>

record web_post_body =
  wb_caption :: "str option"
  wb_mentions :: "mention_input list"
  wb_media_ids :: "str list"
  wb_market_attach :: "(str \<times> order_wire \<times> auth_wire) option"
  wb_market_create :: "create_payload option"

datatype web_publish_event =
    ProgressShown str progress_state
  | WebTrade trade_event
  | PublishCall web_post_body str
  | ReadMarket str

text \<open>Mention offsets of the caption, moved to the trimmed caption.\<close>

definition trim_start :: "str \<Rightarrow> str" where
  "trim_start t = dropWhile is_space t"

definition trim_mentions :: "str \<Rightarrow> mention_input list \<Rightarrow> mention_input list" where
  "trim_mentions caption mentions =
     (let finalCaption = js_trim caption; leadTrim = int (length caption) - int (length (trim_start caption)) in
      filter (\<lambda>m. mn_start m \<ge> 0 \<and> mn_start m + mn_len m \<le> int (length finalCaption))
        (map (\<lambda>m. m\<lparr>mn_start := mn_start m - leadTrim\<rparr>) mentions))"

record web_publish_env =
  we_trade :: trade_env
  we_publish :: "web_post_body \<Rightarrow> js_error + post"
  we_clock :: "nat \<Rightarrow> int"
  we_poll :: "nat \<Rightarrow> js_error + market_status"

definition sign_attachment :: "trade_env \<Rightarrow> web_attachment option
    \<Rightarrow> (web_publish_event, (str \<times> order_wire \<times> auth_wire) option \<times> create_payload option) io" where
  "sign_attachment E a = (case a of
     None \<Rightarrow> io_return (None, None)
   | Some (WebExisting m sd p n) \<Rightarrow>
       io_bind (io_call (ProgressShown (lit ''Confirm in your wallet'') SigningChip) (Inr ())) (\<lambda>_.
       io_bind (io_lift WebTrade (signAttachOrder E \<lparr> pp_market = m, pp_side = sd, pp_priceCents = p, pp_shares = n,
           pp_affiliateId = None, pp_affiliatePostId = None, pp_idempotencyKey = None \<rparr>)) (\<lambda>signed1.
         io_return (Some signed1, None)))
   | Some (WebNew c sd p n) \<Rightarrow>
       io_bind (io_call (ProgressShown (lit ''Confirm in your wallet'') SigningChip) (Inr ())) (\<lambda>_.
       io_bind (io_lift WebTrade (signCreateMarket E \<lparr> cp_candidate = c, cp_side = sd, cp_priceCents = p, cp_shares = n \<rparr>)) (\<lambda>signed1.
         io_return (None, Some signed1))))"

definition web_post_of :: "create_page \<Rightarrow> (str \<times> order_wire \<times> auth_wire) option \<times> create_payload option \<Rightarrow> web_post_body" where
  "web_post_of s signed1 = \<lparr> wb_caption = (let c = js_trim (cg_caption s) in if c = [] then None else Some c),
     wb_mentions = trim_mentions (cg_caption s) (cg_mentions s), wb_media_ids = web_mediaIds s,
     wb_market_attach = fst signed1, wb_market_create = snd signed1 \<rparr>"

definition web_publish :: "web_publish_env \<Rightarrow> create_page \<Rightarrow> (web_publish_event, post \<times> bool) io" where
  "web_publish W s =
     io_bind (sign_attachment (we_trade W) (af_value (cg_attach s))) (\<lambda>signed1.
     io_bind (io_call (ProgressShown (lit ''Publishing your post'') (StatusChip PENDING)) (Inr ())) (\<lambda>_.
       let body = web_post_of s signed1 in
       io_bind (io_call (PublishCall body (cg_idem s)) (we_publish W body)) (\<lambda>p. io_return (p, snd signed1 \<noteq> None))))"

text \<open>
  The loop that waits for a new market: the condition is tested with the time elapsed, then 1.5 seconds
  pass and the market is read. The result: the number of reads and the last status.
\<close>

fun poll_market :: "nat \<Rightarrow> (nat \<Rightarrow> int) \<Rightarrow> (nat \<Rightarrow> js_error + market_status) \<Rightarrow> nat \<Rightarrow> market_status \<Rightarrow> (nat \<times> market_status) option" where
  "poll_market 0 clock poll k status = None"
| "poll_market (Suc fuel) clock poll k status =
     (if status = PENDING \<and> clock k < 20000
      then case poll k of Inl _ \<Rightarrow> Some (Suc k, status) | Inr st \<Rightarrow> poll_market fuel clock poll (Suc k) st
      else Some (k, status))"

definition POLL_FUEL :: nat where "POLL_FUEL = 15"

fun creatorMicrocopy :: "chip_state \<Rightarrow> str option" where
  "creatorMicrocopy (MarketChip PENDING) = Some (lit ''Placing your market'' @ [8230])"
| "creatorMicrocopy (MarketChip OPEN) = Some (lit ''You're committed. Waiting for someone to take your bet.'')"
| "creatorMicrocopy (MarketChip MATCHED) = Some (lit ''Your bet was taken.'')"
| "creatorMicrocopy (MarketChip SETTLING) = Some (lit ''Settlement query is running.'')"
| "creatorMicrocopy (MarketChip SETTLED) = Some (lit ''Outcome is final.'')"
| "creatorMicrocopy (MarketChip VOID) = Some (lit ''Market voided. Deposits are refundable.'')"
| "creatorMicrocopy (OrderChip st) = None"

text \<open>What follows an accepted post: the reads of the market, and the last stage shown. \<open>None\<close>: it never ends.\<close>

definition web_progression :: "nat \<Rightarrow> web_publish_env \<Rightarrow> post \<times> bool \<Rightarrow> web_publish_event list option" where
  "web_progression fuel W r = (case r of (p, created) \<Rightarrow>
     (case po_market p of
        Some m \<Rightarrow> if created
          then (case poll_market fuel (we_clock W) (we_poll W) 0 (mk_status (pm_market m)) of
              None \<Rightarrow> None
            | Some (n, status) \<Rightarrow> Some (concat (replicate n
                  [ProgressShown (lit ''Placing your market onchain'') (StatusChip PENDING), ReadMarket (mk_id (pm_market m))])
                @ [ProgressShown (or_else (creatorMicrocopy (MarketChip status)) (lit ''Posted'')) (StatusChip status)]))
          else Some []
      | None \<Rightarrow> Some []))"

definition web_submit_start :: "nat \<Rightarrow> bool \<Rightarrow> create_page \<Rightarrow> create_page option" where
  "web_submit_start D warped s = (if web_canPost D warped s then Some (s\<lparr>cg_posting := True\<rparr>) else None)"

text \<open>The last stage shown stays when the post is done; an error clears it and gives the text of a toast.\<close>

definition web_submit_end :: "js_error + unit \<Rightarrow> (str \<times> progress_state) option \<Rightarrow> create_page \<Rightarrow> create_page \<times> str option" where
  "web_submit_end r shown s = (case r of
     Inr _ \<Rightarrow> (s\<lparr>cg_progress := shown, cg_posting := False\<rparr>, None)
   | Inl e \<Rightarrow> (s\<lparr>cg_progress := None, cg_posting := False\<rparr>, Some (web_errorMessage e)))"

section \<open>Runs of the page\<close>

datatype page_action =
    AddFiles "(str \<times> str) list"
  | UploadProgressed str int
  | UploadEnded str "js_error + media_item"
  | RemoveUpload str
  | TypeCaption str "mention_input list"
  | AttachAction attach_action
  | PostTapped nat bool web_publish_env
  | PostEnded "js_error + unit" "(str \<times> progress_state) option"

fun page_act :: "page_action \<Rightarrow> create_page \<Rightarrow> create_page \<times> web_publish_event list" where
  "page_act (AddFiles files) s = (addFiles files s, [])"
| "page_act (UploadProgressed key pct) s = (upd_upload key (\<lambda>x. x\<lparr>wu_progress := pct\<rparr>) s, [])"
| "page_act (UploadEnded key r) s = (web_upload_ended key r s, [])"
| "page_act (RemoveUpload key) s = (removeUpload key s, [])"
| "page_act (TypeCaption t ms) s = (s\<lparr>cg_caption := t, cg_mentions := ms\<rparr>, [])"
| "page_act (AttachAction a) s = (s\<lparr>cg_attach := attach_act a (cg_attach s)\<rparr>, [])"
| "page_act (PostTapped D warped W) s = (case web_submit_start D warped s of
     None \<Rightarrow> (s, []) | Some s' \<Rightarrow> (s', fst (web_publish W s)))"
| "page_act (PostEnded r shown) s = (fst (web_submit_end r shown s), [])"

fun page_run :: "page_action list \<Rightarrow> create_page \<Rightarrow> create_page \<times> web_publish_event list" where
  "page_run [] s = (s, [])"
| "page_run (a # as) s = (let r = page_act a s; q = page_run as (fst r) in (fst q, snd r @ snd q))"

definition publish_calls :: "web_publish_event list \<Rightarrow> (web_post_body \<times> str) list" where
  "publish_calls es = concat (map (\<lambda>e. case e of PublishCall b k \<Rightarrow> [(b, k)] | _ \<Rightarrow> []) es)"

text \<open>The HTTP call behind \<open>api.post("/v1/posts", body, key)\<close>; the JSON text of a body is a parameter.\<close>

definition publish_request :: "str \<Rightarrow> (web_post_body \<Rightarrow> json) \<Rightarrow> str option \<Rightarrow> str option \<Rightarrow> str \<Rightarrow> web_post_body \<times> str \<Rightarrow> web_call" where
  "publish_request url enc token warp fresh bk = \<lparr> wc_api_url = url, wc_method = POST, wc_path = lit ''/v1/posts'',
     wc_body = Some (enc (fst bk)), wc_key = Some (snd bk), wc_token = token, wc_warp = warp, wc_fresh_key = fresh \<rparr>"

lemma publish_calls_simps [simp]:
  "publish_calls [] = []" "publish_calls (e # es) = (case e of PublishCall b k \<Rightarrow> [(b, k)] | _ \<Rightarrow> []) @ publish_calls es"
  "publish_calls (es @ fs) = publish_calls es @ publish_calls fs" "publish_calls (fst (io_lift WebTrade m)) = []"
  by (simp_all add: publish_calls_def io_lift_def comp_def)

lemma sign_attachment_calls [simp]: "publish_calls (fst (sign_attachment E a)) = []"
  by (auto simp: sign_attachment_def io_bind_simps split: option.split web_attachment.split sum.split)

lemma web_publish_calls:
  "publish_calls (fst (web_publish W s)) =
     (case snd (sign_attachment (we_trade W) (af_value (cg_attach s))) of Inl e \<Rightarrow> [] | Inr signed1 \<Rightarrow> [(web_post_of s signed1, cg_idem s)])"
  by (simp add: web_publish_def io_bind_simps Let_def split: sum.split)

text \<open>What every step keeps: the key of the page, at most ten uploads, and a field in step with what it shows.\<close>

definition page_ok :: "str \<Rightarrow> create_page \<Rightarrow> bool" where
  "page_ok idem s \<longleftrightarrow> cg_idem s = idem \<and> length (cg_uploads s) \<le> 10 \<and> attach_ok (cg_attach s)"

lemma page_act_ok:
  assumes "page_ok idem s"
  shows "page_ok idem (fst (page_act a s)) \<and> (\<forall>c \<in> set (publish_calls (snd (page_act a s))). snd c = idem)"
  using assms
  by (cases a) (auto simp: page_ok_def addFiles_def upd_upload_def web_upload_ended_def removeUpload_def attach_act_ok
      web_submit_start_def web_submit_end_def web_publish_calls js_slice_def slice_pos_def Let_def
      intro: order_trans [OF length_filter_le] split: sum.splits option.splits)

lemma page_run_ok:
  "page_ok idem s \<Longrightarrow> page_ok idem (fst (page_run as s)) \<and> (\<forall>c \<in> set (publish_calls (snd (page_run as s))). snd c = idem)"
proof (induction as arbitrary: s)
  case (Cons a as)
  from page_act_ok [OF Cons.prems, of a] Cons.IH [of "fst (page_act a s)"] show ?case by (auto simp: Let_def)
qed simp

lemma page0_ok: "page_ok idem (create_page0 idem)"
  by (simp add: page_ok_def create_page0_def attach0_ok)

section \<open>Mentions and trimming\<close>

lemma space_facts: assumes "is_space c" shows "c \<noteq> AT" "\<not> is_word c"
  using assms by (auto simp: is_space_def is_word_def AT_def dest: order_trans [of "8192 :: code_unit" _ 90]
      order_trans [of "8192 :: code_unit" _ 122] order_trans [of "8192 :: code_unit" _ 57])

lemma scan_skip: "\<forall>c \<in> set pre. is_space c \<Longrightarrow> scan_tokens i (pre @ u) = scan_tokens (i + length pre) u"
  by (induction pre arbitrary: i) (simp_all add: space_facts)

lemma word_suffix:
  assumes "\<forall>c \<in> set post. is_space c"
  shows "takeWhile is_word (cs @ post) = takeWhile is_word cs" "dropWhile is_word (cs @ post) = dropWhile is_word cs @ post"
proof -
  have "takeWhile is_word post = []" "dropWhile is_word post = post" using assms by (cases post; simp add: space_facts)+
  then show "takeWhile is_word (cs @ post) = takeWhile is_word cs" "dropWhile is_word (cs @ post) = dropWhile is_word cs @ post"
    by (induction cs) simp_all
qed

lemma scan_suffix: "\<forall>c \<in> set post. is_space c \<Longrightarrow> scan_tokens i (t @ post) = scan_tokens i t"
proof (induction i t rule: scan_tokens.induct)
  case (1 i)
  then show ?case using scan_skip [of post i "[]"] by simp
next
  case (2 i c cs)
  then show ?case by (simp add: word_suffix)
qed

lemma scan_shift: "scan_tokens (i + k) t = map (\<lambda>(j, w). (j + k, w)) (scan_tokens i t)"
proof (induction i t rule: scan_tokens.induct)
  case (2 i c cs)
  show ?case
  proof (cases "c = AT \<and> takeWhile is_word cs \<noteq> []")
    case True
    from 2(1) [OF this] True show ?thesis by (simp add: ac_simps)
  next
    case False
    from 2(2) [OF this] have "scan_tokens (i + k + 1) cs = map (\<lambda>(j, w). (j + k, w)) (scan_tokens (i + 1) cs)" by (simp add: ac_simps)
    then show ?thesis using False by (simp only: scan_tokens.simps if_False)
  qed
qed simp

lemma trim_parts:
  obtains pre post where "t = pre @ js_trim t @ post" "\<forall>c \<in> set pre. is_space c" "\<forall>c \<in> set post. is_space c"
    "trim_start t = js_trim t @ post"
proof -
  define u where "u = dropWhile is_space t"
  define post where "post = rev (takeWhile is_space (rev u))"
  have u: "js_trim t @ post = u"
    unfolding js_trim_def post_def u_def [symmetric] rev_append [symmetric] takeWhile_dropWhile_id rev_rev_ident ..
  have "takeWhile is_space t @ u = t" by (simp add: u_def)
  then have "t = takeWhile is_space t @ js_trim t @ post" unfolding u by (rule sym)
  moreover have "\<forall>c \<in> set (takeWhile is_space t). is_space c" "\<forall>c \<in> set post. is_space c"
    by (auto simp: post_def dest: set_takeWhileD)
  moreover have "trim_start t = js_trim t @ post" unfolding u by (simp add: trim_start_def u_def)
  ultimately show ?thesis by (rule that)
qed

lemma boundary_trim:
  assumes "\<forall>c \<in> set pre. is_space c" "j < length t"
  shows "boundary (pre @ t @ post) (j + length pre) = boundary t j"
proof (cases j)
  case 0
  show ?thesis
  proof (cases pre rule: rev_cases)
    case (snoc xs x)
    then have "\<not> is_word x" using assms(1) by (simp add: space_facts)
    then show ?thesis using 0 snoc by (simp add: boundary_def nth_append)
  qed (simp add: boundary_def 0)
next
  case (Suc n)
  then show ?thesis using assms(2) by (simp add: boundary_def nth_append)
qed

lemma token_bounds: "(j, w) \<in> set (scan_tokens 0 t) \<Longrightarrow> j + length w + 1 \<le> length t"
proof -
  assume "(j, w) \<in> set (scan_tokens 0 t)"
  then obtain "j < length t" "w = takeWhile is_word (drop (Suc j) t)" by (auto simp: scan_tokens_iff)
  moreover have "length (takeWhile is_word (drop (Suc j) t)) \<le> length (drop (Suc j) t)" by (rule length_takeWhile_le)
  ultimately show ?thesis by simp
qed

text \<open>
  Trimming the caption keeps the mentions. Moving the recorded offsets by the white space that is cut off
  and dropping what falls out gives exactly the mentions one finds in the trimmed caption: no mention is lost
  and each keeps pointing at its name.
\<close>

theorem web_mentions_survive_trim:
  "trim_mentions caption (deriveMentions caption recorded) = deriveMentions (js_trim caption) recorded"
proof -
  obtain pre post where c: "caption = pre @ js_trim caption @ post" and pre: "\<forall>c \<in> set pre. is_space c"
    and post: "\<forall>c \<in> set post. is_space c" and start: "trim_start caption = js_trim caption @ post" by (rule trim_parts)
  define t where "t = js_trim caption"
  define emit where "emit c p = (if \<not> boundary c (fst p) then [] else case non_empty (om_get recorded (snd p)) of None \<Rightarrow> []
    | Some userId \<Rightarrow> [\<lparr> mn_user_id = userId, mn_start = int (fst p), mn_len = int (length (snd p)) + 1 \<rparr>])" for c and p :: "nat \<times> str"
  have derive: "deriveMentions c recorded = concat (map (emit c) (scan_tokens 0 c))" for c
    unfolding deriveMentions_def
    by (rule arg_cong [where f = concat], rule map_cong [OF refl]) (clarsimp simp: emit_def split: prod.splits option.splits)
  let ?shift = "\<lambda>m. m\<lparr>mn_start := mn_start m - int (length pre)\<rparr> :: mention_input"
  have cap: "caption = pre @ t @ post" using c by (simp add: t_def)
  have "scan_tokens 0 caption = scan_tokens (0 + length pre) t"
    unfolding cap scan_skip [OF pre] scan_suffix [OF post] by simp
  then have scan: "scan_tokens 0 caption = map (\<lambda>(j, w). (j + length pre, w)) (scan_tokens 0 t)" by (simp only: scan_shift)
  have emit: "map ?shift (emit caption (case p of (j, w) \<Rightarrow> (j + length pre, w))) = emit t p" if p: "p \<in> set (scan_tokens 0 t)" for p
  proof -
    obtain j w where jw: "p = (j, w)" by fastforce
    have "boundary caption (j + length pre) = boundary t j"
      unfolding cap by (rule boundary_trim [OF pre]) (use token_bounds [of j w t] p jw in simp)
    then show ?thesis by (simp add: emit_def jw split: option.split)
  qed
  have "map ?shift (deriveMentions caption recorded) = concat (map (\<lambda>p. map ?shift (emit caption (case p of (j, w) \<Rightarrow> (j + length pre, w)))) (scan_tokens 0 t))"
    unfolding derive scan map_concat map_map comp_def ..
  also have "\<dots> = deriveMentions t recorded" unfolding derive by (rule arg_cong [where f = concat], rule map_cong [OF refl]) (rule emit)
  finally have moved: "map ?shift (deriveMentions caption recorded) = deriveMentions t recorded" .
  have "mn_start m \<ge> 0 \<and> mn_start m + mn_len m \<le> int (length t)" if "m \<in> set (deriveMentions t recorded)" for m
    using that token_bounds by (fastforce simp: deriveMentions_iff)
  then have "filter (\<lambda>m. mn_start m \<ge> 0 \<and> mn_start m + mn_len m \<le> int (length t)) (deriveMentions t recorded) = deriveMentions t recorded"
    by (intro filter_True) blast
  moreover have "int (length caption) - int (length (trim_start caption)) = int (length pre)"
    unfolding start by (subst cap) (simp add: t_def)
  ultimately show ?thesis by (simp add: trim_mentions_def Let_def moved flip: t_def)
qed

section \<open>What the page publishes\<close>

text \<open>
  The web client posts the bet the user sees. After any use of the field, an attachment with which the page
  can be posted has exactly the side, the price and the number of shares on the screen, at a price from 1 to
  99 cents, and for a new market at least one dollar of opening capital.
\<close>

theorem web_attachment_is_what_is_shown:
  assumes "af_value (fold attach_act as attach0) = Some a" "web_attachmentValid D (Some a)"
  shows "attachment_params a = attach_shown (fold attach_act as attach0)
    \<and> (case attachment_params a of (sd, p, n) \<Rightarrow> 1 \<le> p \<and> p \<le> 99 \<and> 0 < n)
    \<and> \<not> newMarketTooSmall D (fold attach_act as attach0)"
proof -
  let ?f = "fold attach_act as attach0"
  have "snd (snd (attachment_params a)) > 0" using assms(2) by (cases a) (simp_all add: web_attachmentValid_def)
  then have p: "attachment_params a = attach_shown ?f" using attach_run_ok [OF attach0_ok, of as] assms(1) by (auto simp: attach_ok_def)
  moreover have "\<not> newMarketTooSmall D ?f"
    using p assms by (cases a) (auto simp: newMarketTooSmall_def attach_cost_def attach_shown_def web_attachmentValid_def)
  ultimately show ?thesis
    using attach_price_range [of ?f] \<open>snd (snd (attachment_params a)) > 0\<close> by (auto simp: attach_shown_def)
qed

definition demo_candidate :: market_candidate where
  "demo_candidate = \<lparr> mc_title = lit ''Rain'', mc_question = lit ''Rain?'', mc_settlement_query = [], mc_suggested_close_note = None,
     mc_category = None, mc_rule = None, mc_sources = None, mc_existing_market = None \<rparr>"

lemma attach0_eq: "attach0 = \<lparr> af_value = None, af_queryText = [], af_candidates = None, af_generating = False, af_side = Yes,
     af_amount = lit ''10'', af_slider = 50, af_advanced = False, af_fullDetails = False, af_limitInput = [], af_deps = (Yes, 50, 20) \<rparr>"
  by (simp add: attach0_def attach_effect_def attach_shown_def attach_priceCents_def attach_shares_def ticket_dollars_def
      demo_parse)

lemmas attach_demo = attach_act_def attach_select_def attach_effect_def attach_shown_def attach_priceCents_def
  attach_shares_def ticket_dollars_def demo_parse clamp_cents_def

theorem web_attachment_is_what_is_shown_witness:
  "attach_shown (fold attach_act [PickCandidate demo_candidate, MoveSlider 40] attach0) = (Yes, 40, 25)"
proof -
  have v: "af_value (fold attach_act [PickCandidate demo_candidate, MoveSlider 40] attach0) = Some (WebNew demo_candidate Yes 40 25)"
    by (simp add: attach0_eq attach_demo)
  have "web_attachmentValid 6 (Some (WebNew demo_candidate Yes 40 25))" by code_simp
  from web_attachment_is_what_is_shown [OF v this] show ?thesis by simp
qed

text \<open>
  A picked market that is priced at 50 cents cannot be posted as it is. The effect that hands the bet up runs
  only when side, price or shares change; a fresh pick of a generated candidate shows the price and the shares
  it showed before, so that the attachment keeps its zero shares, Post stays disabled, and the field says that
  ten dollars are paid to win twenty. Moving the slider by one cent makes the page postable.
\<close>

theorem pick_at_fifty_is_stuck:
  "let f = attach_act (PickCandidate c) attach0 in
   af_value f = Some (WebNew c Yes 50 0) \<and> attach_shown f = (Yes, 50, 20)
   \<and> \<not> web_attachmentValid D (af_value f) \<and> \<not> web_canPost D warped (s\<lparr>cg_attach := f\<rparr>)
   \<and> af_value (attach_act (MoveSlider 40) f) = Some (WebNew c Yes 40 25)"
  by (simp add: attach0_eq attach_demo Let_def web_attachmentValid_def web_canPost_def)

text \<open>
  C8: The page publishes at most one post, whatever the user does, however often Post is tapped and however the
  network behaves: every request it sends carries the key the page was opened with, and a backend that keeps
  keys applies at most one of them. At most ten files are attached.
\<close>

theorem web_page_publishes_once:
  assumes "idem \<noteq> []"
  shows "let calls = publish_calls (snd (page_run as (create_page0 idem))) in
     (\<forall>c \<in> set calls. snd c = idem)
   \<and> snd (deliver ([], 0) (concat (map (\<lambda>(i, c). fst (web_req (publish_request url enc token warp fresh c) (net i))) (enumerate 0 calls)))) \<le> 1
   \<and> length (cg_uploads (fst (page_run as (create_page0 idem)))) \<le> 10"
proof -
  define calls where "calls = publish_calls (snd (page_run as (create_page0 idem)))"
  note ok = page_run_ok [OF page0_ok, of idem as]
  have keys: "snd c = idem" if "c \<in> set calls" for c using ok that by (simp add: calls_def)
  have "same_keyed POST idem (concat (map (\<lambda>(i, c). fst (web_req (publish_request url enc token warp fresh c) (net i))) (enumerate 0 calls)))"
    unfolding same_keyed_def
  proof
    fix r assume "r \<in> set (concat (map (\<lambda>(i, c). fst (web_req (publish_request url enc token warp fresh c) (net i))) (enumerate 0 calls)))"
    then obtain i c where c: "c \<in> set calls" "r \<in> set (fst (web_req (publish_request url enc token warp fresh c) (net i)))"
      by (fastforce simp: in_set_enumerate_eq dest: nth_mem)
    have q: "wc_method (publish_request url enc token warp fresh c) = POST" "web_key (publish_request url enc token warp fresh c) = idem"
      using keys [OF c(1)] by (simp_all add: publish_request_def web_key_def)
    have "same_keyed POST idem (fst (web_req (publish_request url enc token warp fresh c) (net i)))"
      using web_api.same_key [of "publish_request url enc token warp fresh c" "net i"] q assms by simp
    with c(2) show "rq_method r = POST \<and> header ''Idempotency-Key'' r = Some idem" by (simp add: same_keyed_def)
  qed
  from deliver_once [OF this, of "[]" 0] keys ok show ?thesis by (simp add: Let_def page_ok_def flip: calls_def)
qed

lemma poll_market_ends:
  assumes "\<And>k. 1500 * int k \<le> clock k"
  shows "k + m = 14 \<Longrightarrow> \<exists>n st. poll_market (Suc m) clock poll k s = Some (n, st) \<and> n \<le> 14
    \<and> (st \<noteq> PENDING \<or> 20000 \<le> clock n \<or> (\<exists>e. 0 < n \<and> poll (n - 1) = Inl e))"
proof (induction m arbitrary: k s)
  case 0
  then have "k = 14" by simp
  moreover have "20000 \<le> clock 14" using assms [of 14] by simp
  ultimately show ?case by simp
next
  case (Suc m)
  show ?case
  proof (cases "s = PENDING \<and> clock k < 20000")
    case True
    show ?thesis
    proof (cases "poll k")
      case (Inl e)
      with True Suc.prems show ?thesis by simp
    next
      case (Inr st)
      have "poll_market (Suc (Suc m)) clock poll k s = poll_market (Suc m) clock poll (Suc k) st"
        by (subst poll_market.simps(2)) (simp only: True Inr sum.case simp_thms if_True)
      with Suc.IH [of "Suc k" st] Suc.prems show ?thesis by (simp only: add_Suc add_Suc_right)
    qed
  next
    case False
    with Suc.prems show ?thesis by auto
  qed
qed

text \<open>
  The wait for a new market ends. When at least the 1.5 seconds of each sleep pass between two tests of the
  clock, the loop reads the market at most 14 times; it ends on a status other than \<open>PENDING\<close>, when twenty
  seconds are over, or with the read that failed.
\<close>

theorem market_wait_bounded:
  assumes "\<And>k. 1500 * int k \<le> we_clock W k" "po_market p = Some m"
  shows "\<exists>n status. poll_market POLL_FUEL (we_clock W) (we_poll W) 0 (mk_status (pm_market m)) = Some (n, status) \<and> n \<le> 14
    \<and> (status \<noteq> PENDING \<or> 20000 \<le> we_clock W n \<or> (\<exists>e. 0 < n \<and> we_poll W (n - 1) = Inl e))
    \<and> (\<exists>es. web_progression POLL_FUEL W (p, True) = Some es \<and> length (filter (\<lambda>e. e = ReadMarket (mk_id (pm_market m))) es) = n
        \<and> last es = ProgressShown (or_else (creatorMicrocopy (MarketChip status)) (lit ''Posted'')) (StatusChip status))"
proof -
  obtain n status where n: "poll_market POLL_FUEL (we_clock W) (we_poll W) 0 (mk_status (pm_market m)) = Some (n, status)" "n \<le> 14"
    "status \<noteq> PENDING \<or> 20000 \<le> we_clock W n \<or> (\<exists>e. 0 < n \<and> we_poll W (n - 1) = Inl e)"
  proof -
    have "POLL_FUEL = Suc 14" by (simp add: POLL_FUEL_def)
    with poll_market_ends [of "we_clock W" 0 14 "we_poll W" "mk_status (pm_market m)", OF assms(1)] that show ?thesis by auto
  qed
  moreover have "length (filter (\<lambda>e. e = ReadMarket i) (concat (replicate n [ProgressShown t c, ReadMarket i]))) = n" for i t c
    by (induction n) simp_all
  ultimately show ?thesis using assms(2) by (simp add: web_progression_def)
qed

text \<open>A page with a caption; the backend takes the post, then is slow to place the market.\<close>

definition demo_page_run :: "web_publish_env \<Rightarrow> page_action list" where
  "demo_page_run W = [TypeCaption (lit ''hi'') [], PostTapped 6 False W, PostEnded (Inl NetworkError) None, PostTapped 6 False W]"

lemma demo_page_calls:
  "map snd (publish_calls (snd (page_run (demo_page_run W) (create_page0 (lit ''k''))))) = [lit ''k'', lit ''k'']"
proof -
  have sign: "sign_attachment E None = ([], Inr (None, None))" for E by (simp add: sign_attachment_def io_return_def)
  have trim: "js_trim (lit ''hi'') \<noteq> []" by (simp add: lit_Cons js_trim_def is_space_def)
  show ?thesis
    by (simp add: demo_page_run_def create_page0_def Let_def web_submit_start_def web_canPost_def web_submit_end_def uploadsPending_def
        trim attach0_eq web_attachmentValid_def web_publish_calls sign)
qed

definition pending_market :: market where
  "pending_market = Market (lit ''m2'') 9 \<lparr> ul_id = lit ''u1'', ul_username = lit ''ann'', ul_display_name = None, ul_avatar_url = None \<rparr>
     (lit ''q'') (lit ''sq'') None PENDING None 50 50 (lit ''0'') (lit ''now'') None"

definition pending_post :: post where
  "pending_post = \<lparr> po_id = lit ''p'', po_affiliate_id = None,
     po_author = \<lparr> ul_id = lit ''u1'', ul_username = lit ''ann'', ul_display_name = None, ul_avatar_url = None \<rparr>,
     po_kind = Photo, po_caption = None, po_mentions = [], po_media = [],
     po_market = Some \<lparr> pm_market = pending_market, pm_poster_position = None, pm_poster_pnl = None \<rparr>,
     po_like_count = 0, po_comment_count = 0, po_liked = False, po_reactions = [], po_top_comments = [], po_created_at = [] \<rparr>"

definition slow_env :: web_publish_env where
  "slow_env = \<lparr> we_trade = demo_env (\<lambda>_. Inl Thrown), we_publish = (\<lambda>_. Inr pending_post), we_clock = (\<lambda>k. 1600 * int k),
     we_poll = (\<lambda>_. Inr PENDING) \<rparr>"

theorem web_page_publishes_once_witness:
  "length (publish_calls (snd (page_run (demo_page_run slow_env) (create_page0 (lit ''k''))))) = 2
   \<and> snd (deliver ([], 0) (concat (map (\<lambda>(i, c). fst (web_req (publish_request (lit ''http://api'') (\<lambda>_. JNull) None None [] c)
       (\<lambda>_ _. FetchFails NetworkError))) (enumerate 0 (publish_calls (snd (page_run (demo_page_run slow_env) (create_page0 (lit ''k''))))))))) \<le> 1"
proof -
  have "lit ''k'' \<noteq> []" by (simp add: lit_def)
  from web_page_publishes_once [OF this, of "demo_page_run slow_env" "lit ''http://api''" "\<lambda>_. JNull" None None "[]" "\<lambda>_ _ _. FetchFails NetworkError"]
  show ?thesis using arg_cong [OF demo_page_calls [of slow_env], of length] by (simp add: Let_def)
qed

theorem market_wait_bounded_witness:
  "\<exists>n status. poll_market POLL_FUEL (we_clock slow_env) (we_poll slow_env) 0 PENDING = Some (n, status) \<and> n = 13 \<and> n \<le> 14
     \<and> (\<exists>es. web_progression POLL_FUEL slow_env (pending_post, True) = Some es \<and> length (filter (\<lambda>e. e = ReadMarket (lit ''m2'')) es) = n)"
proof -
  have clock: "1500 * int k \<le> we_clock slow_env k" for k by (simp add: slow_env_def)
  have market: "po_market pending_post = Some \<lparr> pm_market = pending_market, pm_poster_position = None, pm_poster_pnl = None \<rparr>"
    "mk_status pending_market = PENDING" "mk_id pending_market = lit ''m2''" by (simp_all add: pending_post_def pending_market_def)
  have "poll_market POLL_FUEL (we_clock slow_env) (we_poll slow_env) 0 PENDING = Some (13, PENDING)"
    by (simp add: POLL_FUEL_def slow_env_def eval_nat_numeral)
  with market_wait_bounded [OF clock market(1)] show ?thesis by (auto simp: market)
qed

section \<open>The dollar a new market needs\<close>

text \<open>
  Both clients ask for one dollar to open a market, but not the same dollar: the web client counts the cost of
  the shares that will be signed, the app the amount typed. A dollar at 99 cents buys one share, which the
  web client refuses and the app signs and sends, with 0.99 dollars of opening capital.
\<close>

theorem opening_capital_differs:
  "\<not> attachmentInvalid (Some (NewMarket (c\<lparr>mmc_question := q # qs\<rparr>) Yes 1 99)) \<and> mob_sharesForSpend 1 99 = 1
   \<and> web_sharesForSpend 1 99 = 1 \<and> \<not> web_attachmentValid 6 (Some (WebNew d Yes 99 (web_sharesForSpend 1 99)))"
proof -
  have "\<not> or_else (web_unitsToDollars 6 (Inr (web_escrowUnits 6 1 99))) 0 \<ge> 1" by code_simp
  then show ?thesis by (simp add: attachmentInvalid_def NEW_MARKET_MIN_SPEND_def mob_sharesForSpend_web demo_parse web_attachmentValid_def)
qed

end
