(* ===== verification/Wallet.thy ===== *)
theory Wallet
  imports Publish
begin

text \<open>
  The wallet tabs, \<open>web/components/WalletTab.tsx\<close> and \<open>mobile/components/WalletTab.tsx\<close>: sending the payment
  token to an address, which signs an EIP-3009 authorization that the relayer submits, and opening a
  funding session. The two clients differ in what they sign and in what they post.
\<close>

section \<open>Addresses\<close>

text \<open>\<open>/^0x[0-9a-fA-F]{40}$/\<close>.\<close>

definition is_hex :: "code_unit \<Rightarrow> bool" where
  "is_hex c \<longleftrightarrow> is_digit c \<or> (97 \<le> c \<and> c \<le> 102) \<or> (65 \<le> c \<and> c \<le> 70)"

definition is_address :: "str \<Rightarrow> bool" where
  "is_address t \<longleftrightarrow> starts_with t (lit ''0x'') \<and> length (drop 2 t) = 40 \<and> list_all is_hex (drop 2 t)"

section \<open>Sending from the web client\<close>

record web_send_sheet =
  ws_to :: str
  ws_amount :: str
  ws_busy :: bool

datatype web_send_event = SendPrompt typed_data | PostSend auth_wire str

record web_send_env =
  wd_config :: web_config
  wd_decimals :: nat
  wd_address :: "str option"
  wd_sign :: "typed_data \<Rightarrow> js_error + str"
  wd_now_ms :: int
  wd_random :: "8 word list"
  wd_key :: str
  wd_post :: "js_error + unit"

definition web_send0 :: web_send_sheet where
  "web_send0 = \<lparr> ws_to = [], ws_amount = [], ws_busy = False \<rparr>"

definition web_send_setTo :: "str \<Rightarrow> web_send_sheet \<Rightarrow> web_send_sheet" where
  "web_send_setTo t s = s\<lparr>ws_to := js_trim t\<rparr>"

definition web_send_setAmount :: "str \<Rightarrow> web_send_sheet \<Rightarrow> web_send_sheet" where
  "web_send_setAmount t s = s\<lparr>ws_amount := amount_filter t\<rparr>"

text \<open>The checks of \<open>send\<close>: the title of a toast, or nothing.\<close>

definition web_send_refused :: "web_send_sheet \<Rightarrow> str option" where
  "web_send_refused s = (if \<not> is_address (ws_to s) then Some (lit ''Invalid address'')
     else if ticket_dollars (ws_amount s) \<le> 0 then Some (lit ''Enter an amount'') else None)"

definition web_send_auth :: "web_send_env \<Rightarrow> web_send_sheet \<Rightarrow> str \<Rightarrow> auth3009_fields" where
  "web_send_auth E s address = \<lparr> ah_from = address, ah_to = ws_to s,
     ah_value = web_dollarsToUnits (wd_decimals E) (ticket_dollars (ws_amount s)), ah_validAfter = 0,
     ah_validBefore = wd_now_ms E div 1000 + 3600, ah_nonce = web_randomAuthNonce (wd_random E) \<rparr>"

definition web_send_run :: "web_send_env \<Rightarrow> web_send_sheet \<Rightarrow> (web_send_event, unit) io" where
  "web_send_run E s = (case non_empty (wd_address E) of
     None \<Rightarrow> io_throw (ErrorMsg (lit ''wallet not ready''))
   | Some address \<Rightarrow>
       (let auth = web_send_auth E s address; prompt = buildTransferAuthTypedData (wd_config E) auth in
        io_bind (io_call (SendPrompt prompt) (wd_sign E prompt)) (\<lambda>sig.
          io_call (PostSend (serializeAuth auth sig) (wd_key E)) (wd_post E))))"

text \<open>A tap on the button: what happens outside, and the toast of a refusal.\<close>

definition web_send_tapped :: "bool \<Rightarrow> web_send_env \<Rightarrow> web_send_sheet \<Rightarrow> web_send_sheet \<times> web_send_event list \<times> str option" where
  "web_send_tapped warped E s =
     (if ws_busy s \<or> warped then (s, [], None)
      else case web_send_refused s of
        Some t \<Rightarrow> (s, [], Some t)
      | None \<Rightarrow> (s\<lparr>ws_busy := True\<rparr>, fst (web_send_run E s), None))"

definition web_send_ended :: "js_error + unit \<Rightarrow> web_send_sheet \<Rightarrow> web_send_sheet \<times> bool \<times> str option" where
  "web_send_ended r s = (case r of
     Inr _ \<Rightarrow> (s\<lparr>ws_busy := False\<rparr>, True, None)
   | Inl e \<Rightarrow> (s\<lparr>ws_busy := False\<rparr>, False, Some (web_errorMessage e)))"

section \<open>Sending from the app\<close>

record mob_send_sheet =
  mj_to :: str
  mj_amount :: str
  mj_busy :: bool
  mj_error :: "str option"

record mob_send_body =
  mx_to :: str
  mx_amount :: rat
  mx_auth :: auth3009_payload

datatype mob_send_event = SendTrade mob_trade_event | MobPostSend mob_send_body

definition mob_send0 :: mob_send_sheet where
  "mob_send0 = \<lparr> mj_to = [], mj_amount = [], mj_busy = False, mj_error = None \<rparr>"

definition mob_send_valid :: "wallet_info \<Rightarrow> mob_send_sheet \<Rightarrow> bool" where
  "mob_send_valid w s \<longleftrightarrow> is_address (js_trim (mj_to s)) \<and> text_dollars (mj_amount s) > 0 \<and> text_dollars (mj_amount s) \<le> wl_balance w"

definition mob_send_opts :: "wallet_info \<Rightarrow> mob_send_sheet \<Rightarrow> receive_auth_opts" where
  "mob_send_opts w s = \<lparr> ro_to = Some (js_trim (mj_to s)),
     ro_value = mob_dollarsToUnits (nat (wl_token_decimals w)) (text_dollars (mj_amount s)), ro_validSeconds = None,
     ro_token = Some \<lparr> to_name = wl_token_name w, to_version = wl_token_version w, to_address = Some (wl_token_address w) \<rparr>,
     ro_nonce = None \<rparr>"

definition mob_send_run :: "mob_trade_env \<Rightarrow> (mob_send_body \<Rightarrow> js_error + unit) \<Rightarrow> wallet_info \<Rightarrow> mob_send_sheet \<Rightarrow> (mob_send_event, unit) io" where
  "mob_send_run E post1 w s =
     io_bind (io_call (SendTrade EnsureWallet) (mt_wallet E)) (\<lambda>address.
     io_bind (io_lift SendTrade (sign_auth E address (mob_send_opts w s))) (\<lambda>auth.
       let body = \<lparr> mx_to = js_trim (mj_to s), mx_amount = text_dollars (mj_amount s), mx_auth = auth \<rparr>
       in io_call (MobPostSend body) (post1 body)))"

definition mob_send_tapped :: "mob_trade_env \<Rightarrow> (mob_send_body \<Rightarrow> js_error + unit) \<Rightarrow> wallet_info \<Rightarrow> mob_send_sheet
    \<Rightarrow> mob_send_sheet \<times> mob_send_event list" where
  "mob_send_tapped E post1 w s = (if mob_send_valid w s \<and> \<not> mj_busy s
     then (s\<lparr>mj_busy := True, mj_error := None\<rparr>, fst (mob_send_run E post1 w s)) else (s, []))"

definition mob_send_ended :: "js_error + unit \<Rightarrow> mob_send_sheet \<Rightarrow> mob_send_sheet \<times> bool" where
  "mob_send_ended r s = (case r of
     Inr _ \<Rightarrow> (s\<lparr>mj_to := [], mj_amount := [], mj_busy := False\<rparr>, True)
   | Inl e \<Rightarrow> (s\<lparr>mj_error := Some (mob_errorMessage e), mj_busy := False\<rparr>, False))"

section \<open>Funding\<close>

text \<open>A funding sheet; the page a finished step opens is the last component of a result.\<close>

record 'x fund_sheet =
  fs_busy :: "onramp_kind option"
  fs_crypto :: "'x option"
  fs_open :: bool

definition fund_sheet0 :: "'x fund_sheet" where
  "fund_sheet0 = \<lparr> fs_busy = None, fs_crypto = None, fs_open = True \<rparr>"

definition web_fund_start :: "onramp_kind \<Rightarrow> 'x fund_sheet \<Rightarrow> 'x fund_sheet" where
  "web_fund_start k s = (if fs_busy s = None then s\<lparr>fs_busy := Some k\<rparr> else s)"

definition web_fund_ended :: "onramp_kind \<Rightarrow> js_error + onramp_session \<Rightarrow> onramp_session fund_sheet
    \<Rightarrow> onramp_session fund_sheet \<times> str option" where
  "web_fund_ended k r s = (case r of
     Inl e \<Rightarrow> (s\<lparr>fs_busy := None\<rparr>, None)
   | Inr x \<Rightarrow> (case non_empty (os_checkout_url x) of
       Some url \<Rightarrow> if k = Fiat then (s\<lparr>fs_busy := None, fs_open := False\<rparr>, Some url)
                   else (s\<lparr>fs_busy := None, fs_crypto := Some x\<rparr>, None)
     | None \<Rightarrow> (s\<lparr>fs_busy := None, fs_crypto := Some x\<rparr>, None)))"

text \<open>In the app only the option that is loading is disabled.\<close>

definition mob_fund_start :: "onramp_kind \<Rightarrow> 'x fund_sheet \<Rightarrow> 'x fund_sheet" where
  "mob_fund_start k s = (if fs_busy s = Some k then s else s\<lparr>fs_busy := Some k\<rparr>)"

definition mob_fund_ended :: "onramp_kind \<Rightarrow> js_error + mob_onramp_session \<Rightarrow> mob_onramp_session fund_sheet
    \<Rightarrow> mob_onramp_session fund_sheet \<times> str option" where
  "mob_fund_ended k r s = (case r of
     Inl e \<Rightarrow> (s\<lparr>fs_busy := None\<rparr>, None)
   | Inr x \<Rightarrow> (if k = Fiat then (s\<lparr>fs_busy := None, fs_open := False\<rparr>, non_empty (mos_checkout_url x))
              else (s\<lparr>fs_busy := None, fs_crypto := Some x\<rparr>, None)))"

section \<open>Lemmas\<close>

lemma web_send_events:
  "fst (web_send_run E s) = (case non_empty (wd_address E) of None \<Rightarrow> []
    | Some address \<Rightarrow> SendPrompt (buildTransferAuthTypedData (wd_config E) (web_send_auth E s address))
        # (case wd_sign E (buildTransferAuthTypedData (wd_config E) (web_send_auth E s address)) of
             Inl e \<Rightarrow> [] | Inr sig \<Rightarrow> [PostSend (serializeAuth (web_send_auth E s address) sig) (wd_key E)]))"
  by (simp add: web_send_run_def io_bind_simps Let_def split: option.split sum.split)

lemma mob_send_events:
  "fst (mob_send_run E post1 w s) = SendTrade EnsureWallet
    # (case mt_wallet E of Inl e \<Rightarrow> [] | Inr address \<Rightarrow> map SendTrade (fst (sign_auth E address (mob_send_opts w s)))
        @ (case snd (sign_auth E address (mob_send_opts w s)) of Inl e \<Rightarrow> []
           | Inr auth \<Rightarrow> [MobPostSend \<lparr> mx_to = js_trim (mj_to s), mx_amount = text_dollars (mj_amount s), mx_auth = auth \<rparr>]))"
  by (simp add: mob_send_run_def io_bind_simps io_lift_def Let_def split: sum.split)

lemma text_dollars_show: assumes "n \<le> 2 ^ 53" shows "text_dollars (show_nat n) = of_nat n"
proof -
  have "hd (show_nat n) \<in> set (show_nat n)" by (rule hd_in_set) simp
  then have "is_digit (hd (show_nat n))" using show_nat_is_digit by blast
  then have h: "\<not> is_space (hd (show_nat n))" "hd (show_nat n) \<noteq> 45" "hd (show_nat n) \<noteq> 43"
    using show_nat_ends by (auto simp: is_digit_def)
  then have "dropWhile is_space (show_nat n) = show_nat n" by (cases "show_nat n") simp_all
  then show ?thesis using h fl_exact [of "int n"] assms by (simp add: text_dollars_def Let_def)
qed

lemma mob_dollarsToUnits_whole:
  assumes "0 \<le> d" "d * UNIT D < 2 ^ 53" "UNIT D \<le> 2 ^ 53"
  shows "mob_dollarsToUnits D (of_int d) = d * UNIT D"
proof -
  have u: "0 < UNIT D" by (simp add: UNIT_def)
  have "\<bar>UNIT D\<bar> \<le> 2 ^ 53" using u assms(3) by linarith
  then have "num_of_big (UNIT D) = of_int (UNIT D)" by (rule num_of_big_exact)
  moreover have "num_mul (of_int d) (of_int (UNIT D)) = (of_int (d * UNIT D) :: rat)"
    using fl_exact [of "d * UNIT D"] assms u by (simp add: num_mul_def)
  moreover have "math_round (of_int (d * UNIT D) :: rat) = d * UNIT D" unfolding math_round_def by (rule floor_unique) auto
  ultimately show ?thesis by (simp add: mob_dollarsToUnits_def)
qed

section \<open>Properties\<close>

text \<open>
  What a tap on Send does in the web client. It prompts at most once and posts at most once, and only for a
  recipient that is an address and a positive amount, while no other send is running and not as another user;
  what it posts is signed, pays the recipient and nobody else from the user's own wallet, exactly the
  amount converted, and is valid for an hour.
\<close>

theorem web_send_pays_recipient:
  assumes "web_send_tapped warped E s = (s', es, toast)" "e \<in> set es"
  shows "\<not> warped \<and> \<not> ws_busy s \<and> is_address (ws_to s) \<and> 0 < ticket_dollars (ws_amount s)
    \<and> length es \<le> 2 \<and> snd (snd (web_send_tapped warped' E' s')) = None \<and> fst (snd (web_send_tapped warped' E' s')) = []
    \<and> (\<exists>address. wd_address E = Some address \<and>
       (case e of
          SendPrompt d \<Rightarrow> d = buildTransferAuthTypedData (wd_config E) (web_send_auth E s address)
        | PostSend w k \<Rightarrow> (\<exists>sig. wd_sign E (buildTransferAuthTypedData (wd_config E) (web_send_auth E s address)) = Inr sig
             \<and> aw_signature w = sig \<and> aw_from w = address \<and> aw_to w = ws_to s
             \<and> aw_value w = show_int (web_dollarsToUnits (wd_decimals E) (ticket_dollars (ws_amount s)))
             \<and> aw_valid_before w = num_of_big (wd_now_ms E div 1000 + 3600))))"
proof -
  have ok: "\<not> warped" "\<not> ws_busy s" "is_address (ws_to s)" "0 < ticket_dollars (ws_amount s)"
    and es: "es = fst (web_send_run E s)" and busy: "ws_busy s'"
    using assms by (auto simp: web_send_tapped_def web_send_refused_def split: if_splits)
  have again: "web_send_tapped warped' E' s' = (s', [], None)" using busy by (simp add: web_send_tapped_def)
  obtain address where a: "non_empty (wd_address E) = Some address"
    using assms(2) by (cases "non_empty (wd_address E)") (simp_all add: es web_send_events)
  then have address: "wd_address E = Some address" by (auto simp: non_empty_def split: option.splits if_splits)
  define d where "d = buildTransferAuthTypedData (wd_config E) (web_send_auth E s address)"
  have ev: "es = SendPrompt d # (case wd_sign E d of Inl e \<Rightarrow> []
      | Inr sig \<Rightarrow> [PostSend (serializeAuth (web_send_auth E s address) sig) (wd_key E)])"
    by (simp add: es web_send_events a d_def)
  then have short: "length es \<le> 2" by (simp split: sum.split)
  consider (prompt) "e = SendPrompt d"
    | (post) sig where "wd_sign E d = Inr sig" "e = PostSend (serializeAuth (web_send_auth E s address) sig) (wd_key E)"
    using assms(2) unfolding ev by (cases "wd_sign E d") auto
  then show ?thesis
  proof cases
    case prompt
    then show ?thesis using ok short by (simp add: again address d_def)
  next
    case post
    then show ?thesis using ok short
      by (simp add: again address d_def [symmetric]) (simp add: serializeAuth_def web_send_auth_def)
  qed
qed

definition demo_recipient :: str where
  "demo_recipient = lit ''0x'' @ replicate 40 97"

definition demo_web_send :: web_send_env where
  "demo_web_send = \<lparr> wd_config = load_web_config (\<lambda>_. None), wd_decimals = 6, wd_address = Some (lit ''0xA''),
     wd_sign = (\<lambda>_. Inr (lit ''0xsig'')), wd_now_ms = 1000000, wd_random = [], wd_key = lit ''k'', wd_post = Inr () \<rparr>"

definition demo_send_sheet :: "str \<Rightarrow> web_send_sheet" where
  "demo_send_sheet amount = web_send_setAmount amount (web_send_setTo demo_recipient web_send0)"

lemma demo_recipient_ok: "is_address demo_recipient" "js_trim demo_recipient = demo_recipient"
proof -
  have "is_address demo_recipient \<and> js_trim demo_recipient = demo_recipient" by code_simp
  then show "is_address demo_recipient" "js_trim demo_recipient = demo_recipient" by blast+
qed

theorem web_send_pays_recipient_witness:
  "\<exists>w k. PostSend w k \<in> set (fst (snd (web_send_tapped False demo_web_send (demo_send_sheet (lit ''10'')))))
     \<and> aw_to w = demo_recipient \<and> aw_from w = lit ''0xA''"
proof -
  let ?s = "demo_send_sheet (lit ''10'')"
  have sheet: "ws_to ?s = demo_recipient" "ws_amount ?s = lit ''10''" "\<not> ws_busy ?s"
    by (simp_all add: demo_send_sheet_def web_send_setAmount_def web_send_setTo_def web_send0_def demo_recipient_ok demo_parse)
  have env: "wd_address demo_web_send = Some (lit ''0xA'')" "wd_sign demo_web_send d = Inr (lit ''0xsig'')" for d
    by (simp_all add: demo_web_send_def)
  have tap: "web_send_tapped False demo_web_send ?s = (?s\<lparr>ws_busy := True\<rparr>, fst (web_send_run demo_web_send ?s), None)"
    by (simp add: web_send_tapped_def web_send_refused_def sheet demo_recipient_ok ticket_dollars_def demo_parse)
  have "lit ''0xA'' \<noteq> []" by (simp add: lit_def)
  then obtain w k where w: "PostSend w k \<in> set (fst (web_send_run demo_web_send ?s))"
    by (auto simp: web_send_events env non_empty_def)
  from web_send_pays_recipient [OF tap w] have "aw_to w = demo_recipient \<and> aw_from w = lit ''0xA''" by (auto simp: sheet env)
  with w tap show ?thesis by auto
qed

text \<open>
  The app signs the wrong message for a send. Whatever amount and recipient, what it has the wallet sign is
  never the message the web client signs for any send: it is of type \<open>ReceiveWithAuthorization\<close>, where the
  relayer's \<open>transferWithAuthorization\<close> checks a \<open>TransferWithAuthorization\<close>; and the amount it posts beside it is
  the number of dollars, not the token units of the authorization.
\<close>

theorem mob_send_signs_another_type:
  assumes "SendTrade (MobPrompt a d) \<in> set (fst (mob_send_run E post1 w s))"
  shows "td_primaryType d = lit ''ReceiveWithAuthorization'' \<and> SendPrompt d \<notin> set (fst (web_send_run W t))
    \<and> (\<forall>b. MobPostSend b \<in> set (fst (mob_send_run E post1 w s)) \<longrightarrow> mx_amount b = text_dollars (mj_amount s)
         \<and> ap_value (mx_auth b) = num_of_big (mob_dollarsToUnits (nat (wl_token_decimals w)) (text_dollars (mj_amount s))))"
proof -
  have d: "td_primaryType d = lit ''ReceiveWithAuthorization''"
    using assms by (auto simp: mob_send_events sign_auth_events receive_auth_typed_data_def split: sum.splits)
  have "lit ''ReceiveWithAuthorization'' \<noteq> lit ''TransferWithAuthorization''" by simp
  with d have "SendPrompt d \<notin> set (fst (web_send_run W t))"
    by (auto simp: web_send_events buildTransferAuthTypedData_def split: option.splits sum.splits)
  moreover have "mx_amount b = text_dollars (mj_amount s)
      \<and> ap_value (mx_auth b) = num_of_big (mob_dollarsToUnits (nat (wl_token_decimals w)) (text_dollars (mj_amount s)))"
    if "MobPostSend b \<in> set (fst (mob_send_run E post1 w s))" for b
    using that sign_auth_result(3) by (fastforce simp: mob_send_events sign_auth_events mob_send_opts_def split: sum.splits)
  ultimately show ?thesis using d by blast
qed

definition demo_wallet_info :: wallet_info where
  "demo_wallet_info = \<lparr> wl_address = lit ''0xA'', wl_balance = 100, wl_token_symbol = lit ''USD'', wl_token_address = lit ''0xT'',
     wl_token_decimals = 6, wl_token_name = None, wl_token_version = None, wl_order_nonce = 0 \<rparr>"

theorem mob_send_signs_another_type_witness:
  "\<exists>a d. SendTrade (MobPrompt a d) \<in> set (fst (mob_send_run demo_mob_env (\<lambda>_. Inr ()) demo_wallet_info
        (mob_send0\<lparr>mj_to := demo_recipient, mj_amount := lit ''10''\<rparr>)))
     \<and> SendPrompt d \<notin> set (fst (web_send_run demo_web_send (demo_send_sheet (lit ''10''))))"
proof -
  let ?es = "fst (mob_send_run demo_mob_env (\<lambda>_. Inr ()) demo_wallet_info (mob_send0\<lparr>mj_to := demo_recipient, mj_amount := lit ''10''\<rparr>))"
  have "mt_wallet demo_mob_env = Inr (lit ''0xA'')" by (simp add: demo_mob_env_def)
  then obtain a d where "SendTrade (MobPrompt a d) \<in> set ?es" by (auto simp: mob_send_events sign_auth_events)
  with mob_send_signs_another_type [OF this, of demo_web_send "demo_send_sheet (lit ''10'')"] show ?thesis by blast
qed

text \<open>
  The amounts agree, but not to the last unit. For the same whole number of dollars (up to nine billion of a
  token with six decimals) both clients authorize exactly that amount. Below half a cent the web client passes the
  check and authorizes nothing at all, where the app authorizes the amount typed.
\<close>

theorem send_amounts_agree:
  "(\<forall>d \<le> 9000000000. web_dollarsToUnits 6 (ticket_dollars (show_nat d)) = int d * 10 ^ 6
      \<and> mob_dollarsToUnits 6 (text_dollars (show_nat d)) = int d * 10 ^ 6)
   \<and> web_send_refused (demo_send_sheet (lit ''0.004'')) = None
   \<and> ah_value (web_send_auth demo_web_send (demo_send_sheet (lit ''0.004'')) a) = 0
   \<and> mob_dollarsToUnits 6 (text_dollars (lit ''0.004'')) = 4000"
proof (intro conjI allI impI)
  fix d :: nat assume d: "d \<le> 9000000000"
  have D: "UNIT 6 = 1000000" by (simp add: UNIT_def)
  have "parse_float (show_nat d) = Some (of_nat d)" using d by (intro parse_float_show_nat) simp
  then have "ticket_dollars (show_nat d) = of_int (int d)" by (simp add: ticket_dollars_def)
  then show "web_dollarsToUnits 6 (ticket_dollars (show_nat d)) = int d * 10 ^ 6"
    using dollarsToUnits_whole [of "int d" 6] d by (simp add: D)
  have "text_dollars (show_nat d) = of_int (int d)" using d by (simp add: text_dollars_show)
  then show "mob_dollarsToUnits 6 (text_dollars (show_nat d)) = int d * 10 ^ 6"
    using mob_dollarsToUnits_whole [of "int d" 6] d by (simp add: D)
next
  have amt: "amount_filter (lit ''0.004'') = lit ''0.004'' \<and> ticket_dollars (lit ''0.004'') > 0
    \<and> web_dollarsToUnits 6 (ticket_dollars (lit ''0.004'')) = 0 \<and> mob_dollarsToUnits 6 (text_dollars (lit ''0.004'')) = 4000"
    by code_simp
  show "web_send_refused (demo_send_sheet (lit ''0.004'')) = None"
    using amt by (simp add: web_send_refused_def demo_send_sheet_def web_send_setAmount_def web_send_setTo_def demo_recipient_ok)
  show "ah_value (web_send_auth demo_web_send (demo_send_sheet (lit ''0.004'')) a) = 0"
    using amt by (simp add: web_send_auth_def demo_send_sheet_def web_send_setAmount_def web_send_setTo_def demo_web_send_def)
  show "mob_dollarsToUnits 6 (text_dollars (lit ''0.004'')) = 4000" using amt by blast
qed

theorem send_amounts_agree_witness:
  "web_dollarsToUnits 6 (ticket_dollars (show_nat 10)) = 10000000"
  using send_amounts_agree [of "[]"] by simp

end
