(* ===== verification/Social.thy ===== *)
theory Social
  imports MobileSocket WebApi MobileApi
begin

text \<open>
  The social controls of both clients: following (\<open>FollowButton.tsx\<close>), likes and reactions (\<open>PostCard.tsx\<close>),
  the story viewers (\<open>StoriesRail.tsx\<close>, \<open>stories.tsx\<close>), the toasts and the live order book. Most of them show a
  change before the backend has answered and take it back when it refuses; \<open>optimistic\<close> is their contract.
\<close>

section \<open>Optimistic controls\<close>

text \<open>
  What an optimistic control promises its screen. \<open>view\<close> is what the user sees, \<open>start\<close> a tap, \<open>settle\<close> the
  answer; \<open>effect\<close> is the change the tap stands for.
\<close>

locale optimistic =
  fixes view :: "'s \<Rightarrow> 'v"
    and idle :: "'s \<Rightarrow> bool"
    and start :: "'s \<Rightarrow> 's"
    and settle :: "bool \<Rightarrow> 's \<Rightarrow> 's"
    and effect :: "'v \<Rightarrow> 'v"
  assumes start_shows: "idle s \<Longrightarrow> view (start s) = effect (view s)"
    and start_busy: "idle s \<Longrightarrow> \<not> idle (start s)"
    and busy_ignores: "\<not> idle s \<Longrightarrow> start s = s"
    and settled_idle: "\<not> idle s \<Longrightarrow> idle (settle ok s)"
    and kept: "idle s \<Longrightarrow> view (settle True (start s)) = view (start s)"
    and taken_back: "idle s \<Longrightarrow> view (settle False (start s)) = view s"
begin

text \<open>One attempt: any number of taps, then the answer.\<close>

definition attempt :: "nat \<times> bool \<Rightarrow> 's \<Rightarrow> 's" where
  "attempt a s = (case a of (taps, ok) \<Rightarrow> settle ok ((start ^^ Suc taps) s))"

lemma more_taps: "idle s \<Longrightarrow> (start ^^ Suc n) s = start s"
  by (induction n) (simp_all add: busy_ignores start_busy)

lemma attempt_idle: "idle s \<Longrightarrow> idle (attempt a s)"
  unfolding attempt_def by (cases a) (simp only: prod.case more_taps settled_idle [OF start_busy])

lemma attempt_view: "idle s \<Longrightarrow> view (attempt a s) = (if snd a then effect (view s) else view s)"
  unfolding attempt_def
  by (cases a; cases "snd a") (simp_all only: prod.case more_taps snd_conv kept taken_back start_shows if_True if_False)

lemma attempts_view:
  "idle s \<Longrightarrow> idle (fold attempt as s) \<and> view (fold attempt as s) = (effect ^^ length (filter snd as)) (view s)"
  by (induction as arbitrary: s) (simp_all add: attempt_idle attempt_view funpow_swap1)

end

section \<open>Following\<close>

datatype follow_state = NotFollowing | Requested | Following

datatype follow_call = PostFollow | DeleteFollow

record web_follow =
  fb_state :: follow_state
  fb_busy :: bool
  fb_prev :: follow_state

definition web_follow0 :: "bool \<Rightarrow> bool \<Rightarrow> web_follow" where
  "web_follow0 is_following follow_requested =
     (let st = (if is_following then Following else if follow_requested then Requested else NotFollowing)
      in \<lparr> fb_state = st, fb_busy = False, fb_prev = st \<rparr>)"

definition web_follow_act :: "bool \<Rightarrow> web_follow \<Rightarrow> web_follow" where
  "web_follow_act priv s = (if fb_busy s then s
     else s\<lparr>fb_busy := True, fb_prev := fb_state s,
            fb_state := (if fb_state s = NotFollowing then (if priv then Requested else Following) else NotFollowing)\<rparr>)"

definition web_follow_call :: "web_follow \<Rightarrow> follow_call option" where
  "web_follow_call s = (if fb_busy s then None else Some (if fb_state s = NotFollowing then PostFollow else DeleteFollow))"

definition web_follow_end :: "bool \<Rightarrow> web_follow \<Rightarrow> web_follow" where
  "web_follow_end ok s = s\<lparr>fb_state := (if ok then fb_state s else fb_prev s), fb_busy := False\<rparr>"

record mob_follow =
  fm_following :: bool
  fm_requested :: bool
  fm_busy :: bool
  fm_was :: "bool \<times> bool"

definition mob_follow0 :: "bool option \<Rightarrow> bool option \<Rightarrow> mob_follow" where
  "mob_follow0 is_following follow_requested = \<lparr> fm_following = (is_following = Some True),
     fm_requested = (follow_requested = Some True), fm_busy = False, fm_was = (False, False) \<rparr>"

definition mob_follow_label :: "mob_follow \<Rightarrow> follow_state" where
  "mob_follow_label s = (if fm_following s then Following else if fm_requested s then Requested else NotFollowing)"

definition mob_follow_toggle :: "bool \<Rightarrow> mob_follow \<Rightarrow> mob_follow" where
  "mob_follow_toggle is_private s = (if fm_busy s then s
     else (let s' = s\<lparr>fm_busy := True, fm_was := (fm_following s, fm_requested s)\<rparr> in
       if fm_following s \<or> fm_requested s then s'\<lparr>fm_following := False, fm_requested := False\<rparr>
       else if is_private then s'\<lparr>fm_requested := True\<rparr> else s'\<lparr>fm_following := True\<rparr>))"

definition mob_follow_call :: "mob_follow \<Rightarrow> follow_call option" where
  "mob_follow_call s = (if fm_busy s then None else Some (if fm_following s \<or> fm_requested s then DeleteFollow else PostFollow))"

definition mob_follow_end :: "bool \<Rightarrow> mob_follow \<Rightarrow> mob_follow" where
  "mob_follow_end ok s = (if ok then s\<lparr>fm_busy := False\<rparr>
     else s\<lparr>fm_following := fst (fm_was s), fm_requested := snd (fm_was s), fm_busy := False\<rparr>)"

text \<open>What the backend does with the call, as far as the buttons show it.\<close>

definition follow_effect :: "bool \<Rightarrow> follow_state \<Rightarrow> follow_state" where
  "follow_effect priv v = (if v = NotFollowing then (if priv then Requested else Following) else NotFollowing)"

interpretation web_fb: optimistic fb_state "\<lambda>s. \<not> fb_busy s" "web_follow_act priv" web_follow_end "follow_effect priv"
  for priv
  by unfold_locales (simp_all add: web_follow_act_def web_follow_end_def follow_effect_def)

interpretation mob_fb: optimistic mob_follow_label "\<lambda>s. \<not> fm_busy s" "mob_follow_toggle priv" mob_follow_end "follow_effect priv"
  for priv
  by unfold_locales (auto simp: mob_follow_toggle_def mob_follow_end_def follow_effect_def mob_follow_label_def Let_def)

text \<open>Attempts of the two buttons, as functions of the model.\<close>

definition web_follow_attempt :: "bool \<Rightarrow> nat \<times> bool \<Rightarrow> web_follow \<Rightarrow> web_follow" where
  "web_follow_attempt priv a s = (case a of (taps, ok) \<Rightarrow> web_follow_end ok ((web_follow_act priv ^^ Suc taps) s))"

definition mob_follow_attempt :: "bool \<Rightarrow> nat \<times> bool \<Rightarrow> mob_follow \<Rightarrow> mob_follow" where
  "mob_follow_attempt priv a s = (case a of (taps, ok) \<Rightarrow> mob_follow_end ok ((mob_follow_toggle priv ^^ Suc taps) s))"

section \<open>Likes\<close>

record like_button =
  lk_liked :: bool
  lk_count :: int
  lk_pending :: "bool list"

text \<open>The web card; a pending call is the value of \<open>next\<close> it was started with.\<close>

definition web_like_tap :: "like_button \<Rightarrow> like_button" where
  "web_like_tap s = (let nxt = \<not> lk_liked s in
     s\<lparr>lk_liked := nxt, lk_count := max 0 (lk_count s + (if nxt then 1 else -1)), lk_pending := lk_pending s @ [nxt]\<rparr>)"

definition drop_call :: "nat \<Rightarrow> 'a list \<Rightarrow> 'a list" where
  "drop_call i xs = take i xs @ drop (Suc i) xs"

definition web_like_end :: "nat \<Rightarrow> bool \<Rightarrow> like_button \<Rightarrow> like_button" where
  "web_like_end i ok s = (if i < length (lk_pending s)
     then let nxt = lk_pending s ! i; s' = s\<lparr>lk_pending := drop_call i (lk_pending s)\<rparr> in
       if ok then s' else s'\<lparr>lk_liked := \<not> nxt, lk_count := max 0 (lk_count s + (if nxt then -1 else 1))\<rparr>
     else s)"

text \<open>The card of the app: a double tap on the picture forces a like. The count is not cut at zero.\<close>

definition mob_like_tap :: "bool \<Rightarrow> like_button \<Rightarrow> like_button" where
  "mob_like_tap forceOn s = (let was = lk_liked s; now = (if forceOn then True else \<not> was) in
     if now = was then s
     else s\<lparr>lk_liked := now, lk_count := lk_count s + (if now then 1 else -1), lk_pending := lk_pending s @ [now]\<rparr>)"

definition mob_like_end :: "nat \<Rightarrow> bool \<Rightarrow> like_button \<Rightarrow> like_button" where
  "mob_like_end i ok s = (if i < length (lk_pending s)
     then let now = lk_pending s ! i; s' = s\<lparr>lk_pending := drop_call i (lk_pending s)\<rparr> in
       if ok then s' else s'\<lparr>lk_liked := \<not> now, lk_count := lk_count s + (if now then -1 else 1)\<rparr>
     else s)"

section \<open>Reactions\<close>

text \<open>\<open>react\<close> of the web card, on the reactions just rendered: an emoji of mine is taken back, any other added.\<close>

definition web_react :: "str \<Rightarrow> reaction_summary list \<Rightarrow> reaction_summary list" where
  "web_react emoji rs =
     (let existing = find (\<lambda>r. rs_emoji r = emoji) rs; others = filter (\<lambda>r. rs_emoji r \<noteq> emoji) rs in
      case existing of
        Some r \<Rightarrow> if rs_reacted r
          then (if rs_count r - 1 > 0 then others @ [\<lparr> rs_emoji = emoji, rs_count = rs_count r - 1, rs_reacted = False \<rparr>] else others)
          else others @ [\<lparr> rs_emoji = emoji, rs_count = rs_count r + 1, rs_reacted = True \<rparr>]
      | None \<Rightarrow> others @ [\<lparr> rs_emoji = emoji, rs_count = 1, rs_reacted = True \<rparr>])"

text \<open>The app keeps one reaction; a pending call is what it would restore.\<close>

record mob_reaction =
  mre_mine :: "str option"
  mre_pending :: "str option list"

definition mob_card_react :: "str \<Rightarrow> mob_reaction \<Rightarrow> mob_reaction" where
  "mob_card_react emoji s = s\<lparr>mre_mine := (if mre_mine s = Some emoji then None else Some emoji),
     mre_pending := mre_pending s @ [mre_mine s]\<rparr>"

definition mob_card_react_end :: "nat \<Rightarrow> bool \<Rightarrow> mob_reaction \<Rightarrow> mob_reaction" where
  "mob_card_react_end i ok s = (if i < length (mre_pending s)
     then let s' = s\<lparr>mre_pending := drop_call i (mre_pending s)\<rparr> in if ok then s' else s'\<lparr>mre_mine := mre_pending s ! i\<rparr>
     else s)"

section \<open>Stories\<close>

definition PHOTO_MS :: int where "PHOTO_MS = 5000"

definition web_story_ms :: "story \<Rightarrow> int" where
  "web_story_ms st = (if sy_kind st = VideoMedia
     then (case sy_duration_ms st of Some d \<Rightarrow> if d = 0 then 15000 else d | None \<Rightarrow> 15000) else PHOTO_MS)"

definition mob_story_ms :: "mob_story \<Rightarrow> int" where
  "mob_story_ms st = (if mmd_kind (msy_media st) = VideoMedia then or_else (mmd_duration_ms (msy_media st)) 15000 else PHOTO_MS)"

text \<open>
  The position of a viewer: group and story. Both viewers are functions of the lengths of the groups; \<open>None\<close>
  is a viewer that closed. The web index can leave the list (a group without stories).
\<close>

type_synonym story_pos = "nat \<times> int"

definition web_story_next :: "nat list \<Rightarrow> story_pos \<Rightarrow> story_pos option" where
  "web_story_next groups p = (case p of (g, i) \<Rightarrow>
     if i < int (groups ! g) - 1 then Some (g, i + 1)
     else if int g < int (length groups) - 1 then Some (g + 1, 0) else None)"

definition web_story_prev :: "nat list \<Rightarrow> story_pos \<Rightarrow> story_pos" where
  "web_story_prev groups p = (case p of (g, i) \<Rightarrow>
     if i > 0 then (g, i - 1) else if g > 0 then (g - 1, int (groups ! (g - 1)) - 1) else (g, i))"

definition mob_story_advance :: "nat list \<Rightarrow> story_pos \<Rightarrow> story_pos option" where
  "mob_story_advance groups p = (case p of (g, i) \<Rightarrow>
     if g < length groups then
       (if i + 1 < int (groups ! g) then Some (g, i + 1) else if g + 1 < length groups then Some (g + 1, 0) else None)
     else Some p)"

definition mob_story_rewind :: "nat list \<Rightarrow> story_pos \<Rightarrow> story_pos" where
  "mob_story_rewind groups p = (case p of (g, i) \<Rightarrow>
     if i > 0 then (g, i - 1) else if g > 0 then (g - 1, max 0 (int (groups ! (g - 1)) - 1)) else (g, i))"

text \<open>The abstract viewer: one list of all stories, and how many of them are behind.\<close>

definition flat_pos :: "nat list \<Rightarrow> story_pos \<Rightarrow> int" where
  "flat_pos groups p = int (sum_list (take (fst p) groups)) + snd p"

definition story_pos_ok :: "nat list \<Rightarrow> story_pos \<Rightarrow> bool" where
  "story_pos_ok groups p \<longleftrightarrow> list_all (\<lambda>n. 0 < n) groups \<and> fst p < length groups \<and> 0 \<le> snd p \<and> snd p < int (groups ! fst p)"

section \<open>Toasts\<close>

record 'b toast_stack =
  tt_toasts :: "(nat \<times> 'b) list"
  tt_nextId :: nat

definition toast_stack0 :: "'b toast_stack" where
  "toast_stack0 = \<lparr> tt_toasts = [], tt_nextId = 1 \<rparr>"

text \<open>The new toast behind the last three (web) or two (app) of those shown; \<open>slice(-n)\<close>.\<close>

definition web_toast :: "'b \<Rightarrow> 'b toast_stack \<Rightarrow> 'b toast_stack" where
  "web_toast t s = s\<lparr>tt_toasts := js_slice_from (tt_toasts s) (- 3) @ [(tt_nextId s, t)], tt_nextId := tt_nextId s + 1\<rparr>"

definition mob_show_toast :: "'b \<Rightarrow> 'b toast_stack \<Rightarrow> 'b toast_stack" where
  "mob_show_toast t s = s\<lparr>tt_toasts := js_slice_from (tt_toasts s) (- 2) @ [(tt_nextId s, t)], tt_nextId := tt_nextId s + 1\<rparr>"

definition dismiss_toast :: "nat \<Rightarrow> 'b toast_stack \<Rightarrow> 'b toast_stack" where
  "dismiss_toast i s = s\<lparr>tt_toasts := filter (\<lambda>t. fst t \<noteq> i) (tt_toasts s)\<rparr>"

section \<open>The order book\<close>

definition book_rows :: "bool \<Rightarrow> nat" where
  "book_rows compact1 = (if compact1 then 4 else 8)"

definition max_shares :: "book_level list \<Rightarrow> book_level list \<Rightarrow> int" where
  "max_shares yes no = fold max (map bl_shares yes @ map bl_shares no) 1"

definition web_bar :: "int \<Rightarrow> book_level \<Rightarrow> rat" where
  "web_bar m l = num_mul (num_div (num_of_big (bl_shares l)) (num_of_big m)) 100"

definition mob_bar :: "int \<Rightarrow> book_level \<Rightarrow> rat" where
  "mob_bar m l = max 6 (num_mul (num_div (num_of_big (bl_shares l)) (num_of_big m)) 100)"

definition mob_book_price :: "bool \<Rightarrow> book_level \<Rightarrow> int" where
  "mob_book_price complement l = (if complement then 100 - bl_price_cents l else bl_price_cents l)"

definition book_shown :: "bool \<Rightarrow> book_level list \<Rightarrow> book_level list" where
  "book_shown compact1 ls = js_slice ls 0 (int (book_rows compact1))"

definition web_book_frame :: "ws_frame \<Rightarrow> order_book option \<Rightarrow> order_book option" where
  "web_book_frame f cached = (case f of BookFrame ch b \<Rightarrow> Some b | _ \<Rightarrow> cached)"

record mob_book_view =
  bv_book :: "mob_order_book_summary option"
  bv_failed :: bool

definition mob_book0 :: mob_book_view where
  "mob_book0 = \<lparr> bv_book = None, bv_failed = False \<rparr>"

definition mob_book_loaded :: "js_error + mob_order_book_summary \<Rightarrow> mob_book_view \<Rightarrow> mob_book_view" where
  "mob_book_loaded r s = (case r of Inr b \<Rightarrow> s\<lparr>bv_book := Some b\<rparr> | Inl e \<Rightarrow> s\<lparr>bv_failed := True\<rparr>)"

text \<open>A delta; its sides may be null in the JSON, although their type says otherwise.\<close>

definition mob_book_delta :: "str \<Rightarrow> book_level list option \<Rightarrow> book_level list option \<Rightarrow> mob_book_view \<Rightarrow> mob_book_view" where
  "mob_book_delta marketId yes no s = s\<lparr>bv_book := Some \<lparr> mob_market_id = marketId,
     mob_yes = or_else (alt_opt yes (map_option mob_yes (bv_book s))) [],
     mob_no = or_else (alt_opt no (map_option mob_no (bv_book s))) [],
     mob_last_trade_price_cents = Option.bind (bv_book s) mob_last_trade_price_cents \<rparr>\<rparr>"

fun mob_book_event :: "str \<Rightarrow> ws_event \<Rightarrow> mob_book_view \<Rightarrow> mob_book_view" where
  "mob_book_event marketId (EvBookDelta c i yes no yp np) s = mob_book_delta marketId (Some yes) (Some no) s"
| "mob_book_event marketId (EvBookTrade c tr t) s =
     s\<lparr>bv_book := map_option (\<lambda>b. b\<lparr>mob_last_trade_price_cents := Some (mtr_price_cents tr)\<rparr>) (bv_book s)\<rparr>"
| "mob_book_event marketId _ s = s"

datatype mob_book_screen = BookUnavailable | BookLoading | BookShown "book_level list" "book_level list" int

definition mob_book_screen_of :: "bool \<Rightarrow> mob_book_view \<Rightarrow> mob_book_screen" where
  "mob_book_screen_of compact1 s = (if bv_failed s then BookUnavailable else case bv_book s of
     None \<Rightarrow> BookLoading
   | Some b \<Rightarrow> let yes = book_shown compact1 (mob_yes b); no = book_shown compact1 (mob_no b)
       in BookShown yes no (max_shares yes no))"

section \<open>Properties\<close>

text \<open>
  The follow buttons of both clients show what the backend has. For any series of attempts, each with any
  number of taps before its answer, and any mix of accepted and refused calls, both buttons show the relation
  with one change per accepted call: a refused one is taken back, taps while a call runs count for nothing,
  and the two clients agree.
\<close>

theorem follow_clients_agree:
  "let shown = (follow_effect priv ^^ length (filter snd attempts))
         (if is_following then Following else if follow_requested then Requested else NotFollowing) in
   fb_state (fold (web_follow_attempt priv) attempts (web_follow0 is_following follow_requested)) = shown
   \<and> mob_follow_label (fold (mob_follow_attempt priv) attempts (mob_follow0 (Some is_following) (Some follow_requested))) = shown
   \<and> \<not> fb_busy (fold (web_follow_attempt priv) attempts (web_follow0 is_following follow_requested))"
proof -
  have "web_follow_attempt priv = web_fb.attempt priv" "mob_follow_attempt priv = mob_fb.attempt priv"
    by (intro ext; simp add: web_follow_attempt_def web_fb.attempt_def mob_follow_attempt_def mob_fb.attempt_def)+
  then show ?thesis
    using web_fb.attempts_view [of "web_follow0 is_following follow_requested" priv attempts]
      mob_fb.attempts_view [of "mob_follow0 (Some is_following) (Some follow_requested)" priv attempts]
    by (simp add: web_follow0_def mob_follow0_def mob_follow_label_def Let_def)
qed

text \<open>
  A like that fails is taken back exactly, on the web as long as a liked post counts a like. But nothing
  keeps a second tap from starting before the first answer: when two calls overlap and both fail, each restores
  what it saw, and the button ends in the state opposite to the one it and the backend started from.
\<close>

theorem likes_taken_back:
  assumes "lk_pending s = []" "0 \<le> lk_count s" "lk_liked s \<longrightarrow> 0 < lk_count s"
  shows "web_like_end 0 False (web_like_tap s) = s \<and> mob_like_end 0 False (mob_like_tap f s) = s
    \<and> web_like_end 0 True (web_like_tap s) = s\<lparr>lk_liked := \<not> lk_liked s, lk_count := lk_count s + (if lk_liked s then -1 else 1)\<rparr>
    \<and> lk_liked (web_like_end 0 False (web_like_end 0 False (web_like_tap (web_like_tap s)))) = (\<not> lk_liked s)
    \<and> lk_liked (mob_like_end 0 False (mob_like_end 0 False (mob_like_tap False (mob_like_tap False s)))) = (\<not> lk_liked s)"
  using assms by (cases s) (auto simp: web_like_tap_def web_like_end_def mob_like_tap_def mob_like_end_def Let_def drop_call_def)

theorem likes_taken_back_witness:
  "lk_liked (web_like_end 0 False (web_like_end 0 False (web_like_tap (web_like_tap \<lparr> lk_liked = False, lk_count = 0, lk_pending = [] \<rparr>))))"
  using likes_taken_back [of "\<lparr> lk_liked = False, lk_count = 0, lk_pending = [] \<rparr>" False] by simp

text \<open>Reactions: no emoji twice, none with an empty count.\<close>

definition reactions_ok :: "reaction_summary list \<Rightarrow> bool" where
  "reactions_ok rs \<longleftrightarrow> distinct (map rs_emoji rs) \<and> list_all (\<lambda>r. 0 < rs_count r) rs"

definition reaction_of :: "reaction_summary list \<Rightarrow> str \<Rightarrow> (int \<times> bool) option" where
  "reaction_of rs emoji = map_option (\<lambda>r. (rs_count r, rs_reacted r)) (find (\<lambda>r. rs_emoji r = emoji) rs)"

definition react_entry :: "(int \<times> bool) option \<Rightarrow> (int \<times> bool) option" where
  "react_entry e = (case e of None \<Rightarrow> Some (1, True)
     | Some (n, mine) \<Rightarrow> if mine then (if n - 1 > 0 then Some (n - 1, False) else None) else Some (n + 1, True))"

lemma find_append: "find P (xs @ ys) = (case find P xs of None \<Rightarrow> find P ys | Some x \<Rightarrow> Some x)"
  by (induction xs) simp_all

lemma find_others: "find (\<lambda>r. rs_emoji r = e) (filter (\<lambda>r. rs_emoji r \<noteq> emoji) rs)
    = (if e = emoji then None else find (\<lambda>r. rs_emoji r = e) rs)"
  by (induction rs) auto

lemma find_emoji: "find (\<lambda>r. rs_emoji r = emoji) rs = Some r \<Longrightarrow> rs_emoji r = emoji \<and> r \<in> set rs"
  by (auto simp: find_Some_iff)

lemma web_react_entry:
  "reaction_of (web_react emoji rs) e = (if e = emoji then react_entry (reaction_of rs emoji) else reaction_of rs e)"
  by (cases "find (\<lambda>r. rs_emoji r = emoji) rs")
     (auto simp: web_react_def Let_def reaction_of_def react_entry_def find_append find_others split: option.split)

lemma web_react_keeps: assumes "reactions_ok rs" shows "reactions_ok (web_react emoji rs)"
proof -
  let ?o = "filter (\<lambda>r. rs_emoji r \<noteq> emoji) rs"
  have d: "distinct (map rs_emoji ?o)" using assms by (simp add: reactions_ok_def distinct_map_filter)
  have o: "list_all (\<lambda>r. 0 < rs_count r) ?o" using assms by (simp add: reactions_ok_def list_all_iff)
  have ok: "reactions_ok (?o @ [\<lparr> rs_emoji = emoji, rs_count = n, rs_reacted = b \<rparr>])" if "0 < n" for n b
    using d o that by (auto simp: reactions_ok_def)
  have "0 < rs_count r" if "find (\<lambda>r. rs_emoji r = emoji) rs = Some r" for r
    using find_emoji [OF that] assms by (simp add: reactions_ok_def list_all_iff)
  then show ?thesis using ok d o
    by (auto simp: web_react_def Let_def reactions_ok_def split: option.split)
qed

text \<open>
  Reacting keeps the reactions of a post well formed on the web: no emoji is listed twice and none with an
  empty count. It changes only the tapped emoji, by one, and marks it as mine; tapping it twice changes nothing.
  Reacting with a second emoji leaves the first marked as mine as well, although the backend keeps one
  reaction per user.
\<close>

theorem web_react_wellformed:
  assumes "reactions_ok rs"
  shows "reactions_ok (web_react emoji rs)
    \<and> (\<forall>e. e \<noteq> emoji \<longrightarrow> reaction_of (web_react emoji rs) e = reaction_of rs e)
    \<and> reaction_of (web_react emoji (web_react emoji rs)) = reaction_of rs
    \<and> (reaction_of rs emoji = None \<longrightarrow> reaction_of (web_react emoji rs) emoji = Some (1, True))
    \<and> (e2 \<noteq> emoji \<and> reaction_of rs emoji = None \<and> reaction_of rs e2 = None
        \<longrightarrow> reaction_of (web_react e2 (web_react emoji rs)) emoji = Some (1, True)
          \<and> reaction_of (web_react e2 (web_react emoji rs)) e2 = Some (1, True))"
proof -
  have "react_entry (react_entry (reaction_of rs emoji)) = reaction_of rs emoji"
  proof (cases "find (\<lambda>r. rs_emoji r = emoji) rs")
    case (Some r)
    then have "0 < rs_count r" using find_emoji [OF Some] assms by (simp add: reactions_ok_def list_all_iff)
    with Some show ?thesis by (auto simp: reaction_of_def react_entry_def)
  qed (simp add: reaction_of_def react_entry_def)
  then have "reaction_of (web_react emoji (web_react emoji rs)) = reaction_of rs"
    by (intro ext) (simp add: web_react_entry)
  then show ?thesis using web_react_keeps [OF assms] by (simp add: web_react_entry react_entry_def)
qed

theorem web_react_wellformed_witness:
  "reaction_of (web_react [2] (web_react [1] [])) [1] = Some (1, True) \<and> reaction_of (web_react [2] (web_react [1] [])) [2] = Some (1, True)"
proof -
  have "reactions_ok []" "reaction_of [] e = None" for e by (simp_all add: reactions_ok_def reaction_of_def)
  with web_react_wellformed [of "[]" "[1]" "[2]"] show ?thesis by simp
qed

text \<open>The viewers step through one list.\<close>

lemma sum_take_Suc: "g < length groups \<Longrightarrow> sum_list (take (Suc g) groups) = sum_list (take g groups) + groups ! g"
  by (simp add: take_Suc_conv_app_nth)

lemma sum_drop: "sum_list groups = sum_list (take g groups) + sum_list (drop g groups)" for groups :: "nat list"
  by (metis append_take_drop_id sum_list_append)

lemma story_next:
  assumes "story_pos_ok groups p"
  shows "mob_story_advance groups p = web_story_next groups p"
    "web_story_next groups p = None \<longleftrightarrow> flat_pos groups p = int (sum_list groups) - 1"
    "web_story_next groups p = Some q \<Longrightarrow> story_pos_ok groups q \<and> flat_pos groups q = flat_pos groups p + 1"
proof -
  obtain g i where p: "p = (g, i)" by fastforce
  have g: "g < length groups" "0 \<le> i" "i < int (groups ! g)" and pos: "\<And>n. n \<in> set groups \<Longrightarrow> 0 < n"
    using assms by (auto simp: story_pos_ok_def p list_all_iff)
  show "mob_story_advance groups p = web_story_next groups p"
    using g by (auto simp: mob_story_advance_def web_story_next_def p)
  have tot: "sum_list groups = sum_list (take g groups) + groups ! g + sum_list (drop (Suc g) groups)"
    using sum_drop [of groups "Suc g"] sum_take_Suc [OF g(1)] by simp
  have "0 < sum_list (drop (Suc g) groups)" if "Suc g < length groups"
  proof -
    have "groups ! Suc g \<in> set (drop (Suc g) groups)" using that by (metis Cons_nth_drop_Suc list.set_intros(1))
    then have "groups ! Suc g \<le> sum_list (drop (Suc g) groups)" by (simp add: member_le_sum_list)
    moreover have "0 < groups ! Suc g" using that by (intro pos) simp
    ultimately show ?thesis by simp
  qed
  then show "web_story_next groups p = None \<longleftrightarrow> flat_pos groups p = int (sum_list groups) - 1"
    using g tot by (cases "Suc g < length groups") (auto simp: web_story_next_def p flat_pos_def)
  show "web_story_next groups p = Some q \<Longrightarrow> story_pos_ok groups q \<and> flat_pos groups q = flat_pos groups p + 1"
    using g pos sum_take_Suc [OF g(1)]
    by (auto simp: web_story_next_def p flat_pos_def story_pos_ok_def list_all_iff split: if_splits)
qed

lemma story_prev:
  assumes "story_pos_ok groups p"
  shows "mob_story_rewind groups p = web_story_prev groups p"
    "story_pos_ok groups (web_story_prev groups p)" "flat_pos groups (web_story_prev groups p) = max 0 (flat_pos groups p - 1)"
proof -
  obtain g i where p: "p = (g, i)" by fastforce
  have g: "g < length groups" "0 \<le> i" "i < int (groups ! g)" and pos: "\<And>n. n \<in> set groups \<Longrightarrow> 0 < n"
    using assms by (auto simp: story_pos_ok_def p list_all_iff)
  have before: "0 < groups ! (g - 1)" by (rule pos) (use g(1) in simp)
  then show "mob_story_rewind groups p = web_story_prev groups p"
    by (auto simp: mob_story_rewind_def web_story_prev_def p)
  show "story_pos_ok groups (web_story_prev groups p)"
    using g pos before by (auto simp: web_story_prev_def p story_pos_ok_def list_all_iff)
  show "flat_pos groups (web_story_prev groups p) = max 0 (flat_pos groups p - 1)"
  proof (cases "i > 0 \<or> g = 0")
    case True
    then show ?thesis using g by (auto simp: web_story_prev_def p flat_pos_def)
  next
    case False
    then obtain h where h: "g = Suc h" by (cases g) auto
    then show ?thesis using False before sum_take_Suc [of h groups] g(1) g(2) by (simp add: web_story_prev_def p flat_pos_def)
  qed
qed

fun story_taps :: "nat \<Rightarrow> nat list \<Rightarrow> story_pos \<Rightarrow> story_pos option" where
  "story_taps 0 groups p = Some p"
| "story_taps (Suc n) groups p = (case web_story_next groups p of None \<Rightarrow> None | Some q \<Rightarrow> story_taps n groups q)"

lemma story_taps_flat:
  "story_pos_ok groups p \<Longrightarrow> (case story_taps n groups p of
     None \<Rightarrow> int (sum_list groups) \<le> flat_pos groups p + int n
   | Some q \<Rightarrow> story_pos_ok groups q \<and> flat_pos groups q = flat_pos groups p + int n)"
proof (induction n arbitrary: p)
  case (Suc n)
  show ?case
  proof (cases "web_story_next groups p")
    case None
    then show ?thesis using story_next(2) [OF Suc.prems] by simp
  next
    case (Some q)
    with story_next(3) [OF Suc.prems Some] Suc.IH [of q] show ?thesis by (cases "story_taps n groups q") simp_all
  qed
qed simp

lemma flat_pos_bound: assumes "story_pos_ok groups p" shows "flat_pos groups p < int (sum_list groups)"
proof -
  obtain g i where p: "p = (g, i)" by fastforce
  have g: "g < length groups" "i < int (groups ! g)" using assms by (auto simp: story_pos_ok_def p)
  then show ?thesis using sum_drop [of groups "Suc g"] sum_take_Suc [OF g(1)] by (simp add: flat_pos_def p)
qed

text \<open>
  C16: The story viewers refine one list of all stories. Where no group is empty, both clients step alike: forward
  is the next story of the list and back the one before it (the first stays), the position stays on a story,
  and from any story the viewer shows the rest one after the other and closes exactly when none is left.
\<close>

theorem stories_refine_one_list:
  assumes "story_pos_ok groups p"
  shows "mob_story_advance groups p = web_story_next groups p \<and> mob_story_rewind groups p = web_story_prev groups p
    \<and> (case web_story_next groups p of None \<Rightarrow> flat_pos groups p = int (sum_list groups) - 1
       | Some q \<Rightarrow> story_pos_ok groups q \<and> flat_pos groups q = flat_pos groups p + 1)
    \<and> story_pos_ok groups (web_story_prev groups p) \<and> flat_pos groups (web_story_prev groups p) = max 0 (flat_pos groups p - 1)
    \<and> (story_taps n groups p = None \<longleftrightarrow> int (sum_list groups) \<le> flat_pos groups p + int n)"
proof -
  have "story_taps n groups p = None \<longleftrightarrow> int (sum_list groups) \<le> flat_pos groups p + int n"
    using story_taps_flat [OF assms, of n] flat_pos_bound by (cases "story_taps n groups p") fastforce+
  then show ?thesis using story_next [OF assms] story_prev [OF assms] by (simp split: option.split)
qed

theorem stories_refine_one_list_witness:
  "story_taps 4 [2, 3] (0, 0) \<noteq> None \<and> story_taps 5 [2, 3] (0, 0) = None \<and> web_story_prev [2, 3] (1, 0) = (0, 1)"
proof -
  have ok: "story_pos_ok [2, 3] (0, 0)" by (simp add: story_pos_ok_def)
  show ?thesis using stories_refine_one_list [OF ok, of 4] stories_refine_one_list [OF ok, of 5]
    by (simp add: flat_pos_def web_story_prev_def)
qed

text \<open>Toasts: a run of either client, with a cap of three or two older ones.\<close>

datatype 'b toast_event = ShowToast 'b | DismissToast nat

fun web_toast_act :: "'b toast_event \<Rightarrow> 'b toast_stack \<Rightarrow> 'b toast_stack" where
  "web_toast_act (ShowToast t) s = web_toast t s"
| "web_toast_act (DismissToast i) s = dismiss_toast i s"

fun mob_toast_act :: "'b toast_event \<Rightarrow> 'b toast_stack \<Rightarrow> 'b toast_stack" where
  "mob_toast_act (ShowToast t) s = mob_show_toast t s"
| "mob_toast_act (DismissToast i) s = dismiss_toast i s"

definition toasts_ok :: "nat \<Rightarrow> 'b toast_stack \<Rightarrow> bool" where
  "toasts_ok cap s \<longleftrightarrow> length (tt_toasts s) \<le> cap \<and> sorted_wrt (<) (map fst (tt_toasts s))
     \<and> (\<forall>t \<in> set (tt_toasts s). fst t < tt_nextId s)"

definition keep_last :: "nat \<Rightarrow> 'a list \<Rightarrow> 'a list" where
  "keep_last k xs = drop (length xs - k) xs"

lemma js_slice_last: "0 < k \<Longrightarrow> js_slice_from xs (- int k) = keep_last k xs"
  by (simp add: js_slice_from_def slice_pos_def keep_last_def nat_diff_distrib' flip: of_nat_diff)

lemma keep_last_ok: "length (keep_last k xs) \<le> k" "set (keep_last k xs) \<subseteq> set xs"
    "sorted_wrt (<) (map fst xs) \<Longrightarrow> sorted_wrt (<) (map fst (keep_last k xs))"
  by (auto simp: keep_last_def drop_map [symmetric] dest: in_set_dropD)

lemma keep_last_suffix:
  assumes "ws = xs @ ms"
  shows "\<exists>ys. keep_last (Suc k) ws = ys @ keep_last k ms"
proof (cases "length ms \<le> k")
  case True
  then have "keep_last (Suc k) ws = drop (length ws - Suc k) xs @ keep_last k ms"
    unfolding keep_last_def assms by (simp only: drop_append) (simp add: drop_all)
  then show ?thesis by blast
next
  case False
  then obtain n where n: "length ms = Suc k + n" by (metis Suc_leI add.commute le_Suc_ex not_le)
  then have "keep_last (Suc k) ws = drop n ms" "keep_last k ms = drop (Suc n) ms"
    by (simp_all add: keep_last_def assms)
  moreover have "drop n ms = ms ! n # drop (Suc n) ms" by (rule Cons_nth_drop_Suc [symmetric]) (simp add: n)
  ultimately show ?thesis by (metis append_Cons append_Nil)
qed

lemma web_toast_keeps: "web_toast t s = s\<lparr>tt_toasts := keep_last 3 (tt_toasts s) @ [(tt_nextId s, t)], tt_nextId := tt_nextId s + 1\<rparr>"
  using js_slice_last [of 3 "tt_toasts s"] by (simp add: web_toast_def)

lemma mob_toast_keeps: "mob_show_toast t s = s\<lparr>tt_toasts := keep_last 2 (tt_toasts s) @ [(tt_nextId s, t)], tt_nextId := tt_nextId s + 1\<rparr>"
  using js_slice_last [of 2 "tt_toasts s"] by (simp add: mob_show_toast_def)

lemma toast_shown_ok:
  assumes "toasts_ok (Suc k) s"
  shows "toasts_ok (Suc k) (s\<lparr>tt_toasts := keep_last k (tt_toasts s) @ [(tt_nextId s, t)], tt_nextId := tt_nextId s + 1\<rparr>)"
  using assms keep_last_ok [where k = k and xs = "tt_toasts s"]
  by (fastforce simp: toasts_ok_def sorted_wrt_append)

lemma toast_dismissed_ok: "toasts_ok cap s \<Longrightarrow> toasts_ok cap (dismiss_toast i s)"
  by (auto simp: toasts_ok_def dismiss_toast_def sorted_wrt_map sorted_wrt_filter intro: order_trans [OF length_filter_le])

lemma toast_step_ok:
  "toasts_ok 4 w \<Longrightarrow> toasts_ok 4 (web_toast_act e w)" "toasts_ok 3 m \<Longrightarrow> toasts_ok 3 (mob_toast_act e m)"
  using toast_shown_ok [of 3 w] toast_shown_ok [of 2 m]
  by (cases e; simp add: web_toast_keeps mob_toast_keeps toast_dismissed_ok)+

definition toasts_agree :: "'b toast_stack \<Rightarrow> 'b toast_stack \<Rightarrow> bool" where
  "toasts_agree w m \<longleftrightarrow> tt_nextId w = tt_nextId m \<and> (\<exists>xs. tt_toasts w = xs @ tt_toasts m)"

lemma toast_step_agree: "toasts_agree w m \<Longrightarrow> toasts_agree (web_toast_act e w) (mob_toast_act e m)"
proof (cases e)
  case (ShowToast t)
  assume a: "toasts_agree w m"
  then obtain xs where "tt_toasts w = xs @ tt_toasts m" by (auto simp: toasts_agree_def)
  from keep_last_suffix [OF this, of 2] a show ?thesis
    by (auto simp: toasts_agree_def ShowToast web_toast_keeps mob_toast_keeps)
qed (auto simp: toasts_agree_def dismiss_toast_def)

lemma toast_run_ok:
  "toasts_ok 4 w \<Longrightarrow> toasts_ok 3 m \<Longrightarrow> toasts_agree w m \<Longrightarrow>
    toasts_ok 4 (fold web_toast_act es w) \<and> toasts_ok 3 (fold mob_toast_act es m)
    \<and> toasts_agree (fold web_toast_act es w) (fold mob_toast_act es m)"
proof (induction es arbitrary: w m)
  case (Cons e es)
  show ?case using Cons.IH [OF toast_step_ok(1) toast_step_ok(2) toast_step_agree, OF Cons.prems] by simp
qed simp

text \<open>
  In every run of notifications and dismissals at most four toasts are on the web page and three in the
  app, each with an id of its own, oldest first, the newest one last; and whatever the app still shows the web
  shows too, as the newest part of its stack.
\<close>

theorem toasts_bounded:
  "let w = fold web_toast_act es toast_stack0; m = fold mob_toast_act es toast_stack0 in
   length (tt_toasts w) \<le> 4 \<and> length (tt_toasts m) \<le> 3
   \<and> sorted_wrt (<) (map fst (tt_toasts w)) \<and> sorted_wrt (<) (map fst (tt_toasts m))
   \<and> (\<exists>xs. tt_toasts w = xs @ tt_toasts m)
   \<and> last (tt_toasts (web_toast t w)) = (tt_nextId w, t) \<and> last (tt_toasts (mob_show_toast t m)) = (tt_nextId w, t)"
proof -
  have "toasts_ok 4 toast_stack0" "toasts_ok 3 toast_stack0" "toasts_agree toast_stack0 toast_stack0"
    by (simp_all add: toasts_ok_def toasts_agree_def toast_stack0_def)
  from toast_run_ok [OF this, of es] show ?thesis
    by (auto simp: Let_def toasts_ok_def toasts_agree_def web_toast_keeps mob_toast_keeps)
qed

text \<open>The bars of the order book.\<close>

lemma fold_max: fixes n :: int shows "n \<le> fold max xs n \<and> (\<forall>x \<in> set xs. x \<le> fold max xs n) \<and> (fold max xs n = n \<or> fold max xs n \<in> set xs)"
proof (induction xs arbitrary: n)
  case (Cons x xs)
  from Cons.IH [of "max x n"] show ?case by (auto simp: max_def split: if_splits)
qed simp

lemma bar_bounds:
  assumes "0 < n" "n \<le> m" "m \<le> 2 ^ 53"
  shows "0 \<le> num_mul (num_div (num_of_big n) (num_of_big m)) 100 \<and> num_mul (num_div (num_of_big n) (num_of_big m)) 100 \<le> 100"
proof -
  have "num_of_big n = of_int n" "num_of_big m = of_int m" using assms by simp_all
  moreover have "num_div (of_int m) (of_int m) = fl (of_int 1)" using assms by (simp add: num_div_def)
  then have one: "num_div (of_int m) (of_int m) = 1" using fl_exact [of 1] by simp
  have "num_div (of_int n) (of_int m) \<le> num_div (of_int m) (of_int m)"
    using assms by (intro num_ops_mono(3)) simp_all
  then have le: "num_div (of_int n) (of_int m) \<le> 1" by (simp only: one)
  have "fl (of_int 0) \<le> fl (of_int n / of_int m)" by (rule fl_mono) (use assms in simp)
  then have ge: "0 \<le> num_div (of_int n) (of_int m)" using fl_exact [of 0] by (simp add: num_div_def)
  have "num_mul 0 100 \<le> num_mul (num_div (of_int n) (of_int m)) 100" "num_mul (num_div (of_int n) (of_int m)) 100 \<le> num_mul 1 100"
    using le ge by (intro num_ops_mono(2); simp)+
  moreover have "num_mul 0 100 = 0" "num_mul 1 100 = 100" using fl_exact [of 0] fl_exact [of 100] by (simp_all add: num_mul_def)
  ultimately show ?thesis by simp
qed

text \<open>
  What the order book shows. At most eight levels a side (four in a compact card), and where every level
  has shares below \<open>2 ^ 53\<close>, every bar of both clients is between 0 and 100 percent wide, at least 6 in the
  app, and the deepest level fills its row.
\<close>

theorem book_bars_bounded:
  assumes "yes = book_shown c ys" "no = book_shown c ns" "l \<in> set (yes @ no)"
    "\<forall>k \<in> set (yes @ no). 0 < bl_shares k \<and> bl_shares k \<le> 2 ^ 53"
  shows "length yes \<le> 8 \<and> length no \<le> 8 \<and> (c \<longrightarrow> length yes \<le> 4 \<and> length no \<le> 4)
    \<and> 0 \<le> web_bar (max_shares yes no) l \<and> web_bar (max_shares yes no) l \<le> 100
    \<and> 6 \<le> mob_bar (max_shares yes no) l \<and> mob_bar (max_shares yes no) l \<le> 100
    \<and> (\<exists>k \<in> set (yes @ no). web_bar (max_shares yes no) k = 100)"
proof -
  let ?ss = "map bl_shares yes @ map bl_shares no"
  define m where "m = max_shares yes no"
  have m: "1 \<le> m" "\<forall>x \<in> set ?ss. x \<le> m" "m = 1 \<or> m \<in> set ?ss"
    unfolding m_def max_shares_def using fold_max [of 1 ?ss] by blast+
  have pos: "0 < bl_shares l" "bl_shares l \<le> m" using assms(3,4) m(2) by auto
  have top: "m \<in> set ?ss"
  proof (cases "m = 1")
    case True
    then have "bl_shares l = m" using pos by linarith
    then show ?thesis using assms(3) by auto
  qed (use m(3) in blast)
  then obtain k where k: "k \<in> set (yes @ no)" "bl_shares k = m" by auto
  then have m53: "m \<le> 2 ^ 53" using assms(4) by auto
  have "num_div (num_of_big m) (num_of_big m) = 1"
    using m(1) m53 fl_exact [of 1] by (simp add: num_div_def)
  then have "web_bar m k = 100" using fl_exact [of 100] by (simp add: web_bar_def k(2) num_mul_def)
  moreover have "length yes \<le> book_rows c" "length no \<le> book_rows c"
    unfolding assms(1,2) book_shown_def js_slice_def slice_pos_def Let_def by simp_all
  moreover have "0 \<le> web_bar m l \<and> web_bar m l \<le> 100" unfolding web_bar_def by (rule bar_bounds [OF pos m53])
  moreover have "6 \<le> mob_bar m l \<and> mob_bar m l \<le> 100"
    using bar_bounds [OF pos m53] by (simp add: mob_bar_def)
  ultimately show ?thesis using k(1) unfolding m_def [symmetric] by (auto simp: book_rows_def split: if_splits)
qed

theorem book_bars_bounded_witness:
  "mob_bar (max_shares (book_shown True [\<lparr> bl_price_cents = 40, bl_shares = 7 \<rparr>]) (book_shown True []))
     \<lparr> bl_price_cents = 40, bl_shares = 7 \<rparr> \<le> 100"
proof -
  have s: "book_shown True [\<lparr> bl_price_cents = 40, bl_shares = 7 \<rparr>] = [\<lparr> bl_price_cents = 40, bl_shares = 7 \<rparr>]" "book_shown True ([] :: book_level list) = []"
    by (simp_all add: book_shown_def js_slice_def slice_pos_def book_rows_def)
  show ?thesis
    using book_bars_bounded [OF refl refl, of "\<lparr> bl_price_cents = 40, bl_shares = 7 \<rparr>" True "[\<lparr> bl_price_cents = 40, bl_shares = 7 \<rparr>]" "[]"]
    by (simp add: s)
qed

text \<open>
  A book that failed to load stays unavailable in the app: no later delta or trade of its channel shows it,
  although each is still applied. Where the load worked, the last trade price survives every delta and is
  replaced by every trade.
\<close>

theorem book_failure_is_sticky:
  "mob_book_screen_of c (fold (mob_book_event i) es (mob_book_loaded (Inl e) mob_book0)) = BookUnavailable
   \<and> Option.bind (bv_book (mob_book_event i (EvBookDelta ch i' ys ns yp np) s)) mob_last_trade_price_cents
      = Option.bind (bv_book s) mob_last_trade_price_cents
   \<and> bv_book (mob_book_event i (EvBookDelta ch i' ys ns yp np) (mob_book_loaded (Inl e) mob_book0)) \<noteq> None"
proof -
  have step: "bv_failed (mob_book_event i ev s) = bv_failed s" for ev s by (cases ev) (simp_all add: mob_book_delta_def)
  have "bv_failed (fold (mob_book_event i) es s) = bv_failed s" for s by (induction es arbitrary: s) (simp_all add: step)
  then show ?thesis by (simp add: mob_book_screen_of_def mob_book_loaded_def mob_book_delta_def)
qed

end
