(* ===== verification/Photo.thy ===== *)
theory Photo
  imports JsNumber
begin

text \<open>
  The photo editor of the app, \<open>mobile/components/PhotoEditor.tsx\<close>, and its story camera,
  \<open>mobile/app/story-camera.tsx\<close>. The editor computes with binary64 numbers; a zoom or an offset that became
  \<open>NaN\<close> is \<open>None\<close>. The image manipulator, the camera and \<open>Math.hypot\<close> are outside the sources: their results
  are arguments.
\<close>

section \<open>Numbers that may be NaN\<close>

type_synonym jnum = "rat option"

fun lift_num :: "(rat \<Rightarrow> rat \<Rightarrow> rat) \<Rightarrow> jnum \<Rightarrow> jnum \<Rightarrow> jnum" where
  "lift_num f (Some x) (Some y) = Some (f x y)"
| "lift_num f _ _ = None"

text \<open>Every divisor of the editor is positive but for a pinch of no width, where \<open>0 / 0\<close> is \<open>NaN\<close>.\<close>

definition js_div :: "jnum \<Rightarrow> jnum \<Rightarrow> jnum" where
  "js_div x y = (if y = Some 0 then None else lift_num num_div x y)"

definition clamp :: "jnum \<Rightarrow> jnum \<Rightarrow> jnum \<Rightarrow> jnum" where
  "clamp v lo hi = lift_num min hi (lift_num max lo v)"

section \<open>The editor\<close>

definition MAX_ZOOM :: rat where "MAX_ZOOM = 5"
definition MAX_OUTPUT :: int where "MAX_OUTPUT = 2048"

datatype aspect_key = OriginalAspect | Aspect1_1 | Aspect4_5 | Aspect4_3 | Aspect16_9

fun ASPECTS :: "aspect_key \<Rightarrow> rat option" where
  "ASPECTS OriginalAspect = None"
| "ASPECTS Aspect1_1 = Some 1"
| "ASPECTS Aspect4_5 = Some (num_div 4 5)"
| "ASPECTS Aspect4_3 = Some (num_div 4 3)"
| "ASPECTS Aspect16_9 = Some (num_div 16 9)"

record photo_work =
  pw_uri :: str
  pw_w :: int
  pw_h :: int

record pinch =
  pn_startDist :: rat
  pn_startScale :: jnum
  pn_active :: bool

text \<open>
  \<open>pe_load\<close> numbers the runs of the effect that loads the source (its \<open>cancelled\<close> flag), \<open>pe_source\<close> is the image
  the editor was opened with. \<open>pe_pan\<close> and \<open>pe_scale\<close> are \<open>curPan\<close> and \<open>curScale\<close>; the animated values always get the
  same numbers.
\<close>

record photo_editor =
  pe_work :: "photo_work option"
  pe_aspect :: aspect_key
  pe_area :: "rat \<times> rat"
  pe_busy :: bool
  pe_pan :: "jnum \<times> jnum"
  pe_scale :: jnum
  pe_panSaved :: "jnum \<times> jnum"
  pe_scaleSaved :: jnum
  pe_pinch :: pinch
  pe_load :: nat
  pe_source :: "str option"

definition photo_editor0 :: photo_editor where
  "photo_editor0 = \<lparr> pe_work = None, pe_aspect = OriginalAspect, pe_area = (0, 0), pe_busy = False,
     pe_pan = (Some 0, Some 0), pe_scale = Some 1, pe_panSaved = (Some 0, Some 0), pe_scaleSaved = Some 1,
     pe_pinch = \<lparr> pn_startDist = 0, pn_startScale = Some 1, pn_active = False \<rparr>, pe_load = 0, pe_source = None \<rparr>"

definition resetTransform :: "photo_editor \<Rightarrow> photo_editor" where
  "resetTransform s = s\<lparr>pe_pan := (Some 0, Some 0), pe_scale := Some 1, pe_panSaved := (Some 0, Some 0),
     pe_scaleSaved := Some 1, pe_pinch := \<lparr> pn_startDist = 0, pn_startScale = Some 1, pn_active = False \<rparr>\<rparr>"

text \<open>The effect on \<open>visible\<close> and \<open>uri\<close>, and the answer of its no-op manipulation.\<close>

definition photo_shown :: "bool \<Rightarrow> str option \<Rightarrow> photo_editor \<Rightarrow> photo_editor" where
  "photo_shown visible uri s = (let s' = s\<lparr>pe_load := Suc (pe_load s), pe_source := non_empty uri\<rparr> in
     if \<not> visible \<or> \<not> truthy uri then s'\<lparr>pe_work := None\<rparr> else resetTransform (s'\<lparr>pe_aspect := OriginalAspect\<rparr>))"

definition photo_loaded :: "nat \<Rightarrow> str \<Rightarrow> photo_work option \<Rightarrow> photo_editor \<Rightarrow> photo_editor" where
  "photo_loaded run uri r s = (if run \<noteq> pe_load s then s
     else s\<lparr>pe_work := Some (or_else r \<lparr> pw_uri = uri, pw_w = 1, pw_h = 1 \<rparr>)\<rparr>)"

record photo_layout =
  pl_frameW :: rat
  pl_frameH :: rat
  pl_baseScale :: rat
  pl_dispW :: rat
  pl_dispH :: rat

definition layout :: "photo_work option \<Rightarrow> rat \<times> rat \<Rightarrow> aspect_key \<Rightarrow> photo_layout" where
  "layout work area aspect = (case work of
     None \<Rightarrow> \<lparr> pl_frameW = 0, pl_frameH = 0, pl_baseScale = 1, pl_dispW = 0, pl_dispH = 0 \<rparr>
   | Some wk \<Rightarrow> if fst area = 0 \<or> snd area = 0
       then \<lparr> pl_frameW = 0, pl_frameH = 0, pl_baseScale = 1, pl_dispW = 0, pl_dispH = 0 \<rparr>
       else let w = of_int (pw_w wk); h = of_int (pw_h wk); ar = (case ASPECTS aspect of None \<Rightarrow> num_div w h | Some r \<Rightarrow> r);
           fW = fst area; fH = num_div fW ar;
           frameH = (if fH > snd area then snd area else fH);
           frameW = (if fH > snd area then num_mul (snd area) ar else fW);
           baseScale = max (num_div frameW w) (num_div frameH h)
         in \<lparr> pl_frameW = frameW, pl_frameH = frameH, pl_baseScale = baseScale,
              pl_dispW = num_mul w baseScale, pl_dispH = num_mul h baseScale \<rparr>)"

definition geom :: "photo_editor \<Rightarrow> photo_layout" where
  "geom s = layout (pe_work s) (pe_area s) (pe_aspect s)"

text \<open>
  \<open>clampPan\<close>, for the \<open>work\<close> of the render that created it. The responder is created once, in the first render of
  the component, and keeps the \<open>clampPan\<close> of that render.
\<close>

definition clampPan :: "photo_work option \<Rightarrow> photo_layout \<Rightarrow> jnum \<times> jnum \<Rightarrow> jnum \<Rightarrow> jnum \<times> jnum" where
  "clampPan work g p sc =
     (let w = (case work of None \<Rightarrow> 0 | Some wk \<Rightarrow> of_int (pw_w wk)); h = (case work of None \<Rightarrow> 0 | Some wk \<Rightarrow> of_int (pw_h wk));
          dispW = lift_num num_mul (Some (num_mul w (pl_baseScale g))) sc;
          dispH = lift_num num_mul (Some (num_mul h (pl_baseScale g))) sc;
          maxX = lift_num max (Some 0) (js_div (lift_num num_sub dispW (Some (pl_frameW g))) (Some 2));
          maxY = lift_num max (Some 0) (js_div (lift_num num_sub dispH (Some (pl_frameH g))) (Some 2))
      in (clamp (fst p) (map_option uminus maxX) maxX, clamp (snd p) (map_option uminus maxY) maxY))"

definition responder_work :: "photo_work option" where
  "responder_work = pe_work photo_editor0"

definition photo_grant :: "photo_editor \<Rightarrow> photo_editor" where
  "photo_grant s = s\<lparr>pe_panSaved := pe_pan s, pe_scaleSaved := pe_scale s,
     pe_pinch := \<lparr> pn_startDist = 0, pn_startScale = pe_scale s, pn_active = False \<rparr>\<rparr>"

definition touch_dist :: "(rat \<Rightarrow> rat \<Rightarrow> rat) \<Rightarrow> rat \<times> rat \<Rightarrow> rat \<times> rat \<Rightarrow> rat" where
  "touch_dist hypot a b = hypot (num_sub (fst a) (fst b)) (num_sub (snd a) (snd b))"

definition photo_pinch :: "rat \<Rightarrow> photo_editor \<Rightarrow> photo_editor" where
  "photo_pinch d s =
     (let p = (if pn_active (pe_pinch s) then pe_pinch s else \<lparr> pn_startDist = d, pn_startScale = pe_scale s, pn_active = True \<rparr>);
          nxt = clamp (js_div (lift_num num_mul (pn_startScale p) (Some d)) (Some (if pn_startDist p = 0 then d else pn_startDist p)))
                  (Some 1) (Some MAX_ZOOM)
      in s\<lparr>pe_pinch := p, pe_scale := nxt, pe_pan := clampPan responder_work (geom s) (pe_pan s) nxt\<rparr>)"

definition photo_drag :: "rat \<Rightarrow> rat \<Rightarrow> photo_editor \<Rightarrow> photo_editor" where
  "photo_drag dx dy s = s\<lparr>pe_pan := clampPan responder_work (geom s)
     (lift_num num_add (fst (pe_panSaved s)) (Some dx), lift_num num_add (snd (pe_panSaved s)) (Some dy)) (pe_scale s)\<rparr>"

definition photo_move :: "(rat \<Rightarrow> rat \<Rightarrow> rat) \<Rightarrow> (rat \<times> rat) list \<Rightarrow> rat \<Rightarrow> rat \<Rightarrow> photo_editor \<Rightarrow> photo_editor" where
  "photo_move hypot touches dx dy s =
     (case touches of a # b # _ \<Rightarrow> photo_pinch (touch_dist hypot a b) s
      | _ \<Rightarrow> if \<not> pn_active (pe_pinch s) then photo_drag dx dy s else s)"

definition changeAspect :: "aspect_key \<Rightarrow> photo_editor \<Rightarrow> photo_editor" where
  "changeAspect key s = resetTransform (s\<lparr>pe_aspect := key\<rparr>)"

definition onArea :: "rat \<Rightarrow> rat \<Rightarrow> photo_editor \<Rightarrow> photo_editor" where
  "onArea width1 height1 s = s\<lparr>pe_area := (width1, height1)\<rparr>"

text \<open>Rotating and flipping: the call, and its answer. An answer is applied whenever it comes.\<close>

datatype photo_op = RotateBy int | FlipHorizontal

definition applyOp :: "photo_op \<Rightarrow> photo_editor \<Rightarrow> photo_editor \<times> (str \<times> photo_op) option" where
  "applyOp op s = (case pe_work s of None \<Rightarrow> (s, None)
     | Some wk \<Rightarrow> if pe_busy s then (s, None) else (s\<lparr>pe_busy := True\<rparr>, Some (pw_uri wk, op)))"

definition applyOp_ended :: "photo_work option \<Rightarrow> photo_editor \<Rightarrow> photo_editor" where
  "applyOp_ended r s = (case r of Some wk \<Rightarrow> (resetTransform (s\<lparr>pe_work := Some wk\<rparr>))\<lparr>pe_busy := False\<rparr>
     | None \<Rightarrow> s\<lparr>pe_busy := False\<rparr>)"

text \<open>The crop in whole pixels; \<open>None\<close> when a number is \<open>NaN\<close>, which the manipulator refuses.\<close>

record crop =
  cr_originX :: int
  cr_originY :: int
  cr_width :: int
  cr_height :: int

definition crop_side :: "int \<Rightarrow> rat \<Rightarrow> jnum \<Rightarrow> jnum \<Rightarrow> (int \<times> int) option" where
  "crop_side size1 frame pan sc =
     (let n = Some (of_int size1); crop0 = js_div (Some frame) sc;
          origin0 = lift_num num_sub (js_div n (Some 2)) (js_div (lift_num num_add (js_div (Some frame) (Some 2)) pan) sc);
          crop1 = lift_num min crop0 n; origin1 = clamp origin0 (Some 0) (lift_num num_sub n crop1)
      in case (origin1, crop1) of (Some x, Some y) \<Rightarrow> Some (math_round x, math_round y) | _ \<Rightarrow> None)"

definition photo_crop :: "photo_editor \<Rightarrow> crop option" where
  "photo_crop s = (case pe_work s of None \<Rightarrow> None
     | Some wk \<Rightarrow> let g = geom s; sc = lift_num num_mul (Some (pl_baseScale g)) (pe_scale s) in
         case (crop_side (pw_w wk) (pl_frameW g) (fst (pe_pan s)) sc, crop_side (pw_h wk) (pl_frameH g) (snd (pe_pan s)) sc) of
           (Some (ox, w), Some (oy, h)) \<Rightarrow> Some \<lparr> cr_originX = ox, cr_originY = oy, cr_width = w, cr_height = h \<rparr>
         | _ \<Rightarrow> None)"

definition photo_resize :: "crop \<Rightarrow> (int \<times> int) option" where
  "photo_resize c = (let longest = max (cr_width c) (cr_height c) in
     if longest > MAX_OUTPUT
     then let factor = num_div (of_int MAX_OUTPUT) (of_int longest)
       in Some (math_round (num_mul (of_int (cr_width c)) factor), math_round (num_mul (of_int (cr_height c)) factor))
     else None)"

definition photo_done :: "photo_editor \<Rightarrow> photo_editor \<times> (str \<times> crop option \<times> (int \<times> int) option) option" where
  "photo_done s = (case pe_work s of None \<Rightarrow> (s, None)
     | Some wk \<Rightarrow> if pe_busy s then (s, None)
         else (s\<lparr>pe_busy := True\<rparr>, Some (pw_uri wk, photo_crop s, Option.bind (photo_crop s) photo_resize)))"

definition photo_done_ended :: "photo_work \<Rightarrow> photo_work option \<Rightarrow> photo_editor \<Rightarrow> photo_editor \<times> photo_work" where
  "photo_done_ended wk r s = (s\<lparr>pe_busy := False\<rparr>, or_else r wk)"

section \<open>The story camera\<close>

datatype camera_side = BackCamera | FrontCamera
datatype flash_mode = FlashOff | FlashAuto | FlashOn

definition FLASH_ORDER :: "flash_mode list" where
  "FLASH_ORDER = [FlashOff, FlashAuto, FlashOn]"

definition index_of :: "'a \<Rightarrow> 'a list \<Rightarrow> int" where
  "index_of x xs = (let n = length (takeWhile (\<lambda>y. y \<noteq> x) xs) in if n < length xs then int n else -1)"

text \<open>\<open>cm_flight\<close> is the outcome of the upload and the post in flight.\<close>

record story_camera =
  cm_facing :: camera_side
  cm_flash :: flash_mode
  cm_captured :: "str option"
  cm_busy :: bool
  cm_sending :: bool
  cm_flight :: "bool option"
  cm_closed :: bool

definition story_camera0 :: story_camera where
  "story_camera0 = \<lparr> cm_facing = BackCamera, cm_flash = FlashOff, cm_captured = None, cm_busy = False, cm_sending = False,
     cm_flight = None, cm_closed = False \<rparr>"

definition takePhoto :: "bool \<Rightarrow> story_camera \<Rightarrow> story_camera" where
  "takePhoto ready s = (if \<not> ready \<or> cm_busy s then s else s\<lparr>cm_busy := True\<rparr>)"

definition takePhoto_ended :: "str option \<Rightarrow> story_camera \<Rightarrow> story_camera" where
  "takePhoto_ended photo s = s\<lparr>cm_captured := alt_opt photo (cm_captured s), cm_busy := False\<rparr>"

definition retake :: "story_camera \<Rightarrow> story_camera" where
  "retake s = s\<lparr>cm_captured := None\<rparr>"

definition flipFacing :: "story_camera \<Rightarrow> story_camera" where
  "flipFacing s = s\<lparr>cm_facing := (if cm_facing s = BackCamera then FrontCamera else BackCamera)\<rparr>"

definition cycleFlash :: "story_camera \<Rightarrow> story_camera" where
  "cycleFlash s = s\<lparr>cm_flash := FLASH_ORDER ! nat ((index_of (cm_flash s) FLASH_ORDER + 1) mod int (length FLASH_ORDER))\<rparr>"

datatype story_call = UploadStory str | PostStory str

definition story_send_run :: "(str \<Rightarrow> 'e + str) \<Rightarrow> (str \<Rightarrow> 'e + unit) \<Rightarrow> str \<Rightarrow> story_call list \<times> bool" where
  "story_send_run upload post uri = (case upload uri of Inl e \<Rightarrow> ([UploadStory uri], False)
     | Inr i \<Rightarrow> ([UploadStory uri, PostStory i], case post i of Inl e \<Rightarrow> False | Inr u \<Rightarrow> True))"

definition story_send :: "(str \<Rightarrow> 'e + str) \<Rightarrow> (str \<Rightarrow> 'e + unit) \<Rightarrow> story_camera \<Rightarrow> story_camera \<times> story_call list" where
  "story_send upload post s = (case cm_captured s of None \<Rightarrow> (s, [])
     | Some uri \<Rightarrow> if cm_sending s then (s, [])
         else (case story_send_run upload post uri of (calls, ok) \<Rightarrow> (s\<lparr>cm_sending := True, cm_flight := Some ok\<rparr>, calls)))"

definition story_send_ended :: "story_camera \<Rightarrow> story_camera" where
  "story_send_ended s = (case cm_flight s of None \<Rightarrow> s
     | Some ok \<Rightarrow> if ok then s\<lparr>cm_flight := None, cm_closed := True\<rparr> else s\<lparr>cm_flight := None, cm_sending := False\<rparr>)"

text \<open>The buttons each view offers: a photo under review hides the camera, sending disables both its buttons.\<close>

datatype 'e camera_action = ShutterTapped bool | PhotoTaken "str option" | RetakeTapped | FlipTapped | FlashTapped
  | SendTapped "str \<Rightarrow> 'e + str" "str \<Rightarrow> 'e + unit" | SendEnded

fun camera_act :: "'e camera_action \<Rightarrow> story_camera \<Rightarrow> story_camera \<times> story_call list" where
  "camera_act (ShutterTapped ready) s = (if cm_captured s = None then takePhoto ready s else s, [])"
| "camera_act (PhotoTaken photo) s = (if cm_busy s then takePhoto_ended photo s else s, [])"
| "camera_act RetakeTapped s = (if cm_captured s \<noteq> None \<and> \<not> cm_sending s then retake s else s, [])"
| "camera_act FlipTapped s = (if cm_captured s = None then flipFacing s else s, [])"
| "camera_act FlashTapped s = (if cm_captured s = None then cycleFlash s else s, [])"
| "camera_act (SendTapped upload post) s = story_send upload post s"
| "camera_act SendEnded s = (story_send_ended s, [])"

fun camera_run :: "'e camera_action list \<Rightarrow> story_camera \<Rightarrow> story_camera \<times> (story_camera \<times> story_call list) list" where
  "camera_run [] s = (s, [])"
| "camera_run (a # as) s = (let r = camera_act a s; q = camera_run as (fst r) in (fst q, (s, snd r) # snd q))"

definition camera_calls :: "'e camera_action list \<Rightarrow> story_call list" where
  "camera_calls as = concat (map snd (snd (camera_run as story_camera0)))"

section \<open>Rounding, once more\<close>

lemma fl_idem [simp]: "fl (fl x) = fl x"
proof -
  have pos: "fl (fl y) = fl y" if "0 < y" for y
  proof -
    let ?m = "rne (y / 2 powi (expo y - 52))"
    have f: "fl y = of_int ?m * 2 powi (expo y - 52)" using that by (simp add: fl_def Let_def)
    show ?thesis
    proof (cases "?m = 2 ^ 53")
      case True
      then have "fl y = of_int 1 * 2 powi (53 + (expo y - 52))"
        unfolding f by (simp only: True powi_split) (simp add: powi_nat)
      then show ?thesis using fl_exact_scaled [of 1 "53 + (expo y - 52)"] by simp
    next
      case False
      then have "\<bar>?m\<bar> < 2 ^ 53" using fl_scaled_bounds [OF that] by simp
      then show ?thesis unfolding f by (rule fl_exact_scaled)
    qed
  qed
  consider "x = 0" | "0 < x" | "0 < - x" by linarith
  then show ?thesis
  proof cases
    case 3
    from pos [OF this] show ?thesis by (simp add: fl_minus)
  qed (simp_all add: pos)
qed

lemma fl_half: "fl (x / 2) = fl x / 2"
proof (cases "x = 0")
  case False
  have e: "expo (x / 2) = expo x - 1"
    by (rule expo_unique) (use expo_bounds [OF False] powi_Suc [of "expo x - 1"] powi_Suc [of "expo x"] in \<open>simp_all add: abs_if split: if_splits\<close>)
  have "x / 2 / 2 powi (expo x - 1 - 52) = x / 2 powi (expo x - 52)"
    using powi_Suc [of "expo x - 53"] by (simp add: field_simps)
  moreover have "(2 :: rat) powi (expo x - 1 - 52) = 2 powi (expo x - 52) / 2"
    using powi_Suc [of "expo x - 53"] by simp
  ultimately show ?thesis using False by (simp add: fl_def e Let_def)
qed simp

definition is_num :: "rat \<Rightarrow> bool" where "is_num x \<longleftrightarrow> fl x = x"

lemma is_num_simps [simp]:
  "is_num (fl x)" "is_num (num_add x y)" "is_num (num_sub x y)" "is_num (num_mul x y)" "is_num (num_div x y)" "is_num 0"
  by (simp_all add: is_num_def num_add_def num_sub_def num_mul_def num_div_def)

lemma is_num_int [simp]: "\<bar>n\<bar> \<le> 2 ^ 53 \<Longrightarrow> is_num (of_int n)"
  by (simp add: is_num_def fl_exact)

lemma is_num_cases: "is_num x \<Longrightarrow> is_num y \<Longrightarrow> is_num (max x y)" "is_num x \<Longrightarrow> is_num y \<Longrightarrow> is_num (min x y)"
  by (simp_all add: max_def min_def)

section \<open>Crops\<close>

lemma half_int: "\<bar>n\<bar> < 2 ^ 52 \<Longrightarrow> fl (of_int n + 1 / 2) = of_int n + 1 / 2"
proof -
  assume "\<bar>n\<bar> < 2 ^ 52"
  then have "fl (of_int (2 * n + 1) / 2) = of_int (2 * n + 1) / 2"
    unfolding fl_half by (subst fl_exact) simp_all
  then show ?thesis by (simp add: add_divide_distrib)
qed

lemma floor_half_le:
  fixes m :: int
  assumes "0 \<le> m"
  shows "\<lfloor>(of_int m + 1 / 2) / 2 + 1 / 2 :: rat\<rfloor> \<le> m"
proof (cases "m = 0")
  case False
  then have "(1 :: rat) \<le> of_int m" using assms by simp
  moreover have "(x + 1 / 2) / 2 + 1 / 2 < x + 1" if "1 \<le> x" for x :: rat using that by (simp add: field_simps)
  ultimately have "(of_int m + 1 / 2) / 2 + 1 / 2 < (of_int m + 1 :: rat)" by blast
  then show ?thesis by (simp add: floor_le_iff)
qed simp

lemma round_fits:
  fixes c d :: rat and n :: int
  assumes "0 \<le> c" "c \<le> of_int n" "n < 2 ^ 51" "d = fl (of_int n - c)"
  shows "0 \<le> math_round (d / 2)" "0 \<le> math_round c" "math_round (d / 2) + math_round c \<le> n" "math_round c \<le> n"
proof -
  define k where "k = math_round c"
  have k: "of_int k \<le> c + 1 / 2" "c + 1 / 2 < of_int k + 1" 
    using floor_correct [of "c + 1 / 2"] by (simp_all add: k_def math_round_def)
  have "0 \<le> d" using assms(2) by (simp add: assms(4))
  then show "0 \<le> math_round (d / 2)" by (simp add: math_round_def)
  show k0: "0 \<le> math_round c" using assms(1) by (simp add: math_round_def)
  have "c + 1 / 2 < of_int (n + 1)" using assms(2) by simp
  with k(1) have "of_int k < (of_int (n + 1) :: rat)" by (rule le_less_trans)
  then show kn: "math_round c \<le> n" by (simp only: of_int_less_iff k_def)
  have "d \<le> fl (of_int (n - k) + 1 / 2)"
    unfolding assms(4) by (rule fl_mono) (use k(1) in \<open>simp add: algebra_simps\<close>)
  also have "\<dots> = of_int (n - k) + 1 / 2"
    by (rule half_int) (use k0 kn assms(3) in \<open>simp add: k_def\<close>)
  finally have d: "d \<le> of_int (n - k) + 1 / 2" .
  have "math_round (d / 2) \<le> \<lfloor>(of_int (n - k) + 1 / 2) / 2 + 1 / 2 :: rat\<rfloor>"
    unfolding math_round_def by (rule floor_mono) (use d in simp)
  also have "\<dots> \<le> n - k" by (rule floor_half_le) (use kn in \<open>simp add: k_def\<close>)
  finally show "math_round (d / 2) + math_round c \<le> n" by (simp add: k_def)
qed

text \<open>With no offset, the crop of a side is centred and lies within the image.\<close>

lemma crop_side_centred:
  assumes "0 < n" "n < 2 ^ 51" "0 \<le> frame" "is_num frame" "0 < sc"
  shows "\<exists>x k. crop_side n frame (Some 0) (Some sc) = Some (x, k) \<and> 0 \<le> x \<and> 0 \<le> k \<and> x + k \<le> n
    \<and> k = math_round (min (num_div frame sc) (of_int n))
    \<and> x = math_round (num_sub (of_int n) (min (num_div frame sc) (of_int n)) / 2)"
proof -
  define c where "c = num_div frame sc"
  have n: "num_div (of_int n) 2 = of_int n / 2"
    unfolding num_div_def fl_half using assms(1,2) by (subst fl_exact) simp_all
  have f: "num_div frame 2 = frame / 2" "num_add (frame / 2) 0 = frame / 2"
    using assms(4) by (simp_all add: num_div_def num_add_def fl_half is_num_def)
  have o0: "num_sub (of_int n / 2) (num_div (frame / 2) sc) = fl (of_int n - c) / 2"
  proof -
    have "num_div (frame / 2) sc = c / 2" using fl_half [of "frame / sc"] unfolding num_div_def c_def divide_divide_eq_left by (simp only: mult.commute)
    moreover have "fl (of_int n / 2 - c / 2) = fl (of_int n - c) / 2"
      unfolding diff_divide_distrib [symmetric] by (rule fl_half)
    ultimately show ?thesis by (simp only: num_sub_def)
  qed
  have c0: "0 \<le> c" using assms(3,5) by (simp add: c_def num_div_def)
  define crop1 where "crop1 = min c (of_int n)"
  define d where "d = fl (of_int n - crop1)"
  have d_sub: "d = num_sub (of_int n) crop1" by (simp add: d_def num_sub_def)
  have d0: "0 \<le> d" unfolding d_def by (rule fl_nonneg) (simp add: crop1_def)
  have org: "min d (max 0 (fl (of_int n - c) / 2)) = d / 2"
  proof (cases "c \<le> of_int n")
    case True
    then have "d = fl (of_int n - c)" by (simp add: d_def crop1_def)
    with d0 show ?thesis by simp
  next
    case False
    then have "fl (of_int n - c) \<le> fl 0" by (intro fl_mono) simp
    with False show ?thesis by (simp add: d_def crop1_def)
  qed
  have "crop_side n frame (Some 0) (Some sc) = Some (math_round (min d (max 0 (num_sub (of_int n) c / 2))), math_round crop1)"
    using assms(5)
    by (simp add: crop_side_def js_div_def clamp_def Let_def n f o0 flip: c_def crop1_def num_sub_def d_sub)
  then have "crop_side n frame (Some 0) (Some sc) = Some (math_round (d / 2), math_round crop1)"
    by (simp only: num_sub_def org)
  moreover have "0 \<le> crop1" "crop1 \<le> of_int n" using c0 assms(1) by (simp_all add: crop1_def)
  note round_fits [OF this assms(2) d_def]
  ultimately show ?thesis by (simp add: num_sub_def crop1_def d_def c_def)
qed

section \<open>Runs of the editor\<close>

datatype photo_action =
    PhotoShown bool "str option"
  | PhotoLoaded nat str "photo_work option"
  | AreaMeasured rat rat
  | AspectTapped aspect_key
  | FingerDown
  | FingerMoved "(rat \<times> rat) list" rat rat
  | FingerUp
  | OpTapped photo_op
  | OpEnded "photo_work option"
  | DoneTapped
  | DoneEnded photo_work "photo_work option"

fun photo_act :: "(rat \<Rightarrow> rat \<Rightarrow> rat) \<Rightarrow> photo_action \<Rightarrow> photo_editor \<Rightarrow> photo_editor" where
  "photo_act hypot (PhotoShown visible uri) s = photo_shown visible uri s"
| "photo_act hypot (PhotoLoaded run uri r) s = photo_loaded run uri r s"
| "photo_act hypot (AreaMeasured w h) s = onArea w h s"
| "photo_act hypot (AspectTapped key) s = changeAspect key s"
| "photo_act hypot FingerDown s = photo_grant s"
| "photo_act hypot (FingerMoved touches dx dy) s = photo_move hypot touches dx dy s"
| "photo_act hypot FingerUp s = photo_grant s"
| "photo_act hypot (OpTapped op) s = fst (applyOp op s)"
| "photo_act hypot (OpEnded r) s = applyOp_ended r s"
| "photo_act hypot DoneTapped s = fst (photo_done s)"
| "photo_act hypot (DoneEnded wk r) s = fst (photo_done_ended wk r s)"

definition photo_run :: "(rat \<Rightarrow> rat \<Rightarrow> rat) \<Rightarrow> photo_action list \<Rightarrow> photo_editor" where
  "photo_run hypot as = foldl (\<lambda>s a. photo_act hypot a s) photo_editor0 as"

text \<open>What the platform delivers: images with pixels, a layout with numbers, fingers apart.\<close>

definition work_ok :: "photo_work \<Rightarrow> bool" where
  "work_ok wk \<longleftrightarrow> 0 < pw_w wk \<and> pw_w wk < 2 ^ 51 \<and> 0 < pw_h wk \<and> pw_h wk < 2 ^ 51"

fun photo_action_ok :: "(rat \<Rightarrow> rat \<Rightarrow> rat) \<Rightarrow> photo_action \<Rightarrow> bool" where
  "photo_action_ok hypot (PhotoLoaded run uri r) = (case r of None \<Rightarrow> True | Some wk \<Rightarrow> work_ok wk)"
| "photo_action_ok hypot (AreaMeasured w h) = (0 \<le> w \<and> 0 \<le> h \<and> is_num w \<and> is_num h)"
| "photo_action_ok hypot (FingerMoved touches dx dy) = (case touches of a # b # _ \<Rightarrow> 0 < touch_dist hypot a b | _ \<Rightarrow> True)"
| "photo_action_ok hypot (OpEnded r) = (case r of None \<Rightarrow> True | Some wk \<Rightarrow> work_ok wk)"
| "photo_action_ok hypot _ = True"

definition zoom_ok :: "jnum \<Rightarrow> bool" where
  "zoom_ok z = (case z of None \<Rightarrow> False | Some x \<Rightarrow> 1 \<le> x \<and> x \<le> MAX_ZOOM)"

definition photo_ok :: "photo_editor \<Rightarrow> bool" where
  "photo_ok s \<longleftrightarrow> (case pe_work s of None \<Rightarrow> True | Some wk \<Rightarrow> work_ok wk)
     \<and> 0 \<le> fst (pe_area s) \<and> 0 \<le> snd (pe_area s) \<and> is_num (fst (pe_area s)) \<and> is_num (snd (pe_area s))
     \<and> pe_pan s = (Some 0, Some 0) \<and> pe_panSaved s = (Some 0, Some 0) \<and> zoom_ok (pe_scale s)
     \<and> zoom_ok (pn_startScale (pe_pinch s)) \<and> (pn_active (pe_pinch s) \<longrightarrow> 0 < pn_startDist (pe_pinch s))"

definition layout_ok :: "photo_layout \<Rightarrow> bool" where
  "layout_ok g \<longleftrightarrow> 0 \<le> pl_frameW g \<and> 0 \<le> pl_frameH g \<and> is_num (pl_frameW g) \<and> is_num (pl_frameH g) \<and> 0 < pl_baseScale g"

lemma num_pos: "0 < x \<Longrightarrow> 0 < y \<Longrightarrow> 0 < num_mul x y" "0 < x \<Longrightarrow> 0 < y \<Longrightarrow> 0 < num_div x y"
  by (simp_all add: num_mul_def num_div_def fl_pos)

lemma aspect_pos: "ASPECTS a = Some r \<Longrightarrow> 0 < r"
  using num_pos(2) [of 4 5] num_pos(2) [of 4 3] num_pos(2) [of 16 9] by (cases a) auto

lemma layout_fine:
  assumes "case work of None \<Rightarrow> True | Some wk \<Rightarrow> work_ok wk" "0 \<le> fst area" "0 \<le> snd area" "is_num (fst area)" "is_num (snd area)"
  shows "layout_ok (layout work area a)"
proof (cases "work = None \<or> fst area = 0 \<or> snd area = 0")
  case True
  define none where "none = \<lparr> pl_frameW = 0, pl_frameH = 0, pl_baseScale = 1, pl_dispW = 0, pl_dispH = 0 \<rparr>"
  have "layout work area a = none"
  proof (cases work)
    case (Some wk)
    with True have "(fst area = 0 \<or> snd area = 0) = True" by simp
    then show ?thesis by (simp only: layout_def Some option.case if_True none_def)
  qed (simp add: layout_def none_def)
  then show ?thesis by (simp add: none_def layout_ok_def)
next
  case False
  then obtain wk where wk: "work = Some wk" and pos: "0 < fst area" "0 < snd area" using assms by (cases work) auto
  define w h where "w = (of_int (pw_w wk) :: rat)" and "h = (of_int (pw_h wk) :: rat)"
  define ar where "ar = (case ASPECTS a of None \<Rightarrow> num_div w h | Some r \<Rightarrow> r)"
  have wh: "0 < w" "0 < h" using assms(1) by (simp_all add: wk w_def h_def work_ok_def)
  have ar: "0 < ar" unfolding ar_def using wh aspect_pos by (auto intro: num_pos split: option.split)
  define fH where "fH = num_div (fst area) ar"
  define frameH where "frameH = (if fH > snd area then snd area else fH)"
  define frameW where "frameW = (if fH > snd area then num_mul (snd area) ar else fst area)"
  have fr: "0 < frameH" "0 < frameW" "is_num frameH" "is_num frameW"
    using pos ar assms(4,5) by (simp_all add: frameH_def frameW_def fH_def num_pos)
  then have "0 < max (num_div frameW w) (num_div frameH h)" using wh num_pos(2) [of frameW w] by (simp add: less_max_iff_disj)
  moreover have "layout work area a = \<lparr> pl_frameW = frameW, pl_frameH = frameH, pl_baseScale = max (num_div frameW w) (num_div frameH h),
      pl_dispW = num_mul w (max (num_div frameW w) (num_div frameH h)), pl_dispH = num_mul h (max (num_div frameW w) (num_div frameH h)) \<rparr>"
  proof -
    have "(fst area = 0 \<or> snd area = 0) = False" using False wk by blast
    then show ?thesis
      unfolding frameW_def frameH_def fH_def ar_def w_def h_def layout_def wk Let_def by (simp only: option.case if_False)
  qed
  ultimately show ?thesis using fr by (simp add: layout_ok_def)
qed

lemma geom_ok: "photo_ok s \<Longrightarrow> layout_ok (geom s)"
  unfolding geom_def by (rule layout_fine) (simp_all add: photo_ok_def)

text \<open>The responder's \<open>clampPan\<close> knows no image, so that nothing may ever move.\<close>

lemma pan_stuck:
  assumes "layout_ok g"
  shows "clampPan responder_work g (Some x, Some y) (Some z) = (Some 0, Some 0)"
proof -
  have "max 0 (num_div (num_sub 0 f) 2) = 0" if "0 \<le> f" for f
  proof -
    have "num_sub 0 f \<le> fl 0" unfolding num_sub_def by (rule fl_mono) (use that in simp)
    then have "num_div (num_sub 0 f) 2 \<le> fl 0" unfolding num_div_def by (intro fl_mono) simp
    then show ?thesis by simp
  qed
  moreover have "num_mul 0 b = 0" for b by (simp add: num_mul_def)
  moreover have "min 0 (max 0 v) = 0" for v :: rat by simp
  ultimately show ?thesis using assms
    by (simp add: clampPan_def responder_work_def photo_editor0_def layout_ok_def js_div_def clamp_def Let_def)
qed

lemma zoom_okE: assumes "zoom_ok z" obtains x where "z = Some x" "1 \<le> x" "x \<le> MAX_ZOOM"
  using assms by (auto simp: zoom_ok_def split: option.splits)

lemma pinch_ok: assumes "photo_ok s" "0 < d" shows "photo_ok (photo_pinch d s)"
proof -
  define p where "p = (if pn_active (pe_pinch s) then pe_pinch s else \<lparr> pn_startDist = d, pn_startScale = pe_scale s, pn_active = True \<rparr>)"
  have p: "0 < pn_startDist p" "zoom_ok (pn_startScale p)" using assms by (simp_all add: p_def photo_ok_def)
  from p(2) obtain z where z: "pn_startScale p = Some z" by (rule zoom_okE)
  define nxt where "nxt = min MAX_ZOOM (max 1 (num_div (num_mul z d) (pn_startDist p)))"
  have n: "clamp (js_div (lift_num num_mul (pn_startScale p) (Some d)) (Some (if pn_startDist p = 0 then d else pn_startDist p)))
      (Some 1) (Some MAX_ZOOM) = Some nxt"
    using p(1) by (simp add: z js_div_def clamp_def nxt_def)
  have "photo_pinch d s = s\<lparr>pe_pinch := p, pe_scale := Some nxt, pe_pan := (Some 0, Some 0)\<rparr>"
    using n pan_stuck [OF geom_ok [OF assms(1)], of 0 0 nxt] assms(1)
    by (simp add: photo_pinch_def Let_def photo_ok_def flip: p_def)
  moreover have "zoom_ok (Some nxt)" by (simp add: zoom_ok_def nxt_def MAX_ZOOM_def)
  ultimately show ?thesis using assms(1) p by (simp add: photo_ok_def)
qed

lemma drag_ok: assumes "photo_ok s" shows "photo_ok (photo_drag dx dy s)"
proof -
  from assms obtain z where "pe_scale s = Some z" unfolding photo_ok_def by (blast elim: zoom_okE)
  then have "photo_drag dx dy s = s\<lparr>pe_pan := (Some 0, Some 0)\<rparr>"
    using pan_stuck [OF geom_ok [OF assms]] assms by (simp add: photo_drag_def photo_ok_def)
  then show ?thesis using assms by (simp add: photo_ok_def)
qed

lemma photo_act_ok: assumes "photo_ok s" "photo_action_ok hypot a" shows "photo_ok (photo_act hypot a s)"
proof -
  have one: "zoom_ok (Some 1)" by (simp add: zoom_ok_def MAX_ZOOM_def)
  have unit: "work_ok \<lparr> pw_uri = u, pw_w = 1, pw_h = 1 \<rparr>" for u by (simp add: work_ok_def)
  show ?thesis
  proof (cases a)
    case (FingerMoved touches dx dy)
    then show ?thesis using assms pinch_ok drag_ok by (auto simp: photo_move_def split: list.split)
  next
    case (PhotoLoaded run uri r)
    then show ?thesis using assms unit by (cases r) (auto simp: photo_loaded_def photo_ok_def)
  next
    case (OpTapped op)
    then show ?thesis using assms by (auto simp: applyOp_def photo_ok_def split: option.split)
  next
    case (OpEnded r)
    then show ?thesis using assms one by (cases r) (auto simp: applyOp_ended_def resetTransform_def photo_ok_def)
  next
    case DoneTapped
    then show ?thesis using assms by (auto simp: photo_done_def photo_ok_def split: option.split)
  qed (use assms one in \<open>auto simp: photo_shown_def onArea_def changeAspect_def photo_grant_def resetTransform_def
      photo_done_ended_def photo_ok_def Let_def\<close>)
qed

lemma photo_run_ok: "list_all (photo_action_ok hypot) as \<Longrightarrow> photo_ok (photo_run hypot as)"
proof -
  have "photo_ok s \<Longrightarrow> list_all (photo_action_ok hypot) as \<Longrightarrow> photo_ok (foldl (\<lambda>s a. photo_act hypot a s) s as)" for s
    by (induction as arbitrary: s) (simp_all add: photo_act_ok)
  moreover have "photo_ok photo_editor0" by (simp add: photo_ok_def photo_editor0_def zoom_ok_def MAX_ZOOM_def)
  ultimately show "list_all (photo_action_ok hypot) as \<Longrightarrow> ?thesis" by (simp add: photo_run_def)
qed

lemma lift_None [simp]: "lift_num f x None = None" "lift_num f None y = None"
  by (cases x; simp)+

text \<open>Scaling an export down.\<close>

lemma scaled_le:
  assumes "2048 < n" "n < 2 ^ 51" "0 \<le> w" "w \<le> n"
  shows "0 \<le> math_round (num_mul (of_int w) (num_div 2048 (of_int n)))"
    "math_round (num_mul (of_int w) (num_div 2048 (of_int n))) \<le> 2048"
proof -
  define q where "q = num_div 2048 (of_int n)"
  have n0: "(0 :: rat) < of_int n" using assms(1) by simp
  have q0: "0 \<le> q" using n0 by (simp add: q_def num_div_def)
  then show "0 \<le> math_round (num_mul (of_int w) (num_div 2048 (of_int n)))"
    using assms(3) by (simp add: math_round_def num_mul_def flip: q_def)
  have "\<bar>q - 2048 / of_int n\<bar> \<le> \<bar>2048 / of_int n\<bar> / 2 ^ 53" unfolding q_def num_div_def by (rule fl_error)
  then have "q \<le> 2048 / of_int n * (1 + 1 / 2 ^ 53)" using n0 by (simp add: abs_le_iff algebra_simps)
  then have "of_int n * q \<le> of_int n * (2048 / of_int n * (1 + 1 / 2 ^ 53))" using n0 by (intro mult_left_mono) simp_all
  also have "\<dots> = 2048 * (1 + 1 / 2 ^ 53)" using n0 by simp
  finally have "of_int n * q \<le> 2048 * (1 + 1 / 2 ^ 53)" .
  moreover have "of_int w * q \<le> of_int n * q" using q0 assms(4) by (intro mult_right_mono) simp_all
  ultimately have wq: "of_int w * q \<le> 2048 * (1 + 1 / 2 ^ 53)" by linarith
  define x where "x = of_int w * q"
  have x: "0 \<le> x" "x \<le> 2048 + 1 / 8" using q0 assms(3) wq by (simp_all add: x_def)
  then have "\<bar>x\<bar> / 2 ^ 53 \<le> 1 / 8" by simp
  with abs_le_D1 [OF fl_error [of x]] x(2) have "fl x < 2048 + 1 / 2" by linarith
  then have "fl (of_int w * q) < 2048 + 1 / 2" by (simp add: x_def)
  then have "math_round (num_mul (of_int w) q) < 2049" by (simp add: math_round_def num_mul_def floor_less_iff)
  then show "math_round (num_mul (of_int w) (num_div 2048 (of_int n))) \<le> 2048" by (simp add: q_def)
qed

lemma resize_le:
  assumes "0 \<le> cr_width c" "0 \<le> cr_height c" "cr_width c < 2 ^ 51" "cr_height c < 2 ^ 51"
  shows "case photo_resize c of None \<Rightarrow> cr_width c \<le> 2048 \<and> cr_height c \<le> 2048
    | Some (w, h) \<Rightarrow> 0 \<le> w \<and> w \<le> 2048 \<and> 0 \<le> h \<and> h \<le> 2048"
proof (cases "2048 < max (cr_width c) (cr_height c)")
  case True
  define n where "n = max (cr_width c) (cr_height c)"
  have n: "2048 < n" "n < 2 ^ 51" "cr_width c \<le> n" "cr_height c \<le> n" using True assms(3,4) by (simp_all add: n_def)
  have "photo_resize c = Some (math_round (num_mul (of_int (cr_width c)) (num_div 2048 (of_int n))),
      math_round (num_mul (of_int (cr_height c)) (num_div 2048 (of_int n))))"
    using n(1) by (simp add: photo_resize_def MAX_OUTPUT_def Let_def flip: n_def)
  then show ?thesis using scaled_le [OF n(1,2) assms(1) n(3)] scaled_le [OF n(1,2) assms(2) n(4)] by simp
qed (simp add: photo_resize_def MAX_OUTPUT_def Let_def max_def split: if_splits)

section \<open>Properties of the editor\<close>

lemma photo_crop_centred:
  assumes "photo_ok s" "pe_work s = Some wk"
  shows "\<exists>c. photo_crop s = Some c
    \<and> 0 \<le> cr_originX c \<and> 0 \<le> cr_width c \<and> cr_originX c + cr_width c \<le> pw_w wk
    \<and> 0 \<le> cr_originY c \<and> 0 \<le> cr_height c \<and> cr_originY c + cr_height c \<le> pw_h wk"
proof -
  obtain z where z: "pe_scale s = Some z" "1 \<le> z" using assms(1) unfolding photo_ok_def by (blast elim: zoom_okE)
  have g: "layout_ok (geom s)" by (rule geom_ok [OF assms(1)])
  define sc where "sc = num_mul (pl_baseScale (geom s)) z"
  have sc: "0 < sc" unfolding sc_def by (rule num_pos) (use g z(2) in \<open>simp_all add: layout_ok_def\<close>)
  have w: "work_ok wk" using assms by (simp add: photo_ok_def)
  obtain x k where X: "crop_side (pw_w wk) (pl_frameW (geom s)) (Some 0) (Some sc) = Some (x, k)" "0 \<le> x" "0 \<le> k" "x + k \<le> pw_w wk"
    using crop_side_centred [of "pw_w wk" "pl_frameW (geom s)" sc] w g sc by (auto simp: work_ok_def layout_ok_def)
  obtain y l where Y: "crop_side (pw_h wk) (pl_frameH (geom s)) (Some 0) (Some sc) = Some (y, l)" "0 \<le> y" "0 \<le> l" "y + l \<le> pw_h wk"
    using crop_side_centred [of "pw_h wk" "pl_frameH (geom s)" sc] w g sc by (auto simp: work_ok_def layout_ok_def)
  have "photo_crop s = Some \<lparr> cr_originX = x, cr_originY = y, cr_width = k, cr_height = l \<rparr>"
    using assms X(1) Y(1) by (simp add: photo_crop_def Let_def z(1) photo_ok_def flip: sc_def)
  with X Y show ?thesis by auto
qed

text \<open>
  C29: The crop the editor exports lies within the image. After any run of openings, loads, layouts, drags,
  pinches, rotations and aspect changes, where the platform reports images with pixels and two fingers are never
  at one point, the zoom is between 1 and 5, the crop of Done is defined and within the image on all four sides
  in spite of the rounding to whole pixels, and the image is scaled to at most 2048 pixels a side.
\<close>

theorem photo_crop_in_image:
  assumes "list_all (photo_action_ok hypot) as" "pe_work (photo_run hypot as) = Some wk"
  shows "\<exists>z c. pe_scale (photo_run hypot as) = Some z \<and> 1 \<le> z \<and> z \<le> 5 \<and> photo_crop (photo_run hypot as) = Some c
    \<and> 0 \<le> cr_originX c \<and> 0 \<le> cr_width c \<and> cr_originX c + cr_width c \<le> pw_w wk
    \<and> 0 \<le> cr_originY c \<and> 0 \<le> cr_height c \<and> cr_originY c + cr_height c \<le> pw_h wk
    \<and> (case photo_resize c of None \<Rightarrow> cr_width c \<le> 2048 \<and> cr_height c \<le> 2048
       | Some (w, h) \<Rightarrow> 0 \<le> w \<and> w \<le> 2048 \<and> 0 \<le> h \<and> h \<le> 2048)"
proof -
  have ok: "photo_ok (photo_run hypot as)" by (rule photo_run_ok [OF assms(1)])
  then obtain z where "pe_scale (photo_run hypot as) = Some z" "1 \<le> z" "z \<le> 5"
    unfolding photo_ok_def MAX_ZOOM_def [symmetric] by (blast elim: zoom_okE)
  moreover obtain c where c: "photo_crop (photo_run hypot as) = Some c" "0 \<le> cr_originX c" "0 \<le> cr_width c" "cr_originX c + cr_width c \<le> pw_w wk"
      "0 \<le> cr_originY c" "0 \<le> cr_height c" "cr_originY c + cr_height c \<le> pw_h wk"
    using photo_crop_centred [OF ok assms(2)] by blast
  moreover have "work_ok wk" using ok assms(2) by (simp add: photo_ok_def)
  then have "cr_width c < 2 ^ 51" "cr_height c < 2 ^ 51" using c by (simp_all add: work_ok_def)
  note resize_le [OF c(3,6) this]
  ultimately show ?thesis by blast
qed

definition demo_photo_run :: "photo_action list" where
  "demo_photo_run = [PhotoShown True (Some (lit ''a'')), PhotoLoaded 1 (lit ''a'') (Some \<lparr> pw_uri = lit ''a1'', pw_w = 400, pw_h = 300 \<rparr>),
     AreaMeasured 200 400, AspectTapped Aspect1_1, FingerDown, FingerMoved [(0, 0), (10, 0)] 0 0, FingerMoved [(0, 0), (20, 0)] 0 0, FingerUp,
     FingerDown, FingerMoved [(5, 5)] 30 0, FingerUp]"

definition demo_hypot :: "rat \<Rightarrow> rat \<Rightarrow> rat" where
  "demo_hypot x y = \<bar>x\<bar> + \<bar>y\<bar>"

lemma photo_move_work [simp]: "pe_work (photo_move hypot touches dx dy s) = pe_work s"
  by (auto simp: photo_move_def photo_pinch_def photo_drag_def Let_def split: list.split)

lemma demo_photo_values:
  "list_all (photo_action_ok demo_hypot) demo_photo_run"
  "pe_work (photo_run demo_hypot demo_photo_run) = Some \<lparr> pw_uri = lit ''a1'', pw_w = 400, pw_h = 300 \<rparr>"
proof -
  have n: "num_sub 0 10 = - 10" "num_sub 0 20 = - 20" "num_sub 0 0 = 0" "is_num 200" "is_num 400"
    using fl_exact [of "- 10"] fl_exact [of "- 20"] is_num_int [of 200] is_num_int [of 400] by (simp_all add: num_sub_def)
  show "list_all (photo_action_ok demo_hypot) demo_photo_run"
    by (simp add: demo_photo_run_def touch_dist_def demo_hypot_def work_ok_def n)
  show "pe_work (photo_run demo_hypot demo_photo_run) = Some \<lparr> pw_uri = lit ''a1'', pw_w = 400, pw_h = 300 \<rparr>"
    by (simp add: demo_photo_run_def photo_run_def photo_shown_def photo_loaded_def photo_editor0_def onArea_def changeAspect_def
        photo_grant_def resetTransform_def Let_def)
qed

theorem photo_crop_in_image_witness:
  "\<exists>c. photo_crop (photo_run demo_hypot demo_photo_run) = Some c \<and> 0 \<le> cr_originX c \<and> cr_originX c + cr_width c \<le> 400"
  using photo_crop_in_image [OF demo_photo_values] by auto

text \<open>
  Dragging does not move the image. The gesture responder is created in the first render, where no image is
  loaded, and clamps every offset to the room of an image without pixels: after any run the offset is zero and
  Done exports the centre, although the same clamp on the loaded image leaves a 400 by 300 image in a square
  frame of 300 fifty pixels of room to either side.
\<close>

theorem drag_never_moves:
  assumes "list_all (photo_action_ok hypot) as"
  shows "pe_pan (photo_run hypot as) = (Some 0, Some 0)
    \<and> clampPan (Some \<lparr> pw_uri = u, pw_w = 400, pw_h = 300 \<rparr>)
        \<lparr> pl_frameW = 300, pl_frameH = 300, pl_baseScale = 1, pl_dispW = 400, pl_dispH = 300 \<rparr> (Some 80, Some 80) (Some 1) = (Some 50, Some 0)
    \<and> clampPan responder_work
        \<lparr> pl_frameW = 300, pl_frameH = 300, pl_baseScale = 1, pl_dispW = 400, pl_dispH = 300 \<rparr> (Some 80, Some 80) (Some 1) = (Some 0, Some 0)"
proof -
  have n: "num_mul 400 1 = 400" "num_mul 300 1 = 300" "num_sub 400 300 = 100" "num_sub 300 300 = 0" "num_div 100 2 = 50" "num_div 0 2 = 0"
    using fl_exact [of 400] fl_exact [of 300] fl_exact [of 100] fl_exact [of 50] by (simp_all add: num_mul_def num_sub_def num_div_def)
  have "layout_ok \<lparr> pl_frameW = 300, pl_frameH = 300, pl_baseScale = 1, pl_dispW = 400, pl_dispH = 300 \<rparr>"
    using is_num_int [of 300] by (simp add: layout_ok_def)
  then show ?thesis using photo_run_ok [OF assms] pan_stuck
    by (simp add: photo_ok_def) (simp add: clampPan_def Let_def js_div_def clamp_def n)
qed

theorem drag_never_moves_witness: "pe_pan (photo_run demo_hypot demo_photo_run) = (Some 0, Some 0)"
  using drag_never_moves [OF demo_photo_values(1)] by blast

text \<open>
  A rotation that answers late replaces the photo of another opening. The answer is applied to whatever the
  editor then shows: when the editor was closed and opened on a second photo meanwhile, it shows the rotated
  first one, and Done hands that in for the second.
\<close>

theorem stale_rotation_replaces_photo:
  assumes "a \<noteq> []" "b \<noteq> []"
  shows "let s = photo_run hypot [PhotoShown True (Some a), PhotoLoaded 1 a (Some A), OpTapped op, PhotoShown False None,
        PhotoShown True (Some b), PhotoLoaded 3 b (Some B), OpEnded (Some A')] in
      pe_source s = Some b \<and> pe_work s = Some A' \<and> map_option fst (snd (photo_done s)) = Some (pw_uri A')"
  using assms
  by (simp add: photo_run_def photo_shown_def photo_loaded_def photo_editor0_def resetTransform_def applyOp_def
      applyOp_ended_def photo_done_def Let_def non_empty_def)

theorem stale_rotation_replaces_photo_witness:
  "pe_work (photo_run (\<lambda>_ _. 1) [PhotoShown True (Some [1]), PhotoLoaded 1 [1] (Some \<lparr> pw_uri = [1], pw_w = 2, pw_h = 4 \<rparr>), OpTapped FlipHorizontal,
     PhotoShown False None, PhotoShown True (Some [2]), PhotoLoaded 3 [2] (Some \<lparr> pw_uri = [2], pw_w = 9, pw_h = 9 \<rparr>),
     OpEnded (Some \<lparr> pw_uri = [3], pw_w = 2, pw_h = 4 \<rparr>)]) = Some \<lparr> pw_uri = [3], pw_w = 2, pw_h = 4 \<rparr>"
  using stale_rotation_replaces_photo [of "[1]" "[2]" "\<lambda>_ _. 1"] by (simp add: Let_def)

text \<open>Gestures, and an offset that became \<open>NaN\<close>.\<close>

fun is_gesture :: "photo_action \<Rightarrow> bool" where
  "is_gesture FingerDown = True"
| "is_gesture (FingerMoved touches dx dy) = True"
| "is_gesture FingerUp = True"
| "is_gesture _ = False"

definition pan_lost :: "photo_editor \<Rightarrow> bool" where
  "pan_lost s \<longleftrightarrow> fst (pe_pan s) = None \<and> (pn_active (pe_pinch s) \<or> fst (pe_panSaved s) = None)"

lemma pan_lost_gesture: "pan_lost s \<Longrightarrow> is_gesture a \<Longrightarrow> pan_lost (photo_act hypot a s)"
  by (cases a) (auto simp: pan_lost_def photo_grant_def photo_move_def photo_pinch_def photo_drag_def clampPan_def clamp_def Let_def split: list.split)

lemma pan_lost_crop: "pan_lost s \<Longrightarrow> photo_crop s = None"
  by (auto simp: pan_lost_def photo_crop_def crop_side_def js_div_def clamp_def Let_def split: option.split)

text \<open>
  A pinch that starts with both fingers at one point spoils the crop. \<open>0 / 0\<close> makes the zoom \<open>NaN\<close> and with it
  the offset, which no later gesture repairs: whatever is dragged or pinched, Done hands a crop of \<open>NaN\<close> to the
  manipulator. Only a new photo, aspect or rotation resets it.
\<close>

theorem coincident_pinch_spoils_crop:
  assumes "hypot 0 0 = 0" "list_all is_gesture gs"
  shows "photo_crop (foldl (\<lambda>s a. photo_act hypot a s) s ([FingerDown, FingerMoved [p, p] dx dy] @ gs)) = None"
proof -
  have "touch_dist hypot p p = 0" using assms(1) by (simp add: touch_dist_def num_sub_def)
  then have "pan_lost (photo_act hypot (FingerMoved [p, p] dx dy) (photo_act hypot FingerDown s))"
    by (simp add: photo_move_def photo_grant_def photo_pinch_def pan_lost_def js_div_def clamp_def clampPan_def Let_def)
  moreover have "pan_lost s \<Longrightarrow> pan_lost (foldl (\<lambda>s a. photo_act hypot a s) s gs)" for s
    using assms(2) by (induction gs arbitrary: s) (simp_all add: pan_lost_gesture)
  ultimately show ?thesis by (simp add: pan_lost_crop)
qed

theorem coincident_pinch_spoils_crop_witness:
  "photo_crop (foldl (\<lambda>s a. photo_act demo_hypot a s) photo_editor0 ([FingerDown, FingerMoved [(3, 4), (3, 4)] 0 0] @ [FingerUp])) = None"
  using coincident_pinch_spoils_crop [of demo_hypot "[FingerUp]"] by (simp add: demo_hypot_def)

section \<open>Properties of the story camera\<close>

definition posts_of :: "story_call list \<Rightarrow> nat" where
  "posts_of calls = length (filter (\<lambda>c. case c of PostStory i \<Rightarrow> True | _ \<Rightarrow> False) calls)"

definition shared :: "story_camera \<Rightarrow> bool" where
  "shared s \<longleftrightarrow> cm_sending s \<and> (cm_closed s \<or> cm_flight s = Some True)"

definition camera_ok :: "story_camera \<Rightarrow> bool" where
  "camera_ok s \<longleftrightarrow> (cm_flight s \<noteq> None \<longrightarrow> cm_sending s) \<and> (cm_closed s \<longrightarrow> cm_sending s \<and> cm_flight s = None)
     \<and> (cm_sending s \<and> \<not> cm_closed s \<longrightarrow> cm_flight s \<noteq> None)"

lemma camera_act_ok: "camera_ok s \<Longrightarrow> camera_ok (fst (camera_act a s))"
  by (cases a) (auto simp: camera_ok_def takePhoto_def takePhoto_ended_def retake_def flipFacing_def cycleFlash_def story_send_def
      story_send_ended_def split: option.splits prod.splits if_splits)

lemma shared_quiet: "camera_ok s \<Longrightarrow> shared s \<Longrightarrow> shared (fst (camera_act a s)) \<and> snd (camera_act a s) = []"
  by (cases a) (auto simp: camera_ok_def shared_def takePhoto_def takePhoto_ended_def retake_def flipFacing_def cycleFlash_def story_send_def
      story_send_ended_def split: option.splits if_splits)

lemma shared_run: "camera_ok s \<Longrightarrow> shared s \<Longrightarrow> concat (map snd (snd (camera_run as s))) = []"
proof (induction as arbitrary: s)
  case (Cons a as)
  show ?case using shared_quiet [OF Cons.prems, of a] Cons.IH [OF camera_act_ok [OF Cons.prems(1)], of a] by (simp add: Let_def)
qed simp

lemma posted_shared:
  assumes "camera_act a s = (s', calls)" "PostStory i \<in> set calls" "\<And>up po. a = SendTapped up po \<Longrightarrow> po i = Inr ()"
  shows "shared s'"
  using assms by (cases a) (auto simp: story_send_def story_send_run_def shared_def split: option.splits sum.splits if_splits)

lemma few_posts: "posts_of (snd (camera_act a s)) \<le> 1"
  by (cases a) (auto simp: story_send_def story_send_run_def posts_of_def split: option.splits sum.splits)

lemma uploads_captured: "UploadStory u \<in> set (snd (camera_act a s)) \<Longrightarrow> cm_captured s = Some u"
  by (cases a) (auto simp: story_send_def story_send_run_def split: option.splits sum.splits if_splits)

text \<open>
  A story is posted once. Where the backend accepts posts, a visit of the story camera posts at most one
  story, however often Send is tapped and whatever fails before; what is uploaded is the photo under review, and
  a failed upload posts nothing and leaves the photo there to be sent again.
\<close>

theorem story_posted_once:
  assumes "list_all (\<lambda>a. case a of SendTapped up po \<Rightarrow> (\<forall>i. po i = Inr ()) | _ \<Rightarrow> True) as"
  shows "posts_of (camera_calls as) \<le> 1
    \<and> (\<forall>x \<in> set (snd (camera_run as story_camera0)). \<forall>u. UploadStory u \<in> set (snd x) \<longrightarrow> cm_captured (fst x) = Some u)
    \<and> (up u = Inl e \<and> cm_captured s = Some u \<and> \<not> cm_sending s
        \<longrightarrow> story_send_ended (fst (story_send up po s)) = s\<lparr>cm_flight := None\<rparr> \<and> posts_of (snd (story_send up po s)) = 0)"
proof -
  have "posts_of (concat (map snd (snd (camera_run as s)))) \<le> 1" if "camera_ok s" for s
    using that assms
  proof (induction as arbitrary: s)
    case (Cons a as)
    let ?t = "fst (camera_act a s)"
    have ok: "camera_ok ?t" by (rule camera_act_ok [OF Cons.prems(1)])
    have cat: "concat (map snd (snd (camera_run (a # as) s))) = snd (camera_act a s) @ concat (map snd (snd (camera_run as ?t)))"
      by (simp add: Let_def)
    show ?case
    proof (cases "\<exists>i. PostStory i \<in> set (snd (camera_act a s))")
      case True
      then obtain i where i: "PostStory i \<in> set (snd (camera_act a s))" by blast
      have "shared ?t" by (rule posted_shared [OF prod.collapse [symmetric] i]) (use Cons.prems(2) in auto)
      show ?thesis unfolding cat shared_run [OF ok \<open>shared ?t\<close>] append_Nil2 by (rule few_posts)
    next
      case False
      then have "posts_of (snd (camera_act a s)) = 0" by (auto simp: posts_of_def filter_empty_conv split: story_call.splits)
      then show ?thesis using Cons.IH [OF ok] Cons.prems(2) unfolding cat by (simp add: posts_of_def)
    qed
  qed (simp add: posts_of_def)
  moreover have "camera_ok story_camera0" by (simp add: camera_ok_def story_camera0_def)
  moreover have "\<forall>x \<in> set (snd (camera_run as s0)). \<forall>u. UploadStory u \<in> set (snd x) \<longrightarrow> cm_captured (fst x) = Some u" for s0
    by (induction as arbitrary: s0) (simp_all add: Let_def uploads_captured)
  ultimately show ?thesis
    by (auto simp: story_send_def story_send_run_def story_send_ended_def posts_of_def camera_calls_def)
qed

definition demo_camera :: "nat camera_action list" where
  "demo_camera = [ShutterTapped True, PhotoTaken (Some [7]), SendTapped (\<lambda>u. Inl 0) (\<lambda>i. Inr ()), SendEnded,
     SendTapped (\<lambda>u. Inr [8]) (\<lambda>i. Inr ()), SendTapped (\<lambda>u. Inr [9]) (\<lambda>i. Inr ()), SendEnded]"

lemma demo_camera_calls: "camera_calls demo_camera = [UploadStory [7], UploadStory [7], PostStory [8]]"
proof -
  define st where "st captured sending flight closed1 = \<lparr> cm_facing = BackCamera, cm_flash = FlashOff, cm_captured = captured, cm_busy = False,
     cm_sending = sending, cm_flight = flight, cm_closed = closed1 \<rparr>" for captured sending flight closed1
  have run: "concat (map snd (snd (camera_run (a # as) s))) = calls @ concat (map snd (snd (camera_run as t)))"
    if "camera_act a s = (t, calls)" for a as s t calls using that by (simp add: Let_def)
  have s0: "camera_act (ShutterTapped True) story_camera0 = (story_camera0\<lparr>cm_busy := True\<rparr>, [])"
    "camera_act (PhotoTaken (Some [7])) (story_camera0\<lparr>cm_busy := True\<rparr>) = (st (Some [7]) False None False, [])"
    by (simp_all add: story_camera0_def takePhoto_def takePhoto_ended_def st_def)
  have s1: "camera_act (SendTapped (\<lambda>u. Inl (0 :: nat)) (\<lambda>i. Inr ())) (st (Some [7]) False None False) = (st (Some [7]) True (Some False) False, [UploadStory [7]])"
    "camera_act SendEnded (st (Some [7]) True (Some False) False) = (st (Some [7]) False None False, [])"
    by (simp_all add: story_send_def story_send_run_def story_send_ended_def st_def)
  have s2: "camera_act (SendTapped (\<lambda>u. Inr [8]) (\<lambda>i. Inr ())) (st (Some [7]) False None False) = (st (Some [7]) True (Some True) False, [UploadStory [7], PostStory [8]])"
    "camera_act (SendTapped (\<lambda>u. Inr [9]) (\<lambda>i. Inr ())) (st (Some [7]) True (Some True) False) = (st (Some [7]) True (Some True) False, [])"
    "camera_act SendEnded (st (Some [7]) True (Some True) False) = (st (Some [7]) True None True, [])"
    by (simp_all add: story_send_def story_send_run_def story_send_ended_def st_def)
  show ?thesis
    unfolding camera_calls_def demo_camera_def run [OF s0(1)] run [OF s0(2)] run [OF s1(1)] run [OF s1(2)] run [OF s2(1)] run [OF s2(2)] run [OF s2(3)]
    by simp
qed

theorem story_posted_once_witness:
  "posts_of (camera_calls demo_camera) \<le> 1 \<and> camera_calls demo_camera = [UploadStory [7], UploadStory [7], PostStory [8]]"
proof -
  have "list_all (\<lambda>a. case a of SendTapped up po \<Rightarrow> (\<forall>i. po i = Inr ()) | _ \<Rightarrow> True) demo_camera" by (simp add: demo_camera_def)
  from conjunct1 [OF story_posted_once [OF this]] demo_camera_calls show ?thesis by (rule conjI)
qed

text \<open>
  The flash button steps through all three modes and comes back to the one it started from.
\<close>

theorem flash_cycles:
  "cycleFlash (cycleFlash (cycleFlash s)) = s
   \<and> distinct [cm_flash s, cm_flash (cycleFlash s), cm_flash (cycleFlash (cycleFlash s))] \<and> flipFacing (flipFacing s) = s"
  by (cases "cm_flash s"; cases "cm_facing s") (simp_all add: cycleFlash_def FLASH_ORDER_def index_of_def flipFacing_def numeral_2_eq_2)

end
