(* ===== verification/Explorer.thy ===== *)
theory Explorer
  imports Wallet
begin

text \<open>
  The protocol demo, \<open>frontend/app/page.tsx\<close>: it reads the state of a weather oracle from a chain and queues an
  update by placing a bid, approving the token first. The node behind the RPC endpoint and viem are outside the
  sources: a \<open>chain_env\<close> answers reads, transactions and receipts from a chain state of any type, and
  \<open>parseUnits\<close>, \<open>privateKeyToAccount\<close> and the order in which parallel reads fail are arguments. Log entries are
  kept without the identity and the time that only the list renders.
\<close>

section \<open>Addresses, keys and values\<close>

definition asAddress :: "str option \<Rightarrow> str option" where
  "asAddress value1 = (case non_empty value1 of None \<Rightarrow> None
     | Some v \<Rightarrow> let normalized = js_trim v in if is_address normalized then Some normalized else None)"

definition asPrivateKey :: "str option \<Rightarrow> str option" where
  "asPrivateKey value1 = (case non_empty value1 of None \<Rightarrow> None
     | Some v \<Rightarrow> let t = js_trim v; withPrefix = (if starts_with t (lit ''0x'') then t else lit ''0x'' @ t)
       in if length (drop 2 withPrefix) = 64 \<and> list_all is_hex (drop 2 withPrefix) then Some withPrefix else None)"

definition shortAddress :: "str option \<Rightarrow> int \<Rightarrow> str" where
  "shortAddress value1 width1 = (case non_empty value1 of None \<Rightarrow> lit ''--''
     | Some v \<Rightarrow> js_slice v 0 (width1 + 2) @ [8230] @ js_slice_from v (- 4))"

record weather_report =
  wr_observationTimestamp :: int
  wr_temperatureCentiCelsius :: int
  wr_humidityBps :: int
  wr_windSpeedCms :: int
  wr_windGustCms :: int
  wr_precipitationMicrometers :: int
  wr_pressurePa :: int
  wr_conditionCode :: int
  wr_conditionDescription :: str

record weather_view =
  wv_observationDate :: str
  wv_temperatureC :: rat
  wv_humidityPct :: rat
  wv_windMs :: rat
  wv_gustMs :: rat
  wv_rainMm :: rat
  wv_pressureHpa :: rat
  wv_code :: rat
  wv_description :: str

definition formatWeatherValue :: "(rat \<Rightarrow> str) \<Rightarrow> weather_report option \<Rightarrow> bool \<Rightarrow> weather_view option" where
  "formatWeatherValue localeString weather fulfilled = (case weather of None \<Rightarrow> None
     | Some w \<Rightarrow> if \<not> fulfilled then None
       else let observationSeconds = num_of_big (wr_observationTimestamp w) in Some
        \<lparr> wv_observationDate = (if observationSeconds > 0 then localeString (num_mul observationSeconds 1000)
             else lit ''No observation submitted yet''),
          wv_temperatureC = num_div (num_of_big (wr_temperatureCentiCelsius w)) 100,
          wv_humidityPct = num_div (num_of_big (wr_humidityBps w)) 100,
          wv_windMs = num_div (num_of_big (wr_windSpeedCms w)) 100,
          wv_gustMs = num_div (num_of_big (wr_windGustCms w)) 100,
          wv_rainMm = num_div (num_of_big (wr_precipitationMicrometers w)) 1000,
          wv_pressureHpa = num_div (num_of_big (wr_pressurePa w)) 100,
          wv_code = num_of_big (wr_conditionCode w),
          wv_description = or_else (non_empty (Some (wr_conditionDescription w))) (lit ''n/a'') \<rparr>)"

section \<open>Configuration and state\<close>

record explorer_config =
  xc_rpcUrl :: str
  xc_oracleAddress :: "str option"
  xc_hubAddress :: "str option"
  xc_demoPrivateKey :: "str option"

definition explorer_config_of :: "str option \<Rightarrow> str option \<Rightarrow> str option \<Rightarrow> str option \<Rightarrow> explorer_config" where
  "explorer_config_of rpc oracle hub key = \<lparr> xc_rpcUrl = or_else rpc [], xc_oracleAddress = asAddress oracle,
     xc_hubAddress = asAddress hub, xc_demoPrivateKey = asPrivateKey key \<rparr>"

datatype env_error = RpcMissing | OracleMissing | HubMissing | KeyMissing

definition envErrors :: "explorer_config \<Rightarrow> env_error list" where
  "envErrors c = (if xc_rpcUrl c = [] then [RpcMissing] else []) @ (if xc_oracleAddress c = None then [OracleMissing] else [])
     @ (if xc_hubAddress c = None then [HubMissing] else []) @ (if xc_demoPrivateKey c = None then [KeyMissing] else [])"

text \<open>The account, and whether the two clients exist; \<open>toAccount\<close> fails for a key that is none.\<close>

definition demo_account :: "(str \<Rightarrow> str option) \<Rightarrow> explorer_config \<Rightarrow> str option" where
  "demo_account toAccount c = Option.bind (xc_demoPrivateKey c) toAccount"

definition has_publicClient :: "explorer_config \<Rightarrow> bool" where
  "has_publicClient c \<longleftrightarrow> xc_rpcUrl c \<noteq> []"

definition has_walletClient :: "(str \<Rightarrow> str option) \<Rightarrow> explorer_config \<Rightarrow> bool" where
  "has_walletClient toAccount c \<longleftrightarrow> xc_rpcUrl c \<noteq> [] \<and> demo_account toAccount c \<noteq> None"

record explorer_snapshot =
  xs_weather :: weather_report
  xs_fulfilled :: bool
  xs_query :: str
  xs_expectedShape :: str
  xs_model :: str
  xs_baseProtocolFee :: int
  xs_paymentToken :: str
  xs_tokenSymbol :: str
  xs_tokenDecimals :: nat
  xs_demoBalance :: int

datatype log_level = LogInfo | LogSuccess | LogError

datatype explorer_error =
    NoOracleCode str
  | NoHubCode str
  | AddressMismatch str str
  | WeatherUnreadable str str
  | NotPositive
  | InsufficientBalance int int
  | PostCheckFailed int
  | Rejected str

datatype explorer_msg =
    SnapshotFailed explorer_error
  | AllowanceCheck str str int
  | AllowanceInsufficient int
  | ApprovalSent str
  | ApprovalConfirmed
  | DirectApproveFailed explorer_error
  | ResetSent str
  | ApprovalConfirmedAfterReset
  | AllowanceReady int
  | SubmittingBid
  | BidSent str
  | BidConfirmed
  | RequestFailed explorer_error

record explorer =
  ex_snapshot :: "explorer_snapshot option"
  ex_syncing :: bool
  ex_requesting :: bool
  ex_bidAmountInput :: str
  ex_logs :: "(log_level \<times> explorer_msg) list"
  ex_refreshTick :: nat

definition explorer0 :: explorer where
  "explorer0 = \<lparr> ex_snapshot = None, ex_syncing = False, ex_requesting = False, ex_bidAmountInput = [], ex_logs = [], ex_refreshTick = 0 \<rparr>"

definition pushLog :: "log_level \<Rightarrow> explorer_msg \<Rightarrow> explorer \<Rightarrow> explorer" where
  "pushLog level msg s = s\<lparr>ex_logs := js_slice ((level, msg) # ex_logs s) 0 10\<rparr>"

section \<open>Reading the chain\<close>

text \<open>The answers to one round of reads.\<close>

record chain_answers =
  an_oracleBytecode :: "str + str option"
  an_hubBytecode :: "str + str option"
  an_oracleHub :: "str + str"
  an_query :: "str + str"
  an_expectedShape :: "str + str"
  an_model :: "str + str"
  an_fulfilled :: "str + bool"
  an_baseProtocolFee :: "str + int"
  an_paymentToken :: "str + str"
  an_latestWeather :: "str + weather_report"
  an_symbol :: "str + str"
  an_decimals :: "str + nat"
  an_balance :: "str + int"

fun err_of :: "str + 'a \<Rightarrow> str list" where
  "err_of (Inl e) = [e]"
| "err_of (Inr x) = []"

text \<open>\<open>Promise.all\<close>: rejected with the rejection that came first, which \<open>race\<close> chooses.\<close>

definition promise_all :: "(str list \<Rightarrow> str) \<Rightarrow> str list \<Rightarrow> str option" where
  "promise_all race errs = (if errs = [] then None else Some (race errs))"

definition no_code :: "str option \<Rightarrow> bool" where
  "no_code code \<longleftrightarrow> \<not> truthy code \<or> code = Some (lit ''0x'')"

definition read_chain :: "(str list \<Rightarrow> str) \<Rightarrow> str \<Rightarrow> str \<Rightarrow> chain_answers \<Rightarrow> explorer_error + explorer_snapshot" where
  "read_chain race oracle hub a =
    (case promise_all race (err_of (an_oracleBytecode a) @ err_of (an_hubBytecode a)) of Some e \<Rightarrow> Inl (Rejected e)
     | None \<Rightarrow>
       if no_code (projr (an_oracleBytecode a)) then Inl (NoOracleCode oracle)
       else if no_code (projr (an_hubBytecode a)) then Inl (NoHubCode hub)
       else case promise_all race (err_of (an_oracleHub a) @ err_of (an_query a) @ err_of (an_expectedShape a) @ err_of (an_model a)
           @ err_of (an_fulfilled a) @ err_of (an_baseProtocolFee a) @ err_of (an_paymentToken a)) of Some e \<Rightarrow> Inl (Rejected e)
       | None \<Rightarrow>
         if map ascii_lower (projr (an_oracleHub a)) \<noteq> map ascii_lower hub then Inl (AddressMismatch (projr (an_oracleHub a)) hub)
         else case an_latestWeather a of Inl e \<Rightarrow> Inl (WeatherUnreadable oracle e)
         | Inr weather \<Rightarrow>
           case promise_all race (err_of (an_symbol a) @ err_of (an_decimals a) @ err_of (an_balance a)) of Some e \<Rightarrow> Inl (Rejected e)
           | None \<Rightarrow> Inr \<lparr> xs_weather = weather, xs_fulfilled = projr (an_fulfilled a), xs_query = projr (an_query a),
               xs_expectedShape = projr (an_expectedShape a), xs_model = projr (an_model a),
               xs_baseProtocolFee = projr (an_baseProtocolFee a), xs_paymentToken = projr (an_paymentToken a),
               xs_tokenSymbol = projr (an_symbol a), xs_tokenDecimals = projr (an_decimals a), xs_demoBalance = projr (an_balance a) \<rparr>)"

text \<open>\<open>readSnapshot\<close>: its start, and its end with the answers of its reads.\<close>

definition can_read :: "(str \<Rightarrow> str option) \<Rightarrow> explorer_config \<Rightarrow> bool" where
  "can_read toAccount c \<longleftrightarrow> has_publicClient c \<and> xc_oracleAddress c \<noteq> None \<and> xc_hubAddress c \<noteq> None \<and> demo_account toAccount c \<noteq> None"

definition readSnapshot_start :: "(str \<Rightarrow> str option) \<Rightarrow> explorer_config \<Rightarrow> bool \<Rightarrow> explorer \<Rightarrow> explorer" where
  "readSnapshot_start toAccount c interactive s = (if can_read toAccount c \<and> interactive then s\<lparr>ex_syncing := True\<rparr> else s)"

definition readSnapshot_end :: "(str list \<Rightarrow> str) \<Rightarrow> (int \<Rightarrow> nat \<Rightarrow> str) \<Rightarrow> explorer_config \<Rightarrow> bool \<Rightarrow> chain_answers \<Rightarrow> explorer \<Rightarrow> explorer" where
  "readSnapshot_end race formatUnits c interactive a s =
    (let s' = (case read_chain race (or_else (xc_oracleAddress c) []) (or_else (xc_hubAddress c) []) a of
         Inl e \<Rightarrow> pushLog LogError (SnapshotFailed e) s
       | Inr snap \<Rightarrow> s\<lparr>ex_snapshot := Some snap,
           ex_bidAmountInput := (if js_trim (ex_bidAmountInput s) = [] then formatUnits (xs_baseProtocolFee snap * 3) (xs_tokenDecimals snap)
             else ex_bidAmountInput s)\<rparr>)
     in if interactive then s'\<lparr>ex_syncing := False\<rparr> else s')"

text \<open>The timer of six seconds only counts; the effect on the count reads again, but not at zero.\<close>

definition refresh_tick :: "explorer \<Rightarrow> explorer" where
  "refresh_tick s = s\<lparr>ex_refreshTick := ex_refreshTick s + 1\<rparr>"

definition refresh_reads :: "explorer \<Rightarrow> bool" where
  "refresh_reads s \<longleftrightarrow> ex_refreshTick s \<noteq> 0"

section \<open>Queueing an update\<close>

datatype explorer_tx = Approve str str int | PlaceBid str int

datatype chain_event = Logged log_level explorer_msg | ReadAllowance "str + int" | Sent explorer_tx | Awaited str | ReadAgain

record 'c chain_env =
  ce_allowance :: "str \<Rightarrow> str \<Rightarrow> str \<Rightarrow> 'c \<Rightarrow> (str + int) \<times> 'c"
  ce_write :: "explorer_tx \<Rightarrow> 'c \<Rightarrow> (str + str) \<times> 'c"
  ce_receipt :: "str \<Rightarrow> 'c \<Rightarrow> (str + unit) \<times> 'c"

text \<open>A step of the handler: what it does, its result or the exception, and the chain after it.\<close>

type_synonym ('c, 'a) chain_io = "'c \<Rightarrow> chain_event list \<times> (explorer_error + 'a) \<times> 'c"

definition cio_return :: "'a \<Rightarrow> ('c, 'a) chain_io" where
  "cio_return x c = ([], Inr x, c)"

definition cio_throw :: "explorer_error \<Rightarrow> ('c, 'a) chain_io" where
  "cio_throw e c = ([], Inl e, c)"

definition cio_bind :: "('c, 'a) chain_io \<Rightarrow> ('a \<Rightarrow> ('c, 'b) chain_io) \<Rightarrow> ('c, 'b) chain_io" where
  "cio_bind m f c = (case m c of (es, Inl e, c') \<Rightarrow> (es, Inl e, c')
     | (es, Inr x, c') \<Rightarrow> (case f x c' of (es', r, c'') \<Rightarrow> (es @ es', r, c'')))"

definition cio_catch :: "('c, 'a) chain_io \<Rightarrow> (explorer_error \<Rightarrow> ('c, 'a) chain_io) \<Rightarrow> ('c, 'a) chain_io" where
  "cio_catch m h c = (case m c of (es, Inl e, c') \<Rightarrow> (case h e c' of (es', r, c'') \<Rightarrow> (es @ es', r, c''))
     | (es, Inr x, c') \<Rightarrow> (es, Inr x, c'))"

definition cio_log :: "log_level \<Rightarrow> explorer_msg \<Rightarrow> ('c, unit) chain_io" where
  "cio_log level msg c = ([Logged level msg], Inr (), c)"

definition lift_err :: "str + 'a \<Rightarrow> explorer_error + 'a" where
  "lift_err r = (case r of Inl e \<Rightarrow> Inl (Rejected e) | Inr x \<Rightarrow> Inr x)"

definition cio_allowance :: "'c chain_env \<Rightarrow> str \<Rightarrow> str \<Rightarrow> str \<Rightarrow> ('c, int) chain_io" where
  "cio_allowance E token owner1 spender c = (case ce_allowance E token owner1 spender c of (r, c') \<Rightarrow> ([ReadAllowance r], lift_err r, c'))"

definition cio_write :: "'c chain_env \<Rightarrow> explorer_tx \<Rightarrow> ('c, str) chain_io" where
  "cio_write E t c = (case ce_write E t c of (r, c') \<Rightarrow> ([Sent t], lift_err r, c'))"

definition cio_receipt :: "'c chain_env \<Rightarrow> str \<Rightarrow> ('c, unit) chain_io" where
  "cio_receipt E h c = (case ce_receipt E h c of (r, c') \<Rightarrow> ([Awaited h], lift_err r, c'))"

definition maxUint256 :: int where "maxUint256 = 2 ^ 256 - 1"

definition approve_with :: "'c chain_env \<Rightarrow> str \<Rightarrow> str \<Rightarrow> int \<Rightarrow> (str \<Rightarrow> explorer_msg) \<Rightarrow> ('c, unit) chain_io" where
  "approve_with E token oracle amount sent =
     cio_bind (cio_write E (Approve token oracle amount)) (\<lambda>h. cio_bind (cio_log LogInfo (sent h)) (\<lambda>_. cio_receipt E h))"

definition approve_max :: "'c chain_env \<Rightarrow> str \<Rightarrow> str \<Rightarrow> ('c, unit) chain_io" where
  "approve_max E token oracle =
     cio_catch (cio_bind (approve_with E token oracle maxUint256 ApprovalSent) (\<lambda>_. cio_log LogSuccess ApprovalConfirmed))
       (\<lambda>e. cio_bind (cio_log LogInfo (DirectApproveFailed e)) (\<lambda>_.
          cio_bind (approve_with E token oracle 0 ResetSent) (\<lambda>_.
          cio_bind (approve_with E token oracle maxUint256 ApprovalSent) (\<lambda>_.
          cio_log LogSuccess ApprovalConfirmedAfterReset))))"

definition raise_allowance :: "'c chain_env \<Rightarrow> str \<Rightarrow> str \<Rightarrow> str \<Rightarrow> int \<Rightarrow> ('c, unit) chain_io" where
  "raise_allowance E token account oracle bidAmount =
     cio_bind (approve_max E token oracle) (\<lambda>_.
     cio_bind (cio_allowance E token account oracle) (\<lambda>refreshed.
     if refreshed < bidAmount then cio_throw (PostCheckFailed refreshed)
     else cio_log LogSuccess (AllowanceReady refreshed)))"

definition ensure_allowance :: "'c chain_env \<Rightarrow> str \<Rightarrow> str \<Rightarrow> str \<Rightarrow> int \<Rightarrow> ('c, unit) chain_io" where
  "ensure_allowance E token account oracle bidAmount =
     cio_bind (cio_allowance E token account oracle) (\<lambda>allowance.
     cio_bind (cio_log LogInfo (AllowanceCheck account oracle allowance)) (\<lambda>_.
     if allowance < bidAmount then
       cio_bind (cio_log LogInfo (AllowanceInsufficient bidAmount)) (\<lambda>_. raise_allowance E token account oracle bidAmount)
     else cio_return ()))"

definition place_bid :: "'c chain_env \<Rightarrow> str \<Rightarrow> int \<Rightarrow> ('c, unit) chain_io" where
  "place_bid E oracle bidAmount =
     cio_bind (cio_log LogInfo SubmittingBid) (\<lambda>_.
     cio_bind (cio_write E (PlaceBid oracle bidAmount)) (\<lambda>h.
     cio_bind (cio_log LogSuccess (BidSent h)) (\<lambda>_.
     cio_bind (cio_receipt E h) (\<lambda>_.
     cio_log LogSuccess BidConfirmed))))"

definition requestAutoUpdate :: "(str \<Rightarrow> nat \<Rightarrow> str + int) \<Rightarrow> 'c chain_env \<Rightarrow> explorer_snapshot \<Rightarrow> str \<Rightarrow> str \<Rightarrow> str \<Rightarrow> ('c, unit) chain_io" where
  "requestAutoUpdate parseUnits E snap account oracle bidAmountInput =
     cio_catch
       (cio_bind (\<lambda>c. ([], lift_err (parseUnits (or_else (non_empty (Some bidAmountInput)) (lit ''0'')) (xs_tokenDecimals snap)), c)) (\<lambda>bidAmount.
        if bidAmount \<le> 0 then cio_throw NotPositive
        else if xs_demoBalance snap < bidAmount then cio_throw (InsufficientBalance bidAmount (xs_demoBalance snap))
        else cio_bind (ensure_allowance E (xs_paymentToken snap) account oracle bidAmount) (\<lambda>_.
          cio_bind (place_bid E oracle bidAmount) (\<lambda>_. (\<lambda>c. ([ReadAgain], Inr (), c))))))
       (\<lambda>e. cio_log LogError (RequestFailed e))"

definition request_start :: "(str \<Rightarrow> str option) \<Rightarrow> explorer_config \<Rightarrow> explorer \<Rightarrow> (explorer \<times> explorer_snapshot \<times> str \<times> str) option" where
  "request_start toAccount c s = (if \<not> has_publicClient c \<or> \<not> has_walletClient toAccount c then None
     else case (ex_snapshot s, xc_oracleAddress c, demo_account toAccount c) of
       (Some snap, Some oracle, Some account) \<Rightarrow> Some (s\<lparr>ex_requesting := True\<rparr>, snap, oracle, account)
     | _ \<Rightarrow> None)"

fun logs_of :: "chain_event list \<Rightarrow> explorer \<Rightarrow> explorer" where
  "logs_of [] s = s"
| "logs_of (Logged level msg # es) s = logs_of es (pushLog level msg s)"
| "logs_of (e # es) s = logs_of es s"

definition request_end :: "explorer \<Rightarrow> explorer" where
  "request_end s = s\<lparr>ex_requesting := False\<rparr>"

section \<open>What a request does\<close>

fun sent_txs :: "chain_event list \<Rightarrow> explorer_tx list" where
  "sent_txs [] = []"
| "sent_txs (Sent t # es) = t # sent_txs es"
| "sent_txs (e # es) = sent_txs es"

fun allowances :: "chain_event list \<Rightarrow> (str + int) list" where
  "allowances [] = []"
| "allowances (ReadAllowance r # es) = r # allowances es"
| "allowances (e # es) = allowances es"

lemma events_append [simp]:
  "sent_txs (es @ es') = sent_txs es @ sent_txs es'" "allowances (es @ es') = allowances es @ allowances es'"
  by (induction es rule: sent_txs.induct; simp)+

lemma cio_simps:
  "cio_bind (cio_log level msg) f c = (case f () c of (es, r, c') \<Rightarrow> (Logged level msg # es, r, c'))"
  "cio_return x c = ([], Inr x, c)" "cio_throw e c = ([], Inl e, c)" "cio_log level msg c = ([Logged level msg], Inr (), c)"
  by (simp_all add: cio_bind_def cio_log_def cio_return_def cio_throw_def)

lemma cio_bindE:
  assumes "cio_bind m f c = (es, r, c')"
  obtains (stop) e where "m c = (es, Inl e, c')" "r = Inl e"
  | (go) es1 x c1 es2 where "m c = (es1, Inr x, c1)" "f x c1 = (es2, r, c')" "es = es1 @ es2"
  using assms by (auto simp: cio_bind_def split: prod.splits sum.splits)

lemma cio_catchE:
  assumes "cio_catch m h c = (es, r, c')"
  obtains (fine) x where "m c = (es, Inr x, c')" "r = Inr x"
  | (caught) es1 e c1 es2 where "m c = (es1, Inl e, c1)" "h e c1 = (es2, r, c')" "es = es1 @ es2"
  using assms by (auto simp: cio_catch_def split: prod.splits sum.splits)

lemma approve_with_events:
  "approve_with E token oracle amount sent c = (es, r, c') \<Longrightarrow> sent_txs es = [Approve token oracle amount] \<and> allowances es = []"
  by (auto simp: approve_with_def cio_write_def cio_receipt_def cio_log_def elim!: cio_bindE split: prod.splits)

lemma approve_max_events:
  assumes "approve_max E token oracle c = (es, r, c')"
  shows "allowances es = [] \<and> sent_txs es \<in> {[Approve token oracle maxUint256], [Approve token oracle maxUint256, Approve token oracle 0],
     [Approve token oracle maxUint256, Approve token oracle 0, Approve token oracle maxUint256]}"
  using assms unfolding approve_max_def
  by (elim cio_catchE cio_bindE; auto simp: cio_log_def dest!: approve_with_events)

lemma logged_bind:
  assumes "cio_bind (cio_log level msg) f c = (es, r, c')"
  obtains es2 where "f () c = (es2, r, c')" "es = Logged level msg # es2"
  using assms by (auto simp: cio_simps split: prod.splits)

lemma allowance_event: "cio_allowance E token account oracle c = (es, r, c') \<Longrightarrow> sent_txs es = [] \<and> (\<exists>q. allowances es = [q] \<and> r = lift_err q)"
  by (auto simp: cio_allowance_def split: prod.splits)

lemma raise_allowance_events:
  assumes "raise_allowance E token account oracle bid c = (es, r, c')"
  shows "set (sent_txs es) \<subseteq> {Approve token oracle maxUint256, Approve token oracle 0} \<and> length (sent_txs es) \<le> 3
    \<and> (r = Inr () \<longrightarrow> (\<exists>a. allowances es = [Inr a] \<and> bid \<le> a))"
  using assms unfolding raise_allowance_def
proof (cases rule: cio_bindE)
  case (stop e)
  then show ?thesis using approve_max_events by fastforce
next
  case (go es1 x c1 es2)
  note m = approve_max_events [OF go(1)]
  from go(2) show ?thesis
  proof (cases rule: cio_bindE)
    case (stop e)
    then show ?thesis using m allowance_event [OF stop(1)] by (auto simp: go(3))
  next
    case (go es3 y c3 es4)
    obtain q where q: "sent_txs es3 = []" "allowances es3 = [q]" "Inr y = lift_err q" using allowance_event [OF go(1)] by blast
    then have "q = Inr y" by (auto simp: lift_err_def split: sum.splits)
    moreover have "sent_txs es4 = [] \<and> allowances es4 = [] \<and> (r = Inr () \<longrightarrow> bid \<le> y)"
      using go(2) by (auto simp: cio_simps split: if_splits)
    ultimately show ?thesis using m q by (auto simp: go(3) \<open>es = es1 @ es2\<close>)
  qed
qed

lemma ensure_allowance_events:
  assumes "ensure_allowance E token account oracle bid c = (es, r, c')"
  shows "set (sent_txs es) \<subseteq> {Approve token oracle maxUint256, Approve token oracle 0} \<and> length (sent_txs es) \<le> 3
    \<and> (r = Inr () \<longrightarrow> (\<exists>a. allowances es \<noteq> [] \<and> last (allowances es) = Inr a \<and> bid \<le> a))"
  using assms unfolding ensure_allowance_def
proof (cases rule: cio_bindE)
  case (stop e)
  then show ?thesis using allowance_event [OF stop(1)] by auto
next
  case (go es1 a c1 es2)
  obtain q where q: "sent_txs es1 = []" "allowances es1 = [q]" "Inr a = lift_err q" using allowance_event [OF go(1)] by blast
  then have qa: "q = Inr a" by (auto simp: lift_err_def split: sum.splits)
  from go(2) obtain es3 where es3: "es2 = Logged LogInfo (AllowanceCheck account oracle a) # es3"
    "(if a < bid then cio_bind (cio_log LogInfo (AllowanceInsufficient bid)) (\<lambda>_. raise_allowance E token account oracle bid) else cio_return ()) c1 = (es3, r, c')"
    by (rule logged_bind)
  show ?thesis
  proof (cases "a < bid")
    case True
    with es3(2) obtain es4 where es4: "raise_allowance E token account oracle bid c1 = (es4, r, c')"
      "es3 = Logged LogInfo (AllowanceInsufficient bid) # es4" by (auto elim: logged_bind)
    then show ?thesis using raise_allowance_events [OF es4(1)] q by (auto simp: go(3) es3(1))
  next
    case False
    then show ?thesis using es3 q qa go(3) by (auto simp: cio_simps)
  qed
qed

lemma place_bid_events:
  "place_bid E oracle bid c = (es, r, c') \<Longrightarrow> sent_txs es = [PlaceBid oracle bid] \<and> allowances es = []"
  by (auto simp: place_bid_def cio_write_def cio_receipt_def cio_log_def elim!: cio_bindE split: prod.splits)

text \<open>
  A bid is sent only when it is covered. Whatever node and wallet answer, a request sends at most one bid and
  at most three approvals before it; a bid goes to the oracle, has the amount typed, which is positive and
  within the balance shown, and the last allowance read before it covers it. Every approval is for the oracle
  on the payment token, of everything or nothing. No error escapes the handler.
\<close>

theorem bid_only_when_covered:
  assumes "requestAutoUpdate parseUnits E snap account oracle text1 c = (es, r, c')"
  shows "r = Inr () \<and> set (sent_txs es) \<subseteq> {PlaceBid oracle b | b. True} \<union> {Approve (xs_paymentToken snap) oracle maxUint256, Approve (xs_paymentToken snap) oracle 0}
    \<and> length (sent_txs es) \<le> 4
    \<and> (\<forall>b. PlaceBid oracle b \<in> set (sent_txs es) \<longrightarrow>
         parseUnits (or_else (non_empty (Some text1)) (lit ''0'')) (xs_tokenDecimals snap) = Inr b \<and> 0 < b \<and> b \<le> xs_demoBalance snap
         \<and> last (sent_txs es) = PlaceBid oracle b \<and> PlaceBid oracle b \<notin> set (butlast (sent_txs es))
         \<and> (\<exists>a. last (allowances es) = Inr a \<and> b \<le> a))"
proof -
  let ?parsed = "parseUnits (or_else (non_empty (Some text1)) (lit ''0'')) (xs_tokenDecimals snap)"
  let ?after = "\<lambda>bid. if bid \<le> 0 then cio_throw NotPositive
        else if xs_demoBalance snap < bid then cio_throw (InsufficientBalance bid (xs_demoBalance snap))
        else cio_bind (ensure_allowance E (xs_paymentToken snap) account oracle bid) (\<lambda>_.
          cio_bind (place_bid E oracle bid) (\<lambda>_. (\<lambda>c. ([ReadAgain], Inr (), c))))"
  have body: "set (sent_txs es1) \<subseteq> {PlaceBid oracle b | b. True} \<union> {Approve (xs_paymentToken snap) oracle maxUint256, Approve (xs_paymentToken snap) oracle 0}
      \<and> length (sent_txs es1) \<le> 4
      \<and> (\<forall>b. PlaceBid oracle b \<in> set (sent_txs es1) \<longrightarrow> b = bid \<and> 0 < b \<and> b \<le> xs_demoBalance snap
         \<and> last (sent_txs es1) = PlaceBid oracle b \<and> PlaceBid oracle b \<notin> set (butlast (sent_txs es1))
         \<and> (\<exists>a. last (allowances es1) = Inr a \<and> b \<le> a))"
    if "?after bid c = (es1, r1, c1)" for bid es1 r1 c1
  proof (cases "bid \<le> 0 \<or> xs_demoBalance snap < bid")
    case True
    with that have "es1 = []" by (auto simp: cio_throw_def split: if_splits)
    then show ?thesis by simp
  next
    case False
    with that have run: "cio_bind (ensure_allowance E (xs_paymentToken snap) account oracle bid) (\<lambda>_.
          cio_bind (place_bid E oracle bid) (\<lambda>_. (\<lambda>c. ([ReadAgain], Inr (), c)))) c = (es1, r1, c1)" by simp
    from run show ?thesis
    proof (cases rule: cio_bindE)
      case (stop e)
      from ensure_allowance_events [OF stop(1)] show ?thesis by auto
    next
      case (go esa x ca esb)
      note a = ensure_allowance_events [OF go(1)]
      have b: "sent_txs esb = [PlaceBid oracle bid] \<and> allowances esb = []"
        using go(2) by (cases rule: cio_bindE) (auto dest: place_bid_events)
      from a obtain al where al: "last (allowances esa) = Inr al" "bid \<le> al" by (cases x) auto
      from a have notin: "PlaceBid oracle bid \<notin> set (sent_txs esa)" by auto
      show ?thesis using a b al notin False by (auto simp: go(3) butlast_append)
    qed
  qed
  from assms show ?thesis unfolding requestAutoUpdate_def
  proof (cases rule: cio_catchE)
    case (fine x)
    then show ?thesis
    proof (cases rule: cio_bindE [OF fine(1)])
      case (2 es1 y c1 es2)
      then have "?parsed = Inr y" "es1 = []" "c1 = c" by (auto simp: lift_err_def split: sum.splits)
      with body [of y es2 "Inr x" c'] 2 fine(2) show ?thesis by simp
    qed simp
  next
    case (caught es1 e c1 es2)
    then have r: "r = Inr ()" "sent_txs es = sent_txs es1" "allowances es = allowances es1" by (auto simp: cio_log_def)
    from caught(1) show ?thesis
    proof (cases rule: cio_bindE)
      case stop
      then have "es1 = []" by simp
      with r show ?thesis by simp
    next
      case (go esx y cy es3)
      then have "?parsed = Inr y" "esx = []" "cy = c" by (auto simp: lift_err_def split: sum.splits)
      with body [of y es3 "Inl e" c1] go r show ?thesis by simp
    qed
  qed
qed

text \<open>
  What the handler expects of a token: allowances can be read, an approval of nothing succeeds, one of
  everything succeeds from zero and otherwise either succeeds or fails without effect (some tokens refuse to
  change an allowance that is not zero), receipts and bids are accepted.
\<close>

definition approvable :: "'c chain_env \<Rightarrow> str \<Rightarrow> str \<Rightarrow> str \<Rightarrow> ('c \<Rightarrow> int) \<Rightarrow> bool" where
  "approvable E token account oracle al \<longleftrightarrow>
     (\<forall>c. ce_allowance E token account oracle c = (Inr (al c), c))
   \<and> (\<forall>c. \<exists>h c'. ce_write E (Approve token oracle 0) c = (Inr h, c') \<and> al c' = 0)
   \<and> (\<forall>c. al c = 0 \<longrightarrow> (\<exists>h c'. ce_write E (Approve token oracle maxUint256) c = (Inr h, c') \<and> al c' = maxUint256))
   \<and> (\<forall>c. (\<exists>h c'. ce_write E (Approve token oracle maxUint256) c = (Inr h, c') \<and> al c' = maxUint256)
        \<or> (\<exists>e. ce_write E (Approve token oracle maxUint256) c = (Inl e, c)))
   \<and> (\<forall>h c. \<exists>c'. ce_receipt E h c = (Inr (), c') \<and> al c' = al c)
   \<and> (\<forall>b c. \<exists>h c'. ce_write E (PlaceBid oracle b) c = (Inr h, c'))"

lemma approvableD:
  assumes "approvable E token account oracle al"
  shows "ce_allowance E token account oracle c = (Inr (al c), c)"
    "\<exists>h c'. ce_write E (Approve token oracle 0) c = (Inr h, c') \<and> al c' = 0"
    "al c = 0 \<Longrightarrow> \<exists>h c'. ce_write E (Approve token oracle maxUint256) c = (Inr h, c') \<and> al c' = maxUint256"
    "(\<exists>h c'. ce_write E (Approve token oracle maxUint256) c = (Inr h, c') \<and> al c' = maxUint256)
        \<or> (\<exists>e. ce_write E (Approve token oracle maxUint256) c = (Inl e, c))"
    "\<exists>c'. ce_receipt E h c = (Inr (), c') \<and> al c' = al c"
    "\<exists>h c'. ce_write E (PlaceBid oracle b) c = (Inr h, c')"
  using assms by (simp_all add: approvable_def)

lemma approve_with_works:
  assumes "approvable E token account oracle al" "ce_write E (Approve token oracle amount) c = (Inr h, c1)"
  shows "\<exists>es c'. approve_with E token oracle amount sent c = (es, Inr (), c') \<and> al c' = al c1"
proof -
  obtain c' where "ce_receipt E h c1 = (Inr (), c')" "al c' = al c1" using approvableD(5) [OF assms(1)] by blast
  then show ?thesis using assms(2)
    by (auto simp: approve_with_def cio_bind_def cio_write_def cio_log_def cio_receipt_def lift_err_def)
qed

lemma approve_with_fails:
  "ce_write E (Approve token oracle amount) c = (Inl e, c1) \<Longrightarrow>
    approve_with E token oracle amount sent c = ([Sent (Approve token oracle amount)], Inl (Rejected e), c1)"
  by (simp add: approve_with_def cio_bind_def cio_write_def lift_err_def)

lemma approve_max_works:
  assumes "approvable E token account oracle al"
  shows "\<exists>es c'. approve_max E token oracle c = (es, Inr (), c') \<and> al c' = maxUint256"
proof -
  consider (ok) h c1 where "ce_write E (Approve token oracle maxUint256) c = (Inr h, c1)" "al c1 = maxUint256"
    | (refused) e where "ce_write E (Approve token oracle maxUint256) c = (Inl e, c)"
    using approvableD(4) [OF assms] by blast
  then show ?thesis
  proof cases
    case ok
    from approve_with_works [OF assms ok(1), of ApprovalSent] ok(2) show ?thesis
      by (auto simp: approve_max_def cio_catch_def cio_bind_def cio_log_def)
  next
    case refused
    obtain h0 c0 where "ce_write E (Approve token oracle 0) c = (Inr h0, c0)" "al c0 = 0" using approvableD(2) [OF assms] by blast
    then obtain es1 c1 where one: "approve_with E token oracle 0 ResetSent c = (es1, Inr (), c1)" "al c1 = 0"
      using approve_with_works [OF assms, of 0 c h0 c0 ResetSent] by auto
    then obtain h2 c2 where "ce_write E (Approve token oracle maxUint256) c1 = (Inr h2, c2)" "al c2 = maxUint256"
      using approvableD(3) [OF assms one(2)] by blast
    then obtain es3 c3 where "approve_with E token oracle maxUint256 ApprovalSent c1 = (es3, Inr (), c3)" "al c3 = maxUint256"
      using approve_with_works [OF assms, of maxUint256 c1 h2 c2 ApprovalSent] by auto
    with one approve_with_fails [OF refused, of ApprovalSent] show ?thesis
      by (auto simp: approve_max_def cio_catch_def cio_bind_def cio_log_def)
  qed
qed

lemma ensure_allowance_works:
  assumes "approvable E token account oracle al" "bid \<le> maxUint256"
  shows "\<exists>es c'. ensure_allowance E token account oracle bid c = (es, Inr (), c')"
proof -
  have read: "cio_allowance E token account oracle c = ([ReadAllowance (Inr (al c))], Inr (al c), c)" for c
    using approvableD(1) [OF assms(1)] by (simp add: cio_allowance_def lift_err_def)
  obtain es1 c1 where "approve_max E token oracle c = (es1, Inr (), c1)" "al c1 = maxUint256"
    using approve_max_works [OF assms(1)] by blast
  then show ?thesis using assms(2)
    by (auto simp: ensure_allowance_def raise_allowance_def cio_bind_def cio_log_def cio_return_def read)
qed


section \<open>What a snapshot is\<close>

lemma promise_all_None [simp]: "promise_all race errs = None \<longleftrightarrow> errs = []"
  by (simp add: promise_all_def)

lemma err_of_Nil [simp]: "err_of r = [] \<longleftrightarrow> \<not> isl r"
  by (cases r) simp_all

lemma read_chain_ok:
  assumes "read_chain race oracle hub a = Inr snap"
  shows "\<not> isl (an_oracleBytecode a)" "\<not> no_code (projr (an_oracleBytecode a))" "\<not> isl (an_hubBytecode a)" "\<not> no_code (projr (an_hubBytecode a))"
    "map ascii_lower (projr (an_oracleHub a)) = map ascii_lower hub" "an_latestWeather a = Inr (xs_weather snap)"
    "an_fulfilled a = Inr (xs_fulfilled snap)" "an_paymentToken a = Inr (xs_paymentToken snap)"
    "an_decimals a = Inr (xs_tokenDecimals snap)" "an_balance a = Inr (xs_demoBalance snap)" "an_baseProtocolFee a = Inr (xs_baseProtocolFee snap)"
  using assms unfolding read_chain_def
  by (auto split: option.splits if_splits sum.splits simp: isl_def)

text \<open>
  A snapshot is shown only of the configured contracts, and whole. The page stores one only if code was found at
  both addresses, the oracle names the configured hub (up to the case of its digits) and every single read
  succeeded, and it is what they answered; otherwise the old one stays, the typed bid too, and the failure is
  logged. A bid the user typed is never replaced. The log holds ten entries at most, the newest first.
\<close>

theorem snapshot_all_or_nothing:
  assumes "length (ex_logs s) \<le> 10"
  shows "let s' = readSnapshot_end race formatUnits c interactive a s in
      length (ex_logs s') \<le> 10 \<and> (js_trim (ex_bidAmountInput s) \<noteq> [] \<longrightarrow> ex_bidAmountInput s' = ex_bidAmountInput s)
    \<and> ((\<exists>e. hd (ex_logs s') = (LogError, SnapshotFailed e)) \<and> ex_snapshot s' = ex_snapshot s \<and> ex_bidAmountInput s' = ex_bidAmountInput s
      \<or> (\<exists>snap. ex_snapshot s' = Some snap \<and> ex_logs s' = ex_logs s
          \<and> \<not> no_code (projr (an_oracleBytecode a)) \<and> \<not> no_code (projr (an_hubBytecode a))
          \<and> map ascii_lower (projr (an_oracleHub a)) = map ascii_lower (or_else (xc_hubAddress c) [])
          \<and> an_latestWeather a = Inr (xs_weather snap) \<and> an_fulfilled a = Inr (xs_fulfilled snap) \<and> an_paymentToken a = Inr (xs_paymentToken snap)
          \<and> an_decimals a = Inr (xs_tokenDecimals snap) \<and> an_balance a = Inr (xs_demoBalance snap) \<and> an_baseProtocolFee a = Inr (xs_baseProtocolFee snap)))"
proof (cases "read_chain race (or_else (xc_oracleAddress c) []) (or_else (xc_hubAddress c) []) a")
  case (Inl e)
  have "ex_logs (pushLog LogError (SnapshotFailed e) s) = take 10 ((LogError, SnapshotFailed e) # ex_logs s)"
    by (simp add: pushLog_def js_slice_def slice_pos_def Let_def min_def)
  then show ?thesis by (simp add: readSnapshot_end_def Inl Let_def) (simp add: pushLog_def)
next
  case (Inr snap)
  show ?thesis using read_chain_ok [OF Inr] assms by (auto simp: readSnapshot_end_def Inr Let_def)
qed

text \<open>Addresses and keys.\<close>

lemma hex_not_space: assumes "is_hex c" shows "\<not> is_space c"
proof -
  from assms have "48 \<le> c \<and> c \<le> 122"
    using order.trans [of 48 97 c] order.trans [of 48 65 c] order.trans [of c 57 122] order.trans [of c 102 122] order.trans [of c 70 122]
    unfolding is_hex_def is_digit_def by auto
  then show ?thesis by (intro not_space_between) simp_all
qed

lemma trim_hex: assumes "list_all is_hex (drop 2 t)" "starts_with t (lit ''0x'')" "3 \<le> length t" shows "js_trim t = t"
proof (rule trim_id)
  obtain u where t: "t = lit ''0x'' @ u" using assms(2) by (auto simp: starts_with_append)
  then show "t \<noteq> []" "\<not> is_space (hd t)" by (simp_all add: lit_def is_space_def)
  have u: "u \<noteq> []" "list_all is_hex u" using assms(1,3) by (auto simp: t lit_def)
  then show "\<not> is_space (last t)" by (intro hex_not_space) (simp add: t list_all_iff)
qed

text \<open>
  Configured addresses and keys are what they must look like, and reading them is idempotent: an address is
  \<open>0x\<close> and 40 digits, a key \<open>0x\<close> and 64, with the prefix added where it was missing and white space around either
  dropped; what was read is read as itself, and the key as it stands without its prefix too.
\<close>

theorem config_values_wellformed:
  "(asAddress v = Some a \<longrightarrow> is_address a \<and> asAddress (Some a) = Some a)
   \<and> (asPrivateKey v = Some k \<longrightarrow> starts_with k (lit ''0x'') \<and> length k = 66 \<and> list_all is_hex (drop 2 k) \<and> asPrivateKey (Some k) = Some k
        \<and> (\<not> starts_with (drop 2 k) (lit ''0x'') \<longrightarrow> asPrivateKey (Some (drop 2 k)) = Some k))"
proof (intro conjI impI)
  assume "asAddress v = Some a"
  then have a: "is_address a" by (auto simp: asAddress_def Let_def split: option.splits if_splits)
  then show "is_address a" .
  from a have l: "length a = 42" unfolding is_address_def by (auto simp: starts_with_append lit_def)
  with a have "js_trim a = a" by (intro trim_hex) (simp_all add: is_address_def)
  moreover have "non_empty (Some a) = Some a" using l by (auto simp: non_empty_def)
  ultimately show "asAddress (Some a) = Some a" using a by (simp add: asAddress_def)
next
  assume "asPrivateKey v = Some k"
  then have k: "starts_with k (lit ''0x'')" "length (drop 2 k) = 64" "list_all is_hex (drop 2 k)"
    by (auto simp: asPrivateKey_def Let_def starts_with_append split: option.splits if_splits)
  show "starts_with k (lit ''0x'')" "list_all is_hex (drop 2 k)" by (fact k)+
  obtain u where u: "k = lit ''0x'' @ u" using k(1) by (auto simp: starts_with_append)
  then have d: "drop 2 k = u" by (simp add: lit_def)
  show l: "length k = 66" using k(2) u by (simp add: lit_def)
  have "js_trim k = k" using k l by (intro trim_hex) simp_all
  moreover have "non_empty (Some k) = Some k" using l by (auto simp: non_empty_def)
  ultimately show "asPrivateKey (Some k) = Some k" using k by (simp add: asPrivateKey_def Let_def)
  show "asPrivateKey (Some (drop 2 k)) = Some k" if "\<not> starts_with (drop 2 k) (lit ''0x'')"
  proof -
    have hx: "list_all is_hex u" "length u = 64" using k d by simp_all
    then have "u \<noteq> []" by auto
    then have "js_trim u = u" using hx by (intro trim_id hex_not_space) (auto simp: list_all_iff)
    moreover have "non_empty (Some u) = Some u" using \<open>u \<noteq> []\<close> by (auto simp: non_empty_def)
    ultimately show ?thesis using that k d u by (simp add: asPrivateKey_def Let_def)
  qed
qed

section \<open>Instances\<close>

text \<open>A token that refuses to change an allowance other than zero, on a chain that is its allowance.\<close>

definition strict_token :: "int chain_env" where
  "strict_token = \<lparr> ce_allowance = (\<lambda>token owner1 spender c. (Inr c, c)),
     ce_write = (\<lambda>t c. case t of Approve token spender amount \<Rightarrow> if amount \<noteq> 0 \<and> c \<noteq> 0 then (Inl (lit ''refused''), c) else (Inr (lit ''0xa''), amount)
       | PlaceBid o1 b \<Rightarrow> (Inr (lit ''0xb''), c)),
     ce_receipt = (\<lambda>h c. (Inr (), c)) \<rparr>"

definition demo_snapshot :: explorer_snapshot where
  "demo_snapshot = \<lparr> xs_weather = \<lparr> wr_observationTimestamp = 0, wr_temperatureCentiCelsius = 0, wr_humidityBps = 0, wr_windSpeedCms = 0,
       wr_windGustCms = 0, wr_precipitationMicrometers = 0, wr_pressurePa = 0, wr_conditionCode = 0, wr_conditionDescription = [] \<rparr>,
     xs_fulfilled = False, xs_query = [], xs_expectedShape = [], xs_model = [], xs_baseProtocolFee = 10, xs_paymentToken = lit ''0xt'',
     xs_tokenSymbol = lit ''T'', xs_tokenDecimals = 6, xs_demoBalance = 1000 \<rparr>"

lemma max_uint: "maxUint256 \<noteq> 0" "30 \<le> maxUint256"
  by (simp_all add: maxUint256_def)

lemma strict_token_approvable: "approvable strict_token token account oracle (\<lambda>c. c)"
  using max_uint(1) by (auto simp: approvable_def strict_token_def)


theorem bid_only_when_covered_witness:
  "case requestAutoUpdate (\<lambda>t d. Inr 30) strict_token demo_snapshot (lit ''0xme'') (lit ''0xo'') (lit ''30'') 50 of (es, r, c') \<Rightarrow>
     PlaceBid (lit ''0xo'') 30 \<in> set (sent_txs es) \<and> (\<exists>a. last (allowances es) = Inr a \<and> 30 \<le> a)"
proof -
  obtain es c' where run: "requestAutoUpdate (\<lambda>t d. Inr 30) strict_token demo_snapshot (lit ''0xme'') (lit ''0xo'') (lit ''30'') 50 = (es, Inr (), c')"
    "sent_txs es = [PlaceBid (lit ''0xo'') 30]"
    by (simp add: requestAutoUpdate_def strict_token_def demo_snapshot_def cio_catch_def cio_bind_def lift_err_def ensure_allowance_def
        cio_allowance_def cio_log_def cio_return_def place_bid_def cio_write_def cio_receipt_def)
  from bid_only_when_covered [OF run(1)] run show ?thesis by simp
qed

theorem snapshot_all_or_nothing_witness:
  "length (ex_logs (readSnapshot_end hd (\<lambda>n d. []) c True a explorer0)) \<le> 10"
  using snapshot_all_or_nothing [of explorer0 hd "\<lambda>n d. []" c True a] by (simp add: explorer0_def Let_def)

end
