(* ===== verification/Account.thy ===== *)
theory Account
  imports WebTypes MobileTypes Http RotatingCache
begin

text \<open>
  Profiles and settings of both clients: onboarding (\<open>web/app/onboarding/page.tsx\<close>, \<open>mobile/app/onboarding.tsx\<close>),
  settings (\<open>web/app/(app)/settings/page.tsx\<close>, \<open>mobile/app/settings.tsx\<close>) and API keys
  (\<open>web/components/DeveloperKeys.tsx\<close>), with the format gates of the backend they must pass
  (\<open>handlers_me.go\<close>). A request body is the JSON it is sent as. The URL parser of the browser, the wallet and the
  backend are arguments.
\<close>

section \<open>Formats\<close>

definition is_name_unit :: "code_unit \<Rightarrow> bool" where
  "is_name_unit c \<longleftrightarrow> (97 \<le> c \<and> c \<le> 122) \<or> is_digit c \<or> c = 95 \<or> c = 46"

definition web_username_ok :: "str \<Rightarrow> bool" where
  "web_username_ok u \<longleftrightarrow> 3 \<le> length u \<and> length u \<le> 30 \<and> list_all is_name_unit u"

definition mob_username_ok :: "str \<Rightarrow> bool" where
  "mob_username_ok u \<longleftrightarrow> (let v = to_lower (js_trim u) in 3 \<le> length v \<and> length v \<le> 24 \<and> list_all is_name_unit v)"

definition usernameRE :: "str \<Rightarrow> bool" where
  "usernameRE u \<longleftrightarrow> 1 \<le> length u \<and> length u \<le> 30 \<and> list_all is_name_unit u"

fun js_includes :: "str \<Rightarrow> str \<Rightarrow> bool" where
  "js_includes [] p = (p = [])"
| "js_includes (c # cs) p = (starts_with (c # cs) p \<or> js_includes cs p)"

definition with_scheme :: "str \<Rightarrow> str" where
  "with_scheme t = (if js_includes t (lit ''://'') then t else lit ''https://'' @ t)"

text \<open>\<open>parseUrl\<close> gives the protocol and the host name of a URL, or fails.\<close>

definition web_isValidUrl :: "(str \<Rightarrow> (str \<times> str) option) \<Rightarrow> str \<Rightarrow> bool" where
  "web_isValidUrl parseUrl t = (case parseUrl (with_scheme t) of None \<Rightarrow> False
     | Some (protocol, hostname) \<Rightarrow> (protocol = lit ''http:'' \<or> protocol = lit ''https:'') \<and> js_includes hostname (lit ''.''))"

text \<open>\<open>/^https?:\/\/[^\s./]+\.[^\s]+$/i\<close>: the first label ends at the first point.\<close>

definition url_tail_ok :: "str \<Rightarrow> bool" where
  "url_tail_ok r = (let lab = takeWhile (\<lambda>c. \<not> is_space c \<and> c \<noteq> 46 \<and> c \<noteq> 47) r; rest = drop (length lab) r
     in lab \<noteq> [] \<and> rest \<noteq> [] \<and> hd rest = 46 \<and> tl rest \<noteq> [] \<and> list_all (\<lambda>c. \<not> is_space c) (tl rest))"

definition mob_isValidUrl :: "str \<Rightarrow> bool" where
  "mob_isValidUrl t = (let s = with_scheme t; l = to_lower s in
     if starts_with l (lit ''https://'') then url_tail_ok (drop 8 s)
     else if starts_with l (lit ''http://'') then url_tail_ok (drop 7 s) else False)"

fun split_on :: "(code_unit \<Rightarrow> bool) \<Rightarrow> str \<Rightarrow> str list" where
  "split_on P [] = [[]]"
| "split_on P (c # cs) = (if P c then [] # split_on P cs else (c # hd (split_on P cs)) # tl (split_on P cs))"

definition or_empty :: "str \<Rightarrow> str option \<Rightarrow> str" where
  "or_empty u v = (if u \<noteq> [] then u else or_else (non_empty v) [])"

section \<open>Onboarding on the web\<close>

record web_onboarding =
  wo_username :: str
  wo_displayName :: str
  wo_bio :: str
  wo_links :: str
  wo_avatarUrl :: "str option"
  wo_uploading :: bool
  wo_saving :: bool
  wo_cancelConfirm :: bool
  wo_loggingOut :: bool

definition web_onboarding0 :: web_onboarding where
  "web_onboarding0 = \<lparr> wo_username = [], wo_displayName = [], wo_bio = [], wo_links = [], wo_avatarUrl = None, wo_uploading = False,
     wo_saving = False, wo_cancelConfirm = False, wo_loggingOut = False \<rparr>"

definition web_onboarding_redirects :: "bool \<Rightarrow> bool \<Rightarrow> me option \<Rightarrow> str list" where
  "web_onboarding_redirects ready authenticated m = (if ready \<and> \<not> authenticated then [lit ''/login''] else [])
     @ (case m of Some x \<Rightarrow> if me_onboarded x then [lit ''/''] else [] | None \<Rightarrow> [])"

definition web_onboarding_prefill :: "me option \<Rightarrow> web_onboarding \<Rightarrow> web_onboarding" where
  "web_onboarding_prefill m s = (case m of None \<Rightarrow> s
     | Some x \<Rightarrow> s\<lparr>wo_username := or_empty (wo_username s) (Some (ul_username x)), wo_displayName := or_empty (wo_displayName s) (ul_display_name x),
         wo_bio := or_empty (wo_bio s) (us_bio x),
         wo_avatarUrl := (case non_empty (wo_avatarUrl s) of Some a \<Rightarrow> Some a | None \<Rightarrow> ul_avatar_url x),
         wo_links := or_empty (wo_links s) (case us_links x of [] \<Rightarrow> None | l # ls \<Rightarrow> Some l)\<rparr>)"

definition web_avatar_start :: "web_onboarding \<Rightarrow> web_onboarding" where
  "web_avatar_start s = s\<lparr>wo_uploading := True\<rparr>"

definition web_avatar_end :: "js_error + str \<Rightarrow> web_onboarding \<Rightarrow> web_onboarding" where
  "web_avatar_end r s = (case r of Inr url \<Rightarrow> s\<lparr>wo_avatarUrl := Some url, wo_uploading := False\<rparr> | Inl e \<Rightarrow> s\<lparr>wo_uploading := False\<rparr>)"

definition web_setUsername :: "str \<Rightarrow> web_onboarding \<Rightarrow> web_onboarding" where
  "web_setUsername v s = s\<lparr>wo_username := to_lower v\<rparr>"

datatype profile_refusal = InvalidUsername | InvalidLink

definition web_onboarding_body :: "web_onboarding \<Rightarrow> json" where
  "web_onboarding_body s = JObj [(lit ''username'', JStr (wo_username s)), (lit ''display_name'', json_opt_str (non_empty (Some (wo_displayName s)))),
     (lit ''bio'', json_opt_str (non_empty (Some (wo_bio s)))), (lit ''avatar_url'', json_opt_str (wo_avatarUrl s)),
     (lit ''links'', JArr (if js_trim (wo_links s) \<noteq> [] then [JStr (js_trim (wo_links s))] else [])), (lit ''onboarded'', JBool True)]"

definition web_onboarding_submit :: "(str \<Rightarrow> (str \<times> str) option) \<Rightarrow> web_onboarding \<Rightarrow> web_onboarding \<times> (profile_refusal + json)" where
  "web_onboarding_submit parseUrl s =
     (if \<not> web_username_ok (wo_username s) then (s, Inl InvalidUsername)
      else if js_trim (wo_links s) \<noteq> [] \<and> \<not> web_isValidUrl parseUrl (js_trim (wo_links s)) then (s, Inl InvalidLink)
      else (s\<lparr>wo_saving := True\<rparr>, Inr (web_onboarding_body s)))"

definition web_onboarding_saved :: "bool \<Rightarrow> web_onboarding \<Rightarrow> web_onboarding \<times> str list" where
  "web_onboarding_saved ok s = (s\<lparr>wo_saving := False\<rparr>, if ok then [lit ''/''] else [])"

text \<open>Cancelling the signup; the sheet cannot be closed while the log-out runs.\<close>

definition web_cancel_ask :: "bool \<Rightarrow> web_onboarding \<Rightarrow> web_onboarding" where
  "web_cancel_ask confirm s = (if confirm then s\<lparr>wo_cancelConfirm := True\<rparr>
     else if wo_loggingOut s then s else s\<lparr>wo_cancelConfirm := False\<rparr>)"

definition web_cancel_start :: "web_onboarding \<Rightarrow> web_onboarding" where
  "web_cancel_start s = s\<lparr>wo_loggingOut := True\<rparr>"

definition web_cancel_end :: "bool \<Rightarrow> web_onboarding \<Rightarrow> web_onboarding \<times> str list" where
  "web_cancel_end ok s = (if ok then (s, [lit ''/login'']) else (s\<lparr>wo_loggingOut := False\<rparr>, []))"

section \<open>Onboarding in the app\<close>

record mob_onboarding =
  mo_username :: str
  mo_displayName :: str
  mo_bio :: str
  mo_link :: str
  mo_avatarUri :: "str option"
  mo_busy :: bool
  mo_error :: "str option"
  mo_confirmCancel :: bool
  mo_cancelling :: bool

definition mob_onboarding0 :: "mob_me option \<Rightarrow> mob_onboarding" where
  "mob_onboarding0 m = \<lparr> mo_username = or_else (Option.bind m mme_username) [], mo_displayName = or_else (Option.bind m mme_display_name) [],
     mo_bio = or_else (Option.bind m mme_bio) [], mo_link = (case Option.bind m mme_links of Some (l # ls) \<Rightarrow> l | _ \<Rightarrow> []),
     mo_avatarUri = None, mo_busy = False, mo_error = None, mo_confirmCancel = False, mo_cancelling = False \<rparr>"

datatype onboarding_event = EnsureWallet | UploadAvatar str | PatchMe json | MeSet mob_me | MeRefreshed | WentTo str

definition mob_avatar_picked :: "str option \<Rightarrow> mob_onboarding \<Rightarrow> mob_onboarding" where
  "mob_avatar_picked asset s = (case asset of None \<Rightarrow> s | Some uri \<Rightarrow> s\<lparr>mo_avatarUri := Some uri\<rparr>)"

definition mob_onboarding_body :: "mob_onboarding \<Rightarrow> str option \<Rightarrow> json" where
  "mob_onboarding_body s avatar_url = JObj ([(lit ''username'', JStr (to_lower (js_trim (mo_username s)))),
     (lit ''display_name'', json_opt_str (non_empty (Some (js_trim (mo_displayName s))))),
     (lit ''bio'', json_opt_str (non_empty (Some (js_trim (mo_bio s))))),
     (lit ''links'', JArr (if js_trim (mo_link s) \<noteq> [] then [JStr (js_trim (mo_link s))] else []))]
     @ (case non_empty avatar_url of Some u \<Rightarrow> [(lit ''avatar_url'', JStr u)] | None \<Rightarrow> []))"

text \<open>The calls of \<open>submit\<close>: a wallet that cannot be made is ignored, the first other failure ends it.\<close>

definition mob_onboarding_run :: "bool \<Rightarrow> (str \<Rightarrow> js_error + str) \<Rightarrow> (json \<Rightarrow> js_error + mob_me) \<Rightarrow> mob_onboarding \<Rightarrow> onboarding_event list \<times> js_error option" where
  "mob_onboarding_run isEdit upload patch s =
     (let wallet = (if isEdit then [] else [EnsureWallet]);
          avatar = (case non_empty (mo_avatarUri s) of None \<Rightarrow> ([], Inr None)
            | Some uri \<Rightarrow> ([UploadAvatar uri], case upload uri of Inl e \<Rightarrow> Inl e | Inr url \<Rightarrow> Inr (Some url)))
      in case snd avatar of Inl e \<Rightarrow> (wallet @ fst avatar, Some e)
         | Inr url \<Rightarrow> let body = mob_onboarding_body s url in
             case patch body of Inl e \<Rightarrow> (wallet @ fst avatar @ [PatchMe body], Some e)
             | Inr m \<Rightarrow> (wallet @ fst avatar @ [PatchMe body, MeSet m, MeRefreshed, WentTo (if isEdit then lit ''/(tabs)/profile'' else lit ''/'')], None))"

definition mob_onboarding_submit :: "mob_onboarding \<Rightarrow> mob_onboarding \<times> bool" where
  "mob_onboarding_submit s =
     (if js_trim (mo_link s) \<noteq> [] \<and> \<not> mob_isValidUrl (js_trim (mo_link s))
      then (s\<lparr>mo_error := Some (lit ''Enter a valid link, e.g. https://example.com'')\<rparr>, False)
      else (s\<lparr>mo_busy := True, mo_error := None\<rparr>, True))"

definition mob_onboarding_ended :: "(js_error \<Rightarrow> str) \<Rightarrow> js_error option \<Rightarrow> mob_onboarding \<Rightarrow> mob_onboarding" where
  "mob_onboarding_ended errorMessage r s = (case r of None \<Rightarrow> s\<lparr>mo_busy := False\<rparr>
     | Some e \<Rightarrow> s\<lparr>mo_error := Some (errorMessage e), mo_busy := False\<rparr>)"

text \<open>\<open>onBack\<close> goes back when editing and asks otherwise; a confirmed cancellation always ends at the sign-in.\<close>

definition mob_onBack :: "bool \<Rightarrow> mob_onboarding \<Rightarrow> mob_onboarding \<times> bool" where
  "mob_onBack isEdit s = (if isEdit then (s, True) else (s\<lparr>mo_confirmCancel := True\<rparr>, False))"

definition mob_cancelSignup :: "js_error + unit \<Rightarrow> mob_onboarding \<Rightarrow> mob_onboarding \<times> str" where
  "mob_cancelSignup logout s = (s\<lparr>mo_cancelling := True\<rparr>, lit ''/sign-in'')"

section \<open>Settings on the web\<close>

record web_settings =
  wg_username :: str
  wg_displayName :: str
  wg_bio :: str
  wg_links :: str
  wg_avatarUrl :: "str option"
  wg_saving :: bool
  wg_uploading :: bool
  wg_isPrivate :: bool
  wg_tradesPublic :: bool

definition web_settings0 :: web_settings where
  "web_settings0 = \<lparr> wg_username = [], wg_displayName = [], wg_bio = [], wg_links = [], wg_avatarUrl = None, wg_saving = False,
     wg_uploading = False, wg_isPrivate = False, wg_tradesPublic = True \<rparr>"

fun join_lines :: "str list \<Rightarrow> str" where
  "join_lines [] = []"
| "join_lines [l] = l"
| "join_lines (l # ls) = l @ 10 # join_lines ls"

definition web_settings_me :: "me option \<Rightarrow> web_settings \<Rightarrow> web_settings" where
  "web_settings_me m s = (case m of None \<Rightarrow> s
     | Some x \<Rightarrow> s\<lparr>wg_username := ul_username x, wg_displayName := or_else (ul_display_name x) [], wg_bio := or_else (us_bio x) [],
         wg_links := join_lines (us_links x), wg_avatarUrl := ul_avatar_url x, wg_isPrivate := us_private x, wg_tradesPublic := us_trades_public x\<rparr>)"

definition settings_links :: "str \<Rightarrow> str list" where
  "settings_links t = filter (\<lambda>l. l \<noteq> []) (map js_trim (split_on (\<lambda>c. c = 10 \<or> c = 44) t))"

definition web_profile_body :: "web_settings \<Rightarrow> json" where
  "web_profile_body s = JObj [(lit ''username'', JStr (wg_username s)), (lit ''display_name'', json_opt_str (non_empty (Some (wg_displayName s)))),
     (lit ''bio'', json_opt_str (non_empty (Some (wg_bio s)))), (lit ''avatar_url'', json_opt_str (wg_avatarUrl s)),
     (lit ''links'', JArr (map JStr (settings_links (wg_links s))))]"

definition web_saveProfile :: "web_settings \<Rightarrow> web_settings \<times> json" where
  "web_saveProfile s = (s\<lparr>wg_saving := True\<rparr>, web_profile_body s)"

definition web_setPrivate :: "bool \<Rightarrow> web_settings \<Rightarrow> web_settings \<times> json" where
  "web_setPrivate v s = (s\<lparr>wg_isPrivate := v\<rparr>, JObj [(lit ''private'', JBool v)])"

definition web_setTradesPublic :: "bool \<Rightarrow> web_settings \<Rightarrow> web_settings \<times> json" where
  "web_setTradesPublic v s = (s\<lparr>wg_tradesPublic := v\<rparr>, JObj [(lit ''trades_visibility'', JStr (if v then lit ''public'' else lit ''private''))])"

definition web_privacy_failed :: "me option \<Rightarrow> web_settings \<Rightarrow> web_settings" where
  "web_privacy_failed m s = (case m of None \<Rightarrow> s | Some x \<Rightarrow> s\<lparr>wg_isPrivate := us_private x, wg_tradesPublic := us_trades_public x\<rparr>)"

text \<open>The fields the backend decodes; it refuses any other.\<close>

definition updateSettingsRequest :: "str list" where
  "updateSettingsRequest = [lit ''is_private'', lit ''trades_visibility'', lit ''notification_prefs'']"

fun decodes :: "str list \<Rightarrow> json \<Rightarrow> bool" where
  "decodes known (JObj kvs) = list_all (\<lambda>kv. fst kv \<in> set known) kvs"
| "decodes known j = False"

definition updateMeRequest :: "str list" where
  "updateMeRequest = [lit ''username'', lit ''display_name'', lit ''bio'', lit ''avatar_url'', lit ''links'', lit ''onboarded'']"

text \<open>The checks of \<open>handleUpdateMe\<close> on what it decoded; \<open>normalizeURL\<close> is its check of a link.\<close>

definition handleUpdateMe_accepts :: "(str \<Rightarrow> bool) \<Rightarrow> json \<Rightarrow> bool" where
  "handleUpdateMe_accepts normalizeURL body \<longleftrightarrow> decodes updateMeRequest body
     \<and> (case json_field body (lit ''username'') of Some (JStr u) \<Rightarrow> usernameRE u | _ \<Rightarrow> True)
     \<and> (case json_field body (lit ''bio'') of Some (JStr b) \<Rightarrow> utf8Bytes b \<le> 500 | _ \<Rightarrow> True)
     \<and> (case json_field body (lit ''links'') of Some (JArr ls) \<Rightarrow> length ls \<le> 1
          \<and> list_all (\<lambda>l. case l of JStr t \<Rightarrow> js_trim t = [] \<or> normalizeURL t | _ \<Rightarrow> False) ls | _ \<Rightarrow> True)"

section \<open>Settings in the app\<close>

datatype settings_patch = PatchPrivate bool | PatchTrades trades_visibility | PatchNotification str bool

definition set_pref :: "str \<Rightarrow> bool \<Rightarrow> mob_me \<Rightarrow> mob_me" where
  "set_pref k v m = m\<lparr>mme_notification_prefs := Some (om_set (or_else (mme_notification_prefs m) []) k v)\<rparr>"

fun patch_me :: "settings_patch \<Rightarrow> mob_me \<Rightarrow> mob_me" where
  "patch_me (PatchPrivate v) m = m\<lparr>mme_is_private := v\<rparr>"
| "patch_me (PatchTrades v) m = m\<lparr>mme_trades_visibility := v\<rparr>"
| "patch_me (PatchNotification k v) m = set_pref k v m"

fun revert_me :: "settings_patch \<Rightarrow> mob_me \<Rightarrow> mob_me" where
  "revert_me (PatchPrivate v) m = m\<lparr>mme_is_private := \<not> v\<rparr>"
| "revert_me (PatchTrades v) m = m\<lparr>mme_trades_visibility := (if v = PrivateTrades then PublicTrades else PrivateTrades)\<rparr>"
| "revert_me (PatchNotification k v) m = set_pref k (\<not> v) m"

datatype toggle = PrivateToggle | TradesToggle | NotificationToggle str

fun toggle_on :: "toggle \<Rightarrow> mob_me \<Rightarrow> bool" where
  "toggle_on PrivateToggle m = mme_is_private m"
| "toggle_on TradesToggle m = (mme_trades_visibility m = PrivateTrades)"
| "toggle_on (NotificationToggle k) m = (Option.bind (mme_notification_prefs m) (\<lambda>ps. om_get ps k) \<noteq> Some False)"

fun toggle_patch :: "toggle \<Rightarrow> bool \<Rightarrow> settings_patch" where
  "toggle_patch PrivateToggle v = PatchPrivate v"
| "toggle_patch TradesToggle v = PatchTrades (if v then PrivateTrades else PublicTrades)"
| "toggle_patch (NotificationToggle k) v = PatchNotification k v"

fun mob_settings_body :: "settings_patch \<Rightarrow> json" where
  "mob_settings_body (PatchPrivate v) = JObj [(lit ''is_private'', JBool v)]"
| "mob_settings_body (PatchTrades v) = JObj [(lit ''trades_visibility'', JStr (if v = PrivateTrades then lit ''private'' else lit ''public''))]"
| "mob_settings_body (PatchNotification k v) = JObj [(lit ''notification_prefs'', JObj [(k, JBool v)])]"

text \<open>The profile shown, and the patches in flight.\<close>

record mob_settings =
  ms_me :: "mob_me option"
  ms_flight :: "settings_patch list"

definition patchSettings :: "settings_patch \<Rightarrow> mob_settings \<Rightarrow> mob_settings" where
  "patchSettings p s = s\<lparr>ms_me := map_option (patch_me p) (ms_me s), ms_flight := ms_flight s @ [p]\<rparr>"

definition patchSettings_ended :: "nat \<Rightarrow> bool \<Rightarrow> mob_settings \<Rightarrow> mob_settings" where
  "patchSettings_ended i ok s = (if i < length (ms_flight s)
     then s\<lparr>ms_me := (if ok then ms_me s else map_option (revert_me (ms_flight s ! i)) (ms_me s)),
            ms_flight := take i (ms_flight s) @ drop (Suc i) (ms_flight s)\<rparr>
     else s)"

definition mob_toggle :: "toggle \<Rightarrow> mob_settings \<Rightarrow> mob_settings" where
  "mob_toggle k s = (case ms_me s of None \<Rightarrow> s | Some m \<Rightarrow> patchSettings (toggle_patch k (\<not> toggle_on k m)) s)"

section \<open>API keys\<close>

record key_form =
  kf_name :: str
  kf_scope :: api_key_scope
  kf_busy :: bool

record dev_keys =
  dk_creating :: "key_form option"
  dk_created :: "api_key_created option"
  dk_deleting :: "api_key option"
  dk_removing :: bool
  dk_copied :: bool

definition dev_keys0 :: dev_keys where
  "dev_keys0 = \<lparr> dk_creating = None, dk_created = None, dk_deleting = None, dk_removing = False, dk_copied = False \<rparr>"

datatype key_call = CreateKey str api_key_scope | RevokeKey str

definition create_tapped :: "dev_keys \<Rightarrow> dev_keys \<times> key_call list" where
  "create_tapped s = (case dk_creating s of None \<Rightarrow> (s, [])
     | Some f \<Rightarrow> if kf_busy f \<or> js_trim (kf_name f) = [] then (s, [])
         else (s\<lparr>dk_creating := Some (f\<lparr>kf_busy := True\<rparr>)\<rparr>, [CreateKey (js_trim (kf_name f)) (kf_scope f)]))"

definition create_ended :: "js_error + api_key_created \<Rightarrow> dev_keys \<Rightarrow> dev_keys" where
  "create_ended r s = (case r of Inr k \<Rightarrow> s\<lparr>dk_creating := None, dk_created := Some k, dk_copied := False\<rparr>
     | Inl e \<Rightarrow> s\<lparr>dk_creating := map_option (\<lambda>f. f\<lparr>kf_busy := False\<rparr>) (dk_creating s)\<rparr>)"

definition copy_tapped :: "bool \<Rightarrow> dev_keys \<Rightarrow> dev_keys" where
  "copy_tapped ok s = (if ok \<and> dk_created s \<noteq> None then s\<lparr>dk_copied := True\<rparr> else s)"

definition revoke_tapped :: "dev_keys \<Rightarrow> dev_keys \<times> key_call list" where
  "revoke_tapped s = (case dk_deleting s of None \<Rightarrow> (s, [])
     | Some k \<Rightarrow> if dk_removing s then (s, []) else (s\<lparr>dk_removing := True\<rparr>, [RevokeKey (ak_id k)]))"

definition revoke_ended :: "bool \<Rightarrow> dev_keys \<Rightarrow> dev_keys" where
  "revoke_ended ok s = s\<lparr>dk_removing := False, dk_deleting := (if ok then None else dk_deleting s)\<rparr>"

datatype key_action = OpenCreate | CloseCreate | KeyName str | KeyScope api_key_scope | CreateTapped
  | CreateEnded "js_error + api_key_created" | CopyTapped bool | CopiedTimeout | SecretClosed | AskRevoke api_key | CancelRevoke
  | RevokeTapped | RevokeEnded bool

fun key_act :: "key_action \<Rightarrow> dev_keys \<Rightarrow> dev_keys \<times> key_call list" where
  "key_act OpenCreate s = (s\<lparr>dk_creating := Some \<lparr> kf_name = [], kf_scope = ReadScope, kf_busy = False \<rparr>\<rparr>, [])"
| "key_act CloseCreate s = (s\<lparr>dk_creating := None\<rparr>, [])"
| "key_act (KeyName v) s = (s\<lparr>dk_creating := map_option (\<lambda>f. f\<lparr>kf_name := v\<rparr>) (dk_creating s)\<rparr>, [])"
| "key_act (KeyScope v) s = (s\<lparr>dk_creating := map_option (\<lambda>f. f\<lparr>kf_scope := v\<rparr>) (dk_creating s)\<rparr>, [])"
| "key_act CreateTapped s = create_tapped s"
| "key_act (CreateEnded r) s = (create_ended r s, [])"
| "key_act (CopyTapped ok) s = (copy_tapped ok s, [])"
| "key_act CopiedTimeout s = (s\<lparr>dk_copied := False\<rparr>, [])"
| "key_act SecretClosed s = (s\<lparr>dk_created := None\<rparr>, [])"
| "key_act (AskRevoke k) s = (s\<lparr>dk_deleting := Some k\<rparr>, [])"
| "key_act CancelRevoke s = (s\<lparr>dk_deleting := None\<rparr>, [])"
| "key_act RevokeTapped s = revoke_tapped s"
| "key_act (RevokeEnded ok) s = (revoke_ended ok s, [])"

section \<open>Properties\<close>

lemma usernames: "web_username_ok u \<Longrightarrow> usernameRE u" "mob_username_ok u \<Longrightarrow> usernameRE (to_lower (js_trim u))"
  by (simp_all add: web_username_ok_def mob_username_ok_def usernameRE_def Let_def)

lemma json_opt_str_simps [simp]: "json_opt_str None = JNull" "json_opt_str (Some t) = JStr t"
  by (simp_all add: json_opt_str_def)

lemma utf8Bytes_Nil [simp]: "utf8Bytes [] = 0"
  by simp


text \<open>The forms of the instances below, evaluated once.\<close>

definition demo_onboarding :: web_onboarding where
  "demo_onboarding = web_onboarding0\<lparr>wo_username := lit ''ann_1'', wo_links := lit '' a.io ''\<rparr>"

lemma demo_account:
  "snd (web_onboarding_submit (\<lambda>t. Some (lit ''https:'', lit ''a.io'')) demo_onboarding) = Inr (web_onboarding_body demo_onboarding)"
  "settings_links (lit ''a.io, b.io'') = [lit ''a.io'', lit ''b.io'']"
proof -
  have "snd (web_onboarding_submit (\<lambda>t. Some (lit ''https:'', lit ''a.io'')) demo_onboarding) = Inr (web_onboarding_body demo_onboarding)
    \<and> settings_links (lit ''a.io, b.io'') = [lit ''a.io'', lit ''b.io'']" by code_simp
  then show "snd (web_onboarding_submit (\<lambda>t. Some (lit ''https:'', lit ''a.io'')) demo_onboarding) = Inr (web_onboarding_body demo_onboarding)"
    "settings_links (lit ''a.io, b.io'') = [lit ''a.io'', lit ''b.io'']" by blast+
qed


text \<open>
  The settings of the web client send what the backend refuses. The body of the private-account toggle has a
  field it does not know, so that the toggle always springs back to the stored value; a profile with two links,
  which the form splits at lines and commas, or with an empty username is refused. Every settings body of the
  app decodes.
\<close>

theorem web_settings_refused:
  "\<not> decodes updateSettingsRequest (snd (web_setPrivate v s))
   \<and> wg_isPrivate (web_privacy_failed (Some x) (fst (web_setPrivate v s))) = us_private x
   \<and> (2 \<le> length (settings_links (wg_links s)) \<or> wg_username s = [] \<longrightarrow> \<not> handleUpdateMe_accepts normalizeURL (snd (web_saveProfile s)))
   \<and> settings_links (lit ''a.io, b.io'') = [lit ''a.io'', lit ''b.io'']
   \<and> decodes updateSettingsRequest (mob_settings_body p)"
proof (intro conjI impI)
  show "\<not> decodes updateSettingsRequest (snd (web_setPrivate v s))"
    by (simp add: web_setPrivate_def updateSettingsRequest_def)
  show "wg_isPrivate (web_privacy_failed (Some x) (fst (web_setPrivate v s))) = us_private x"
    by (simp add: web_privacy_failed_def)
  show "settings_links (lit ''a.io, b.io'') = [lit ''a.io'', lit ''b.io'']" by (rule demo_account)
  show "decodes updateSettingsRequest (mob_settings_body p)" by (cases p) (simp_all add: updateSettingsRequest_def)
  show "\<not> handleUpdateMe_accepts normalizeURL (snd (web_saveProfile s))" if "2 \<le> length (settings_links (wg_links s)) \<or> wg_username s = []"
    using that by (auto simp: web_saveProfile_def web_profile_body_def handleUpdateMe_accepts_def usernameRE_def)
qed

theorem web_settings_refused_witness:
  "\<not> handleUpdateMe_accepts (\<lambda>t. True) (snd (web_saveProfile (web_settings0\<lparr>wg_username := lit ''ann'', wg_links := lit ''a.io, b.io''\<rparr>)))"
proof -
  have "length (settings_links (lit ''a.io, b.io'')) = 2" by (simp add: demo_account)
  then show ?thesis
    using web_settings_refused [of True "web_settings0\<lparr>wg_username := lit ''ann'', wg_links := lit ''a.io, b.io''\<rparr>" undefined "\<lambda>t. True" "PatchPrivate True"]
    by simp
qed

text \<open>Toggles of the app do not touch each other.\<close>

fun toggle_of :: "settings_patch \<Rightarrow> toggle" where
  "toggle_of (PatchPrivate v) = PrivateToggle"
| "toggle_of (PatchTrades v) = TradesToggle"
| "toggle_of (PatchNotification k v) = NotificationToggle k"

lemma set_pref_toggles:
  "toggle_on (NotificationToggle k') (set_pref k v m) = (if k' = k then v else toggle_on (NotificationToggle k') m)"
  "toggle_on PrivateToggle (set_pref k v m) = toggle_on PrivateToggle m" "toggle_on TradesToggle (set_pref k v m) = toggle_on TradesToggle m"
  by (cases "mme_notification_prefs m"; simp add: set_pref_def map_of_om_set)+

lemma notification_toggle_patch:
  "toggle_on (NotificationToggle k) (m\<lparr>mme_is_private := v\<rparr>) = toggle_on (NotificationToggle k) m"
  "toggle_on (NotificationToggle k) (m\<lparr>mme_trades_visibility := t\<rparr>) = toggle_on (NotificationToggle k) m"
  by simp_all

lemma patch_toggle:
  "toggle_on k (patch_me (toggle_patch k v) m) = v" "toggle_on k (revert_me (toggle_patch k v) m) = (\<not> v)"
proof -
  show "toggle_on k (patch_me (toggle_patch k v) m) = v"
    by (cases k) (simp_all only: toggle_patch.simps patch_me.simps set_pref_toggles if_True, simp_all)
  show "toggle_on k (revert_me (toggle_patch k v) m) = (\<not> v)"
    by (cases k) (simp_all only: toggle_patch.simps revert_me.simps set_pref_toggles if_True, simp_all)
qed

lemma other_toggle:
  assumes "toggle_of p \<noteq> k"
  shows "toggle_on k (patch_me p m) = toggle_on k m" "toggle_on k (revert_me p m) = toggle_on k m"
proof -
  show "toggle_on k (patch_me p m) = toggle_on k m"
    using assms by (cases p; cases k; simp only: toggle_of.simps patch_me.simps set_pref_toggles notification_toggle_patch; simp)
  show "toggle_on k (revert_me p m) = toggle_on k m"
    using assms by (cases p; cases k; simp only: toggle_of.simps revert_me.simps set_pref_toggles notification_toggle_patch; simp)
qed

lemma toggle_of_patch [simp]: "toggle_of (toggle_patch k v) = k"
  by (cases k) simp_all

datatype settings_change = Applied settings_patch | Reverted settings_patch

fun settings_change_of :: "settings_change \<Rightarrow> settings_patch" where
  "settings_change_of (Applied p) = p"
| "settings_change_of (Reverted p) = p"

fun change_me :: "settings_change \<Rightarrow> mob_me \<Rightarrow> mob_me" where
  "change_me (Applied p) m = patch_me p m"
| "change_me (Reverted p) m = revert_me p m"

lemma others_untouched:
  "\<forall>c \<in> set cs. toggle_of (settings_change_of c) \<noteq> k \<Longrightarrow> toggle_on k (fold change_me cs m) = toggle_on k m"
proof (induction cs arbitrary: m)
  case (Cons c cs)
  then show ?case by (cases c) (simp_all add: other_toggle)
qed simp

text \<open>
  A setting of the app that could not be saved is taken back alone. A tap shows the toggle flipped at once and
  sends that value; if the call fails the toggle shows what it showed before, whatever other settings were
  changed or taken back in between, and none of those changes is lost.
\<close>

theorem failed_setting_taken_back:
  assumes "\<forall>c \<in> set cs. toggle_of (settings_change_of c) \<noteq> k"
  shows "let p = toggle_patch k (\<not> toggle_on k m); tapped = patch_me p m; failed = revert_me p (fold change_me cs tapped) in
     toggle_on k tapped = (\<not> toggle_on k m) \<and> toggle_on k (fold change_me cs tapped) = (\<not> toggle_on k m)
   \<and> toggle_on k failed = toggle_on k m
   \<and> (\<forall>k'. k' \<noteq> k \<longrightarrow> toggle_on k' failed = toggle_on k' (fold change_me cs tapped))"
  using others_untouched [OF assms] by (auto simp: Let_def patch_toggle other_toggle)

definition demo_me :: mob_me where
  "demo_me = \<lparr> mme_id = [], mme_privy_did = None, mme_wallet_address = None, mme_username = None, mme_display_name = None, mme_bio = None,
     mme_avatar_url = None, mme_links = None, mme_is_private = False, mme_trades_visibility = PublicTrades, mme_notification_prefs = None,
     mme_server_signing_enabled = None, mme_onboarded = None, mme_is_admin = None, mme_warp = None \<rparr>"

theorem failed_setting_taken_back_witness:
  "toggle_on (NotificationToggle (lit ''likes''))
     (revert_me (PatchNotification (lit ''likes'') False) (patch_me (PatchPrivate True) (patch_me (PatchNotification (lit ''likes'') False) demo_me)))"
  using failed_setting_taken_back [of "[Applied (PatchPrivate True)]" "NotificationToggle (lit ''likes'')" demo_me]
  by (simp add: Let_def demo_me_def)

text \<open>
  The link check of the app accepts exactly what its pattern describes: after \<open>https://\<close> is put in front of a text
  without a scheme, an http or https scheme in any case, a first label of at least one unit without white space,
  point or slash, a point, and at least one more unit, none of them white space.
\<close>

theorem mob_isValidUrl_pattern:
  "mob_isValidUrl t \<longleftrightarrow> (\<exists>scheme lab rest. with_scheme t = scheme @ lab @ 46 # rest
     \<and> (to_lower scheme = lit ''https://'' \<or> to_lower scheme = lit ''http://'')
     \<and> lab \<noteq> [] \<and> list_all (\<lambda>c. \<not> is_space c \<and> c \<noteq> 46 \<and> c \<noteq> 47) lab \<and> rest \<noteq> [] \<and> list_all (\<lambda>c. \<not> is_space c) rest)"
proof -
  let ?in = "\<lambda>c. \<not> is_space c \<and> c \<noteq> 46 \<and> c \<noteq> 47"
  have tail: "url_tail_ok r \<longleftrightarrow> (\<exists>lab rest. r = lab @ 46 # rest \<and> lab \<noteq> [] \<and> list_all ?in lab \<and> rest \<noteq> [] \<and> list_all (\<lambda>c. \<not> is_space c) rest)" for r
  proof
    assume a: "url_tail_ok r"
    define lab where "lab = takeWhile ?in r"
    have r: "r = lab @ drop (length lab) r" unfolding lab_def by (simp add: takeWhile_eq_take [symmetric] flip: dropWhile_eq_drop)
    from a have "drop (length lab) r \<noteq> []" "hd (drop (length lab) r) = 46" unfolding url_tail_ok_def Let_def lab_def [symmetric] by blast+
    then have "drop (length lab) r = 46 # tl (drop (length lab) r)" by (metis list.collapse)
    with r have "r = lab @ 46 # tl (drop (length lab) r)" by simp
    moreover have "list_all ?in lab" by (auto simp: list_all_iff lab_def dest: set_takeWhileD)
    ultimately show "\<exists>lab rest. r = lab @ 46 # rest \<and> lab \<noteq> [] \<and> list_all ?in lab \<and> rest \<noteq> [] \<and> list_all (\<lambda>c. \<not> is_space c) rest"
      using a unfolding url_tail_ok_def Let_def lab_def [symmetric] by blast
  next
    assume "\<exists>lab rest. r = lab @ 46 # rest \<and> lab \<noteq> [] \<and> list_all ?in lab \<and> rest \<noteq> [] \<and> list_all (\<lambda>c. \<not> is_space c) rest"
    then obtain lab rest where r: "r = lab @ 46 # rest" "lab \<noteq> []" "list_all ?in lab" "rest \<noteq> []" "list_all (\<lambda>c. \<not> is_space c) rest" by blast
    then have "takeWhile ?in r = lab" by (simp add: takeWhile_append list_all_iff)
    then show "url_tail_ok r" using r by (simp add: url_tail_ok_def)
  qed
  have pre: "starts_with (to_lower s) p \<longleftrightarrow> to_lower (take (length p) s) = p" for s p
    by (auto simp: starts_with_append to_lower_def take_map [symmetric]) (metis append_take_drop_id map_append take_map)
  have len: "length (lit ''https://'') = 8" "length (lit ''http://'') = 7" by (simp_all add: lit_def)
  have split: "to_lower (take n s) = p \<and> Q (drop n s) \<longleftrightarrow> (\<exists>x r. s = x @ r \<and> to_lower x = p \<and> Q r)" if "length p = n" for n s p Q
  proof
    assume "\<exists>x r. s = x @ r \<and> to_lower x = p \<and> Q r"
    then obtain x r where "s = x @ r" "to_lower x = p" "Q r" by blast
    moreover then have "length x = n" using that by (auto simp: to_lower_def)
    ultimately show "to_lower (take n s) = p \<and> Q (drop n s)" by simp
  qed (metis append_take_drop_id)
  have differ: "to_lower (take 8 s) = lit ''https://'' \<Longrightarrow> to_lower (take 7 s) \<noteq> lit ''http://''" for s
  proof
    assume a: "to_lower (take 8 s) = lit ''https://''" "to_lower (take 7 s) = lit ''http://''"
    have "take 7 (to_lower (take 8 s)) = to_lower (take 7 s)" by (simp add: to_lower_def take_map)
    with a show False by (simp add: lit_def)
  qed
  have "mob_isValidUrl t \<longleftrightarrow> to_lower (take 8 (with_scheme t)) = lit ''https://'' \<and> url_tail_ok (drop 8 (with_scheme t))
      \<or> to_lower (take 7 (with_scheme t)) = lit ''http://'' \<and> url_tail_ok (drop 7 (with_scheme t))"
    unfolding mob_isValidUrl_def Let_def pre len using differ [of "with_scheme t"] by (auto split: if_splits)
  then show ?thesis unfolding split [OF len(1)] split [OF len(2)] unfolding tail by blast
qed

text \<open>Runs of the developer section.\<close>

lemma key_calls_sane:
  "snd (key_act a s) \<in> {[]} \<union> {[CreateKey n sc] | n sc. n \<noteq> [] \<and> a = CreateTapped} \<union> {[RevokeKey (ak_id k)] | k. dk_deleting s = Some k \<and> a = RevokeTapped \<and> \<not> dk_removing s}"
  by (cases a) (auto simp: create_tapped_def revoke_tapped_def split: option.splits)

lemma secret_origin: "dk_created (fst (key_act a s)) = Some k \<Longrightarrow> dk_created s = Some k \<or> a = CreateEnded (Inr k)"
  by (cases a) (auto simp: create_tapped_def create_ended_def copy_tapped_def revoke_tapped_def revoke_ended_def split: option.splits sum.splits if_splits)

text \<open>
  An API key is shown once and revoked only when confirmed. In every run a secret on the screen is the answer to a
  creation after which its sheet has not been closed, a key is only created with a name, and a key is revoked
  only while the sheet that asks about it is open and no other revocation runs.
\<close>

theorem api_keys_safe:
  "(dk_created (foldl (\<lambda>s a. fst (key_act a s)) dev_keys0 as) = Some k \<longrightarrow>
      (\<exists>as1 as2. as = as1 @ CreateEnded (Inr k) # as2 \<and> SecretClosed \<notin> set as2))
   \<and> (RevokeKey i \<in> set (snd (key_act a s)) \<longrightarrow> a = RevokeTapped \<and> \<not> dk_removing s \<and> map_option ak_id (dk_deleting s) = Some i
        \<and> dk_removing (fst (key_act a s)))
   \<and> (CreateKey n sc \<in> set (snd (key_act a s)) \<longrightarrow> n \<noteq> [])"
proof (intro conjI)
  show "dk_created (foldl (\<lambda>s a. fst (key_act a s)) dev_keys0 as) = Some k \<longrightarrow>
      (\<exists>as1 as2. as = as1 @ CreateEnded (Inr k) # as2 \<and> SecretClosed \<notin> set as2)"
  proof (induction as rule: rev_induct)
    case (snoc a as)
    show ?case
    proof
      assume shown: "dk_created (foldl (\<lambda>s a. fst (key_act a s)) dev_keys0 (as @ [a])) = Some k"
      show "\<exists>as1 as2. as @ [a] = as1 @ CreateEnded (Inr k) # as2 \<and> SecretClosed \<notin> set as2"
      proof (cases "a = CreateEnded (Inr k)")
        case True
        then show ?thesis by (intro exI [of _ as] exI [of _ "[]"]) simp
      next
        case False
        with shown have "dk_created (foldl (\<lambda>s a. fst (key_act a s)) dev_keys0 as) = Some k" using secret_origin by auto
        with snoc obtain as1 as2 where "as = as1 @ CreateEnded (Inr k) # as2" "SecretClosed \<notin> set as2" by blast
        moreover have "a \<noteq> SecretClosed" using shown by auto
        ultimately show ?thesis by (intro exI [of _ as1] exI [of _ "as2 @ [a]"]) simp
      qed
    qed
  qed (simp add: dev_keys0_def)
  show "RevokeKey i \<in> set (snd (key_act a s)) \<longrightarrow> a = RevokeTapped \<and> \<not> dk_removing s \<and> map_option ak_id (dk_deleting s) = Some i
        \<and> dk_removing (fst (key_act a s))"
    using key_calls_sane [of a s] by (auto simp: revoke_tapped_def)
  show "CreateKey n sc \<in> set (snd (key_act a s)) \<longrightarrow> n \<noteq> []"
    using key_calls_sane [of a s] by auto
qed

theorem api_keys_safe_witness:
  "RevokeKey (lit ''k'') \<in> set (snd (key_act RevokeTapped (dev_keys0\<lparr>dk_deleting := Some \<lparr> ak_id = lit ''k'', ak_name = [], ak_scope = ReadScope,
     ak_prefix = [], ak_created_at = [], ak_last_used_at = None \<rparr>\<rparr>)))
   \<and> \<not> dk_removing (dev_keys0\<lparr>dk_deleting := Some \<lparr> ak_id = lit ''k'', ak_name = [], ak_scope = ReadScope,
     ak_prefix = [], ak_created_at = [], ak_last_used_at = None \<rparr>\<rparr>)"
proof -
  let ?s = "dev_keys0\<lparr>dk_deleting := Some \<lparr> ak_id = lit ''k'', ak_name = [], ak_scope = ReadScope,
     ak_prefix = [], ak_created_at = [], ak_last_used_at = None \<rparr>\<rparr>"
  have "RevokeKey (lit ''k'') \<in> set (snd (key_act RevokeTapped ?s))" by (simp add: revoke_tapped_def dev_keys0_def)
  with api_keys_safe [of "[]" undefined "lit ''k''" RevokeTapped ?s] show ?thesis by blast
qed

end
