(* ===== verification/Feed.thy ===== *)
theory Feed
  imports MobileTypes Http
begin

text \<open>
  Lists that load as the user scrolls, and what the feeds keep warm. A list is read page by page: \<open>queryFn\<close> puts
  the cursor of the page before into its path, \<open>getNextPageParam\<close> reads it off the envelope, and the library
  collects the pages. \<open>page_envelope\<close> is the contract between an envelope and its reader; both clients interpret
  it. The second half is the state of the feeds themselves: media fetched ahead (\<open>mobile/app/(tabs)/index.tsx\<close>,
  \<open>reels.tsx\<close>, \<open>web/lib/hooks.ts\<close>), the floating bar, and the post whose video plays.
\<close>

section \<open>Paths and cursors\<close>

text \<open>A cursor is appended percent-encoded (a parameter, \<open>encodeURIComponent\<close>); the empty one of the first page is not.\<close>

definition with_cursor :: "(str \<Rightarrow> str) \<Rightarrow> str \<Rightarrow> str \<Rightarrow> str" where
  "with_cursor encode base c = base @ (if c = [] then [] else lit ''&cursor='' @ encode c)"

definition web_feed_path :: "(str \<Rightarrow> str) \<Rightarrow> str \<Rightarrow> str" where
  "web_feed_path encode = with_cursor encode (lit ''/v1/feed?limit=10'')"

definition web_reels_path :: "(str \<Rightarrow> str) \<Rightarrow> str \<Rightarrow> str" where
  "web_reels_path encode = with_cursor encode (lit ''/v1/reels?limit=6'')"

definition web_explore_posts_path :: "(str \<Rightarrow> str) \<Rightarrow> str \<Rightarrow> str" where
  "web_explore_posts_path encode = with_cursor encode (lit ''/v1/explore/posts?limit=24'')"

definition web_explore_markets_path :: "(str \<Rightarrow> str) \<Rightarrow> str \<Rightarrow> str" where
  "web_explore_markets_path encode = with_cursor encode (lit ''/v1/explore/markets?limit=20'')"

definition mob_feed_path :: "(str \<Rightarrow> str) \<Rightarrow> str \<Rightarrow> str" where
  "mob_feed_path encode = with_cursor encode (lit ''/v1/feed?limit=10'')"

definition mob_reels_path :: "(str \<Rightarrow> str) \<Rightarrow> str \<Rightarrow> str" where
  "mob_reels_path encode = with_cursor encode (lit ''/v1/reels?limit=6'')"

definition mob_explore_posts_path :: "(str \<Rightarrow> str) \<Rightarrow> str \<Rightarrow> str" where
  "mob_explore_posts_path encode = with_cursor encode (lit ''/v1/explore/posts?limit=24'')"

datatype market_filter = ActiveMarkets | SettlingMarkets | SettledMarkets | AllMarkets

datatype market_sort = Trending | Newest | ByVolume

fun filter_key :: "market_filter \<Rightarrow> str" where
  "filter_key ActiveMarkets = lit ''active''"
| "filter_key SettlingMarkets = lit ''settling''"
| "filter_key SettledMarkets = lit ''settled''"
| "filter_key AllMarkets = lit ''all''"

fun sort_key :: "market_sort \<Rightarrow> str" where
  "sort_key Trending = lit ''trending''"
| "sort_key Newest = lit ''newest''"
| "sort_key ByVolume = lit ''volume''"

text \<open>The market list of the app searches when the field is not blank, and filters and sorts otherwise.\<close>

definition mob_markets_path :: "(str \<Rightarrow> str) \<Rightarrow> str \<Rightarrow> market_filter \<Rightarrow> market_sort \<Rightarrow> str \<Rightarrow> str" where
  "mob_markets_path encode query status sorting c = (let search = js_trim query in
     if search \<noteq> [] then with_cursor encode (lit ''/v1/markets/search?q='' @ encode search @ lit ''&limit=20'') c
     else with_cursor encode (lit ''/v1/explore/markets?limit=20&status='' @ filter_key status @ lit ''&sort='' @ sort_key sorting) c)"

text \<open>\<open>last.next_cursor || undefined\<close> of the web client, \<open>nextCursorOf(last) ?? undefined\<close> of the app.\<close>

definition web_nextPageParam :: "'z page_scheme \<Rightarrow> str option" where
  "web_nextPageParam p = non_empty (pg_next_cursor p)"

definition mob_nextPageParam :: "(str, json) omap \<Rightarrow> str option" where
  "mob_nextPageParam p = nextCursorOf p"

definition web_feed_posts :: "posts_page list option \<Rightarrow> post list" where
  "web_feed_posts pages = concat (map pg_posts (or_else pages []))"

definition mob_feed_items :: "(str, json) omap list option \<Rightarrow> json list" where
  "mob_feed_items pages = concat (map (\<lambda>p. pageItems (Some p)) (or_else pages []))"

section \<open>The pages of the backend\<close>

text \<open>
  \<open>NextCursor\<close>: a page is followed by a cursor exactly if it is full. Most lists continue after the row the cursor
  names (\<open>enc\<close> is \<open>EncodeCursor\<close> of a row); the market list of Explore counts an offset, which the handler reads
  with \<open>Atoi\<close> and ignores above ten thousand (\<open>rows\<close> are the markets of an accepted filter and sort).
\<close>

definition NextCursor :: "nat \<Rightarrow> nat \<Rightarrow> 'c \<Rightarrow> 'c option" where
  "NextCursor n limit c = (if n = 0 \<or> n < limit then None else Some c)"

definition keyset_page :: "('a \<Rightarrow> str) \<Rightarrow> nat \<Rightarrow> 'a list \<Rightarrow> str \<Rightarrow> 'a list \<times> str option" where
  "keyset_page enc limit rows c =
     (let xs = take limit (if c = [] then rows else tl (dropWhile (\<lambda>r. enc r \<noteq> c) rows))
      in (xs, NextCursor (length xs) limit (enc (last xs))))"

definition Atoi :: "str \<Rightarrow> int option" where
  "Atoi t = (if t \<noteq> [] \<and> hd t = 45 \<and> all_digits (tl t) then Some (- int (digits_value (tl t)))
     else if t \<noteq> [] \<and> hd t = 43 \<and> all_digits (tl t) then Some (int (digits_value (tl t)))
     else if all_digits t then Some (int (digits_value t)) else None)"

definition explore_offset :: "str \<Rightarrow> nat" where
  "explore_offset c = (if c = [] then 0 else case Atoi c of None \<Rightarrow> 0
     | Some n \<Rightarrow> if 0 \<le> n \<and> n \<le> 10000 then nat n else 0)"

definition handleExploreMarkets :: "nat \<Rightarrow> 'a list \<Rightarrow> str \<Rightarrow> 'a list \<times> str option" where
  "handleExploreMarkets limit rows c =
     (let xs = take limit (drop (explore_offset c) rows)
      in (xs, if limit \<le> length xs then Some (show_nat (explore_offset c + limit)) else None))"

section \<open>What a list shows\<close>

text \<open>
  What the query library promises of the pages it keeps: the first is the answer to the empty cursor, and each
  later one the answer to the cursor its predecessor names.
\<close>

fun loaded_from :: "(str \<Rightarrow> 'p) \<Rightarrow> ('p \<Rightarrow> str option) \<Rightarrow> str \<Rightarrow> 'p list \<Rightarrow> bool" where
  "loaded_from fetch nxt c [] = True"
| "loaded_from fetch nxt c (p # ps) \<longleftrightarrow> p = fetch c
     \<and> (ps = [] \<or> (case nxt p of None \<Rightarrow> False | Some c' \<Rightarrow> loaded_from fetch nxt c' ps))"

text \<open>A backend that serves a log in pages: page \<open>j\<close> is asked for with \<open>cur j\<close> and names \<open>cur (j + 1)\<close> if it is full.\<close>

definition serves :: "('a list \<Rightarrow> str option \<Rightarrow> 'p) \<Rightarrow> (str \<Rightarrow> 'p) \<Rightarrow> (nat \<Rightarrow> str) \<Rightarrow> nat \<Rightarrow> nat \<Rightarrow> 'a list \<Rightarrow> bool" where
  "serves envelope fetch cur bound limit rows \<longleftrightarrow> 0 < limit \<and> (\<forall>j < bound. limit * j \<le> length rows \<longrightarrow>
     fetch (cur j) = envelope (take limit (drop (limit * j) rows))
       (if limit * Suc j \<le> length rows then Some (cur (Suc j)) else None)
     \<and> (limit * Suc j \<le> length rows \<longrightarrow> cur (Suc j) \<noteq> []))"

locale page_envelope =
  fixes envelope :: "'a list \<Rightarrow> str option \<Rightarrow> 'p"
    and items :: "'p \<Rightarrow> 'a list"
    and nxt :: "'p \<Rightarrow> str option"
  assumes items_envelope: "items (envelope xs c) = xs"
    and nxt_envelope: "c \<noteq> Some [] \<Longrightarrow> nxt (envelope xs c) = c"
begin

lemma loaded_rows:
  assumes "serves envelope fetch cur bound limit rows" "loaded_from fetch nxt (cur j) ps"
    "j + length ps \<le> bound" "limit * j \<le> length rows"
  shows "concat (map items ps) = take (limit * length ps) (drop (limit * j) rows)
    \<and> (ps \<noteq> [] \<longrightarrow> nxt (last ps) = (if limit * (j + length ps) \<le> length rows then Some (cur (j + length ps)) else None))"
  using assms(2-4)
proof (induction ps arbitrary: j)
  case Nil
  then show ?case by simp
next
  case (Cons p ps)
  have j: "j < bound" using Cons.prems(2) by simp
  from assms(1) j Cons.prems(3) have page: "fetch (cur j) = envelope (take limit (drop (limit * j) rows))
      (if limit * Suc j \<le> length rows then Some (cur (Suc j)) else None)" "limit * Suc j \<le> length rows \<Longrightarrow> cur (Suc j) \<noteq> []"
    unfolding serves_def by blast+
  have p: "items p = take limit (drop (limit * j) rows)"
    "nxt p = (if limit * Suc j \<le> length rows then Some (cur (Suc j)) else None)"
    using Cons.prems(1) page by (simp_all add: items_envelope nxt_envelope)
  show ?case
  proof (cases "ps = []")
    case True
    then show ?thesis using p by simp
  next
    case False
    with Cons.prems(1) p(2) have more: "limit * Suc j \<le> length rows" and rest: "loaded_from fetch nxt (cur (Suc j)) ps"
      by (auto split: if_splits)
    from Cons.IH [OF rest] Cons.prems(2) more
    have ih: "concat (map items ps) = take (limit * length ps) (drop (limit * Suc j) rows)"
      "nxt (last ps) = (if limit * (Suc j + length ps) \<le> length rows then Some (cur (Suc j + length ps)) else None)"
      using False by simp_all
    have "take limit (drop (limit * j) rows) @ take (limit * length ps) (drop limit (drop (limit * j) rows))
        = take (limit + limit * length ps) (drop (limit * j) rows)" by (rule take_add [symmetric])
    then show ?thesis using ih p(1) False by (simp add: add.commute)
  qed
qed

text \<open>Conversely, such a list can be loaded page after page as long as the log has rows.\<close>

lemma loads:
  assumes "serves envelope fetch cur bound limit rows" "j + n \<le> bound" "limit * (j + n) \<le> length rows + limit"
  shows "loaded_from fetch nxt (cur j) (map (fetch \<circ> cur) [j..<j + n])"
  using assms(2,3)
proof (induction n arbitrary: j)
  case (Suc n)
  show ?case
  proof (cases n)
    case (Suc k)
    have "limit * Suc j \<le> limit * (j + n)" using Suc by (intro mult_le_mono2) simp
    then have "limit * Suc j \<le> length rows" using Suc.prems(2) by simp
    moreover from this have "limit * j \<le> length rows" by simp
    moreover have "j < bound" using Suc.prems(1) by simp
    ultimately have "nxt (fetch (cur j)) = Some (cur (Suc j))"
      using assms(1) by (auto simp: serves_def nxt_envelope)
    then show ?thesis using Suc.IH [of "Suc j"] Suc.prems by (simp add: upt_rec)
  qed simp
qed simp

text \<open>The pages of a whole list: a prefix of the log, all of it once no cursor is left, and never two pages too few.\<close>

lemma loaded_list:
  assumes "serves envelope fetch cur bound limit rows" "cur 0 = []" "loaded_from fetch nxt [] ps" "length ps \<le> bound"
  shows "concat (map items ps) = take (limit * length ps) rows"
    and loaded_last: "ps \<noteq> [] \<Longrightarrow> nxt (last ps) = (if limit * length ps \<le> length rows then Some (cur (length ps)) else None)"
    and "ps \<noteq> [] \<Longrightarrow> nxt (last ps) = None \<Longrightarrow> concat (map items ps) = rows"
  using loaded_rows [OF assms(1), of 0 ps] assms(2-4) by (simp_all split: if_splits)

end

text \<open>The envelopes of the two clients: the page of \<open>types.ts\<close>, and the JSON object the app takes apart.\<close>

definition posts_envelope :: "post list \<Rightarrow> str option \<Rightarrow> posts_page" where
  "posts_envelope xs c = \<lparr> pg_next_cursor = c, pg_posts = xs \<rparr>"

definition markets_envelope :: "market list \<Rightarrow> str option \<Rightarrow> markets_page" where
  "markets_envelope xs c = \<lparr> pg_next_cursor = c, pg_markets = xs \<rparr>"

definition json_envelope :: "string \<Rightarrow> json list \<Rightarrow> str option \<Rightarrow> (str, json) omap" where
  "json_envelope key xs c = [(lit key, JArr xs), (lit ''next_cursor'', case c of None \<Rightarrow> JNull | Some t \<Rightarrow> JStr t)]"

lemma json_envelope_cursor:
  "key \<noteq> ''next_cursor'' \<Longrightarrow> nextCursorOf (json_envelope key xs c) = c"
  by (cases c) (simp_all add: json_envelope_def nextCursorOf_def)

lemma json_envelope_items: "pageItems (Some (json_envelope key xs c)) = xs"
  by (rule pageItems_single [of "lit key"]) (auto simp: json_envelope_def split: option.splits)

interpretation web_posts: page_envelope posts_envelope pg_posts web_nextPageParam
proof unfold_locales
  show "c \<noteq> Some [] \<Longrightarrow> web_nextPageParam (posts_envelope xs c) = c" for c xs
    by (cases c) (simp_all add: posts_envelope_def web_nextPageParam_def non_empty_def)
qed (simp add: posts_envelope_def)

interpretation web_markets: page_envelope markets_envelope pg_markets web_nextPageParam
proof unfold_locales
  show "c \<noteq> Some [] \<Longrightarrow> web_nextPageParam (markets_envelope xs c) = c" for c xs
    by (cases c) (simp_all add: markets_envelope_def web_nextPageParam_def non_empty_def)
qed (simp add: markets_envelope_def)

interpretation mob_posts: page_envelope "json_envelope ''posts''" "\<lambda>p. pageItems (Some p)" mob_nextPageParam
  by unfold_locales (auto simp: json_envelope_items json_envelope_cursor mob_nextPageParam_def)

section \<open>The two backends\<close>

text \<open>The cursor of page \<open>j\<close>: the last row of the page before it, or the number of rows already shown.\<close>

definition row_cursor :: "('a \<Rightarrow> str) \<Rightarrow> nat \<Rightarrow> 'a list \<Rightarrow> nat \<Rightarrow> str" where
  "row_cursor enc limit rows j = (if j = 0 then [] else enc (rows ! (limit * j - 1)))"

definition offset_cursor :: "nat \<Rightarrow> nat \<Rightarrow> str" where
  "offset_cursor limit j = (if j = 0 then [] else show_nat (limit * j))"

lemma dropWhile_nth:
  assumes "distinct (map f xs)" "k < length xs"
  shows "dropWhile (\<lambda>x. f x \<noteq> f (xs ! k)) xs = drop k xs"
  using assms
proof (induction xs arbitrary: k)
  case (Cons x xs)
  show ?case
  proof (cases k)
    case (Suc m)
    with Cons.prems have "f x \<noteq> f (xs ! m)" by (auto simp: image_iff)
    with Suc Cons show ?thesis by simp
  qed simp
qed simp

lemma keyset_row_cursor:
  assumes rows: "distinct (map enc rows)" "\<And>r. r \<in> set rows \<Longrightarrow> enc r \<noteq> []" and "0 < limit" "limit * j \<le> length rows"
  shows "keyset_page enc limit rows (row_cursor enc limit rows j)
    = (take limit (drop (limit * j) rows), if limit * Suc j \<le> length rows then Some (row_cursor enc limit rows (Suc j)) else None)"
proof -
  let ?xs = "take limit (drop (limit * j) rows)"
  have rest: "(if row_cursor enc limit rows j = [] then rows
      else tl (dropWhile (\<lambda>r. enc r \<noteq> row_cursor enc limit rows j) rows)) = drop (limit * j) rows"
  proof (cases j)
    case (Suc m)
    let ?k = "limit * j - 1"
    have "0 < limit * j" using assms(3) Suc by simp
    then have k: "?k < length rows" "Suc ?k = limit * j" using assms(4) by linarith+
    have "row_cursor enc limit rows j = enc (rows ! ?k)" using Suc by (simp add: row_cursor_def)
    moreover have "enc (rows ! ?k) \<noteq> []" using rows(2) k(1) by simp
    moreover have "tl (dropWhile (\<lambda>r. enc r \<noteq> enc (rows ! ?k)) rows) = drop (Suc ?k) rows"
      by (simp only: dropWhile_nth [OF rows(1) k(1)] tl_drop drop_Suc)
    ultimately show ?thesis using k(2) by simp
  qed (simp add: row_cursor_def)
  have full: "limit * Suc j \<le> length rows \<longleftrightarrow> length ?xs \<noteq> 0 \<and> limit \<le> length ?xs" using assms(3,4) by auto
  have "enc (last ?xs) = row_cursor enc limit rows (Suc j)" if "limit * Suc j \<le> length rows"
  proof -
    have "?xs \<noteq> []" "length ?xs = limit" using that assms(3) by auto
    then have "last ?xs = rows ! (limit * j + (limit - 1))" using assms(3) that by (simp add: last_conv_nth)
    moreover have "limit * j + (limit - 1) = limit * Suc j - 1" using assms(3) by simp
    ultimately show ?thesis by (simp add: row_cursor_def)
  qed
  then show ?thesis using full by (auto simp: keyset_page_def rest Let_def NextCursor_def)
qed

lemma Atoi_show_nat: "Atoi (show_nat n) = Some (int n)"
proof -
  have "hd (show_nat n) \<noteq> 45" "hd (show_nat n) \<noteq> 43"
    using show_nat_digits [of n] hd_in_set [OF show_nat_not_Nil [of n]] by (metis digit_unit_props(4), metis digit_unit_props(5))
  then show ?thesis by (simp add: Atoi_def show_nat_all_digits)
qed

lemma explore_offset_show_nat: "explore_offset (show_nat n) = (if n \<le> 10000 then n else 0)"
  by (simp add: explore_offset_def Atoi_show_nat)

lemma explore_offset_Nil [simp]: "explore_offset [] = 0"
  by (simp add: explore_offset_def)

lemma explore_offset_cursor: "explore_offset (offset_cursor limit j) = (if limit * j \<le> 10000 then limit * j else 0)"
  by (cases "j = 0") (simp_all add: offset_cursor_def explore_offset_show_nat)

definition keyset_backend :: "('a \<Rightarrow> str) \<Rightarrow> nat \<Rightarrow> 'a list \<Rightarrow> ('a list \<Rightarrow> str option \<Rightarrow> 'p) \<Rightarrow> str \<Rightarrow> 'p" where
  "keyset_backend enc limit rows envelope c = case_prod envelope (keyset_page enc limit rows c)"

definition explore_backend :: "nat \<Rightarrow> 'a list \<Rightarrow> ('a list \<Rightarrow> str option \<Rightarrow> 'p) \<Rightarrow> str \<Rightarrow> 'p" where
  "explore_backend limit rows envelope c = case_prod envelope (handleExploreMarkets limit rows c)"

lemma keyset_serves:
  assumes rows: "distinct (map enc rows)" "\<And>r. r \<in> set rows \<Longrightarrow> enc r \<noteq> []" and "0 < limit"
    and fetch: "\<And>c. fetch c = keyset_backend enc limit rows envelope c"
  shows "serves envelope fetch (row_cursor enc limit rows) bound limit rows"
proof -
  have "row_cursor enc limit rows (Suc j) \<noteq> []" if "limit * Suc j \<le> length rows" for j
  proof -
    have "limit * Suc j - 1 < length rows" using that assms(3) by (cases limit) auto
    then show ?thesis using rows(2) by (simp add: row_cursor_def)
  qed
  then show ?thesis
    unfolding serves_def fetch keyset_backend_def
    using assms(3) keyset_row_cursor [OF rows assms(3)] by simp
qed

lemma explore_serves:
  assumes "0 < limit" "limit * bound \<le> limit + 10000" "\<And>c. fetch c = explore_backend limit rows envelope c"
  shows "serves envelope fetch (offset_cursor limit) bound limit rows"
proof -
  have "handleExploreMarkets limit rows (offset_cursor limit j)
      = (take limit (drop (limit * j) rows), if limit * Suc j \<le> length rows then Some (offset_cursor limit (Suc j)) else None)"
    if "j < bound" "limit * j \<le> length rows" for j
  proof -
    have "limit * Suc j \<le> limit * bound" using that(1) by (intro mult_le_mono2) simp
    then have "limit * j \<le> 10000" using assms(2) by simp
    then have o: "explore_offset (offset_cursor limit j) = limit * j" by (simp add: explore_offset_cursor)
    have c: "offset_cursor limit (Suc j) = show_nat (limit * j + limit)" using assms(1) by (simp add: offset_cursor_def add.commute)
    have "limit \<le> length (take limit (drop (limit * j) rows)) \<longleftrightarrow> limit * Suc j \<le> length rows" using that(2) by auto
    then show ?thesis unfolding handleExploreMarkets_def o Let_def c by simp
  qed
  then show ?thesis
    unfolding serves_def assms(3) explore_backend_def using assms(1) by (simp add: offset_cursor_def)
qed

section \<open>Properties of the lists\<close>

text \<open>
  C30: The feeds refine the log of the backend. Whatever number of pages the user has scrolled through, both home
  feeds show exactly the first posts of the log, each once and in order; and when no next page is offered,
  they show all of it. A cursor only has to name its row, however it is encoded.
\<close>

theorem feeds_show_the_log:
  fixes enc :: "post \<Rightarrow> str" and jenc :: "json \<Rightarrow> str"
  assumes web: "distinct (map enc rows)" "\<And>r. r \<in> set rows \<Longrightarrow> enc r \<noteq> []"
    "\<And>c. fetch (web_feed_path encode c) = keyset_backend enc 10 rows posts_envelope c"
    "loaded_from (fetch \<circ> web_feed_path encode) web_nextPageParam [] ps" "ps \<noteq> []"
    and mob: "distinct (map jenc jrows)" "\<And>r. r \<in> set jrows \<Longrightarrow> jenc r \<noteq> []"
    "\<And>c. jfetch (mob_feed_path encode c) = keyset_backend jenc 10 jrows (json_envelope ''posts'') c"
    "loaded_from (jfetch \<circ> mob_feed_path encode) mob_nextPageParam [] js" "js \<noteq> []"
  shows "web_feed_posts (Some ps) = take (10 * length ps) rows
    \<and> (web_nextPageParam (last ps) = None \<longrightarrow> web_feed_posts (Some ps) = rows)
    \<and> mob_feed_items (Some js) = take (10 * length js) jrows
    \<and> (mob_nextPageParam (last js) = None \<longrightarrow> mob_feed_items (Some js) = jrows)"
proof -
  have w: "serves posts_envelope (fetch \<circ> web_feed_path encode) (row_cursor enc 10 rows) (length ps) 10 rows"
    using web by (intro keyset_serves) simp_all
  have m: "serves (json_envelope ''posts'') (jfetch \<circ> mob_feed_path encode) (row_cursor jenc 10 jrows) (length js) 10 jrows"
    using mob by (intro keyset_serves) simp_all
  have "row_cursor enc 10 rows 0 = []" "row_cursor jenc 10 jrows 0 = []" by (simp_all add: row_cursor_def)
  then show ?thesis
    using web_posts.loaded_list [OF w _ web(4)] mob_posts.loaded_list [OF m _ mob(4)] web(5) mob(5)
    by (simp add: web_feed_posts_def mob_feed_items_def)
qed

text \<open>
  The market list of Explore refines the ranking of the backend up to ten thousand markets, and then starts over:
  the handler takes the cursor of row 10020 for no cursor, so that the next page the web client shows is the first
  one again, with the same cursors after it, and the list never ends.
\<close>

theorem explore_markets_start_over:
  assumes "\<And>c. fetch (web_explore_markets_path encode c) = explore_backend 20 ranking markets_envelope c"
    "loaded_from (fetch \<circ> web_explore_markets_path encode) web_nextPageParam [] ps" "ps \<noteq> []"
  shows "(length ps \<le> 501 \<longrightarrow> concat (map pg_markets ps) = take (20 * length ps) ranking
      \<and> (web_nextPageParam (last ps) = None \<longrightarrow> concat (map pg_markets ps) = ranking))
    \<and> (length ps = 501 \<and> 10020 \<le> length ranking \<longrightarrow>
        web_nextPageParam (last ps) = Some (show_nat 10020)
        \<and> fetch (web_explore_markets_path encode (show_nat 10020)) = hd ps)"
proof -
  have c0: "offset_cursor 20 0 = []" by (simp add: offset_cursor_def)
  have s: "serves markets_envelope (fetch \<circ> web_explore_markets_path encode) (offset_cursor 20) (length ps) 20 ranking"
    if "length ps \<le> 501" using that assms(1) by (intro explore_serves) simp_all
  have list: "concat (map pg_markets ps) = take (20 * length ps) ranking"
    "web_nextPageParam (last ps) = None \<Longrightarrow> concat (map pg_markets ps) = ranking"
    if "length ps \<le> 501" using web_markets.loaded_list [OF s [OF that] c0 assms(2)] assms(3) by simp_all
  have wrap: "web_nextPageParam (last ps) = Some (show_nat 10020)
      \<and> fetch (web_explore_markets_path encode (show_nat 10020)) = hd ps" if n: "length ps = 501" "10020 \<le> length ranking"
  proof -
    have "hd ps = fetch (web_explore_markets_path encode [])" using assms(2,3) by (cases ps) simp_all
    moreover have "explore_offset (show_nat 10020) = explore_offset []" by (simp add: explore_offset_show_nat)
    ultimately have "fetch (web_explore_markets_path encode (show_nat 10020)) = hd ps"
      by (simp add: assms(1) explore_backend_def handleExploreMarkets_def)
    moreover have "web_nextPageParam (last ps) = Some (offset_cursor 20 501)"
      using web_markets.loaded_last [OF s c0 assms(2)] n assms(3) by simp
    ultimately show ?thesis by (simp add: offset_cursor_def)
  qed
  from list wrap show ?thesis by blast
qed

definition demo_row :: "nat \<Rightarrow> post" where
  "demo_row i = \<lparr> po_id = [of_nat i], po_affiliate_id = None,
     po_author = \<lparr> ul_id = [1], ul_username = lit ''ann'', ul_display_name = None, ul_avatar_url = None \<rparr>,
     po_kind = Photo, po_caption = None, po_mentions = [], po_media = [], po_market = None,
     po_like_count = 0, po_comment_count = 0, po_liked = False, po_reactions = [], po_top_comments = [], po_created_at = [] \<rparr>"

definition demo_log :: "post list" where
  "demo_log = map demo_row [1, 2, 3, 4, 5, 6, 7, 8, 9, 10, 11]"

theorem feeds_show_the_log_witness:
  "let fetch = (\<lambda>path. keyset_backend po_id 10 demo_log posts_envelope (drop 25 path));
       ps = [posts_envelope (take 10 demo_log) (Some [10]), posts_envelope (drop 10 demo_log) None];
       js = [json_envelope ''posts'' [JNull] None]
   in web_feed_posts (Some ps) = demo_log \<and> mob_feed_items (Some js) = [JNull]"
proof -
  let ?f = "\<lambda>path. keyset_backend po_id 10 demo_log posts_envelope (drop 25 path)"
  let ?g = "\<lambda>path. keyset_backend (\<lambda>_ :: json. [1]) 10 [JNull] (json_envelope ''posts'') (drop 25 path)"
  let ?ps = "[posts_envelope (take 10 demo_log) (Some [10]), posts_envelope (drop 10 demo_log) None]"
  let ?js = "[json_envelope ''posts'' [JNull] None]"
  have path: "drop 25 (web_feed_path (\<lambda>c. c) c) = c" "drop 25 (mob_feed_path (\<lambda>c. c) c) = c" for c
    by (simp_all add: web_feed_path_def mob_feed_path_def with_cursor_def)
  have ids: "map po_id demo_log = [[1], [2], [3], [4], [5], [6], [7], [8], [9], [10], [11]]"
    by (simp add: demo_log_def demo_row_def)
  have d: "distinct (map po_id demo_log)" "r \<in> set demo_log \<Longrightarrow> po_id r \<noteq> []" for r
    unfolding ids by (simp_all add: demo_log_def demo_row_def) auto
  have c: "web_nextPageParam (hd ?ps) = Some [10]" by (simp add: posts_envelope_def web_nextPageParam_def non_empty_def)
  have f: "?f (web_feed_path (\<lambda>c. c) []) = hd ?ps" "?f (web_feed_path (\<lambda>c. c) [10]) = last ?ps"
    by (simp_all add: path keyset_backend_def keyset_page_def NextCursor_def demo_log_def demo_row_def)
  have g: "?g (mob_feed_path (\<lambda>c. c) []) = hd ?js" by (simp add: path keyset_backend_def keyset_page_def NextCursor_def)
  have l: "loaded_from (?f \<circ> web_feed_path (\<lambda>c. c)) web_nextPageParam [] ?ps"
    "loaded_from (?g \<circ> mob_feed_path (\<lambda>c. c)) mob_nextPageParam [] ?js" using c f g by simp_all
  have ne: "?ps \<noteq> []" "?js \<noteq> []" by simp_all
  have one: "distinct (map (\<lambda>_ :: json. [1 :: 16 word]) [JNull])" "[1 :: 16 word] \<noteq> []" by simp_all
  have "?f (web_feed_path (\<lambda>c. c) u) = keyset_backend po_id 10 demo_log posts_envelope u"
    "?g (mob_feed_path (\<lambda>c. c) u) = keyset_backend (\<lambda>_. [1]) 10 [JNull] (json_envelope ''posts'') u" for u
    by (simp_all only: path)
  from feeds_show_the_log [OF d this(1) l(1) ne(1) one this(2) l(2) ne(2)]
  have "web_feed_posts (Some ?ps) = take (10 * length ?ps) demo_log" "mob_feed_items (Some ?js) = take (10 * length ?js) [JNull]"
    by blast+
  then show ?thesis by (simp add: demo_log_def)
qed

definition ranked_market :: market where
  "ranked_market = Market (lit ''m1'') 9
     \<lparr> ul_id = lit ''u1'', ul_username = lit ''alice'', ul_display_name = None, ul_avatar_url = None \<rparr>
     (lit ''q'') (lit ''sq'') None OPEN None 50 50 (lit ''0'') (lit ''now'') None"

definition demo_ranking :: "market list" where
  "demo_ranking = replicate 10020 ranked_market"

theorem explore_markets_start_over_witness:
  "let fetch = (\<lambda>path. explore_backend 20 demo_ranking markets_envelope (drop 36 path));
       ps = map (fetch \<circ> web_explore_markets_path (\<lambda>c. c) \<circ> offset_cursor 20) [0..<501]
   in concat (map pg_markets ps) = demo_ranking \<and> fetch (web_explore_markets_path (\<lambda>c. c) (show_nat 10020)) = hd ps"
proof -
  let ?f = "\<lambda>path. explore_backend 20 demo_ranking markets_envelope (drop 36 path)"
  let ?g = "?f \<circ> web_explore_markets_path (\<lambda>c. c)"
  let ?ps = "map (?g \<circ> offset_cursor 20) [0..<501]"
  have path: "drop 36 (web_explore_markets_path (\<lambda>c. c) c) = c" for c
    by (simp add: web_explore_markets_path_def with_cursor_def)
  have n: "length demo_ranking = 10020" by (simp only: demo_ranking_def length_replicate)
  have "serves markets_envelope ?g (offset_cursor 20) 501 20 demo_ranking"
    by (rule explore_serves) (simp_all add: path)
  from web_markets.loads [OF this, of 0 501] have l: "loaded_from ?g web_nextPageParam [] ?ps"
    by (simp only: n) (simp add: offset_cursor_def [of 20 0])
  have ne: "?ps \<noteq> []" "length ?ps = 501" by simp_all
  have f: "?f (web_explore_markets_path (\<lambda>c. c) c) = explore_backend 20 demo_ranking markets_envelope c" for c
    by (simp only: path)
  from explore_markets_start_over [OF f l ne(1)] ne(2) n
  have "concat (map pg_markets ?ps) = take 10020 demo_ranking"
    "?f (web_explore_markets_path (\<lambda>c. c) (show_nat 10020)) = hd ?ps" by simp_all
  then show ?thesis unfolding Let_def using n by simp
qed

section \<open>Media fetched ahead\<close>

text \<open>
  \<open>findIndex\<close>, which is -1 when nothing is found, and the posts the app looks ahead to: those behind the active
  one. Without an active post the first counts as active.
\<close>

fun find_index :: "('a \<Rightarrow> bool) \<Rightarrow> 'a list \<Rightarrow> int" where
  "find_index P [] = - 1"
| "find_index P (x # xs) = (if P x then 0 else let i = find_index P xs in if i < 0 then - 1 else i + 1)"

definition active_index :: "mob_post list \<Rightarrow> str option \<Rightarrow> int" where
  "active_index posts active = (case non_empty active of None \<Rightarrow> 0 | Some i \<Rightarrow> find_index (\<lambda>p. mpo_id p = i) posts)"

definition look_ahead :: "int \<Rightarrow> mob_post list \<Rightarrow> str option \<Rightarrow> mob_post list" where
  "look_ahead n posts active = (let idx = active_index posts active in js_slice posts (max 0 (idx + 1)) (idx + 1 + n))"

text \<open>The addresses fetched so far, and the ones of this run of the effect; an absent or empty address is skipped.\<close>

definition warm :: "str option \<Rightarrow> str list \<times> str list \<Rightarrow> str list \<times> str list" where
  "warm url st = (case non_empty url of None \<Rightarrow> st
     | Some u \<Rightarrow> if u \<in> set (fst st) then st else (fst st @ [u], snd st @ [u]))"

definition FEED_PREFETCH_AHEAD :: int where "FEED_PREFETCH_AHEAD = 4"

definition feed_prefetch_post :: "mob_post \<Rightarrow> str list \<times> str list \<Rightarrow> str list \<times> str list" where
  "feed_prefetch_post p st = warm (mup_avatar_url (mpo_author p))
     (fold (\<lambda>m. if mmd_kind m = ImageMedia then warm (Some (mmd_url m)) else id) (mpo_media p) st)"

definition feed_prefetch :: "mob_post list \<Rightarrow> str option \<Rightarrow> str list \<Rightarrow> str list \<times> str list" where
  "feed_prefetch posts active prefetched = fold feed_prefetch_post (look_ahead FEED_PREFETCH_AHEAD posts active) (prefetched, [])"

text \<open>The reels warm the still of the next three videos: the poster, or else the address of the medium.\<close>

definition REELS_PREFETCH_AHEAD :: int where "REELS_PREFETCH_AHEAD = 3"

definition posterUrl :: "mob_media option \<Rightarrow> str option" where
  "posterUrl media = Option.bind media mmd_poster_url"

definition reel_poster :: "mob_post \<Rightarrow> str option" where
  "reel_poster p = (case mpo_media p of [] \<Rightarrow> None
     | m # _ \<Rightarrow> alt_opt (non_empty (posterUrl (Some m))) (Some (mmd_url m)))"

definition mob_reels :: "mob_post list \<Rightarrow> mob_post list" where
  "mob_reels = filter (\<lambda>p. case mpo_media p of [] \<Rightarrow> False | m # _ \<Rightarrow> mmd_kind m = VideoMedia)"

definition reels_prefetch :: "mob_post list \<Rightarrow> str option \<Rightarrow> str list \<Rightarrow> str list \<times> str list" where
  "reels_prefetch reels active prefetched = fold (\<lambda>p. warm (reel_poster p)) (look_ahead REELS_PREFETCH_AHEAD reels active) (prefetched, [])"

text \<open>The web client keeps two sets for the life of the page, of images and of playlists; a server render does nothing.\<close>

record web_warmed =
  ww_images :: "str list \<times> str list"
  ww_playlists :: "str list \<times> str list"

definition prefetchImage :: "bool \<Rightarrow> str option \<Rightarrow> web_warmed \<Rightarrow> web_warmed" where
  "prefetchImage browser url s = (if browser then s\<lparr>ww_images := warm url (ww_images s)\<rparr> else s)"

definition warmHls :: "bool \<Rightarrow> str option \<Rightarrow> web_warmed \<Rightarrow> web_warmed" where
  "warmHls browser url s = (if browser then s\<lparr>ww_playlists := warm url (ww_playlists s)\<rparr> else s)"

definition prefetch_medium :: "bool \<Rightarrow> media_item \<Rightarrow> bool \<times> web_warmed \<Rightarrow> bool \<times> web_warmed" where
  "prefetch_medium browser m st = (let s = prefetchImage browser (Some (mi_url m)) (snd st) in
     if mi_kind m = ImageMedia then (fst st, s)
     else if \<not> fst st then (True, warmHls browser (mi_hls_url m) s) else (fst st, s))"

definition prefetchPostMedia :: "bool \<Rightarrow> post list \<Rightarrow> nat \<Rightarrow> nat \<Rightarrow> web_warmed \<Rightarrow> web_warmed" where
  "prefetchPostMedia browser posts fromIndex count s =
     snd (fold (\<lambda>p. fold (prefetch_medium browser) (po_media p))
       (take (min (length posts) (fromIndex + count) - fromIndex) (drop fromIndex posts)) (False, s))"

definition web_home_prefetch :: "bool \<Rightarrow> post list \<Rightarrow> web_warmed \<Rightarrow> web_warmed" where
  "web_home_prefetch browser posts s =
     (if posts \<noteq> [] then prefetchPostMedia browser posts (length posts - 10) 4 s else s)"

text \<open>The element whose appearance asks for the next page (\<open>useLoadMoreRef\<close>): it is observed while a page can be asked for.\<close>

definition LOAD_AHEAD :: nat where "LOAD_AHEAD = 3"

definition load_more_at :: "nat \<Rightarrow> nat \<Rightarrow> nat option" where
  "load_more_at ahead n = (if n = 0 then None else Some (n - ahead))"

definition useLoadMoreRef :: "bool \<Rightarrow> bool \<Rightarrow> 'e option \<Rightarrow> 'e option" where
  "useLoadMoreRef hasNextPage isFetchingNextPage node = (if hasNextPage \<and> \<not> isFetchingNextPage then node else None)"

definition observed :: "'e option \<Rightarrow> bool list \<Rightarrow> bool" where
  "observed observer entries = (observer \<noteq> None \<and> True \<in> set entries)"

definition mob_onEndReached :: "bool \<Rightarrow> bool \<Rightarrow> bool" where
  "mob_onEndReached hasNextPage isFetchingNextPage = (hasNextPage \<and> \<not> isFetchingNextPage)"

section \<open>The floating bar\<close>

record app_bar =
  ab_lastY :: rat
  ab_hidden :: bool
  ab_animations :: "bool list"

definition app_bar0 :: app_bar where
  "app_bar0 = \<lparr> ab_lastY = 0, ab_hidden = False, ab_animations = [] \<rparr>"

definition setBarHidden :: "bool \<Rightarrow> app_bar \<Rightarrow> app_bar" where
  "setBarHidden hide s = (if ab_hidden s = hide then s
     else s\<lparr>ab_hidden := hide, ab_animations := ab_animations s @ [hide]\<rparr>)"

definition onScrollChrome :: "rat \<Rightarrow> rat \<Rightarrow> app_bar \<Rightarrow> app_bar" where
  "onScrollChrome headerH y s = (let dy = y - ab_lastY s; s = s\<lparr>ab_lastY := y\<rparr> in
     if y \<le> headerH then setBarHidden False s
     else if dy > 6 then setBarHidden True s
     else if dy < - 6 then setBarHidden False s
     else s)"

definition feed_scrollToTop :: "app_bar \<Rightarrow> app_bar" where
  "feed_scrollToTop s = setBarHidden False s"

section \<open>The post that plays\<close>

text \<open>Of the visible items the list reports, the first that is viewable is the active one.\<close>

definition onViewable :: "(mob_post \<times> bool) list \<Rightarrow> str option" where
  "onViewable items = map_option (\<lambda>v. mpo_id (fst v)) (List.find snd items)"

definition post_active :: "bool \<Rightarrow> str option \<Rightarrow> mob_post \<Rightarrow> bool" where
  "post_active focused active p \<longleftrightarrow> focused \<and> active = Some (mpo_id p)"

definition farFromActive :: "mob_post list \<Rightarrow> str option \<Rightarrow> nat \<Rightarrow> bool" where
  "farFromActive posts active index \<longleftrightarrow> \<bar>int index - active_index posts active\<bar> \<ge> 2"

section \<open>Properties of the feeds\<close>

lemma fold_warm:
  "\<exists>new. fold warm us st = (fst st @ new, snd st @ new) \<and> distinct new \<and> set new = {u. u \<noteq> [] \<and> Some u \<in> set us} - set (fst st)"
proof (induction us arbitrary: st)
  case Nil
  show ?case by (rule exI [of _ "[]"]) simp
next
  case (Cons v us)
  define u where "u = the v"
  have step: "warm v st = st \<and> (\<forall>u. v = Some u \<and> u \<noteq> [] \<longrightarrow> u \<in> set (fst st))
      \<or> v = Some u \<and> u \<noteq> [] \<and> u \<notin> set (fst st) \<and> warm v st = (fst st @ [u], snd st @ [u])"
  proof (cases v)
    case None
    then show ?thesis by (simp add: warm_def non_empty_def)
  next
    case (Some a)
    then show ?thesis by (cases "a = []"; cases "a \<in> set (fst st)") (simp_all add: u_def warm_def non_empty_def)
  qed
  obtain new where new: "fold warm us (warm v st) = (fst (warm v st) @ new, snd (warm v st) @ new)" "distinct new"
    "set new = {u. u \<noteq> [] \<and> Some u \<in> set us} - set (fst (warm v st))"
    using Cons.IH [of "warm v st"] by blast
  from step show ?case
  proof (elim disjE conjE)
    assume w: "warm v st = st" and k: "\<forall>u. v = Some u \<and> u \<noteq> [] \<longrightarrow> u \<in> set (fst st)"
    have "{u. u \<noteq> [] \<and> Some u \<in> set (v # us)} - set (fst st) = {u. u \<noteq> [] \<and> Some u \<in> set us} - set (fst st)"
      using k by force
    with new show ?thesis unfolding w by (intro exI [of _ new]) (simp add: w)
  next
    assume u: "v = Some u" "u \<noteq> []" "u \<notin> set (fst st)" and w: "warm v st = (fst st @ [u], snd st @ [u])"
    have "set (u # new) = {u. u \<noteq> [] \<and> Some u \<in> set (v # us)} - set (fst st)"
      using new(3) u unfolding w by force
    moreover have "distinct (u # new)" using new(2,3) unfolding w by simp
    ultimately show ?thesis using new(1) unfolding w by (intro exI [of _ "u # new"]) (simp add: w)
  qed
qed

definition feed_urls :: "mob_post \<Rightarrow> str option list" where
  "feed_urls p = map (\<lambda>m. Some (mmd_url m)) (filter (\<lambda>m. mmd_kind m = ImageMedia) (mpo_media p)) @ [mup_avatar_url (mpo_author p)]"

lemma fold_warm_images:
  "fold (\<lambda>m. if mmd_kind m = ImageMedia then warm (Some (mmd_url m)) else id) ms st
    = fold warm (map (\<lambda>m. Some (mmd_url m)) (filter (\<lambda>m. mmd_kind m = ImageMedia) ms)) st"
  by (induction ms arbitrary: st) simp_all

lemma fold_feed_prefetch: "fold feed_prefetch_post ps st = fold warm (concat (map feed_urls ps)) st"
  by (induction ps arbitrary: st) (simp_all add: feed_prefetch_post_def feed_urls_def fold_warm_images)

text \<open>The effect of the home feed, run whenever the list or the active post has changed; with what it fetched.\<close>

fun feed_effects :: "(mob_post list \<times> str option) list \<Rightarrow> str list \<Rightarrow> str list \<times> str list" where
  "feed_effects [] pre = (pre, [])"
| "feed_effects (r # runs) pre = (let (pre', urls) = feed_prefetch (fst r) (snd r) pre; (end_pre, more) = feed_effects runs pre'
     in (end_pre, urls @ more))"

lemma feed_effects_new:
  "fst (feed_effects runs pre) = pre @ snd (feed_effects runs pre) \<and> distinct (snd (feed_effects runs pre))
    \<and> set (snd (feed_effects runs pre)) = {u. u \<noteq> [] \<and> (\<exists>(posts, a) \<in> set runs. \<exists>p \<in> set (look_ahead FEED_PREFETCH_AHEAD posts a).
        Some u \<in> set (feed_urls p))} - set pre"
proof (induction runs arbitrary: pre)
  case (Cons r runs)
  obtain new where new: "feed_prefetch (fst r) (snd r) pre = (pre @ new, new)" "distinct new"
    "set new = {u. u \<noteq> [] \<and> Some u \<in> set (concat (map feed_urls (look_ahead FEED_PREFETCH_AHEAD (fst r) (snd r))))} - set pre"
    using fold_warm [of "concat (map feed_urls (look_ahead FEED_PREFETCH_AHEAD (fst r) (snd r)))" "(pre, [])"]
    by (auto simp: feed_prefetch_def fold_feed_prefetch)
  from Cons.IH [of "pre @ new"] new show ?case
    by (cases r) (auto simp: split_def Let_def)
qed simp

lemma find_index_nth:
  "distinct (map f xs) \<Longrightarrow> i < length xs \<Longrightarrow> find_index (\<lambda>x. f x = f (xs ! i)) xs = int i"
proof (induction xs arbitrary: i)
  case (Cons x xs)
  show ?case
  proof (cases i)
    case (Suc k)
    with Cons.prems have "f x \<noteq> f (xs ! k)" by (auto simp: image_iff)
    with Suc Cons show ?thesis by (simp add: Let_def)
  qed simp
qed simp

lemma find_index_bounds: "- 1 \<le> find_index P xs" "find_index P xs < int (length xs)"
  by (induction xs) (auto simp: Let_def)

lemma look_ahead_at:
  assumes "distinct (map mpo_id posts)" "i < length posts" "mpo_id (posts ! i) \<noteq> []"
  shows "look_ahead (int n) posts (Some (mpo_id (posts ! i))) = take n (drop (Suc i) posts)"
proof -
  have "active_index posts (Some (mpo_id (posts ! i))) = int i"
    using assms by (simp add: active_index_def non_empty_def find_index_nth)
  then show ?thesis using assms(2)
    by (auto simp: look_ahead_def Let_def js_slice_def slice_pos_def nat_add_distrib min_def)
qed

text \<open>
  C31: The home feed of the app fetches media ahead, once. However the list grows and whichever posts become active,
  no address is fetched twice; and when a post becomes active, every image of the four posts behind it is fetched,
  or was before.
\<close>

theorem feed_fetches_ahead_once:
  assumes "distinct (map mpo_id posts)" "i < length posts" "mpo_id (posts ! i) \<noteq> []"
  shows "let urls = snd (feed_effects (runs @ [(posts, Some (mpo_id (posts ! i)))]) []) in
    distinct urls \<and> [] \<notin> set urls
    \<and> (\<forall>j m. i < j \<and> j \<le> i + 4 \<and> j < length posts \<and> m \<in> set (mpo_media (posts ! j)) \<and> mmd_kind m = ImageMedia \<and> mmd_url m \<noteq> []
        \<longrightarrow> mmd_url m \<in> set urls)"
proof -
  let ?runs = "runs @ [(posts, Some (mpo_id (posts ! i)))]"
  have ahead: "look_ahead FEED_PREFETCH_AHEAD posts (Some (mpo_id (posts ! i))) = take 4 (drop (Suc i) posts)"
    using look_ahead_at [OF assms, of 4] by (simp add: FEED_PREFETCH_AHEAD_def)
  have "mmd_url m \<in> set (snd (feed_effects ?runs []))"
    if "i < j" "j \<le> i + 4" "j < length posts" "m \<in> set (mpo_media (posts ! j))" "mmd_kind m = ImageMedia" "mmd_url m \<noteq> []" for j m
  proof -
    have "posts ! j = take 4 (drop (Suc i) posts) ! (j - Suc i)" "j - Suc i < length (take 4 (drop (Suc i) posts))"
      using that by (simp_all, linarith)
    then have "posts ! j \<in> set (look_ahead FEED_PREFETCH_AHEAD posts (Some (mpo_id (posts ! i))))"
      unfolding ahead by (metis nth_mem)
    moreover have "Some (mmd_url m) \<in> set (feed_urls (posts ! j))" using that by (auto simp: feed_urls_def)
    ultimately show ?thesis using feed_effects_new [of ?runs "[]"] that(6) by auto
  qed
  then show ?thesis using feed_effects_new [of ?runs "[]"] by (auto simp: Let_def)
qed

lemma warm_once: "distinct (snd st) \<and> set (snd st) = set (fst st) \<Longrightarrow> distinct (snd (warm u st)) \<and> set (snd (warm u st)) = set (fst (warm u st))"
  by (auto simp: warm_def non_empty_def split: option.split)

definition warmed_ok :: "web_warmed \<Rightarrow> bool" where
  "warmed_ok s \<longleftrightarrow> distinct (snd (ww_images s)) \<and> set (snd (ww_images s)) = set (fst (ww_images s))
    \<and> distinct (snd (ww_playlists s)) \<and> set (snd (ww_playlists s)) = set (fst (ww_playlists s))"

lemma warmed_ok_steps:
  assumes "warmed_ok s"
  shows "warmed_ok (prefetchImage b u s)" "warmed_ok (warmHls b u s)"
  using assms warm_once [of "ww_images s" u] warm_once [of "ww_playlists s" u]
  by (auto simp: warmed_ok_def prefetchImage_def warmHls_def)

lemma warmed_ok_medium: "warmed_ok (snd st) \<Longrightarrow> warmed_ok (snd (prefetch_medium b m st))"
  by (simp add: prefetch_medium_def Let_def warmed_ok_steps)

lemma warmed_ok_posts: "warmed_ok (snd st) \<Longrightarrow> warmed_ok (snd (fold (\<lambda>p. fold (prefetch_medium b) (po_media p)) ps st))"
proof (induction ps arbitrary: st)
  case (Cons p ps)
  have "warmed_ok (snd (fold (prefetch_medium b) ms st))" if "warmed_ok (snd st)" for ms st
    using that by (induction ms arbitrary: st) (simp_all add: warmed_ok_medium)
  with Cons show ?case by simp
qed simp

lemma warmed_ok_home: "warmed_ok s \<Longrightarrow> warmed_ok (web_home_prefetch b posts s)"
  unfolding web_home_prefetch_def prefetchPostMedia_def by (simp add: warmed_ok_posts)

text \<open>The web client keeps the same promise for the images and for the playlists of a page's life.\<close>

theorem web_warms_once:
  "let s = fold (\<lambda>(b, posts). web_home_prefetch b posts) runs \<lparr> ww_images = ([], []), ww_playlists = ([], []) \<rparr> in
    distinct (snd (ww_images s)) \<and> distinct (snd (ww_playlists s))"
proof -
  have "warmed_ok (fold (\<lambda>(b, posts). web_home_prefetch b posts) runs s)" if "warmed_ok s" for s
    using that
    by (induction runs arbitrary: s) (auto simp: warmed_ok_home)
  from this [of "\<lparr> ww_images = ([], []), ww_playlists = ([], []) \<rparr>"] show ?thesis
    by (simp add: warmed_ok_def Let_def)
qed

lemma zip_shifted: "zip (a # xs @ [y]) (xs @ [y]) = zip (a # xs) xs @ [(last (a # xs), y)]"
  by (induction xs arbitrary: a) simp_all

text \<open>What decides whether the bar is hidden, and the shape of its animations.\<close>

definition bar_decided :: "rat \<Rightarrow> rat list \<Rightarrow> bool" where
  "bar_decided h ys = (case List.find (\<lambda>(p, y). y \<le> h \<or> 6 < \<bar>y - p\<bar>) (rev (zip (0 # ys) ys)) of
     None \<Rightarrow> False | Some (p, y) \<Rightarrow> h < y \<and> 6 < y - p)"

definition bar_alternates :: "app_bar \<Rightarrow> bool" where
  "bar_alternates s \<longleftrightarrow> ab_animations s = map even [0..<length (ab_animations s)] \<and> ab_hidden s = odd (length (ab_animations s))"

lemma bar_decided_snoc:
  "bar_decided h (ys @ [y]) = (if y \<le> h then False else if 6 < y - last (0 # ys) then True
     else if y - last (0 # ys) < - 6 then False else bar_decided h ys)"
proof -
  define l where "l = last (0 # ys)"
  have z: "rev (zip (0 # ys @ [y]) (ys @ [y])) = (l, y) # rev (zip (0 # ys) ys)"
    unfolding l_def by (simp only: zip_shifted rev_append) simp
  show ?thesis unfolding bar_decided_def l_def [symmetric] z append_Cons [of 0 ys, symmetric]
    by (cases "y \<le> h"; cases "6 < y - l"; cases "y - l < - 6") (simp_all add: z abs_if)
qed

lemma setBarHidden_alternates: "bar_alternates s \<Longrightarrow> bar_alternates (setBarHidden b s)"
  by (auto simp: bar_alternates_def setBarHidden_def)

lemma setBarHidden_fields [simp]: "ab_hidden (setBarHidden b s) = b" "ab_lastY (setBarHidden b s) = ab_lastY s"
  by (simp_all add: setBarHidden_def)

lemma bar_alternates_lastY [simp]: "bar_alternates (s\<lparr>ab_lastY := y\<rparr>) = bar_alternates s"
  by (simp add: bar_alternates_def)

lemma onScrollChrome_step:
  assumes "ab_lastY s = last (0 # ys)" "ab_hidden s = bar_decided h ys" "bar_alternates s"
  shows "ab_lastY (onScrollChrome h y s) = y \<and> ab_hidden (onScrollChrome h y s) = bar_decided h (ys @ [y])
    \<and> bar_alternates (onScrollChrome h y s)"
  unfolding onScrollChrome_def Let_def bar_decided_snoc assms(1) [symmetric]
  using assms(2,3) by (simp add: setBarHidden_alternates)

lemma bar_inv:
  "ab_lastY (fold (onScrollChrome h) ys app_bar0) = last (0 # ys)
    \<and> ab_hidden (fold (onScrollChrome h) ys app_bar0) = bar_decided h ys
    \<and> bar_alternates (fold (onScrollChrome h) ys app_bar0)"
proof (induction ys rule: rev_induct)
  case Nil
  show ?case by (simp add: app_bar0_def bar_decided_def bar_alternates_def)
next
  case (snoc y ys)
  then show ?case using onScrollChrome_step [of "fold (onScrollChrome h) ys app_bar0" ys h y] by simp
qed

text \<open>
  C39: The bar follows the direction of scrolling and does not flicker. After any sequence of scroll positions it is
  hidden exactly if the last decisive one, that is at the top or more than six pixels from its predecessor, went
  down below the top; and the animations started alternate, hiding first.
\<close>

theorem bar_follows_direction:
  "let s = fold (onScrollChrome h) ys app_bar0 in
    ab_hidden s = (case List.find (\<lambda>(p, y). y \<le> h \<or> 6 < \<bar>y - p\<bar>) (rev (zip (0 # ys) ys)) of
        None \<Rightarrow> False | Some (p, y) \<Rightarrow> h < y \<and> 6 < y - p)
    \<and> ab_animations s = map even [0..<length (ab_animations s)]"
  using bar_inv [of h ys] unfolding Let_def bar_decided_def bar_alternates_def by blast

text \<open>
  At most one video plays: of posts with different ids at most one is active, none while the tab is not focused,
  the active one is an item the list reported as viewable, and it is never rewound as far from the active one.
\<close>

theorem one_video_plays:
  assumes "distinct (map mpo_id posts)"
  shows "length (filter (post_active focused active) posts) \<le> 1
    \<and> (\<not> focused \<longrightarrow> filter (post_active focused active) posts = [])
    \<and> (active = onViewable items \<and> p \<in> set posts \<and> post_active focused active p \<longrightarrow> (\<exists>q. (q, True) \<in> set items \<and> mpo_id q = mpo_id p))
    \<and> (i < length posts \<and> mpo_id (posts ! i) \<noteq> [] \<and> post_active focused active (posts ! i) \<longrightarrow> \<not> farFromActive posts active i)"
proof (intro conjI impI)
  have "card {p \<in> set posts. post_active focused active p} \<le> 1"
  proof -
    have "p = q" if "p \<in> set posts" "q \<in> set posts" "post_active focused active p" "post_active focused active q" for p q
      using assms that by (auto simp: post_active_def distinct_map inj_on_def)
    then show ?thesis by (auto simp: card_le_Suc0_iff_eq)
  qed
  moreover have "length (filter (post_active focused active) posts) = card {p \<in> set posts. post_active focused active p}"
    using assms by (subst distinct_card [symmetric]) (auto simp: distinct_map)
  ultimately show "length (filter (post_active focused active) posts) \<le> 1" by simp
next
  show "\<not> focused \<Longrightarrow> filter (post_active focused active) posts = []" by (simp add: post_active_def)
next
  assume a: "active = onViewable items \<and> p \<in> set posts \<and> post_active focused active p"
  then have "onViewable items = Some (mpo_id p)" unfolding post_active_def by metis
  then obtain v where v: "List.find snd items = Some v" "mpo_id (fst v) = mpo_id p"
    by (cases "List.find snd items") (simp_all add: onViewable_def)
  from v(1) have "v \<in> set items" "snd v" by (auto simp: find_Some_iff)
  with v(2) show "\<exists>q. (q, True) \<in> set items \<and> mpo_id q = mpo_id p" by (cases v) auto
next
  assume "i < length posts \<and> mpo_id (posts ! i) \<noteq> [] \<and> post_active focused active (posts ! i)"
  then show "\<not> farFromActive posts active i"
    using assms by (auto simp: farFromActive_def post_active_def active_index_def non_empty_def find_index_nth)
qed

definition demo_author :: mob_user_profile where
  "demo_author = \<lparr> mup_id = lit ''u1'', mup_username = lit ''ann'', mup_display_name = None, mup_bio = None,
     mup_avatar_url = Some (lit ''ann.png''), mup_links = None, mup_is_private = False, mup_trades_visibility = None,
     mup_post_count = 0, mup_follower_count = 0, mup_following_count = 0, mup_is_following = None,
     mup_follow_requested = None, mup_follows_you = None, mup_is_me = None, mup_can_view = None, mup_can_view_trades = None \<rparr>"

definition demo_photo_post :: "nat \<Rightarrow> mob_post" where
  "demo_photo_post i = \<lparr> mpo_id = [of_nat i], mpo_affiliate_id = None, mpo_author = demo_author, mpo_kind = Photo,
     mpo_caption = None, mpo_mentions = None,
     mpo_media = [\<lparr> mmd_id = [of_nat i], mmd_kind = ImageMedia, mmd_url = [100 + of_nat i], mmd_hls_url = None, mmd_variants = None,
       mmd_poster_url = None, mmd_width = None, mmd_height = None, mmd_duration_ms = None, mmd_status = None \<rparr>],
     mpo_market = None, mpo_author_position = None, mpo_author_pnl = None, mpo_like_count = 0, mpo_comment_count = 0,
     mpo_liked_by_me = False, mpo_reactions = None, mpo_my_reaction = None, mpo_top_comments = None, mpo_created_at = [] \<rparr>"

abbreviation "demo_photo_posts \<equiv> [demo_photo_post 1, demo_photo_post 2, demo_photo_post 3]"

theorem feed_fetches_ahead_once_witness:
  "[102] \<in> set (snd (feed_effects [(demo_photo_posts, None), (demo_photo_posts, Some [1])] []))
   \<and> distinct (snd (feed_effects [(demo_photo_posts, None), (demo_photo_posts, Some [1])] []))"
proof -
  have d: "distinct (map mpo_id demo_photo_posts)" "0 < length demo_photo_posts" "mpo_id (demo_photo_posts ! 0) \<noteq> []"
    by (simp_all add: demo_photo_post_def)
  have i: "mpo_id (demo_photo_posts ! 0) = [1]" by (simp add: demo_photo_post_def)
  define m where "m = hd (mpo_media (demo_photo_post 2))"
  have m: "m \<in> set (mpo_media (demo_photo_posts ! 1))" "mmd_kind m = ImageMedia" "mmd_url m = [102]"
    by (simp_all add: m_def demo_photo_post_def)
  have "mmd_url m \<noteq> []" using m(3) by simp
  with feed_fetches_ahead_once [OF d, of "[(demo_photo_posts, None)]", unfolded Let_def i append_Cons append_Nil] m
  have "mmd_url m \<in> set (snd (feed_effects [(demo_photo_posts, None), (demo_photo_posts, Some [1])] []))"
    "distinct (snd (feed_effects [(demo_photo_posts, None), (demo_photo_posts, Some [1])] []))"
    by (auto dest!: spec [of _ 1] spec [of _ m])
  then show ?thesis by (simp only: m(3))
qed

theorem one_video_plays_witness:
  "post_active True (Some [2]) (demo_photo_post 2) \<and> \<not> farFromActive demo_photo_posts (Some [2]) 1
   \<and> length (filter (post_active True (Some [2])) demo_photo_posts) \<le> 1"
proof -
  have d: "distinct (map mpo_id demo_photo_posts)" by (simp add: demo_photo_post_def)
  have a: "post_active True (Some [2]) (demo_photo_post 2)" "mpo_id (demo_photo_post 2) \<noteq> []"
    by (simp_all add: post_active_def demo_photo_post_def)
  with one_video_plays [OF d, of True "Some [2]" "[]" "demo_photo_post 2" 1] show ?thesis by simp
qed

section \<open>The reels of the web client\<close>

text \<open>
  The page in view, the reels loaded, and the effect that asks for more when fewer than two remain. It runs again only
  when the index or the number of reels has changed. (The playlist of the next reel, which the same effect warms, is
  \<open>warmHls\<close> above.)
\<close>

record web_reels_view =
  rv_index :: int
  rv_count :: nat
  rv_hasNextPage :: bool
  rv_fetching :: bool
  rv_deps :: "(int \<times> nat) option"
  rv_calls :: nat

definition web_reels_effect :: "web_reels_view \<Rightarrow> web_reels_view" where
  "web_reels_effect s = (if rv_deps s = Some (rv_index s, rv_count s) then s
     else let s = s\<lparr>rv_deps := Some (rv_index s, rv_count s)\<rparr> in
       if rv_count s > 0 \<and> rv_index s \<ge> int (rv_count s) - 2 \<and> rv_hasNextPage s \<and> \<not> rv_fetching s
       then s\<lparr>rv_fetching := True, rv_calls := rv_calls s + 1\<rparr> else s)"

datatype reels_event = ScrolledTo int | PageArrived nat bool | PageFailed

fun web_reels_event :: "reels_event \<Rightarrow> web_reels_view \<Rightarrow> web_reels_view" where
  "web_reels_event (ScrolledTo i) s = web_reels_effect (s\<lparr>rv_index := i\<rparr>)"
| "web_reels_event (PageArrived n again) s = web_reels_effect (s\<lparr>rv_count := rv_count s + n, rv_hasNextPage := again, rv_fetching := False\<rparr>)"
| "web_reels_event PageFailed s = web_reels_effect (s\<lparr>rv_fetching := False\<rparr>)"

lemma reels_effect_ran: "rv_deps s = Some (rv_index s, rv_count s) \<Longrightarrow> web_reels_effect s = s"
  by (simp add: web_reels_effect_def)

text \<open>
  When a page could not be fetched the reels do not ask again: as long as the user stays on the last reel, whatever
  is rendered, no further call is made, although there is a next page.
\<close>

theorem reels_stop_after_a_failed_page:
  assumes "rv_deps s = Some (rv_index s, rv_count s)" "rv_hasNextPage s" "set es \<subseteq> {ScrolledTo (rv_index s), PageFailed}"
  shows "rv_calls (fold web_reels_event (PageFailed # es) s) = rv_calls s
    \<and> rv_hasNextPage (fold web_reels_event (PageFailed # es) s) \<and> \<not> rv_fetching (fold web_reels_event (PageFailed # es) s)"
proof -
  have "fold web_reels_event es t = t"
    if "rv_deps t = Some (rv_index t, rv_count t)" "set es \<subseteq> {ScrolledTo (rv_index t), PageFailed}" "\<not> rv_fetching t" for t es
  proof -
    have "web_reels_event PageFailed t = t" "web_reels_event (ScrolledTo (rv_index t)) t = t"
      using that(1,3) by (cases t; simp add: web_reels_effect_def)+
    with that(2) show ?thesis by (induction es) (auto simp del: web_reels_event.simps)
  qed
  from this [of "s\<lparr>rv_fetching := False\<rparr>" es] show ?thesis using assms by (simp add: reels_effect_ran)
qed

theorem reels_stop_after_a_failed_page_witness:
  "let s = web_reels_event (ScrolledTo 1) \<lparr> rv_index = 0, rv_count = 3, rv_hasNextPage = True, rv_fetching = False, rv_deps = None, rv_calls = 0 \<rparr>
   in rv_calls s = 1 \<and> rv_calls (fold web_reels_event [PageFailed, ScrolledTo 1, ScrolledTo 1] s) = 1"
  using reels_stop_after_a_failed_page [of "web_reels_event (ScrolledTo 1) \<lparr> rv_index = 0, rv_count = 3, rv_hasNextPage = True,
      rv_fetching = False, rv_deps = None, rv_calls = 0 \<rparr>" "[ScrolledTo 1, ScrolledTo 1]"]
  by (simp add: web_reels_effect_def Let_def)

end
