(* ===== verification/Inbox.thy ===== *)
theory Inbox
  imports Session WebApi MobileApi
begin

text \<open>
  Notifications from the event that causes them to the row, the toast or the push message that shows them: what the
  backend stores and sends (\<open>notify.go\<close>, \<open>handlers_me.go\<close> and their callers), the list and the live handlers of
  both clients (\<open>notifications/page.tsx\<close>, \<open>AppShell.tsx\<close>, \<open>notifications.tsx\<close>, \<open>Toasts.tsx\<close>), and the call
  that is to mark the list as read (\<open>handlers_notifications.go\<close>).
\<close>

section \<open>What the backend sends\<close>

text \<open>
  A notice is one call of the backend that notifies somebody, with the identifiers it puts into the payload. A
  comment that mentions a user hangs on a post or on a market.
\<close>

datatype notice =
    NewFollower str
  | FollowAsked str
  | FollowAccepted str
  | PostLikedBy str str
  | PostCommentedBy str str str
  | MentionInPost str str "str option"
  | MentionInComment str str "str + str" "str option"
  | DirectMessage str str str str
  | MarketOpened str
  | FilledOrder str int int
  | SwungPosition str str str int
  | LargeEntry str str int "str option" "str option"
  | RefusedOrder str str
  | TakenBet str
  | SettledMarket str bool
  | ExpiredMarket str str

datatype notice_path = FromHandler | FromService | FromSweep

fun notice_path_of :: "notice \<Rightarrow> notice_path" where
  "notice_path_of (NewFollower _) = FromHandler"
| "notice_path_of (FollowAsked _) = FromHandler"
| "notice_path_of (FollowAccepted _) = FromHandler"
| "notice_path_of (PostLikedBy _ _) = FromHandler"
| "notice_path_of (PostCommentedBy _ _ _) = FromHandler"
| "notice_path_of (MentionInPost _ _ _) = FromHandler"
| "notice_path_of (MentionInComment _ _ _ _) = FromHandler"
| "notice_path_of (DirectMessage _ _ _ _) = FromHandler"
| "notice_path_of (ExpiredMarket _ _) = FromSweep"
| "notice_path_of _ = FromService"

fun notice_kind :: "notice \<Rightarrow> str" where
  "notice_kind (NewFollower _) = lit ''follow.new''"
| "notice_kind (FollowAsked _) = lit ''follow.request''"
| "notice_kind (FollowAccepted _) = lit ''follow.accepted''"
| "notice_kind (PostLikedBy _ _) = lit ''post.liked''"
| "notice_kind (PostCommentedBy _ _ _) = lit ''post.commented''"
| "notice_kind (MentionInPost _ _ _) = lit ''post.mention''"
| "notice_kind (MentionInComment _ _ _ _) = lit ''post.mention''"
| "notice_kind (DirectMessage _ _ _ _) = lit ''dm.message''"
| "notice_kind (MarketOpened _) = lit ''market.open''"
| "notice_kind (FilledOrder _ _ _) = lit ''order.filled''"
| "notice_kind (SwungPosition _ _ _ _) = lit ''position.swing''"
| "notice_kind (LargeEntry _ _ _ _ _) = lit ''following.large_entry''"
| "notice_kind (RefusedOrder _ _) = lit ''order.rejected''"
| "notice_kind (TakenBet _) = lit ''market.matched''"
| "notice_kind (SettledMarket _ _) = lit ''market.settled''"
| "notice_kind (ExpiredMarket _ _) = lit ''market.settled''"

definition text_field :: "string \<Rightarrow> str option \<Rightarrow> (str \<times> json) list" where
  "text_field k v = (case v of None \<Rightarrow> [] | Some t \<Rightarrow> [(lit k, JStr t)])"

definition num_field :: "string \<Rightarrow> int \<Rightarrow> str \<times> json" where
  "num_field k n = (lit k, JNum (rat_of_int n))"

fun notice_fields :: "notice \<Rightarrow> (str \<times> json) list" where
  "notice_fields (NewFollower u) = text_field ''user_id'' (Some u)"
| "notice_fields (FollowAsked u) = text_field ''user_id'' (Some u)"
| "notice_fields (FollowAccepted u) = text_field ''user_id'' (Some u)"
| "notice_fields (PostLikedBy p u) = text_field ''post_id'' (Some p) @ text_field ''user_id'' (Some u)"
| "notice_fields (PostCommentedBy p c u) =
     text_field ''post_id'' (Some p) @ text_field ''comment_id'' (Some c) @ text_field ''user_id'' (Some u)"
| "notice_fields (MentionInPost p a name) =
     text_field ''post_id'' (Some p) @ text_field ''author_id'' (Some a) @ text_field ''author_username'' name"
| "notice_fields (MentionInComment c a on name) =
     text_field ''comment_id'' (Some c) @ text_field ''author_id'' (Some a)
     @ (case on of Inl p \<Rightarrow> text_field ''post_id'' (Some p) | Inr m \<Rightarrow> text_field ''market_id'' (Some m))
     @ text_field ''author_username'' name"
| "notice_fields (DirectMessage c m s preview) =
     text_field ''conversation_id'' (Some c) @ text_field ''message_id'' (Some m) @ text_field ''sender_id'' (Some s)
     @ text_field ''preview'' (Some preview)"
| "notice_fields (MarketOpened m) = text_field ''market_id'' (Some m)
     @ text_field ''message'' (Some (lit ''You're committed. Waiting for someone to take your bet.''))"
| "notice_fields (FilledOrder m price shares) =
     text_field ''market_id'' (Some m) @ [num_field ''price_cents'' price, num_field ''shares'' shares]"
| "notice_fields (SwungPosition m q dir pct) =
     text_field ''market_id'' (Some m) @ text_field ''question'' (Some q) @ text_field ''direction'' (Some dir) @ [num_field ''pct'' pct]"
| "notice_fields (LargeEntry a m volume name q) =
     text_field ''actor_id'' (Some a) @ text_field ''market_id'' (Some m) @ [num_field ''size'' volume]
     @ text_field ''actor_username'' name @ text_field ''question'' q"
| "notice_fields (RefusedOrder m reason) =
     text_field ''market_id'' (Some m) @ text_field ''reason'' (Some reason) @ text_field ''status'' (Some (lit ''CANCELED''))"
| "notice_fields (TakenBet m) = text_field ''market_id'' (Some m) @ text_field ''message'' (Some (lit ''Your bet was taken.''))"
| "notice_fields (SettledMarket m direction) =
     text_field ''market_id'' (Some m) @ [(lit ''direction'', JBool direction)]
     @ text_field ''outcome'' (Some (if direction then lit ''YES'' else lit ''NO'')) @ text_field ''status'' (Some (lit ''SETTLED''))"
| "notice_fields (ExpiredMarket m title) =
     text_field ''market_id'' (Some m) @ text_field ''title'' (Some title) @ [(lit ''fifty_fifty'', JBool True)]"

text \<open>The settings category of a kind, empty for kinds outside every category; a category is on unless switched off.\<close>

definition CategoryOf :: "str \<Rightarrow> str" where
  "CategoryOf kind =
     (if kind = lit ''post.liked'' then lit ''likes''
      else if kind = lit ''post.commented'' then lit ''comments''
      else if kind = lit ''post.mention'' then lit ''mentions''
      else if kind = lit ''follow.new'' \<or> kind = lit ''follow.request'' \<or> kind = lit ''follow.accepted'' then lit ''follows''
      else if kind = lit ''dm.message'' then lit ''messages''
      else if kind = lit ''market.matched'' \<or> kind = lit ''market.settled'' \<or> kind = lit ''order.filled''
        \<or> kind = lit ''market.open'' \<or> kind = lit ''order.rejected'' then lit ''markets''
      else if kind = lit ''position.swing'' \<or> kind = lit ''following.large_entry'' then lit ''trading''
      else [])"

definition NotificationCategoryEnabled :: "(str, bool) omap option \<Rightarrow> str \<Rightarrow> bool" where
  "NotificationCategoryEnabled prefs c = or_else (Option.bind prefs (\<lambda>p. om_get p c)) True"

text \<open>
  The three ways a notice goes out. Storing it (the parameter \<open>save\<close>) can fail, and then nothing follows. What
  goes over the socket is typed with the kind of the notice; the push leg carries the bare payload.
\<close>

datatype notify_leg = ToSocket str str json | ToPush str str json

type_synonym notice_store = "str \<Rightarrow> json \<Rightarrow> json option"

definition InsertNotification :: "str \<Rightarrow> str \<Rightarrow> notice_store" where
  "InsertNotification i time kind payload = Some (JObj [(lit ''id'', JStr i), (lit ''kind'', JStr kind),
     (lit ''payload'', payload), (lit ''read_at'', JNull), (lit ''created_at'', JStr time)])"

definition server_notify :: "notice_store \<Rightarrow> bool \<Rightarrow> str \<Rightarrow> str \<Rightarrow> json \<Rightarrow> notify_leg list" where
  "server_notify save push user kind payload =
     (case save kind payload of None \<Rightarrow> []
      | Some n \<Rightarrow> ToSocket user kind n # (if push then [ToPush user kind payload] else []))"

definition service_Notify :: "(str, bool) omap option \<Rightarrow> notice_store \<Rightarrow> bool \<Rightarrow> str \<Rightarrow> str \<Rightarrow> json \<Rightarrow> notify_leg list" where
  "service_Notify prefs save push user kind payload =
     (if CategoryOf kind \<noteq> [] \<and> \<not> NotificationCategoryEnabled prefs (CategoryOf kind) then []
      else case save kind payload of None \<Rightarrow> []
      | Some n \<Rightarrow> ToSocket user kind n # (if push then [ToPush user kind payload] else []))"

definition expireDue_notify :: "notice_store \<Rightarrow> str \<Rightarrow> json \<Rightarrow> notify_leg list" where
  "expireDue_notify save creator payload =
     (case save (lit ''market.settled'') payload of None \<Rightarrow> []
      | Some n \<Rightarrow> [ToSocket creator (lit ''market.settled'') n])"

definition send_notice :: "(str, bool) omap option \<Rightarrow> notice_store \<Rightarrow> bool \<Rightarrow> str \<Rightarrow> notice \<Rightarrow> notify_leg list" where
  "send_notice prefs save push user n = (case notice_path_of n of
     FromHandler \<Rightarrow> server_notify save push user (notice_kind n) (JObj (notice_fields n))
   | FromService \<Rightarrow> service_Notify prefs save push user (notice_kind n) (JObj (notice_fields n))
   | FromSweep \<Rightarrow> expireDue_notify save user (JObj (notice_fields n)))"

text \<open>The frame of the socket (\<open>marshalFrame\<close>) and the data of the push message (\<open>deliver\<close>).\<close>

fun leg_frame :: "notify_leg \<Rightarrow> json option" where
  "leg_frame (ToSocket user typ n) =
     Some (JObj [(lit ''type'', JStr typ), (lit ''channel'', JStr (lit ''user:'' @ user)), (lit ''payload'', n)])"
| "leg_frame (ToPush _ _ _) = None"

definition push_data :: "notice \<Rightarrow> json" where
  "push_data n = JObj (notice_fields n @ [(lit ''kind'', JStr (notice_kind n))])"

section \<open>The handlers of the clients\<close>

text \<open>The type a frame of either client is discriminated by.\<close>

fun frame_type :: "ws_frame \<Rightarrow> str" where
  "frame_type (MessageNew _ _) = lit ''message.new''"
| "frame_type (TypingStart _ _) = lit ''typing.start''"
| "frame_type (TypingStop _ _) = lit ''typing.stop''"
| "frame_type (ReadFrame _ _ _) = lit ''read''"
| "frame_type (BookFrame _ _) = lit ''book''"
| "frame_type (TradeFrame _ _ _ _) = lit ''trade''"
| "frame_type (NotificationFrame _ _) = lit ''notification''"
| "frame_type (OrderUpdate _ _) = lit ''order.update''"
| "frame_type (MarketUpdate _ _ _ _) = lit ''market.update''"
| "frame_type (OtherFrame _ t _) = t"

fun event_type :: "ws_event \<Rightarrow> str" where
  "event_type (EvMessageNew _ _) = lit ''message.new''"
| "event_type (EvTypingStart _ _) = lit ''typing.start''"
| "event_type (EvTypingStop _ _) = lit ''typing.stop''"
| "event_type (EvRead _ _ _) = lit ''read''"
| "event_type (EvReaction _ _ _) = lit ''message.reaction''"
| "event_type (EvBookDelta _ _ _ _ _ _) = lit ''book.delta''"
| "event_type (EvBookTrade _ _ _) = lit ''book.trade''"
| "event_type (EvMarketUpdate _ _ _ _ _) = lit ''market.update''"
| "event_type (EvNotification _ _) = lit ''notification''"
| "event_type (EvOrderUpdate _ _) = lit ''order.update''"
| "event_type (EvWalletUpdate _ _) = lit ''wallet.update''"

text \<open>
  The listener of the web shell (\<open>AppShell\<close>): a notification is announced and its lists are fetched again. The kind
  of a notification is taken as its text, since the backend sends kinds outside the union of \<open>types.ts\<close>.
\<close>

fun wire_kind :: "notification_kind \<Rightarrow> str" where
  "wire_kind MarketMatched = lit ''market.matched''"
| "wire_kind MarketSettled = lit ''market.settled''"
| "wire_kind OrderFilled = lit ''order.filled''"
| "wire_kind DmMessage = lit ''dm.message''"
| "wire_kind PostLiked = lit ''post.liked''"
| "wire_kind PostCommented = lit ''post.commented''"
| "wire_kind PostMention = lit ''post.mention''"
| "wire_kind PositionSwing = lit ''position.swing''"
| "wire_kind FollowingLargeEntry = lit ''following.large_entry''"
| "wire_kind Follow = lit ''follow''"
| "wire_kind FollowNew = lit ''follow.new''"
| "wire_kind FollowRequestKind = lit ''follow.request''"

definition actor_or :: "string \<Rightarrow> notification_payload \<Rightarrow> str" where
  "actor_or other p = (case np_actor p of None \<Rightarrow> lit other | Some u \<Rightarrow> ul_username u)"

definition notifText :: "str \<Rightarrow> notification_payload \<Rightarrow> str \<times> str option" where
  "notifText kind p =
     (if kind = lit ''market.matched'' then (lit ''Your bet was taken'', np_market_question p)
      else if kind = lit ''market.settled'' then (lit ''Market settled'', np_market_question p)
      else if kind = lit ''order.filled'' then (lit ''Order filled'', np_market_question p)
      else if kind = lit ''dm.message'' then
        (lit ''New message'' @ (case np_actor p of None \<Rightarrow> [] | Some u \<Rightarrow> lit '' from '' @ ul_username u), np_text p)
      else if kind = lit ''post.liked'' then (actor_or ''Someone'' p @ lit '' liked your post'', None)
      else if kind = lit ''post.commented'' then (actor_or ''Someone'' p @ lit '' commented on your post'', np_text p)
      else if kind = lit ''follow'' then (actor_or ''Someone'' p @ lit '' started following you'', None)
      else if kind = lit ''follow.request'' then (actor_or ''Someone'' p @ lit '' requested to follow you'', None)
      else (lit ''Notification'', None))"

datatype shell_effect = Announce str "str option" | Invalidate str

definition AppShell_onFrame :: "ws_frame \<Rightarrow> shell_effect list" where
  "AppShell_onFrame frame = (case frame of
     NotificationFrame _ n \<Rightarrow> (let kind = wire_kind (nt_kind n) in
       [case_prod Announce (notifText kind (nt_payload n)), Invalidate (lit ''notifications'')]
       @ (if kind = lit ''dm.message'' then [Invalidate (lit ''conversations'')] else [])
       @ (if kind = lit ''market.matched'' \<or> kind = lit ''market.settled'' then [Invalidate (lit ''feed'')] else []))
   | OrderUpdate _ _ \<Rightarrow> [Invalidate (lit ''orders'')]
   | _ \<Rightarrow> [])"

text \<open>The rows of the web list: text and link. \<open>market_link\<close> and \<open>user_link\<close> are its template strings.\<close>

definition quoted :: "str \<Rightarrow> str" where
  "quoted t = [34] @ t @ [34]"

definition market_link :: "notification_payload \<Rightarrow> str" where
  "market_link p = lit ''/markets/'' @ or_else (np_market_id p) []"

definition user_link :: "notification_payload \<Rightarrow> str" where
  "user_link p = lit ''/u/'' @ (case np_actor p of None \<Rightarrow> [] | Some u \<Rightarrow> ul_username u)"

definition describe_text :: "str \<Rightarrow> notification_payload \<Rightarrow> str" where
  "describe_text kind p =
     (if kind = lit ''market.matched'' then lit ''Your bet was taken '' @ [0x2014] @ lit '' ''
        @ quoted (or_else (np_market_question p) (lit ''your market''))
      else if kind = lit ''market.settled'' then lit ''Market settled: '' @ quoted (or_else (np_market_question p) [])
      else if kind = lit ''order.filled'' then lit ''Your order filled on '' @ quoted (or_else (np_market_question p) (lit ''a market''))
      else if kind = lit ''dm.message'' then actor_or ''Someone'' p @ lit '' sent you a message''
      else if kind = lit ''post.liked'' then actor_or ''Someone'' p @ lit '' liked your post''
      else if kind = lit ''post.commented'' then actor_or ''Someone'' p @ lit '' commented: '' @ or_else (np_text p) []
      else if kind = lit ''post.mention'' then actor_or ''Someone'' p @ lit '' mentioned you in a post''
      else if kind = lit ''position.swing'' then lit ''Your position in ''
        @ quoted (or_else (np_market_question p) (lit ''a market'')) @ lit '' moved more than 50%''
      else if kind = lit ''following.large_entry'' then actor_or ''Someone'' p @ lit '' placed a large entry in ''
        @ quoted (or_else (np_market_question p) (lit ''a market''))
      else if kind = lit ''follow'' \<or> kind = lit ''follow.new'' then actor_or ''Someone'' p @ lit '' started following you''
      else if kind = lit ''follow.request'' then actor_or ''Someone'' p @ lit '' requested to follow you''
      else or_else (np_text p) (lit ''Notification''))"

definition describe_href :: "str \<Rightarrow> notification_payload \<Rightarrow> str" where
  "describe_href kind p =
     (if kind \<in> {lit ''market.matched'', lit ''market.settled'', lit ''order.filled'', lit ''position.swing'',
        lit ''following.large_entry''} then market_link p
      else if kind = lit ''dm.message'' then lit ''/messages/'' @ or_else (np_conversation_id p) []
      else if kind \<in> {lit ''post.liked'', lit ''post.commented'', lit ''follow'', lit ''follow.new''} then user_link p
      else if kind = lit ''post.mention'' then
        (case non_empty (np_post_id p) of Some i \<Rightarrow> lit ''/?post='' @ i | None \<Rightarrow> user_link p)
      else lit ''/notifications'')"

text \<open>The toast of the app, nothing for kinds it does not know without a title, and the row of its list.\<close>

record notice_toast =
  nto_title :: str
  nto_body :: "str option"
  nto_href :: "str option"

definition who :: "string \<Rightarrow> app_notification_payload \<Rightarrow> str" where
  "who other p = (case non_empty (map_option mup_username (anp_user p)) of None \<Rightarrow> lit other | Some u \<Rightarrow> lit ''@'' @ u)"

abbreviation nt_link :: "string \<Rightarrow> str option \<Rightarrow> str option \<Rightarrow> str option" where
  "nt_link prefix v other \<equiv> route prefix (non_empty v) other"

definition toastForNotification :: "str \<Rightarrow> app_notification_payload \<Rightarrow> notice_toast option" where
  "toastForNotification kind p = (let toast = (\<lambda>title body href. Some \<lparr> nto_title = title, nto_body = body, nto_href = href \<rparr>) in
     if kind = lit ''market.matched'' then toast (lit ''Your bet was taken.'')
       (case non_empty (anp_title p) of Some t \<Rightarrow> Some t | None \<Rightarrow> anp_body p) (nt_link ''/market/'' (anp_market_id p) None)
     else if kind = lit ''order.filled'' then toast (lit ''Order filled'') (anp_body p) (nt_link ''/market/'' (anp_market_id p) None)
     else if kind = lit ''dm.message'' then toast (who ''Someone'' p @ lit '' sent you a message'') (anp_body p)
       (nt_link ''/conversation/'' (anp_conversation_id p) (Some (lit ''/messages'')))
     else if kind = lit ''post.liked'' then toast (who ''Someone'' p @ lit '' liked your post'') None
       (nt_link ''/post/'' (anp_post_id p) None)
     else if kind = lit ''post.mention'' then toast (who ''Someone'' p @ lit '' mentioned you'') (anp_body p)
       (nt_link ''/post/'' (anp_post_id p) (nt_link ''/market/'' (anp_market_id p) None))
     else if kind = lit ''position.swing'' then toast (lit ''Your position moved sharply'') (anp_body p)
       (nt_link ''/market/'' (anp_market_id p) None)
     else if kind = lit ''following.large_entry'' then toast (who ''Someone'' p @ lit '' placed a big bet'') (anp_body p)
       (nt_link ''/market/'' (anp_market_id p) (nt_link ''/post/'' (anp_post_id p) None))
     else if kind = lit ''follow.request'' then toast (who ''Someone'' p @ lit '' requested to follow you'') None (Some (lit ''/notifications''))
     else if kind = lit ''follow.new'' \<or> kind = lit ''follow'' then toast (who ''Someone'' p @ lit '' started following you'') None
       (nt_link ''/user/'' (map_option mup_username (anp_user p)) (Some (lit ''/notifications'')))
     else (case non_empty (anp_title p) of None \<Rightarrow> None | Some t \<Rightarrow> toast t (anp_body p) None))"

definition row_title :: "str \<Rightarrow> app_notification_payload \<Rightarrow> str" where
  "row_title kind p = or_else (anp_title p)
     (if kind = lit ''market.matched'' then lit ''Your bet was taken.''
      else if kind = lit ''order.filled'' then lit ''Order filled''
      else if kind = lit ''post.liked'' then who ''someone'' p @ lit '' liked your post''
      else if kind = lit ''post.mention'' then who ''someone'' p @ lit '' mentioned you''
      else if kind = lit ''position.swing'' then lit ''Your position moved sharply''
      else if kind = lit ''following.large_entry'' then who ''someone'' p @ lit '' placed a big bet''
      else if kind = lit ''follow.new'' \<or> kind = lit ''follow'' then who ''someone'' p @ lit '' started following you''
      else kind)"

definition row_href :: "app_notification_payload \<Rightarrow> str option" where
  "row_href p = nt_link ''/market/'' (anp_market_id p) (nt_link ''/post/'' (anp_post_id p)
     (nt_link ''/conversation/'' (anp_conversation_id p) (nt_link ''/user/'' (map_option mup_username (anp_user p)) None)))"

text \<open>What the list of the app does with an event, and the toast provider.\<close>

definition inbox_onUserEvent :: "ws_event \<Rightarrow> str list" where
  "inbox_onUserEvent e = (case e of
     EvNotification _ n \<Rightarrow> lit ''notifications'' # (if an_kind n = lit ''follow.request'' then [lit ''follow-requests''] else [])
   | _ \<Rightarrow> [])"

definition toasts_onUserEvent :: "ws_event \<Rightarrow> notice_toast option" where
  "toasts_onUserEvent e = (case e of EvNotification _ n \<Rightarrow> toastForNotification (an_kind n) (an_payload n) | _ \<Rightarrow> None)"

text \<open>
  What a frame of the socket comes to in the app: \<open>useUserChannel\<close> looks at the type in the JSON and hands on what it lets
  through (\<open>cast\<close> reads it as an event, which the code does without a check) to the session, which counts its badges
  and calls the list and the toasts. The list of conversations listens to every frame (\<open>useGlobalWs\<close>).
\<close>

definition useUserChannel :: "(json \<Rightarrow> ws_event) \<Rightarrow> json \<Rightarrow> ws_event option" where
  "useUserChannel cast f =
     (if json_str (json_field f (lit ''type'')) \<in> {Some (lit ''notification''), Some (lit ''order.update''), Some (lit ''wallet.update'')}
      then Some (cast f) else None)"

definition app_user_frame :: "(json \<Rightarrow> ws_event) \<Rightarrow> json \<Rightarrow> mob_session \<Rightarrow> mob_session \<times> str list \<times> notice_toast option" where
  "app_user_frame cast f s = (case useUserChannel cast f of None \<Rightarrow> (s, [], None)
     | Some e \<Rightarrow> (fst (onUserChannelEvent e s), inbox_onUserEvent e, toasts_onUserEvent e))"

definition messages_onGlobal :: "json \<Rightarrow> str list" where
  "messages_onGlobal f = (if json_str (json_field f (lit ''type'')) = Some (lit ''message.new'') then [lit ''conversations''] else [])"

text \<open>A payload read through the types of the clients; reading a user out of it is a parameter.\<close>

definition web_payload :: "(json \<Rightarrow> user_lite) \<Rightarrow> json \<Rightarrow> notification_payload" where
  "web_payload user p = \<lparr> np_actor = map_option user (json_field p (lit ''actor'')),
     np_post_id = json_str (json_field p (lit ''post_id'')), np_market_id = json_str (json_field p (lit ''market_id'')),
     np_market_question = json_str (json_field p (lit ''market_question'')),
     np_conversation_id = json_str (json_field p (lit ''conversation_id'')),
     np_order_id = json_str (json_field p (lit ''order_id'')), np_text = json_str (json_field p (lit ''text'')), np_other = [] \<rparr>"

definition mob_payload :: "(json \<Rightarrow> mob_user_profile) \<Rightarrow> json \<Rightarrow> app_notification_payload" where
  "mob_payload user p = \<lparr> anp_title = json_str (json_field p (lit ''title'')), anp_body = json_str (json_field p (lit ''body'')),
     anp_user = map_option user (json_field p (lit ''user'')),
     anp_post_id = json_str (json_field p (lit ''post_id'')), anp_market_id = json_str (json_field p (lit ''market_id'')),
     anp_conversation_id = json_str (json_field p (lit ''conversation_id'')),
     anp_order_id = json_str (json_field p (lit ''order_id'')),
     anp_follow_request_id = json_str (json_field p (lit ''follow_request_id'')), anp_other = [] \<rparr>"

section \<open>Properties of the notices\<close>

text \<open>What a notice is about, and the page of the app that shows it. A person is only known by id, and has none.\<close>

datatype subject = TheMarket str | ThePost str | TheChat str | ThePerson str

fun notice_subject :: "notice \<Rightarrow> subject" where
  "notice_subject (NewFollower u) = ThePerson u"
| "notice_subject (FollowAsked u) = ThePerson u"
| "notice_subject (FollowAccepted u) = ThePerson u"
| "notice_subject (PostLikedBy p _) = ThePost p"
| "notice_subject (PostCommentedBy p _ _) = ThePost p"
| "notice_subject (MentionInPost p _ _) = ThePost p"
| "notice_subject (MentionInComment _ _ on _) = (case on of Inl p \<Rightarrow> ThePost p | Inr m \<Rightarrow> TheMarket m)"
| "notice_subject (DirectMessage c _ _ _) = TheChat c"
| "notice_subject (MarketOpened m) = TheMarket m"
| "notice_subject (FilledOrder m _ _) = TheMarket m"
| "notice_subject (SwungPosition m _ _ _) = TheMarket m"
| "notice_subject (LargeEntry _ m _ _ _) = TheMarket m"
| "notice_subject (RefusedOrder m _) = TheMarket m"
| "notice_subject (TakenBet m) = TheMarket m"
| "notice_subject (SettledMarket m _) = TheMarket m"
| "notice_subject (ExpiredMarket m _) = TheMarket m"

fun subject_id :: "subject \<Rightarrow> str" where
  "subject_id (TheMarket i) = i"
| "subject_id (ThePost i) = i"
| "subject_id (TheChat i) = i"
| "subject_id (ThePerson i) = i"

fun app_page :: "subject \<Rightarrow> str option" where
  "app_page (TheMarket m) = Some (lit ''/market/'' @ m)"
| "app_page (ThePost p) = Some (lit ''/post/'' @ p)"
| "app_page (TheChat c) = Some (lit ''/conversation/'' @ c)"
| "app_page (ThePerson _) = None"

lemma text_field_simps [simp]: "text_field k None = []" "text_field k (Some t) = [(lit k, JStr t)]"
  by (simp_all add: text_field_def)

lemma push_str_simps [simp]: "push_str None = None" "t \<noteq> [] \<Longrightarrow> push_str (Some (JStr t)) = Some t"
  by (simp_all add: push_str_def non_empty_def)

lemma route_simps [simp]: "route prefix None d = d" "route prefix (Some t) d = Some (lit prefix @ t)"
  by (simp_all add: route_def)

lemma non_empty_simps: "non_empty None = None" "t \<noteq> [] \<Longrightarrow> non_empty (Some t) = Some t"
  by (simp_all add: non_empty_def)

text \<open>The fields of a payload the clients look for.\<close>

definition payload_ids :: "json \<Rightarrow> json option list" where
  "payload_ids p = map (\<lambda>k. json_field p (lit k)) [''market_id'', ''post_id'', ''conversation_id'', ''user'', ''username'', ''actor'']"

fun subject_ids :: "subject \<Rightarrow> json option list" where
  "subject_ids (TheMarket m) = [Some (JStr m), None, None, None, None, None]"
| "subject_ids (ThePost p) = [None, Some (JStr p), None, None, None, None]"
| "subject_ids (TheChat c) = [None, None, Some (JStr c), None, None, None]"
| "subject_ids (ThePerson u) = [None, None, None, None, None, None]"

lemma notice_ids: "payload_ids (JObj (notice_fields n)) = subject_ids (notice_subject n)"
  by (cases n) (auto simp: payload_ids_def num_field_def text_field_def split: option.splits sum.splits)

lemma push_ids: "payload_ids (push_data n) = subject_ids (notice_subject n)"
  by (cases n) (auto simp: payload_ids_def push_data_def num_field_def text_field_def split: option.splits sum.splits)

lemmas ids_of_notice = notice_ids [unfolded payload_ids_def, simplified] push_ids [unfolded payload_ids_def, simplified]

lemma push_kind: "json_str (json_field (push_data n) (lit ''kind'')) = Some (notice_kind n)"
  by (cases n) (auto simp: push_data_def num_field_def text_field_def split: option.splits sum.splits)

lemma mob_row_of_notice:
  assumes "subject_id (notice_subject n) \<noteq> []"
  shows "row_href (mob_payload user (JObj (notice_fields n))) = app_page (notice_subject n)"
  using notice_ids [of n] assms
  by (cases "notice_subject n") (simp_all add: payload_ids_def mob_payload_def row_href_def non_empty_simps)

lemma push_of_notice:
  assumes "subject_id (notice_subject n) \<noteq> []"
  shows "notificationHref (Some (push_data n)) = Some (or_else (app_page (notice_subject n)) (lit ''/notifications''))"
proof -
  have data: "notificationHref (Some (push_data n)) = notification_route (notice_kind n)
      (push_str (json_field (push_data n) (lit ''market_id''))) (push_str (json_field (push_data n) (lit ''post_id'')))
      (push_str (json_field (push_data n) (lit ''conversation_id'')))
      (alt_opt (case json_field (push_data n) (lit ''user'') of None \<Rightarrow> None | Some u \<Rightarrow> push_str (json_field u (lit ''username'')))
        (push_str (json_field (push_data n) (lit ''username''))))"
    unfolding notificationHref_def using push_kind [of n] by (simp add: push_data_def)
  show ?thesis unfolding data using push_ids [of n] assms
    by (cases n) (auto simp: payload_ids_def notification_route_def split: sum.splits)
qed

lemma web_row_of_notice:
  assumes "subject_id (notice_subject n) \<noteq> []"
  shows "describe_href (notice_kind n) (web_payload user (JObj (notice_fields n))) =
    (case n of PostLikedBy _ _ \<Rightarrow> lit ''/u/'' | PostCommentedBy _ _ _ \<Rightarrow> lit ''/u/'' | NewFollower _ \<Rightarrow> lit ''/u/'' | FollowAsked _ \<Rightarrow> lit ''/notifications''
     | FollowAccepted _ \<Rightarrow> lit ''/notifications'' | MarketOpened _ \<Rightarrow> lit ''/notifications'' | RefusedOrder _ _ \<Rightarrow> lit ''/notifications''
     | MentionInComment _ _ (Inr m) _ \<Rightarrow> lit ''/u/''
     | _ \<Rightarrow> (case notice_subject n of TheMarket m \<Rightarrow> lit ''/markets/'' @ m | ThePost p \<Rightarrow> lit ''/?post='' @ p
           | TheChat c \<Rightarrow> lit ''/messages/'' @ c | ThePerson u \<Rightarrow> lit ''/u/''))"
  using notice_ids [of n] assms
  by (cases n) (auto simp: payload_ids_def web_payload_def describe_href_def market_link_def user_link_def non_empty_simps
      split: sum.splits)

text \<open>
  C34: Every notice of the backend opens what it is about: tapped as a push message the app shows the market, the
  post or the conversation, and for a person, who is only known by id, the list of notifications; tapped as a row of
  the list it shows the same, but nothing for a person. The web row of a like, a comment and a new follower, and of a mention
  under a market, leads to the page of a user without a name.
\<close>

theorem notices_open_their_subject:
  assumes "subject_id (notice_subject n) \<noteq> []"
  shows "notificationHref (Some (push_data n)) = Some (or_else (app_page (notice_subject n)) (lit ''/notifications''))
    \<and> row_href (mob_payload user (JObj (notice_fields n))) = app_page (notice_subject n)
    \<and> describe_href (notice_kind n) (web_payload user' (JObj (notice_fields n))) =
        (case n of PostLikedBy _ _ \<Rightarrow> lit ''/u/'' | PostCommentedBy _ _ _ \<Rightarrow> lit ''/u/'' | NewFollower _ \<Rightarrow> lit ''/u/'' | FollowAsked _ \<Rightarrow> lit ''/notifications''
         | FollowAccepted _ \<Rightarrow> lit ''/notifications'' | MarketOpened _ \<Rightarrow> lit ''/notifications'' | RefusedOrder _ _ \<Rightarrow> lit ''/notifications''
         | MentionInComment _ _ (Inr m) _ \<Rightarrow> lit ''/u/''
         | _ \<Rightarrow> (case notice_subject n of TheMarket m \<Rightarrow> lit ''/markets/'' @ m | ThePost p \<Rightarrow> lit ''/?post='' @ p
               | TheChat c \<Rightarrow> lit ''/messages/'' @ c | ThePerson u \<Rightarrow> lit ''/u/''))"
  using push_of_notice [OF assms] mob_row_of_notice [OF assms] web_row_of_notice [OF assms] by blast

theorem notices_open_their_subject_witness:
  "notificationHref (Some (push_data (PostLikedBy (lit ''p1'') (lit ''u1'')))) = Some (lit ''/post/p1'')
   \<and> describe_href (lit ''post.liked'') (web_payload (\<lambda>_. undefined) (JObj (notice_fields (PostLikedBy (lit ''p1'') (lit ''u1''))))) = lit ''/u/''"
proof -
  have "lit ''/post/'' @ lit ''p1'' = lit ''/post/p1''" by (simp add: lit_def)
  with notices_open_their_subject [of "PostLikedBy (lit ''p1'') (lit ''u1'')" "\<lambda>_. undefined" "\<lambda>_. undefined"]
  show ?thesis by simp
qed

text \<open>No kind of the backend is a type the live handlers of the clients wait for, or a type the app knows at all.\<close>

lemma notice_kind_types: "notice_kind n \<noteq> lit ''notification''" "notice_kind n \<noteq> lit ''order.update''" "event_type e \<noteq> notice_kind n"
  by ((cases n; simp), (cases n; simp), (cases e; cases n; simp))

lemma notice_kind_unheard: "notice_kind n \<noteq> lit ''wallet.update''" "notice_kind n \<noteq> lit ''message.new''"
  by ((cases n; simp), (cases n; simp))

lemma silent_in_app:
  assumes "json_str (json_field f (lit ''type'')) = Some (notice_kind n)"
  shows "app_user_frame cast f s = (s, [], None) \<and> messages_onGlobal f = []"
  using assms notice_kind_types(1,2) [of n] notice_kind_unheard [of n]
  by (simp add: app_user_frame_def useUserChannel_def messages_onGlobal_def)

lemma silent_frame: "frame_type F = notice_kind n \<Longrightarrow> AppShell_onFrame F = []"
  using notice_kind_types(1,2) [of n] by (cases F) (simp_all add: AppShell_onFrame_def)

lemma notice_frame:
  assumes "leg \<in> set (send_notice prefs save push user n)" "leg_frame leg = Some f"
  shows "json_str (json_field f (lit ''type'')) = Some (notice_kind n)"
proof -
  from assms(1) have "(\<exists>x. leg = ToSocket user (notice_kind n) x) \<or> (\<exists>u k p. leg = ToPush u k p)"
    by (cases n) (auto simp: send_notice_def server_notify_def service_Notify_def expireDue_notify_def split: option.splits if_splits)
  with assms(2) show ?thesis by auto
qed


definition demo_notice :: notice where
  "demo_notice = PostLikedBy (lit ''p1'') (lit ''u1'')"

definition demo_stored :: json where
  "demo_stored = the (InsertNotification (lit ''n1'') (lit ''now'') (lit ''post.liked'') (JObj (notice_fields demo_notice)))"

lemma demo_notice_sent:
  "send_notice prefs (InsertNotification (lit ''n1'') (lit ''now'')) False (lit ''u2'') demo_notice = [ToSocket (lit ''u2'') (lit ''post.liked'') demo_stored]"
  by (simp add: send_notice_def server_notify_def demo_notice_def demo_stored_def InsertNotification_def)


text \<open>
  Switching a category off in the settings silences what the indexer reports and nothing else: likes, comments,
  mentions, follows and messages, which the handlers of the backend notify themselves, are stored and sent as before, and so
  is the market that expired.
\<close>

theorem settings_mute_only_the_indexer:
  assumes "c = CategoryOf (notice_kind n)" "save (notice_kind n) (JObj (notice_fields n)) = Some stored"
  shows "c \<noteq> [] \<and> (send_notice (Some (om_set prefs c False)) save push user n = []) = (notice_path_of n = FromService)
    \<and> (notice_path_of n = FromHandler) = (c \<in> {lit ''likes'', lit ''comments'', lit ''mentions'', lit ''follows'', lit ''messages''})"
proof -
  have c: "c \<noteq> []" "(notice_path_of n = FromHandler) = (c \<in> {lit ''likes'', lit ''comments'', lit ''mentions'', lit ''follows'', lit ''messages''})"
    unfolding assms(1) by (cases n; simp add: CategoryOf_def)+
  have off: "NotificationCategoryEnabled (Some (om_set prefs c False)) c = False"
    by (simp add: NotificationCategoryEnabled_def map_of_om_set)
  have sweep: "notice_path_of n = FromSweep \<Longrightarrow> notice_kind n = lit ''market.settled''" by (cases n) simp_all
  have "(send_notice (Some (om_set prefs c False)) save push user n = []) = (notice_path_of n = FromService)"
    using assms(2) sweep c(1) off unfolding assms(1)
    by (cases "notice_path_of n") (simp_all add: send_notice_def server_notify_def service_Notify_def expireDue_notify_def)
  with c show ?thesis by blast
qed

theorem settings_mute_only_the_indexer_witness:
  "send_notice (Some [(lit ''likes'', False)]) (InsertNotification (lit ''n1'') (lit ''now'')) False (lit ''u2'') demo_notice \<noteq> []
   \<and> send_notice (Some [(lit ''markets'', False)]) (InsertNotification (lit ''n1'') (lit ''now'')) False (lit ''u2'') (TakenBet (lit ''m1'')) = []"
  using settings_mute_only_the_indexer [of "lit ''likes''" demo_notice "InsertNotification (lit ''n1'') (lit ''now'')" demo_stored "[]" False "lit ''u2''"]
    settings_mute_only_the_indexer [of "lit ''markets''" "TakenBet (lit ''m1'')" "InsertNotification (lit ''n1'') (lit ''now'')" _ "[]" False "lit ''u2''"]
  by (simp add: demo_notice_def demo_stored_def CategoryOf_def InsertNotification_def)

section \<open>Marking as read\<close>

text \<open>
  Opening the list posts to \<open>/v1/notifications/read\<close> without a body; the app counts its badges again when that
  succeeds. The handler decodes a body first: none at all is an error, fields other than \<open>ids\<close> too (\<open>null\<close> and an
  object without ids mean all). A notification is its id and whether it is read.
\<close>

definition web_mark_read :: "str \<Rightarrow> str option \<Rightarrow> str option \<Rightarrow> str \<Rightarrow> web_call" where
  "web_mark_read url token warp key = \<lparr> wc_api_url = url, wc_method = POST, wc_path = lit ''/v1/notifications/read'',
     wc_body = None, wc_key = None, wc_token = token, wc_warp = warp, wc_fresh_key = key \<rparr>"

definition mob_mark_read :: "str \<Rightarrow> str \<Rightarrow> (nat \<Rightarrow> js_error + str option) \<Rightarrow> (nat \<Rightarrow> str option) \<Rightarrow> (nat \<Rightarrow> int) \<Rightarrow> mob_call" where
  "mob_mark_read url key token warp jitter = \<lparr> ml_api_base = url, ml_method = POST, ml_path = lit ''/v1/notifications/read'',
     ml_body = None, ml_idemKey = Some key, ml_token = token, ml_warp = warp, ml_jitter = jitter \<rparr>"

definition text_of_json :: "json \<Rightarrow> str option" where
  "text_of_json j = json_str (Some j)"

definition decode_mark_read :: "json option \<Rightarrow> str list option" where
  "decode_mark_read body = (case body of
     None \<Rightarrow> None
   | Some JNull \<Rightarrow> Some []
   | Some (JObj fs) \<Rightarrow> if list_all (\<lambda>(k, v). k = lit ''ids'') fs
       then (case map_of fs (lit ''ids'') of None \<Rightarrow> Some [] | Some JNull \<Rightarrow> Some []
             | Some (JArr xs) \<Rightarrow> those (map text_of_json xs) | Some _ \<Rightarrow> None)
       else None
   | Some _ \<Rightarrow> None)"

definition MarkNotificationsRead :: "str list \<Rightarrow> (str \<times> bool) list \<Rightarrow> (str \<times> bool) list" where
  "MarkNotificationsRead ids rows = map (\<lambda>(i, read). (i, read \<or> ids = [] \<or> i \<in> set ids)) rows"

definition handleMarkNotificationsRead :: "(str \<Rightarrow> bool) \<Rightarrow> json option \<Rightarrow> (str \<times> bool) list \<Rightarrow> int \<times> (str \<times> bool) list" where
  "handleMarkNotificationsRead is_uuid body rows = (case decode_mark_read body of
     None \<Rightarrow> (400, rows)
   | Some ids \<Rightarrow> if list_all is_uuid ids then (200, MarkNotificationsRead ids rows) else (400, rows))"

text \<open>
  Opening the list marks nothing as read. The requests of both clients are refused, every notification stays as
  it was, and the badges of the app are not counted again; an empty object as body would have marked all of them.
\<close>

theorem opening_marks_nothing:
  "handleMarkNotificationsRead uuid (rq_body (web_request (web_mark_read url wtoken wwarp wkey))) rows = (400, rows)
   \<and> handleMarkNotificationsRead uuid (rq_body (mob_request (mob_mark_read url key token warp jitter) t w)) rows = (400, rows)
   \<and> \<not> res_ok 400 \<and> refreshBadges (Inl (ApiError 400 body)) session = session
   \<and> handleMarkNotificationsRead uuid (Some (JObj [])) rows = (200, map (\<lambda>(i, _). (i, True)) rows)"
  by (auto simp: handleMarkNotificationsRead_def decode_mark_read_def web_request_def web_mark_read_def mob_request_def
      mob_mark_read_def Let_def res_ok_def refreshBadges_def MarkNotificationsRead_def)

end
