(* ===== verification/Requests.thy ===== *)
theory Requests
  imports Session Mentions
begin

text \<open>
  Forms that make one call at a time: the comments of both clients (\<open>Comments.tsx\<close>, \<open>CommentsList.tsx\<close>), the share
  sheet of the app (\<open>SharePostSheet.tsx\<close>) and the follow requests above the notifications (\<open>notifications/page.tsx\<close>,
  \<open>notifications.tsx\<close>). \<open>one_at_a_time\<close> is what they promise the backend; the request list of the app keeps one
  call per request instead. The rows of the requests are read the way the clients render them.
\<close>

section \<open>One call at a time\<close>

text \<open>A run of a form: the events of the user and the answers, and the calls it made.\<close>

fun run_calls :: "('e \<Rightarrow> 's \<Rightarrow> 's \<times> 'c list) \<Rightarrow> 'e list \<Rightarrow> 's \<Rightarrow> 's \<times> 'c list" where
  "run_calls act [] s = (s, [])"
| "run_calls act (e # es) s = (let (s', c) = act e s; (s'', cs) = run_calls act es s' in (s'', c @ cs))"

lemma run_calls_Cons [simp]:
  "fst (run_calls act (e # es) s) = fst (run_calls act es (fst (act e s)))"
  "snd (run_calls act (e # es) s) = snd (act e s) @ snd (run_calls act es (fst (act e s)))"
  by (simp_all add: Let_def split: prod.split)

declare run_calls.simps(2) [simp del]

lemma run_calls_append [simp]:
  "fst (run_calls act (es @ es') s) = fst (run_calls act es' (fst (run_calls act es s)))"
  "snd (run_calls act (es @ es') s) = snd (run_calls act es s) @ snd (run_calls act es' (fst (run_calls act es s)))"
  by (induction es arbitrary: s) simp_all

lemma run_calls_invariant:
  assumes "P s" "\<And>e s. P s \<Longrightarrow> P (fst (act e s)) \<and> (\<forall>c \<in> set (snd (act e s)). Q c)"
  shows "P (fst (run_calls act es s)) \<and> (\<forall>c \<in> set (snd (run_calls act es s)). Q c)"
  using assms(1)
proof (induction es arbitrary: s)
  case (Cons e es)
  from assms(2) [OF Cons.prems, of e] Cons.IH [of "fst (act e s)"] show ?case by auto
qed simp

text \<open>The events that count are the \<open>proper\<close> ones; the forms differ in when they are busy.\<close>

locale one_at_a_time =
  fixes busy :: "'s \<Rightarrow> bool"
    and act :: "'e \<Rightarrow> 's \<Rightarrow> 's \<times> 'c list"
    and answer :: "'e \<Rightarrow> bool"
    and proper :: "'e \<Rightarrow> bool"
  assumes call: "proper e \<Longrightarrow> snd (act e s) \<noteq> [] \<Longrightarrow>
      \<not> busy s \<and> busy (fst (act e s)) \<and> length (snd (act e s)) = 1 \<and> \<not> answer e"
    and no_call: "proper e \<Longrightarrow> snd (act e s) = [] \<Longrightarrow> busy (fst (act e s)) = (busy s \<and> \<not> answer e)"
begin

lemma step_count:
  "proper e \<Longrightarrow> length (snd (act e s)) + of_bool (busy s) \<le> of_bool (answer e) + (of_bool (busy (fst (act e s))) :: nat)"
  using call [of e s] no_call [of e s] by (cases "snd (act e s) = []") simp_all

lemma calls_and_answers:
  "list_all proper es \<Longrightarrow> length (snd (run_calls act es s)) + of_bool (busy s)
    \<le> length (filter answer es) + (of_bool (busy (fst (run_calls act es s))) :: nat)"
proof (induction es arbitrary: s)
  case (Cons e es)
  show ?case using Cons.IH [of "fst (act e s)"] step_count [of e s] Cons.prems by (cases "answer e") simp_all
qed simp

text \<open>Hence there is never more than one call under way.\<close>

lemma no_overlap: "list_all proper es \<Longrightarrow> length (snd (run_calls act es s)) \<le> length (filter answer es) + 1"
  using calls_and_answers [of es s] by (cases "busy s"; cases "busy (fst (run_calls act es s))") simp_all

end

text \<open>A form for something that can be done once: when the backend has accepted it, the form is done.\<close>

locale one_shot = one_at_a_time busy act answer proper
  for busy :: "'s \<Rightarrow> bool" and act :: "'e \<Rightarrow> 's \<Rightarrow> 's \<times> 'c list" and answer proper :: "'e \<Rightarrow> bool" +
  fixes finished :: "'s \<Rightarrow> bool"
    and accepted :: "'e \<Rightarrow> bool"
  assumes finished_silent: "finished s \<Longrightarrow> snd (act e s) = []"
    and finished_stays: "finished s \<Longrightarrow> finished (fst (act e s))"
    and accepted_finishes: "busy s \<Longrightarrow> accepted e \<Longrightarrow> finished (fst (act e s))"
begin

lemma finished_run: "finished s \<Longrightarrow> snd (run_calls act es s) = []"
  by (induction es arbitrary: s) (simp_all add: finished_silent finished_stays)

lemma accepted_once: "busy (fst (run_calls act es s)) \<Longrightarrow> accepted e \<Longrightarrow>
    snd (run_calls act (es @ e # es') s) = snd (run_calls act es s) @ snd (act e (fst (run_calls act es s)))"
  by (simp add: finished_run accepted_finishes)

end

section \<open>Comments\<close>

record comment_post =
  cp_body :: str
  cp_parent_id :: "str option"
  cp_mentions :: "mention_input list option"

record web_comment_form =
  cf_body :: str
  cf_replyTo :: "str option"
  cf_sending :: bool

record mob_comment_form = web_comment_form +
  cf_drafts :: "draft_mention list"

definition web_comment_form0 :: web_comment_form where
  "web_comment_form0 = \<lparr> cf_body = [], cf_replyTo = None, cf_sending = False \<rparr>"

definition mob_comment_form0 :: mob_comment_form where
  "mob_comment_form0 = \<lparr> cf_body = [], cf_replyTo = None, cf_sending = False, cf_drafts = [] \<rparr>"

datatype comment_event = TypeBody str | PickDrafts "draft_mention list" | ReplyTo "str option" | SendComment | CommentAnswered bool

text \<open>The web form sends what is typed, the app the trimmed text with the mentions found in it.\<close>

fun web_comment_act :: "comment_event \<Rightarrow> web_comment_form \<Rightarrow> web_comment_form \<times> comment_post list" where
  "web_comment_act (TypeBody t) s = (s\<lparr>cf_body := t\<rparr>, [])"
| "web_comment_act (PickDrafts _) s = (s, [])"
| "web_comment_act (ReplyTo c) s = (s\<lparr>cf_replyTo := c\<rparr>, [])"
| "web_comment_act SendComment s = (if js_trim (cf_body s) \<noteq> [] \<and> \<not> cf_sending s
     then (s\<lparr>cf_sending := True\<rparr>, [\<lparr> cp_body = cf_body s, cp_parent_id = cf_replyTo s, cp_mentions = None \<rparr>]) else (s, []))"
| "web_comment_act (CommentAnswered ok) s = (if \<not> cf_sending s then (s, [])
     else (if ok then s\<lparr>cf_body := [], cf_replyTo := None, cf_sending := False\<rparr> else s\<lparr>cf_sending := False\<rparr>, []))"

fun mob_comment_act :: "comment_event \<Rightarrow> mob_comment_form \<Rightarrow> mob_comment_form \<times> comment_post list" where
  "mob_comment_act (TypeBody t) s = (s\<lparr>cf_body := t\<rparr>, [])"
| "mob_comment_act (PickDrafts ds) s = (s\<lparr>cf_drafts := ds\<rparr>, [])"
| "mob_comment_act (ReplyTo c) s = (s\<lparr>cf_replyTo := c\<rparr>, [])"
| "mob_comment_act SendComment s = (let t = js_trim (cf_body s) in
     if t = [] \<or> cf_sending s then (s, [])
     else (s\<lparr>cf_sending := True\<rparr>,
       [\<lparr> cp_body = t, cp_parent_id = cf_replyTo s, cp_mentions = Some (computeMentions t (cf_drafts s)) \<rparr>]))"
| "mob_comment_act (CommentAnswered ok) s = (if \<not> cf_sending s then (s, [])
     else (if ok then s\<lparr>cf_body := [], cf_drafts := [], cf_replyTo := None, cf_sending := False\<rparr> else s\<lparr>cf_sending := False\<rparr>, []))"

fun is_comment_answer :: "comment_event \<Rightarrow> bool" where
  "is_comment_answer (CommentAnswered _) = True"
| "is_comment_answer _ = False"

interpretation web_comments: one_at_a_time cf_sending web_comment_act is_comment_answer "\<lambda>_. True"
proof
  fix e s
  show "snd (web_comment_act e s) \<noteq> [] \<Longrightarrow> \<not> cf_sending s \<and> cf_sending (fst (web_comment_act e s))
      \<and> length (snd (web_comment_act e s)) = 1 \<and> \<not> is_comment_answer e"
    "snd (web_comment_act e s) = [] \<Longrightarrow> cf_sending (fst (web_comment_act e s)) = (cf_sending s \<and> \<not> is_comment_answer e)"
    by (cases e; auto split: if_splits)+
qed

interpretation mob_comments: one_at_a_time cf_sending mob_comment_act is_comment_answer "\<lambda>_. True"
proof
  fix e s
  show "snd (mob_comment_act e s) \<noteq> [] \<Longrightarrow> \<not> cf_sending s \<and> cf_sending (fst (mob_comment_act e s))
      \<and> length (snd (mob_comment_act e s)) = 1 \<and> \<not> is_comment_answer e"
    "snd (mob_comment_act e s) = [] \<Longrightarrow> cf_sending (fst (mob_comment_act e s)) = (cf_sending s \<and> \<not> is_comment_answer e)"
    by (cases e; auto simp: Let_def split: if_splits)+
qed

section \<open>The share sheet\<close>

text \<open>The conversations it offers, the partner it names, and the sends; \<open>sentTo\<close> is a set in insertion order.\<close>

definition share_targets :: "mob_conversation list \<Rightarrow> mob_conversation list" where
  "share_targets cs = filter (\<lambda>c. mcv_kind c = Dm) cs"

definition otherOf :: "str option \<Rightarrow> mob_conversation \<Rightarrow> mob_conversation_member option" where
  "otherOf me c = (case List.find (\<lambda>m. Some (mup_id m) \<noteq> me) (mcv_members c) of
     Some m \<Rightarrow> Some m | None \<Rightarrow> (case mcv_members c of [] \<Rightarrow> None | m # _ \<Rightarrow> Some m))"

record share_sheet =
  sh_sentTo :: "str list"
  sh_busy :: "str option"

definition share_sheet0 :: share_sheet where
  "share_sheet0 = \<lparr> sh_sentTo = [], sh_busy = None \<rparr>"

datatype share_event = SendTo str | ShareAnswered bool

fun share_act :: "share_event \<Rightarrow> share_sheet \<Rightarrow> share_sheet \<times> str list" where
  "share_act (SendTo c) s = (if c \<in> set (sh_sentTo s) \<or> non_empty (sh_busy s) \<noteq> None then (s, [])
     else (s\<lparr>sh_busy := Some c\<rparr>, [c]))"
| "share_act (ShareAnswered ok) s = (case sh_busy s of None \<Rightarrow> (s, [])
     | Some c \<Rightarrow> (if ok then s\<lparr>sh_sentTo := os_add (sh_sentTo s) c, sh_busy := None\<rparr> else s\<lparr>sh_busy := None\<rparr>, []))"

fun is_share_answer :: "share_event \<Rightarrow> bool" where
  "is_share_answer (ShareAnswered _) = True"
| "is_share_answer (SendTo _) = False"

text \<open>The ids of conversations are never empty; an empty one would not count as busy.\<close>

interpretation shares: one_at_a_time "\<lambda>s. non_empty (sh_busy s) \<noteq> None" share_act is_share_answer "\<lambda>e. e \<noteq> SendTo []"
proof
  fix e s
  show "e \<noteq> SendTo [] \<Longrightarrow> snd (share_act e s) \<noteq> [] \<Longrightarrow> \<not> non_empty (sh_busy s) \<noteq> None \<and> non_empty (sh_busy (fst (share_act e s))) \<noteq> None
      \<and> length (snd (share_act e s)) = 1 \<and> \<not> is_share_answer e"
    by (cases e) (auto simp: non_empty_def split: if_splits option.splits)
  show "e \<noteq> SendTo [] \<Longrightarrow> snd (share_act e s) = [] \<Longrightarrow> (non_empty (sh_busy (fst (share_act e s))) \<noteq> None)
      = (non_empty (sh_busy s) \<noteq> None \<and> \<not> is_share_answer e)"
    by (cases e) (auto simp: non_empty_def split: if_splits option.splits)
qed

section \<open>Follow requests\<close>

datatype request_action = Approve | Deny

datatype request_event = Decide str request_action | RequestAnswered bool

text \<open>The web list has one mutation: while it is pending every button is disabled.\<close>

fun web_request_act :: "request_event \<Rightarrow> bool \<Rightarrow> bool \<times> (str \<times> request_action) list" where
  "web_request_act (Decide i a) pending = (if pending then (pending, []) else (True, [(i, a)]))"
| "web_request_act (RequestAnswered _) pending = (False, [])"

fun is_request_answer :: "request_event \<Rightarrow> bool" where
  "is_request_answer (RequestAnswered _) = True"
| "is_request_answer (Decide _ _) = False"

interpretation web_requests: one_at_a_time "\<lambda>pending. pending" web_request_act is_request_answer "\<lambda>_. True"
  by (unfold_locales; rename_tac e s; case_tac e; case_tac s) simp_all

text \<open>
  The app hides a request as soon as it is decided and shows it again when the backend refuses. The calls under way
  are listed in the order they were made; an answer ends one of them.
\<close>

record request_list =
  rq_hidden :: "str list"
  rq_calls :: "(str \<times> request_action) list"

definition request_list0 :: request_list where
  "request_list0 = \<lparr> rq_hidden = [], rq_calls = [] \<rparr>"

definition requests_visible :: "mob_follow_request list \<Rightarrow> request_list \<Rightarrow> mob_follow_request list" where
  "requests_visible requests s = filter (\<lambda>r. mfr_id r \<notin> set (rq_hidden s)) requests"

definition request_act :: "str \<Rightarrow> request_action \<Rightarrow> request_list \<Rightarrow> request_list" where
  "request_act i a s = s\<lparr>rq_hidden := os_add (rq_hidden s) i, rq_calls := rq_calls s @ [(i, a)]\<rparr>"

definition request_answer :: "nat \<Rightarrow> bool \<Rightarrow> request_list \<Rightarrow> request_list" where
  "request_answer k ok s = (if k < length (rq_calls s)
     then s\<lparr>rq_calls := take k (rq_calls s) @ drop (Suc k) (rq_calls s),
            rq_hidden := (if ok then rq_hidden s else os_del (rq_hidden s) (fst (rq_calls s ! k)))\<rparr>
     else s)"

text \<open>What \<open>/v1/me/follow-requests\<close> answers (\<open>structs.FollowRequest\<close>), and what a row reads from it.\<close>

definition backend_request :: "str \<Rightarrow> json \<Rightarrow> str \<Rightarrow> json" where
  "backend_request i follower created_at =
     JObj [(lit ''id'', JStr i), (lit ''follower'', follower), (lit ''created_at'', JStr created_at)]"

definition read_member :: "string \<Rightarrow> string \<Rightarrow> json \<Rightarrow> js_error + json option" where
  "read_member obj field r = (case json_field r (lit obj) of None \<Rightarrow> Inl Thrown | Some JNull \<Rightarrow> Inl Thrown
     | Some u \<Rightarrow> Inr (json_field u (lit field)))"

definition web_request_row :: "json \<Rightarrow> js_error + json option" where
  "web_request_row r = read_member ''requester'' ''username'' r"

definition mob_request_row :: "json \<Rightarrow> js_error + json option" where
  "mob_request_row r = (case read_member ''user'' ''avatar_url'' r of Inl e \<Rightarrow> Inl e | Inr _ \<Rightarrow> read_member ''user'' ''username'' r)"

section \<open>Properties of the forms\<close>

definition forms_related :: "web_comment_form \<Rightarrow> mob_comment_form \<Rightarrow> bool" where
  "forms_related w m \<longleftrightarrow> cf_body w = cf_body m \<and> cf_replyTo w = cf_replyTo m \<and> cf_sending w = cf_sending m"

definition same_comment :: "comment_post \<Rightarrow> comment_post \<Rightarrow> bool" where
  "same_comment w m \<longleftrightarrow> js_trim (cp_body w) = cp_body m \<and> cp_parent_id w = cp_parent_id m \<and> cp_body m \<noteq> []"

lemma comment_step_related:
  "forms_related w m \<Longrightarrow> forms_related (fst (web_comment_act e w)) (fst (mob_comment_act e m))
    \<and> list_all2 same_comment (snd (web_comment_act e w)) (snd (mob_comment_act e m))"
  by (cases e) (auto simp: forms_related_def same_comment_def Let_def)

lemma comment_run_related:
  "forms_related w m \<Longrightarrow> forms_related (fst (run_calls web_comment_act es w)) (fst (run_calls mob_comment_act es m))
    \<and> list_all2 same_comment (snd (run_calls web_comment_act es w)) (snd (run_calls mob_comment_act es m))"
proof (induction es arbitrary: w m)
  case (Cons e es)
  show ?case
    using comment_step_related [OF Cons.prems, of e] Cons.IH [of "fst (web_comment_act e w)" "fst (mob_comment_act e m)"]
    by (simp add: list_all2_appendI)
qed simp

text \<open>
  C36: The comment forms of the two clients post the same: in every run of typing, replying, sending and answers they
  make call for call the same comment, under the same parent, the app trimmed; no comment is blank, and there is
  never a second call while one is under way.
\<close>

theorem comment_forms_agree:
  "list_all2 same_comment (snd (run_calls web_comment_act es web_comment_form0)) (snd (run_calls mob_comment_act es mob_comment_form0))
   \<and> length (snd (run_calls web_comment_act es web_comment_form0)) \<le> length (filter is_comment_answer es) + 1
   \<and> length (snd (run_calls mob_comment_act es mob_comment_form0)) \<le> length (filter is_comment_answer es) + 1"
proof -
  have "forms_related web_comment_form0 mob_comment_form0"
    by (simp add: forms_related_def web_comment_form0_def mob_comment_form0_def)
  moreover have "list_all (\<lambda>_ :: comment_event. True) es" by (simp add: list_all_iff)
  ultimately show ?thesis
    using comment_run_related [of web_comment_form0 mob_comment_form0 es] web_comments.no_overlap [of es] mob_comments.no_overlap [of es]
    by blast
qed

lemma share_step:
  assumes "distinct (sh_sentTo s)"
  shows "distinct (sh_sentTo (fst (share_act e s)))" "set (sh_sentTo s) \<subseteq> set (sh_sentTo (fst (share_act e s)))"
    "set (snd (share_act e s)) \<inter> set (sh_sentTo s) = {}"
  using assms by (cases e; auto split: option.splits)+

lemma share_run:
  assumes "distinct (sh_sentTo s)"
  shows "distinct (sh_sentTo (fst (run_calls share_act es s))) \<and> set (sh_sentTo s) \<subseteq> set (sh_sentTo (fst (run_calls share_act es s)))
    \<and> set (snd (run_calls share_act es s)) \<inter> set (sh_sentTo s) = {}"
  using assms
proof (induction es arbitrary: s)
  case (Cons e es)
  from Cons.IH [OF share_step(1) [OF Cons.prems, of e]] share_step [OF Cons.prems, of e] show ?case by auto
qed simp

lemma share_sent_was_called:
  "set (sh_sentTo (fst (run_calls share_act es s))) \<union> set_option (sh_busy (fst (run_calls share_act es s)))
    \<subseteq> set (sh_sentTo s) \<union> set_option (sh_busy s) \<union> set (snd (run_calls share_act es s))"
proof (induction es arbitrary: s)
  case (Cons e es)
  have "set (sh_sentTo (fst (share_act e s))) \<union> set_option (sh_busy (fst (share_act e s)))
      \<subseteq> set (sh_sentTo s) \<union> set_option (sh_busy s) \<union> set (snd (share_act e s))"
    by (cases e) (auto split: option.splits)
  with Cons.IH [of "fst (share_act e s)"] show ?case by auto
qed simp

text \<open>
  A post is shared with a conversation once: the sheet sends to one conversation at a time, those it shows as sent
  have been sent to, and to these no later tap sends again, whatever was refused in between.
\<close>

theorem post_shared_once:
  assumes "list_all (\<lambda>e. e \<noteq> SendTo []) es" "s = fst (run_calls share_act es share_sheet0)" "c \<in> set (sh_sentTo s)"
  shows "length (snd (run_calls share_act es share_sheet0)) \<le> length (filter is_share_answer es) + 1
    \<and> distinct (sh_sentTo s) \<and> c \<in> set (snd (run_calls share_act es share_sheet0))
    \<and> c \<notin> set (snd (run_calls share_act es' s))"
proof -
  have "distinct (sh_sentTo share_sheet0)" by (simp add: share_sheet0_def)
  from share_run [OF this, of es] have d: "distinct (sh_sentTo s)" unfolding assms(2) by blast
  show ?thesis
    using shares.no_overlap [OF assms(1)] d share_run [OF d, of es'] assms(3) share_sent_was_called [of es share_sheet0]
    unfolding assms(2) by (auto simp: share_sheet0_def)
qed

theorem post_shared_once_witness:
  "snd (run_calls share_act [SendTo (lit ''a''), ShareAnswered True, SendTo (lit ''a''), SendTo (lit ''b'')] share_sheet0)
     = [lit ''a'', lit ''b'']
   \<and> lit ''a'' \<notin> set (snd (run_calls share_act [SendTo (lit ''a'')] (fst (run_calls share_act [SendTo (lit ''a''), ShareAnswered True] share_sheet0))))"
proof -
  let ?es = "[SendTo (lit ''a''), ShareAnswered True]"
  have s: "lit ''a'' \<in> set (sh_sentTo (fst (run_calls share_act ?es share_sheet0)))" by (simp add: share_sheet0_def non_empty_def)
  have p: "list_all (\<lambda>e. e \<noteq> SendTo []) ?es" by simp
  from post_shared_once [OF p refl s, of "[SendTo (lit ''a'')]"] show ?thesis by (simp add: share_sheet0_def non_empty_def)
qed

text \<open>A tap decides a request that is shown.\<close>

datatype row_event = TapRow nat request_action | RowAnswered nat bool

fun request_step :: "mob_follow_request list \<Rightarrow> row_event \<Rightarrow> request_list \<Rightarrow> request_list" where
  "request_step requests (TapRow k a) s = (if k < length (requests_visible requests s)
     then request_act (mfr_id (requests_visible requests s ! k)) a s else s)"
| "request_step requests (RowAnswered k ok) s = request_answer k ok s"

definition requests_ok :: "request_list \<Rightarrow> bool" where
  "requests_ok s \<longleftrightarrow> distinct (map fst (rq_calls s)) \<and> set (map fst (rq_calls s)) \<subseteq> set (rq_hidden s)"

lemma visible_not_hidden:
  assumes "k < length (requests_visible requests s)"
  shows "mfr_id (requests_visible requests s ! k) \<notin> set (rq_hidden s)"
  using nth_mem [OF assms] by (simp add: requests_visible_def)

lemma distinct_without:
  assumes "distinct xs" "k < length xs"
  shows "xs ! k \<notin> set (take k xs @ drop (Suc k) xs) \<and> distinct (take k xs @ drop (Suc k) xs)
    \<and> set (take k xs @ drop (Suc k) xs) \<subseteq> set xs"
proof -
  have "distinct (take k xs @ xs ! k # drop (Suc k) xs)" using assms by (simp add: id_take_nth_drop [symmetric])
  then show ?thesis using set_take_subset [of k xs] set_drop_subset [of "Suc k" xs] by auto
qed

lemma requests_step_ok: "requests_ok s \<Longrightarrow> requests_ok (request_step requests e s)"
proof (cases e)
  case (TapRow k a)
  assume "requests_ok s"
  with TapRow visible_not_hidden [of k requests s] show ?thesis by (auto simp: requests_ok_def request_act_def)
next
  case (RowAnswered k ok)
  assume ok: "requests_ok s"
  let ?ids = "map fst (rq_calls s)" and ?rest = "take k (map fst (rq_calls s)) @ drop (Suc k) (map fst (rq_calls s))"
  show ?thesis
  proof (cases "k < length (rq_calls s)")
    case True
    let ?s = "request_step requests e s"
    have s': "map fst (rq_calls ?s) = ?rest" "rq_hidden ?s = (if ok then rq_hidden s else os_del (rq_hidden s) (?ids ! k))"
      using True RowAnswered by (simp_all add: request_answer_def take_map drop_map)
    have ids: "distinct ?ids" "set ?ids \<subseteq> set (rq_hidden s)" using ok by (simp_all only: requests_ok_def)
    have "k < length ?ids" using True by simp
    from distinct_without [OF ids(1) this] ids(2)
    have r: "?ids ! k \<notin> set ?rest" "distinct ?rest" "set ?rest \<subseteq> set (rq_hidden s)" by blast+
    have "set ?rest \<subseteq> set (rq_hidden ?s)" using r(1,3) unfolding s'(2) by (cases ok) auto
    with r(2) show ?thesis unfolding requests_ok_def s'(1) by blast
  qed (use ok RowAnswered in \<open>simp add: request_answer_def\<close>)
qed

text \<open>
  C32: A follow request is decided once. Whatever is tapped and however the answers arrive, the app has at most one call
  under way for a request, a request with a call under way is not shown, and one the backend refused is shown again.
\<close>

theorem request_decided_once:
  assumes "s = fold (request_step requests) es request_list0" "r \<in> set requests"
  shows "distinct (map fst (rq_calls s)) \<and> (r \<in> set (requests_visible requests s) \<longrightarrow> mfr_id r \<notin> set (map fst (rq_calls s)))
    \<and> (k < length (rq_calls s) \<and> fst (rq_calls s ! k) = mfr_id r \<longrightarrow> r \<in> set (requests_visible requests (request_step requests (RowAnswered k False) s)))"
proof -
  have "requests_ok (fold (request_step requests) es t)" if "requests_ok t" for t
    using that by (induction es arbitrary: t) (simp_all add: requests_step_ok)
  from this [of request_list0] have "requests_ok s" unfolding assms(1) by (simp add: requests_ok_def request_list0_def)
  then show ?thesis using assms(2) by (auto simp: requests_ok_def requests_visible_def request_answer_def)
qed

definition demo_follower :: mob_follow_request where
  "demo_follower = \<lparr> mfr_id = lit ''r1'', mfr_user = undefined, mfr_created_at = [] \<rparr>"

theorem request_decided_once_witness:
  "rq_calls (fold (request_step [demo_follower]) [TapRow 0 Approve, TapRow 0 Deny] request_list0) = [(lit ''r1'', Approve)]
   \<and> requests_visible [demo_follower] (fold (request_step [demo_follower]) [TapRow 0 Approve, RowAnswered 0 False] request_list0) = [demo_follower]"
proof -
  have i: "mfr_id demo_follower = lit ''r1''" by (simp add: demo_follower_def)
  note s = requests_visible_def request_act_def request_list0_def os_add_def i
  have c: "rq_calls (fold (request_step [demo_follower]) [TapRow 0 Approve, TapRow 0 Deny] request_list0) = [(lit ''r1'', Approve)]"
    "fold (request_step [demo_follower]) [TapRow 0 Approve] request_list0 = \<lparr> rq_hidden = [lit ''r1''], rq_calls = [(lit ''r1'', Approve)] \<rparr>"
    by (simp_all add: s)
  have "demo_follower \<in> set [demo_follower]" by simp
  from request_decided_once [OF refl this, of "[TapRow 0 Approve]" 0]
  have "demo_follower \<in> set (requests_visible [demo_follower] (fold (request_step [demo_follower]) [TapRow 0 Approve, RowAnswered 0 False] request_list0))"
    unfolding c(2) by (simp add: i s)
  then show ?thesis using c(1) by (simp add: requests_visible_def split: if_splits)
qed

text \<open>
  No follow request of the backend can be shown: it names the user as \<open>follower\<close>, and the rows of both clients read
  a member the answer does not have, so that rendering the list throws.
\<close>

theorem backend_requests_break_rows:
  "web_request_row (backend_request i follower t) = Inl Thrown \<and> mob_request_row (backend_request i follower t) = Inl Thrown"
  by (simp add: web_request_row_def mob_request_row_def read_member_def backend_request_def)

end
