(* ===== verification/MarketPages.thy ===== *)
theory MarketPages
  imports Inbox Requests MobileTickets
begin

text \<open>
  The pages of one market (\<open>market/[id].tsx\<close> of the app, \<open>markets/[id]/page.tsx\<close> of the web) and what they show of
  its settlement (\<open>Resolution.tsx\<close>, \<open>MarketDetails.tsx\<close> of both): prices and status over the book channel, against
  what the indexer of the backend publishes; redeeming a position, against what the contract pays; cancelling an
  order; and the source of the settlement rule on display.
\<close>

section \<open>Live prices and status\<close>

text \<open>
  What the page of the app has learned since it was opened: a partial market, spread over the loaded one. A field
  that is absent lets the loaded one through; a field that is there wins, also when it is \<open>undefined\<close> (\<open>Some None\<close>).
\<close>

record live_fields =
  lv_status :: "market_status option"
  lv_direction :: "bool option option"
  lv_yes :: "int option option"
  lv_no :: "int option option"

definition live0 :: live_fields where
  "live0 = \<lparr> lv_status = None, lv_direction = None, lv_yes = None, lv_no = None \<rparr>"

definition field_value :: "'a option option \<Rightarrow> 'a option" where
  "field_value v = or_else v None"

fun detail_on_book :: "ws_event \<Rightarrow> live_fields \<Rightarrow> live_fields" where
  "detail_on_book (EvBookDelta _ _ _ _ yp np) m =
     m\<lparr>lv_yes := Some (alt_opt yp (field_value (lv_yes m))), lv_no := Some (alt_opt np (field_value (lv_no m)))\<rparr>"
| "detail_on_book (EvMarketUpdate _ _ status dir _) m =
     m\<lparr>lv_status := Some status, lv_direction := Some (alt_opt dir (field_value (lv_direction m)))\<rparr>"
| "detail_on_book _ m = m"

definition detail_refetches :: "ws_event \<Rightarrow> bool" where
  "detail_refetches e = (case e of EvMarketUpdate _ _ _ _ _ \<Rightarrow> True | _ \<Rightarrow> False)"

fun detail_market :: "live_fields \<Rightarrow> mob_market \<Rightarrow> mob_market" where
  "detail_market l (MobMarket a b cr t q sq ca ru so se st di y n v ex rf cd pc cc mp) =
     MobMarket a b cr t q sq ca ru so se (or_else (lv_status l) st) (or_else (lv_direction l) di)
       (or_else (lv_yes l) y) (or_else (lv_no l) n) v ex rf cd pc cc mp"

definition market_tradable :: "market_status \<Rightarrow> bool" where
  "market_tradable st \<longleftrightarrow> st = OPEN \<or> st = MATCHED \<or> st = SETTLING"

definition detail_microcopy :: "mob_me option \<Rightarrow> mob_market \<Rightarrow> str option" where
  "detail_microcopy me m = (case me of None \<Rightarrow> None
     | Some u \<Rightarrow> if mup_id (mmk_creator m) = mme_id u then CREATOR_MICROCOPY (mmk_status m) else None)"

text \<open>The page of the web reads the market again on a \<open>market.update\<close> and ignores every other frame.\<close>

definition web_detail_on_frame :: "ws_frame \<Rightarrow> shell_effect list" where
  "web_detail_on_frame frame = (if frame_type frame = lit ''market.update'' then [Invalidate (lit ''market'')] else [])"

text \<open>
  What the backend publishes on the book channel: the asks after a change of the book (the price a taker pays
  against the best opposite bid), the trades, and the changes of status, the last one by the expiry sweep.
\<close>

datatype book_news =
    AsksChanged "int option" "int option"
  | TradeMatched int int
  | BecameMatched
  | BecameSettling
  | BecameSettled bool
  | Expired

definition ask_of_bid :: "int option \<Rightarrow> int option" where
  "ask_of_bid bid = map_option (\<lambda>b. 100 - b) bid"

definition refreshBook :: "int option \<Rightarrow> int option \<Rightarrow> book_news" where
  "refreshBook bestYesBid bestNoBid = AsksChanged (ask_of_bid bestNoBid) (ask_of_bid bestYesBid)"

fun news_type :: "book_news \<Rightarrow> str" where
  "news_type (AsksChanged _ _) = lit ''book.delta''"
| "news_type (TradeMatched _ _) = lit ''trade''"
| "news_type BecameMatched = lit ''market.status''"
| "news_type BecameSettling = lit ''market.status''"
| "news_type (BecameSettled _) = lit ''market.status''"
| "news_type Expired = lit ''market.update''"

section \<open>The prices on display\<close>

definition yes_deltas :: "ws_event list \<Rightarrow> int option list" where
  "yes_deltas es = concat (map (\<lambda>e. case e of EvBookDelta _ _ _ _ yp _ \<Rightarrow> [yp] | _ \<Rightarrow> []) es)"

definition no_deltas :: "ws_event list \<Rightarrow> int option list" where
  "no_deltas es = concat (map (\<lambda>e. case e of EvBookDelta _ _ _ _ _ np \<Rightarrow> [np] | _ \<Rightarrow> []) es)"

text \<open>The last price that was not null, if any.\<close>

definition last_price :: "int option list \<Rightarrow> int option" where
  "last_price ps = or_else (List.find (\<lambda>p. p \<noteq> None) (rev ps)) None"

lemma last_price_snoc [simp]: "last_price (ps @ [p]) = alt_opt p (last_price ps)"
  by (cases p) (simp_all add: last_price_def)

lemma last_price_Nil [simp]: "last_price [] = None"
  by (simp add: last_price_def)

lemma deltas_snoc:
  "yes_deltas (es @ [e]) = yes_deltas es @ (case e of EvBookDelta _ _ _ _ yp _ \<Rightarrow> [yp] | _ \<Rightarrow> [])"
  "no_deltas (es @ [e]) = no_deltas es @ (case e of EvBookDelta _ _ _ _ _ np \<Rightarrow> [np] | _ \<Rightarrow> [])"
  by (simp_all add: yes_deltas_def no_deltas_def)

lemma detail_run:
  "lv_yes (fold detail_on_book es live0) = (if yes_deltas es = [] then None else Some (last_price (yes_deltas es)))
   \<and> lv_no (fold detail_on_book es live0) = (if no_deltas es = [] then None else Some (last_price (no_deltas es)))"
proof (induction es rule: rev_induct)
  case (snoc e es)
  then show ?case by (cases e) (auto simp: deltas_snoc field_value_def)
qed (simp add: live0_def yes_deltas_def no_deltas_def)

lemma alt_opt_assoc: "alt_opt (alt_opt a b) c = alt_opt a (alt_opt b c)"
  by (cases a) simp_all

lemma card_step:
  "mmk_yes_price_cents (live_market e m) = (case e of EvBookDelta _ _ _ _ yp _ \<Rightarrow> alt_opt yp (mmk_yes_price_cents m) | _ \<Rightarrow> mmk_yes_price_cents m)"
  "mmk_no_price_cents (live_market e m) = (case e of EvBookDelta _ _ _ _ _ np \<Rightarrow> alt_opt np (mmk_no_price_cents m) | _ \<Rightarrow> mmk_no_price_cents m)"
  by (cases e; cases m; simp)+

lemma card_run:
  "mmk_yes_price_cents (fold live_market es m) = alt_opt (last_price (yes_deltas es)) (mmk_yes_price_cents m)
   \<and> mmk_no_price_cents (fold live_market es m) = alt_opt (last_price (no_deltas es)) (mmk_no_price_cents m)"
proof (induction es rule: rev_induct)
  case (snoc e es)
  then show ?case by (cases e) (auto simp: deltas_snoc card_step alt_opt_assoc)
qed (simp add: yes_deltas_def no_deltas_def)

lemma detail_prices:
  "mmk_yes_price_cents (detail_market l m) = or_else (lv_yes l) (mmk_yes_price_cents m)"
  "mmk_no_price_cents (detail_market l m) = or_else (lv_no l) (mmk_no_price_cents m)"
  by (cases m; simp)+


text \<open>
  Settlement does not arrive live: of what the backend publishes about a market only the expiry makes the page of the
  web read it again; in the app only new asks and the expiry change anything. That bets were matched, that the
  market is settling or that it is settled is published under a type neither client knows.
\<close>

theorem settlement_not_live:
  assumes "frame_type F = news_type n"
  shows "(web_detail_on_frame F \<noteq> []) = (n = Expired)
    \<and> (event_type e = news_type n \<longrightarrow> n = Expired \<or> (\<exists>y no. n = AsksChanged y no))"
proof -
  have "lit ''book.delta'' \<noteq> lit ''market.update''" by simp
  then have "(news_type n = lit ''market.update'') = (n = Expired)" by (cases n) simp_all
  moreover have "event_type e = news_type n \<Longrightarrow> n = Expired \<or> (\<exists>y no. n = AsksChanged y no)"
    by (cases n; cases e; simp)
  ultimately show ?thesis using assms by (simp add: web_detail_on_frame_def)
qed

theorem settlement_not_live_witness:
  "web_detail_on_frame (OtherFrame (lit ''book:m1'') (lit ''market.status'') JNull) = []
   \<and> web_detail_on_frame (MarketUpdate (lit ''book:m1'') (lit ''m1'') SETTLED None) \<noteq> []"
  using settlement_not_live [of "OtherFrame (lit ''book:m1'') (lit ''market.status'') JNull" "BecameSettled True"]
    settlement_not_live [of "MarketUpdate (lit ''book:m1'') (lit ''m1'') SETTLED None" Expired]
  by simp

section \<open>Redeeming\<close>

text \<open>
  The shares the app offers to redeem, with the position rows it loaded, and the button of the web, which is there
  for every position in a settled market.
\<close>

definition winningShares :: "mob_market \<Rightarrow> mob_position list \<Rightarrow> int" where
  "winningShares m ps = (case mmk_direction m of
     Some d \<Rightarrow> if mmk_status m = SETTLED
       then sum_list (map mps_shares (filter (\<lambda>p. mps_side p = (if d then Yes else No)) ps)) else 0
   | None \<Rightarrow> 0)"

definition web_redeemable :: "market \<Rightarrow> position list \<Rightarrow> bool" where
  "web_redeemable m ps \<longleftrightarrow> ps \<noteq> [] \<and> mk_status m = SETTLED"

record redeem_form =
  rf_redeeming :: bool
  rf_redeemed :: bool

definition redeem_form0 :: redeem_form where
  "redeem_form0 = \<lparr> rf_redeeming = False, rf_redeemed = False \<rparr>"

datatype redeem_event = TapRedeem | RedeemAnswered bool

text \<open>The button of the app is gone once redeemed and disabled while it loads; the one of the web has no such guard.\<close>

fun redeem_act :: "int \<Rightarrow> redeem_event \<Rightarrow> redeem_form \<Rightarrow> redeem_form \<times> unit list" where
  "redeem_act winning TapRedeem s = (if winning > 0 \<and> \<not> rf_redeemed s \<and> \<not> rf_redeeming s
     then (s\<lparr>rf_redeeming := True\<rparr>, [()]) else (s, []))"
| "redeem_act winning (RedeemAnswered ok) s = (if \<not> rf_redeeming s then (s, [])
     else (s\<lparr>rf_redeeming := False, rf_redeemed := rf_redeemed s \<or> ok\<rparr>, []))"

fun web_redeem_act :: "bool \<Rightarrow> redeem_event \<Rightarrow> unit \<Rightarrow> unit \<times> unit list" where
  "web_redeem_act redeemable TapRedeem s = (s, if redeemable then [()] else [])"
| "web_redeem_act redeemable (RedeemAnswered _) s = (s, [])"

fun is_redeem_answer :: "redeem_event \<Rightarrow> bool" where
  "is_redeem_answer (RedeemAnswered _) = True"
| "is_redeem_answer TapRedeem = False"

interpretation redeeming: one_shot rf_redeeming "redeem_act winning" is_redeem_answer "\<lambda>_. True" rf_redeemed "\<lambda>e. e = RedeemAnswered True"
  for winning
proof
  fix e s
  show "snd (redeem_act winning e s) \<noteq> [] \<Longrightarrow> \<not> rf_redeeming s \<and> rf_redeeming (fst (redeem_act winning e s))
      \<and> length (snd (redeem_act winning e s)) = 1 \<and> \<not> is_redeem_answer e"
    "snd (redeem_act winning e s) = [] \<Longrightarrow> rf_redeeming (fst (redeem_act winning e s)) = (rf_redeeming s \<and> \<not> is_redeem_answer e)"
    "rf_redeemed s \<Longrightarrow> snd (redeem_act winning e s) = []" "rf_redeemed s \<Longrightarrow> rf_redeemed (fst (redeem_act winning e s))"
    "rf_redeeming s \<Longrightarrow> e = RedeemAnswered True \<Longrightarrow> rf_redeemed (fst (redeem_act winning e s))"
    by (cases e; auto split: if_splits)+
qed

text \<open>
  The gate of the backend, and what the contract pays for shares of both sides with their cost: at 50 cents a share when
  the market expired, a unit per winning share when it was settled, the cost back when it is void.
\<close>

record chain_holding =
  ch_shares :: "side \<Rightarrow> nat"
  ch_cost :: "side \<Rightarrow> nat"

definition handleRedeemMarket :: "market_status \<Rightarrow> chain_holding \<Rightarrow> bool" where
  "handleRedeemMarket status h \<longleftrightarrow> (status = SETTLED \<or> status = VOID) \<and> (\<exists>s \<in> {Yes, No}. 0 < ch_shares h s)"

definition redeem_gross :: "nat \<Rightarrow> market_status \<Rightarrow> bool \<Rightarrow> bool \<Rightarrow> chain_holding \<Rightarrow> nat option" where
  "redeem_gross unit status fifty direction h =
     (if status = SETTLED \<and> fifty then Some ((ch_shares h Yes + ch_shares h No) * unit div 2)
      else if status = SETTLED then Some (ch_shares h (if direction then Yes else No) * unit)
      else if status = VOID then Some (ch_cost h Yes + ch_cost h No) else None)"

definition redeem_pays :: "nat \<Rightarrow> nat \<Rightarrow> market_status \<Rightarrow> bool \<Rightarrow> bool \<Rightarrow> chain_holding \<Rightarrow> nat option" where
  "redeem_pays unit fee status fifty direction h = (case redeem_gross unit status fifty direction h of None \<Rightarrow> None
     | Some gross \<Rightarrow> if gross = 0 \<or> gross \<le> fee then None else Some (gross - fee))"

text \<open>The rows the backend keeps of a holding, one per side.\<close>

definition rows_of_holding :: "chain_holding \<Rightarrow> mob_position list \<Rightarrow> bool" where
  "rows_of_holding h ps \<longleftrightarrow> (\<forall>s. sum_list (map mps_shares (filter (\<lambda>p. mps_side p = s) ps)) = int (ch_shares h s))"

lemma web_redeem_run: "length (snd (run_calls (web_redeem_act offered) es u)) = (if offered then length (filter (\<lambda>e. e = TapRedeem) es) else 0)"
proof (induction es arbitrary: u)
  case (Cons e es)
  then show ?case by (cases e) simp_all
qed simp

text \<open>
  C33: Redeeming, against what the contract pays. For a market settled one way the app offers exactly the shares the
  contract pays a unit for, before the fee, and the backend takes the call. For a market that expired at fifty-fifty or
  is void it offers nothing, although the contract pays for both sides, half a unit a share or their cost, and the
  backend takes the call whenever any share is held. The web offers every settled market in which the user has a
  position, so also one that the contract refuses because all shares lost, and no void market. The app calls one at a
  time and never again after an accepted call; the web calls at every tap.
\<close>

theorem redeem_offers:
  assumes rows: "rows_of_holding h ps"
    and settled: "mmk_status m = SETTLED \<Longrightarrow> mmk_direction m = (if fifty then None else Some d)"
    and web: "mk_status w = mmk_status m" "wps \<noteq> []"
  shows "(mmk_status m = SETTLED \<and> \<not> fifty \<longrightarrow>
      redeem_gross unit (mmk_status m) fifty d h = Some (nat (winningShares m ps) * unit)
      \<and> (winningShares m ps > 0 \<longrightarrow> handleRedeemMarket (mmk_status m) h)
      \<and> web_redeemable w wps \<and> (winningShares m ps = 0 \<longrightarrow> redeem_pays unit fee (mmk_status m) fifty d h = None))
    \<and> (mmk_status m = SETTLED \<and> fifty \<longrightarrow> winningShares m ps = 0 \<and> web_redeemable w wps
      \<and> redeem_gross unit (mmk_status m) fifty d h = Some ((ch_shares h Yes + ch_shares h No) * unit div 2))
    \<and> (mmk_status m = VOID \<longrightarrow> winningShares m ps = 0 \<and> \<not> web_redeemable w wps
      \<and> redeem_gross unit (mmk_status m) fifty d h = Some (ch_cost h Yes + ch_cost h No))
    \<and> (mmk_status m \<in> {SETTLED, VOID} \<longrightarrow> handleRedeemMarket (mmk_status m) h = (0 < ch_shares h Yes + ch_shares h No))
    \<and> length (snd (run_calls (redeem_act (winningShares m ps)) es redeem_form0)) \<le> length (filter is_redeem_answer es) + 1
    \<and> (rf_redeeming (fst (run_calls (redeem_act (winningShares m ps)) es redeem_form0)) \<longrightarrow>
        snd (run_calls (redeem_act (winningShares m ps)) (es @ RedeemAnswered True # es') redeem_form0)
          = snd (run_calls (redeem_act (winningShares m ps)) es redeem_form0))
    \<and> length (snd (run_calls (web_redeem_act (web_redeemable w wps)) es ()))
        = (if mmk_status m = SETTLED then length (filter (\<lambda>e. e = TapRedeem) es) else 0)"
proof -
  have win: "winningShares m ps = (if mmk_status m \<noteq> SETTLED \<or> fifty then 0 else int (ch_shares h (if d then Yes else No)))"
    using rows settled by (auto simp: winningShares_def rows_of_holding_def split: option.split)
  have button: "web_redeemable w wps = (mmk_status m = SETTLED)" using web by (simp add: web_redeemable_def)
  have true: "list_all (\<lambda>_ :: redeem_event. True) es" by (simp add: list_all_iff)
  have once: "rf_redeeming (fst (run_calls (redeem_act (winningShares m ps)) es redeem_form0)) \<longrightarrow>
      snd (run_calls (redeem_act (winningShares m ps)) (es @ RedeemAnswered True # es') redeem_form0)
        = snd (run_calls (redeem_act (winningShares m ps)) es redeem_form0)"
    using redeeming.accepted_once [of "winningShares m ps" es redeem_form0 "RedeemAnswered True" es'] by simp
  show ?thesis
  proof (intro conjI)
    show "length (snd (run_calls (redeem_act (winningShares m ps)) es redeem_form0)) \<le> length (filter is_redeem_answer es) + 1"
      using redeeming.no_overlap [OF true, of "winningShares m ps" redeem_form0] by simp
    show "length (snd (run_calls (web_redeem_act (web_redeemable w wps)) es ()))
        = (if mmk_status m = SETTLED then length (filter (\<lambda>e. e = TapRedeem) es) else 0)"
      by (simp add: web_redeem_run button)
  qed (use once in \<open>auto simp: win button redeem_gross_def redeem_pays_def handleRedeemMarket_def\<close>)
qed

definition demo_creator :: mob_user_profile where
  "demo_creator = \<lparr> mup_id = lit ''u1'', mup_username = lit ''ann'', mup_display_name = None, mup_bio = None,
     mup_avatar_url = None, mup_links = None, mup_is_private = False, mup_trades_visibility = None,
     mup_post_count = 0, mup_follower_count = 0, mup_following_count = 0, mup_is_following = None,
     mup_follow_requested = None, mup_follows_you = None, mup_is_me = None, mup_can_view = None, mup_can_view_trades = None \<rparr>"

definition lost_market :: mob_market where
  "lost_market = MobMarket (lit ''m1'') 9 demo_creator None (lit ''q'') (lit ''sq'') None None None None SETTLED (Some False)
     (Some 50) (Some 50) 0 None None [] None None None"

definition demo_settled :: market where
  "demo_settled = Market (lit ''m1'') 9
     \<lparr> ul_id = lit ''u1'', ul_username = lit ''ann'', ul_display_name = None, ul_avatar_url = None \<rparr>
     (lit ''q'') (lit ''sq'') None SETTLED (Some False) 50 50 (lit ''0'') (lit ''now'') None"

definition demo_web_position :: position where
  "demo_web_position = Position (lit ''m1'') None Yes 4 50 (lit ''0'') None"

text \<open>Four shares of YES in a market that was settled as NO: the web offers a redemption the contract refuses.\<close>

theorem redeem_offers_witness:
  "winningShares lost_market [MobPosition (lit ''m1'') None Yes 4 50 0 None] = 0 \<and> web_redeemable demo_settled [demo_web_position]
   \<and> redeem_pays 100 50 SETTLED False False \<lparr> ch_shares = (\<lambda>s. if s = Yes then 4 else 0), ch_cost = (\<lambda>s. 200) \<rparr> = None"
proof -
  let ?h = "\<lparr> ch_shares = (\<lambda>s. if s = Yes then 4 else 0), ch_cost = (\<lambda>s. 200) \<rparr>"
  have "rows_of_holding ?h [MobPosition (lit ''m1'') None Yes 4 50 0 None]"
    unfolding rows_of_holding_def by (rule allI, case_tac s) simp_all
  from redeem_offers [OF this, of lost_market False False demo_settled "[demo_web_position]" 100 50 "[]" "[]"] show ?thesis
    by (simp add: lost_market_def winningShares_def demo_settled_def)
qed

section \<open>Cancelling an order\<close>

definition order_open :: "order_status \<Rightarrow> bool" where
  "order_open st \<longleftrightarrow> st = RESTING \<or> st = PARTIAL \<or> st = QUEUED"

definition myOrders :: "mob_order list \<Rightarrow> mob_order list" where
  "myOrders os = filter (\<lambda>o'. order_open (mor_status o')) os"

record order_row =
  ow_canceled :: bool
  ow_busy :: bool

datatype order_row_event = TapCancel | CancelAnswered bool

fun order_row_act :: "order_row_event \<Rightarrow> order_row \<Rightarrow> order_row \<times> unit list" where
  "order_row_act TapCancel s = (if ow_canceled s \<or> ow_busy s then (s, []) else (s\<lparr>ow_busy := True\<rparr>, [()]))"
| "order_row_act (CancelAnswered ok) s = (if \<not> ow_busy s then (s, [])
     else (s\<lparr>ow_busy := False, ow_canceled := ow_canceled s \<or> ok\<rparr>, []))"

fun is_cancel_answer :: "order_row_event \<Rightarrow> bool" where
  "is_cancel_answer (CancelAnswered _) = True"
| "is_cancel_answer TapCancel = False"

interpretation cancelling: one_shot ow_busy order_row_act is_cancel_answer "\<lambda>_. True" ow_canceled "\<lambda>e. e = CancelAnswered True"
proof
  fix e s
  show "snd (order_row_act e s) \<noteq> [] \<Longrightarrow> \<not> ow_busy s \<and> ow_busy (fst (order_row_act e s))
      \<and> length (snd (order_row_act e s)) = 1 \<and> \<not> is_cancel_answer e"
    "snd (order_row_act e s) = [] \<Longrightarrow> ow_busy (fst (order_row_act e s)) = (ow_busy s \<and> \<not> is_cancel_answer e)"
    "ow_canceled s \<Longrightarrow> snd (order_row_act e s) = []" "ow_canceled s \<Longrightarrow> ow_canceled (fst (order_row_act e s))"
    "ow_busy s \<Longrightarrow> e = CancelAnswered True \<Longrightarrow> ow_canceled (fst (order_row_act e s))"
    by (cases e; auto split: if_splits)+
qed

text \<open>A row cancels its order once: no second call while one is under way, and none after it was accepted.\<close>

theorem order_cancelled_once:
  "length (snd (run_calls order_row_act es s)) \<le> length (filter is_cancel_answer es) + 1
   \<and> snd (run_calls order_row_act (TapCancel # CancelAnswered True # es) \<lparr> ow_canceled = False, ow_busy = False \<rparr>) = [()]"
proof -
  have "list_all (\<lambda>_ :: order_row_event. True) es" by (simp add: list_all_iff)
  from cancelling.no_overlap [OF this] cancelling.finished_run [of "\<lparr> ow_canceled = True, ow_busy = False \<rparr>" es]
  show ?thesis by simp
qed

section \<open>How a market settles\<close>

text \<open>
  The app derives the rule and the sources from the structured field, from the flat fields, or from the stored
  query; \<open>parse\<close> is \<open>JSON.parse\<close>, and reading a source out of JSON is a parameter. A question in the query that is
  no text counts as none.
\<close>

definition parsed_query :: "(str \<Rightarrow> json option) \<Rightarrow> str \<Rightarrow> json option" where
  "parsed_query parse q = parse (if q = [] then lit ''{}'' else q)"

definition rule_of_json :: "json option \<Rightarrow> settlement_rule option" where
  "rule_of_json v = (case json_str v of None \<Rightarrow> None
     | Some t \<Rightarrow> if t = lit ''single'' then Some Single else if t = lit ''majority'' then Some Majority else None)"

definition query_settlement :: "(json \<Rightarrow> settlement_source) \<Rightarrow> json option \<Rightarrow> mob_market \<Rightarrow> mob_settlement option" where
  "query_settlement source query m = (case query of None \<Rightarrow> None
     | Some p \<Rightarrow> (case (rule_of_json (json_field p (lit ''rule'')), json_field p (lit ''sources'')) of
         (Some r, Some (JArr xs)) \<Rightarrow> if xs = [] then None
           else Some \<lparr> mst_question = or_else (json_str (json_field p (lit ''question''))) (mmk_question m),
                  mst_category = json_str (json_field p (lit ''category'')), mst_rule = r, mst_sources = map source xs \<rparr>
       | _ \<Rightarrow> None))"

definition flat_settlement :: "(json \<Rightarrow> settlement_source) \<Rightarrow> json option \<Rightarrow> mob_market \<Rightarrow> mob_settlement option" where
  "flat_settlement source query m = (case (mmk_rule m, mmk_sources m) of
     (Some r, Some xs) \<Rightarrow> if xs = [] then query_settlement source query m
       else Some \<lparr> mst_question = or_else (non_empty (Option.bind query (\<lambda>p. json_str (json_field p (lit ''question''))))) (mmk_question m),
              mst_category = mmk_category m, mst_rule = r, mst_sources = xs \<rparr>
   | _ \<Rightarrow> query_settlement source query m)"

definition settlementOf :: "(str \<Rightarrow> json option) \<Rightarrow> (json \<Rightarrow> settlement_source) \<Rightarrow> mob_market \<Rightarrow> mob_settlement option" where
  "settlementOf parse source m = (let query = parsed_query parse (mmk_settlement_query m) in
     case mmk_settlement m of
       Some s \<Rightarrow> (if mst_sources s \<noteq> [] then Some s else flat_settlement source query m)
     | None \<Rightarrow> flat_settlement source query m)"

fun joined :: "str \<Rightarrow> str list \<Rightarrow> str" where
  "joined sep [] = []"
| "joined sep [x] = x"
| "joined sep (x # xs) = x @ sep @ joined sep xs"

definition source_names :: "settlement_source list \<Rightarrow> str" where
  "source_names xs = joined (lit '', '') (map ss_name xs)"

definition mob_resolutionRuleCopy :: "mob_settlement \<Rightarrow> str" where
  "mob_resolutionRuleCopy s = (if mst_rule s = Single
     then lit ''Resolves via '' @ (case mst_sources s of [] \<Rightarrow> lit ''its source'' | x # _ \<Rightarrow> ss_name x)
     else lit ''Resolves when a majority of '' @ source_names (mst_sources s) @ lit '' concur'')"

definition web_resolutionRuleCopy :: "settlement_rule \<Rightarrow> settlement_source list \<Rightarrow> str" where
  "web_resolutionRuleCopy rule xs = (if rule = Single
     then lit ''Resolves via '' @ (case xs of [] \<Rightarrow> lit ''its named source'' | x # _ \<Rightarrow> ss_name x)
     else if source_names xs \<noteq> [] then lit ''Resolves when a majority of '' @ source_names xs @ lit '' concur''
     else lit ''Resolves by majority of its named sources'')"

definition ResolutionCaption :: "mob_settlement option \<Rightarrow> str option" where
  "ResolutionCaption s = (case s of None \<Rightarrow> None
     | Some s \<Rightarrow> (case mst_sources s of [] \<Rightarrow> None
       | x # xs \<Rightarrow> Some (if mst_rule s = Single then lit ''via '' @ ss_name x
           else lit ''via majority of '' @ show_nat (length (x # xs)) @ lit '' sources'')))"

text \<open>The stored query, laid out when it is a JSON object or array and shown as it is otherwise.\<close>

definition source_label :: "json \<Rightarrow> str" where
  "source_label x = or_else (alt_opt (non_empty (json_str (json_field x (lit ''name''))))
     (alt_opt (non_empty (json_str (json_field x (lit ''id'')))) (non_empty (json_str (json_field x (lit ''url'')))))) (lit ''?'')"

definition query_row :: "string \<Rightarrow> str option \<Rightarrow> (str \<times> str) list" where
  "query_row label v = (case non_empty v of None \<Rightarrow> [] | Some t \<Rightarrow> [(lit label, t)])"

fun is_object :: "json \<Rightarrow> bool" where
  "is_object (JObj _) = True"
| "is_object (JArr _) = True"
| "is_object _ = False"

definition ParsedQuery :: "(str \<Rightarrow> json option) \<Rightarrow> str \<Rightarrow> str + (str \<times> str) list" where
  "ParsedQuery parse raw = (case parse raw of
     Some p \<Rightarrow> if is_object p then Inr (
         query_row ''Question'' (json_str (json_field p (lit ''question'')))
         @ query_row ''Category'' (json_str (json_field p (lit ''category'')))
         @ query_row ''Rule'' (map_option (\<lambda>t. if t = lit ''majority'' then lit ''Majority of sources'' else lit ''Single source'')
             (non_empty (json_str (json_field p (lit ''rule'')))))
         @ (case json_field p (lit ''sources'') of Some (JArr xs) \<Rightarrow>
              (if xs = [] then [] else [(lit ''Sources'', joined (lit '', '') (map source_label xs))]) | _ \<Rightarrow> []))
       else Inl raw
   | None \<Rightarrow> Inl raw)"

text \<open>The web panel: the settlement of a market, or the flat fields of a candidate when it has any.\<close>

definition web_settlement :: "market option \<Rightarrow> market_candidate option \<Rightarrow> settlement option" where
  "web_settlement m c = (case Option.bind m mk_settlement of
     Some s \<Rightarrow> Some s
   | None \<Rightarrow> (case c of None \<Rightarrow> None
     | Some c \<Rightarrow> if mc_rule c \<noteq> None \<or> mc_sources c \<noteq> None \<or> truthy (mc_category c)
         then Some \<lparr> st_question = mc_question c, st_category = mc_category c, st_rule = or_else (mc_rule c) Single,
                st_sources = or_else (mc_sources c) [] \<rparr>
         else None))"

fun STATE_BLURB :: "market_status \<Rightarrow> str" where
  "STATE_BLURB PENDING = lit ''Being placed onchain.''"
| "STATE_BLURB OPEN = lit ''Live. Waiting for a taker.''"
| "STATE_BLURB MATCHED = lit ''Both sides are in.''"
| "STATE_BLURB SETTLING = lit ''Oracle is resolving the outcome.''"
| "STATE_BLURB SETTLED = lit ''Outcome is final.''"
| "STATE_BLURB VOID = lit ''Voided. Deposits are refundable.''"

definition details_showBook :: "market_status \<Rightarrow> bool" where
  "details_showBook st \<longleftrightarrow> (st = OPEN \<or> st = MATCHED) \<or> st = SETTLING"

lemma query_settlement_sources: "query_settlement source query m = Some s \<Longrightarrow> mst_sources s \<noteq> []"
  by (auto simp: query_settlement_def split: option.splits json.splits if_splits)

lemma flat_settlement_sources: "flat_settlement source query m = Some s \<Longrightarrow> mst_sources s \<noteq> []"
  by (auto simp: flat_settlement_def query_settlement_sources split: option.splits if_splits)

lemma settlementOf_sources: "settlementOf parse source m = Some s \<Longrightarrow> mst_sources s \<noteq> []"
  by (auto simp: settlementOf_def Let_def flat_settlement_sources split: option.splits if_splits)

lemma joined_names: "xs \<noteq> [] \<Longrightarrow> \<forall>x \<in> set xs. x \<noteq> [] \<Longrightarrow> joined sep xs \<noteq> []"
  by (induction sep xs rule: joined.induct) auto

lemma query_settlement_some:
  assumes "query_settlement source query m = Some s"
  shows "\<exists>p xs. query = Some p \<and> json_field p (lit ''sources'') = Some (JArr xs) \<and> mst_sources s = map source xs
    \<and> rule_of_json (json_field p (lit ''rule'')) = Some (mst_rule s)"
  using assms by (auto simp: query_settlement_def split: option.splits json.splits if_splits)

lemma flat_settlement_some:
  assumes "flat_settlement source query m = Some s"
  shows "case (mmk_rule m, mmk_sources m) of
      (Some r, Some (x # xs)) \<Rightarrow> mst_rule s = r \<and> mst_sources s = x # xs \<and> mst_category s = mmk_category m
    | _ \<Rightarrow> \<exists>p xs. query = Some p \<and> json_field p (lit ''sources'') = Some (JArr xs) \<and> mst_sources s = map source xs
        \<and> rule_of_json (json_field p (lit ''rule'')) = Some (mst_rule s)"
  using assms query_settlement_some [of source query m s]
  by (auto simp: flat_settlement_def split: option.splits list.splits if_splits)

lemma settlementOf_shown:
  assumes "settlementOf parse source m = Some s"
  shows "if \<exists>st. mmk_settlement m = Some st \<and> mst_sources st \<noteq> [] then mmk_settlement m = Some s
    else case (mmk_rule m, mmk_sources m) of
        (Some r, Some (x # xs)) \<Rightarrow> mst_rule s = r \<and> mst_sources s = x # xs \<and> mst_category s = mmk_category m
      | _ \<Rightarrow> \<exists>p xs. parsed_query parse (mmk_settlement_query m) = Some p \<and> json_field p (lit ''sources'') = Some (JArr xs)
          \<and> mst_sources s = map source xs \<and> rule_of_json (json_field p (lit ''rule'')) = Some (mst_rule s)"
proof (cases "\<exists>st. mmk_settlement m = Some st \<and> mst_sources st \<noteq> []")
  case True
  with assms show ?thesis unfolding if_P [OF True] by (auto simp: settlementOf_def Let_def)
next
  case False
  with assms have "flat_settlement source (parsed_query parse (mmk_settlement_query m)) m = Some s"
    by (auto simp: settlementOf_def Let_def split: option.splits if_splits)
  then show ?thesis unfolding if_not_P [OF False] by (rule flat_settlement_some)
qed


definition query_market :: mob_market where
  "query_market = MobMarket (lit ''m1'') 9 demo_creator None (lit ''Will it rain?'') (lit ''{...}'') None None None None OPEN None
     (Some 50) (Some 50) 0 None None [] None None None"


end
