(* ===== verification/Profiles.thy ===== *)
theory Profiles
  imports Requests Social Account Feed
begin

text \<open>
  Profiles and the lists of people: who sees what on a profile (\<open>u/[username]/page.tsx\<close>, \<open>ProfileView.tsx\<close>,
  \<open>TradesList.tsx\<close>), against the gates and the fields of the backend (\<open>store.go\<close>, \<open>handlers_users.go\<close>,
  \<open>structs.go\<close>); the lists of followers (\<open>UserList.tsx\<close>, \<open>FollowList.tsx\<close>); starting a conversation; and the
  administrators' tools (\<open>AdminWarp.tsx\<close>, \<open>AdminReservations.tsx\<close>, \<open>admin.tsx\<close>).
\<close>

section \<open>What a profile shows\<close>

datatype profile_tab = PostsTab | ReelsTab | TradesTab | WalletTab

definition web_isSelf :: "str option \<Rightarrow> user \<Rightarrow> bool" where
  "web_isSelf me u \<longleftrightarrow> us_is_self u \<or> Some (ul_id u) = me"

definition web_locked :: "str option \<Rightarrow> user \<Rightarrow> bool" where
  "web_locked me u \<longleftrightarrow> us_private u \<and> \<not> web_isSelf me u \<and> \<not> us_is_following u"

definition web_tradesVisible :: "str option \<Rightarrow> user \<Rightarrow> bool" where
  "web_tradesVisible me u \<longleftrightarrow> web_isSelf me u \<or> us_trades_public u"

definition web_profile_tabs :: "str option \<Rightarrow> user \<Rightarrow> profile_tab list" where
  "web_profile_tabs me u = [PostsTab, ReelsTab] @ (if web_tradesVisible me u then [TradesTab] else [])
     @ (if web_isSelf me u then [WalletTab] else [])"

text \<open>The content under the tabs: nothing behind the lock, and the trades and the wallet only where they may be seen.\<close>

definition web_profile_content :: "str option \<Rightarrow> user \<Rightarrow> profile_tab \<Rightarrow> profile_tab option" where
  "web_profile_content me u tab = (if web_locked me u then None
     else if tab = TradesTab \<and> \<not> web_tradesVisible me u \<or> tab = WalletTab \<and> \<not> web_isSelf me u then None else Some tab)"

definition mob_canView :: "bool \<Rightarrow> mob_user_profile \<Rightarrow> bool" where
  "mob_canView isOwn p \<longleftrightarrow> isOwn \<or> \<not> mup_is_private p \<or> mup_is_following p = Some True \<or> mup_can_view p \<noteq> Some False"

definition mob_tradesHidden :: "bool \<Rightarrow> mob_user_profile \<Rightarrow> bool" where
  "mob_tradesHidden isOwn p \<longleftrightarrow> \<not> isOwn \<and> mup_can_view_trades p = Some False"

definition mob_profile_tabs :: "bool \<Rightarrow> profile_tab list" where
  "mob_profile_tabs isOwn = (if isOwn then [PostsTab, ReelsTab, TradesTab, WalletTab] else [PostsTab, ReelsTab, TradesTab])"

text \<open>The trades of the app: hidden or refused as private, an error, empty, or rows. The query is tried three times.\<close>

datatype 'a trades_view = TradesPrivate | TradesError | NoTrades | TradeRows "'a list"

definition trades_retry :: "nat \<Rightarrow> js_error \<Rightarrow> bool" where
  "trades_retry count err \<longleftrightarrow> \<not> (case err of ApiError status _ \<Rightarrow> status = 403 \<or> status = 404 | _ \<Rightarrow> False) \<and> count < 2"

definition TradesTabContent :: "bool \<Rightarrow> js_error + 'a list \<Rightarrow> 'a trades_view" where
  "TradesTabContent hidden res = (if hidden then TradesPrivate else case res of
     Inl (ApiError status _) \<Rightarrow> if status = 403 then TradesPrivate else TradesError
   | Inl _ \<Rightarrow> TradesError
   | Inr [] \<Rightarrow> NoTrades
   | Inr ts \<Rightarrow> TradeRows ts)"

text \<open>The grid of posts or reels, which shows a failed query like an empty answer.\<close>

definition profile_grid :: "bool \<Rightarrow> js_error + post list \<Rightarrow> post list" where
  "profile_grid reels res = filter (\<lambda>p. reels \<longrightarrow> po_kind p = Reel) (case res of Inl _ \<Rightarrow> [] | Inr ps \<Rightarrow> ps)"

definition web_posts_path :: "str \<Rightarrow> bool \<Rightarrow> str" where
  "web_posts_path username reels = lit ''/v1/users/'' @ username @ lit ''/posts?limit=18'' @ (if reels then lit ''&kind=reel'' else [])"

definition mob_posts_path :: "str \<Rightarrow> bool \<Rightarrow> str" where
  "mob_posts_path username reels = lit ''/v1/users/'' @ username @ lit ''/posts?kind='' @ (if reels then lit ''reel'' else lit ''all'') @ lit ''&limit=24''"

definition link_href :: "str \<Rightarrow> str" where
  "link_href l = (if starts_with l (lit ''http'') then l else lit ''https://'' @ l)"

section \<open>What the backend allows and says\<close>

datatype follow_status = NoFollow | PendingFollow | AcceptedFollow

fun follow_status_text :: "follow_status \<Rightarrow> str" where
  "follow_status_text NoFollow = []"
| "follow_status_text PendingFollow = lit ''pending''"
| "follow_status_text AcceptedFollow = lit ''accepted''"

record account =
  ac_id :: str
  ac_private :: bool
  ac_trades_public :: bool

definition visiblePred :: "account \<Rightarrow> str \<Rightarrow> follow_status \<Rightarrow> bool" where
  "visiblePred author viewer status \<longleftrightarrow> ac_id author = viewer \<or> \<not> ac_private author \<or> status = AcceptedFollow"

definition tradesVisiblePred :: "account \<Rightarrow> str \<Rightarrow> follow_status \<Rightarrow> bool" where
  "tradesVisiblePred author viewer status \<longleftrightarrow> ac_id author = viewer \<or> (ac_trades_public author \<and> visiblePred author viewer status)"

text \<open>The fields of \<open>structs.Profile\<close> about the viewer and about what is visible, beside any others.\<close>

definition backend_profile :: "account \<Rightarrow> str \<Rightarrow> follow_status \<Rightarrow> json" where
  "backend_profile a viewer status = JObj
     [(lit ''id'', JStr (ac_id a)), (lit ''is_private'', JBool (ac_private a)),
      (lit ''trades_visibility'', JStr (if ac_trades_public a then lit ''public'' else lit ''private'')),
      (lit ''follow_status'', JStr (follow_status_text status)), (lit ''is_me'', JBool (ac_id a = viewer))]"

definition handleUserPosts :: "account \<Rightarrow> str \<Rightarrow> follow_status \<Rightarrow> post list \<Rightarrow> js_error + post list" where
  "handleUserPosts a viewer status ps =
     (if visiblePred a viewer status then Inr ps else Inl (ApiError 403 (JObj [(lit ''error'', JStr (lit ''this account is private''))])))"

text \<open>
  A profile read through the types of the clients. A flag that is absent is falsy on the web and \<open>undefined\<close> in
  the app; the fields that are not about visibility are those of \<open>base\<close>.
\<close>

definition json_flag :: "json \<Rightarrow> string \<Rightarrow> bool option" where
  "json_flag j k = (case json_field j (lit k) of Some (JBool b) \<Rightarrow> Some b | _ \<Rightarrow> None)"

definition web_read_user :: "user \<Rightarrow> json \<Rightarrow> user" where
  "web_read_user base j = base\<lparr>ul_id := or_else (json_str (json_field j (lit ''id''))) [],
     us_private := (json_flag j ''private'' = Some True), us_trades_public := (json_flag j ''trades_public'' = Some True),
     us_is_following := (json_flag j ''is_following'' = Some True),
     us_follow_requested := (json_flag j ''follow_requested'' = Some True), us_is_self := (json_flag j ''is_self'' = Some True)\<rparr>"

definition mob_read_profile :: "mob_user_profile \<Rightarrow> json \<Rightarrow> mob_user_profile" where
  "mob_read_profile base j = base\<lparr>mup_id := or_else (json_str (json_field j (lit ''id''))) [],
     mup_is_private := (json_flag j ''is_private'' = Some True), mup_is_following := json_flag j ''is_following'',
     mup_follow_requested := json_flag j ''follow_requested'', mup_is_me := json_flag j ''is_me'',
     mup_can_view := json_flag j ''can_view'', mup_can_view_trades := json_flag j ''can_view_trades''\<rparr>"


definition demo_private :: account where
  "demo_private = \<lparr> ac_id = lit ''u1'', ac_private = True, ac_trades_public = True \<rparr>"

definition demo_web_user :: user where
  "demo_web_user = \<lparr> ul_id = lit ''u1'', ul_username = lit ''ann'', ul_display_name = None, ul_avatar_url = None,
     us_bio = None, us_links = [], us_private = True, us_trades_public = True, us_follower_count = 0, us_following_count = 0,
     us_post_count = 0, us_is_following = False, us_follow_requested = False, us_is_self = False, us_wallet_address = None \<rparr>"

definition demo_profile :: mob_user_profile where
  "demo_profile = \<lparr> mup_id = lit ''u1'', mup_username = lit ''ann'', mup_display_name = None, mup_bio = None,
     mup_avatar_url = None, mup_links = None, mup_is_private = True, mup_trades_visibility = None,
     mup_post_count = 0, mup_follower_count = 0, mup_following_count = 0, mup_is_following = Some False,
     mup_follow_requested = None, mup_follows_you = None, mup_is_me = None, mup_can_view = Some False, mup_can_view_trades = Some False \<rparr>"


lemma backend_flags:
  "json_flag (backend_profile a viewer status) ''private'' = None" "json_flag (backend_profile a viewer status) ''is_following'' = None"
  "json_flag (backend_profile a viewer status) ''follow_requested'' = None" "json_flag (backend_profile a viewer status) ''is_self'' = None"
  "json_flag (backend_profile a viewer status) ''trades_public'' = None" "json_flag (backend_profile a viewer status) ''can_view'' = None"
  "json_flag (backend_profile a viewer status) ''can_view_trades'' = None"
  "json_flag (backend_profile a viewer status) ''is_private'' = Some (ac_private a)"
  "json_str (json_field (backend_profile a viewer status) (lit ''id'')) = Some (ac_id a)"
  by (simp_all add: json_flag_def backend_profile_def)

text \<open>
  The profiles the backend sends are never locked. It names the relation \<open>follow_status\<close> and sends none of the
  fields the gates look at, so that both clients open every private profile; the app shows an empty grid where the
  backend refuses the posts; the web hides the trades of everybody but the user; and whoever is followed
  already, or has been asked, is offered to be followed again.
\<close>

theorem profiles_never_locked:
  "\<not> web_locked me (web_read_user base (backend_profile a viewer status))
   \<and> web_tradesVisible (Some viewer) (web_read_user base (backend_profile a viewer status)) = (ac_id a = viewer)
   \<and> mob_canView isOwn (mob_read_profile mbase (backend_profile a viewer status))
   \<and> \<not> mob_tradesHidden isOwn (mob_read_profile mbase (backend_profile a viewer status))
   \<and> profile_grid reels (handleUserPosts a viewer status ps)
       = (if visiblePred a viewer status then filter (\<lambda>p. \<not> reels \<or> po_kind p = Reel) ps else [])
   \<and> fb_state (web_follow0 (us_is_following (web_read_user base (backend_profile a viewer status)))
       (us_follow_requested (web_read_user base (backend_profile a viewer status)))) = NotFollowing
   \<and> mob_follow_label (mob_follow0 (mup_is_following (mob_read_profile mbase (backend_profile a viewer status)))
       (mup_follow_requested (mob_read_profile mbase (backend_profile a viewer status)))) = NotFollowing"
  by (auto simp: backend_flags web_read_user_def mob_read_profile_def web_locked_def web_tradesVisible_def web_isSelf_def
      mob_canView_def mob_tradesHidden_def profile_grid_def handleUserPosts_def web_follow0_def mob_follow0_def mob_follow_label_def Let_def)

section \<open>Starting a conversation\<close>

record message_button =
  mb_busy :: bool

datatype message_button_event = TapMessage | MessageAnswered "str option"

text \<open>One call at a time; an answer with an id opens the conversation.\<close>

definition message_body :: "str \<Rightarrow> json" where
  "message_body userId = JObj [(lit ''user_id'', JStr userId)]"

fun message_button_act :: "str \<Rightarrow> message_button_event \<Rightarrow> message_button \<Rightarrow> message_button \<times> json list" where
  "message_button_act userId TapMessage s = (if mb_busy s then (s, []) else (s\<lparr>mb_busy := True\<rparr>, [message_body userId]))"
| "message_button_act userId (MessageAnswered _) s = (s\<lparr>mb_busy := False\<rparr>, [])"

definition conversation_route :: "str option \<Rightarrow> str option" where
  "conversation_route i = map_option (\<lambda>c. lit ''/conversation/'' @ c) (non_empty i)"

fun is_message_answer :: "message_button_event \<Rightarrow> bool" where
  "is_message_answer (MessageAnswered _) = True"
| "is_message_answer TapMessage = False"

interpretation message_buttons: one_at_a_time mb_busy "message_button_act userId" is_message_answer "\<lambda>_. True" for userId
proof
  fix e s
  show "snd (message_button_act userId e s) \<noteq> [] \<Longrightarrow> \<not> mb_busy s \<and> mb_busy (fst (message_button_act userId e s))
      \<and> length (snd (message_button_act userId e s)) = 1 \<and> \<not> is_message_answer e"
    "snd (message_button_act userId e s) = [] \<Longrightarrow> mb_busy (fst (message_button_act userId e s)) = (mb_busy s \<and> \<not> is_message_answer e)"
    by (cases e; auto split: if_splits)+
qed

text \<open>The handler: unknown fields are refused, the members are ids of users, one to fifty of them.\<close>

definition json_texts :: "json option \<Rightarrow> str list option" where
  "json_texts v = (case v of None \<Rightarrow> Some [] | Some JNull \<Rightarrow> Some [] | Some (JArr xs) \<Rightarrow> those (map (\<lambda>x. json_str (Some x)) xs) | Some _ \<Rightarrow> None)"

definition handleCreateConversation :: "(str \<Rightarrow> bool) \<Rightarrow> json \<Rightarrow> int" where
  "handleCreateConversation is_uuid body = (case body of
     JObj fs \<Rightarrow> (case json_texts (map_of fs (lit ''member_ids'')) of
       Some members \<Rightarrow>
         (let kind = or_else (non_empty (json_str (map_of fs (lit ''kind'')))) (lit ''dm'') in
          if \<not> list_all (\<lambda>(k, _). k = lit ''kind'' \<or> k = lit ''member_ids'') fs then 400
          else if kind \<noteq> lit ''dm'' \<and> kind \<noteq> lit ''group'' then 400
          else if members = [] \<or> 50 < length members then 400
          else if list_all is_uuid members then 201 else 400)
     | None \<Rightarrow> 400)
   | _ \<Rightarrow> 400)"

text \<open>
  No conversation can be started from a profile: however the button is tapped, it makes one call at a time, and
  the backend refuses every one of them, because they name the user under a field it does not know. The same
  user as only member would have been accepted.
\<close>

theorem message_button_refused:
  "list_all (\<lambda>body. handleCreateConversation is_uuid body = 400) (snd (run_calls (message_button_act userId) es \<lparr> mb_busy = False \<rparr>))
   \<and> length (snd (run_calls (message_button_act userId) es \<lparr> mb_busy = False \<rparr>)) \<le> length (filter is_message_answer es) + 1
   \<and> handleCreateConversation is_uuid (JObj [(lit ''member_ids'', JArr [JStr userId])]) = (if is_uuid userId then 201 else 400)"
proof -
  have refused: "handleCreateConversation is_uuid (message_body userId) = 400"
    by (simp add: handleCreateConversation_def message_body_def json_texts_def Let_def)
  have "set (snd (run_calls (message_button_act userId) es s)) \<subseteq> {message_body userId}" for s
  proof (induction es arbitrary: s)
    case (Cons e es)
    then show ?case by (cases e) auto
  qed simp
  with refused have "list_all (\<lambda>body. handleCreateConversation is_uuid body = 400) (snd (run_calls (message_button_act userId) es \<lparr> mb_busy = False \<rparr>))"
    unfolding list_all_iff by blast
  moreover have "list_all (\<lambda>_ :: message_button_event. True) es" by (simp add: list_all_iff)
  ultimately show ?thesis using message_buttons.no_overlap [of es userId]
    by (simp add: handleCreateConversation_def json_texts_def Let_def non_empty_def)
qed

section \<open>Reels of a profile\<close>

text \<open>
  The reels of a profile can be out of reach. The backend does not look at the kind in the path, so that the clients
  pick the reels out of the page they get; when there is none among the first 18 posts, the web shows that there are
  no reels, and nothing on the page asks for the next one, whatever reels come later.
\<close>

theorem reels_out_of_reach:
  assumes "\<not> list_ex (\<lambda>p. po_kind p = Reel) (fst (keyset_page enc 18 rows []))"
  shows "profile_grid True (Inr (fst (keyset_page enc 18 rows []))) = []
    \<and> load_more_at 6 (length (profile_grid True (Inr (fst (keyset_page enc 18 rows []))))) = None
    \<and> profile_grid True (Inr (take 18 rows @ later)) = filter (\<lambda>p. po_kind p = Reel) later"
proof -
  have first: "fst (keyset_page enc 18 rows []) = take 18 rows" by (simp add: keyset_page_def Let_def)
  have none: "filter (\<lambda>p. po_kind p = Reel) (take 18 rows) = []"
    using assms unfolding first by (simp add: list_ex_iff filter_empty_conv)
  then show ?thesis unfolding first by (simp add: profile_grid_def load_more_at_def)
qed

theorem reels_out_of_reach_witness:
  "profile_grid True (Inr (take 18 (replicate 18 (demo_row 1) @ [(demo_row 2)\<lparr>po_kind := Reel\<rparr>]))) = []
   \<and> profile_grid True (Inr (replicate 18 (demo_row 1) @ [(demo_row 2)\<lparr>po_kind := Reel\<rparr>])) \<noteq> []"
proof -
  let ?rows = "replicate 18 (demo_row 1) @ [(demo_row 2)\<lparr>po_kind := Reel\<rparr>]"
  have k: "po_kind (demo_row i) = Photo" for i by (simp add: demo_row_def)
  have t: "take 18 ?rows = replicate 18 (demo_row 1)" by simp
  have p: "fst (keyset_page po_id 18 ?rows []) = replicate 18 (demo_row 1)"
    by (simp only: keyset_page_def Let_def if_True simp_thms fst_conv t)
  have "\<not> list_ex (\<lambda>p. po_kind p = Reel) (fst (keyset_page po_id 18 ?rows []))" unfolding p by (simp add: list_ex_iff k)
  from reels_out_of_reach [OF this, of "[(demo_row 2)\<lparr>po_kind := Reel\<rparr>]"] show ?thesis unfolding p t by simp
qed

section \<open>Lists of people\<close>

datatype people_kind = FollowersList | FollowingList

fun people_key :: "people_kind \<Rightarrow> str" where
  "people_key FollowersList = lit ''followers''"
| "people_key FollowingList = lit ''following''"

definition web_people_path :: "(str \<Rightarrow> str) \<Rightarrow> str \<Rightarrow> people_kind \<Rightarrow> str \<Rightarrow> str" where
  "web_people_path encode username k = with_cursor encode (lit ''/v1/users/'' @ username @ lit ''/'' @ people_key k @ lit ''?limit=30'')"

definition mob_people_path :: "(str \<Rightarrow> str) \<Rightarrow> str \<Rightarrow> people_kind \<Rightarrow> str \<Rightarrow> str" where
  "mob_people_path encode username k = with_cursor encode (lit ''/v1/users/'' @ encode username @ lit ''/'' @ people_key k @ lit ''?limit=30'')"

definition web_people :: "(str, json) omap list \<Rightarrow> json list" where
  "web_people pages = concat (map (\<lambda>p. or_else (json_array (om_get p (lit ''followers'')))
     (or_else (json_array (om_get p (lit ''following''))) [])) pages)"

definition mob_people :: "(str, json) omap list \<Rightarrow> json list" where
  "mob_people pages = concat (map (\<lambda>p. pageItems (Some p)) pages)"

text \<open>Who gets a follow button: on the web rows that say how the user stands to them, in the app all the others.\<close>

definition web_person_button :: "str option \<Rightarrow> user_brief \<Rightarrow> bool" where
  "web_person_button me u \<longleftrightarrow> me \<noteq> None \<and> me \<noteq> Some (ul_id u) \<and> ub_is_following u \<noteq> None"

definition mob_person_button :: "str option \<Rightarrow> mob_user_profile \<Rightarrow> bool" where
  "mob_person_button me u \<longleftrightarrow> me \<noteq> None \<and> me \<noteq> Some (mup_id u) \<and> mup_is_me u \<noteq> Some True"

text \<open>The handler answers one list of at most the limit, and no cursor.\<close>

definition followList :: "people_kind \<Rightarrow> nat \<Rightarrow> json list \<Rightarrow> (str, json) omap" where
  "followList k limit people = [(people_key k, JArr (take limit people))]"

definition web_people_cursor :: "(str, json) omap \<Rightarrow> str option" where
  "web_people_cursor p = non_empty (json_str (om_get p (lit ''next_cursor'')))"

text \<open>
  The lists of people end after thirty: both clients show the first thirty followers, or followed, in the order of the
  backend, and take the list to be complete, however long it is.
\<close>

theorem people_lists_end_at_thirty:
  "web_people [followList k 30 people] = take 30 people \<and> mob_people [followList k 30 people] = take 30 people
   \<and> web_people_cursor (followList k 30 people) = None \<and> nextCursorOf (followList k 30 people) = None"
proof -
  have "pageItems (Some (followList k 30 people)) = take 30 people"
    by (rule pageItems_single [of "people_key k"]) (cases k; simp add: followList_def)+
  then show ?thesis
    by (cases k) (simp_all add: web_people_def mob_people_def followList_def web_people_cursor_def nextCursorOf_def non_empty_def)
qed

section \<open>Administrators\<close>

definition admin_blocked :: "mob_me option \<Rightarrow> (mob_warp_info \<Rightarrow> bool) \<Rightarrow> bool" where
  "admin_blocked me active \<longleftrightarrow> (case me of None \<Rightarrow> True
     | Some m \<Rightarrow> mme_is_admin m \<noteq> Some True \<or> (case mme_warp m of None \<Rightarrow> False | Some w \<Rightarrow> active w))"

text \<open>
  The search of the app: a timer per keystroke, a request when it fires, and whatever answers comes in is shown. A
  request is known by its query; the answers arrive in any order.
\<close>

record 'u admin_search =
  as_query :: str
  as_timer :: "str option"
  as_inflight :: "str list"
  as_results :: "'u list"
  as_searching :: bool
  as_searched :: bool

definition admin_search0 :: "'u admin_search" where
  "admin_search0 = \<lparr> as_query = [], as_timer = None, as_inflight = [], as_results = [], as_searching = False, as_searched = False \<rparr>"

datatype 'u search_event = TypeQuery str | DebounceFires | SearchAnswered nat "js_error + 'u list"

fun admin_search_act :: "'u search_event \<Rightarrow> 'u admin_search \<Rightarrow> 'u admin_search" where
  "admin_search_act (TypeQuery t) s = (let q = js_trim t; s = s\<lparr>as_query := t, as_timer := None\<rparr> in
     if length q < 2 then s\<lparr>as_results := [], as_searched := False\<rparr> else s\<lparr>as_timer := Some q\<rparr>)"
| "admin_search_act DebounceFires s = (case as_timer s of None \<Rightarrow> s
     | Some q \<Rightarrow> s\<lparr>as_timer := None, as_searching := True, as_inflight := as_inflight s @ [q]\<rparr>)"
| "admin_search_act (SearchAnswered i res) s = (if i < length (as_inflight s)
     then s\<lparr>as_inflight := drop_call i (as_inflight s), as_results := (case res of Inl _ \<Rightarrow> [] | Inr us \<Rightarrow> us),
            as_searching := False, as_searched := True\<rparr>
     else s)"

text \<open>
  The answer that arrives last is shown: when the first of two searches is answered after the second, the users found
  for the old query stand under the new one, no search is under way, and each can be warped into.
\<close>

theorem late_search_wins:
  assumes "2 \<le> length (js_trim q)" "2 \<le> length (js_trim q')"
  shows "let s = fold admin_search_act [TypeQuery q, DebounceFires, TypeQuery q', DebounceFires,
      SearchAnswered 1 (Inr new), SearchAnswered 0 (Inr old)] admin_search0 in
    as_query s = q' \<and> as_results s = old \<and> as_inflight s = [] \<and> \<not> as_searching s"
proof -
  have "\<not> length (js_trim q) < 2" "\<not> length (js_trim q') < 2" using assms by simp_all
  then show ?thesis by (simp add: admin_search0_def Let_def drop_call_def)
qed

theorem late_search_wins_witness:
  "as_results (fold admin_search_act [TypeQuery (lit ''al''), DebounceFires, TypeQuery (lit ''bob''), DebounceFires,
      SearchAnswered 1 (Inr [lit ''bob'']), SearchAnswered 0 (Inr [lit ''al'', lit ''alice''])] admin_search0) = [lit ''al'', lit ''alice'']"
proof -
  have "js_trim (lit ''al'') = lit ''al''" "js_trim (lit ''bob'') = lit ''bob''" by code_simp+
  then show ?thesis using late_search_wins [of "lit ''al''" "lit ''bob''" "[lit ''bob'']" "[lit ''al'', lit ''alice'']"]
    by (simp add: Let_def del: fold_simps)
qed

text \<open>Warping: the app enters the user the backend confirmed, the web the one of the list when it did not.\<close>

definition mob_warpInto :: "js_error + warp_target option \<Rightarrow> warp_target \<Rightarrow> warp_target option" where
  "mob_warpInto res u = (case res of Inl _ \<Rightarrow> None | Inr t \<Rightarrow> Some (or_else t u))"

definition web_warpInto :: "js_error + warp_target \<Rightarrow> warp_target \<Rightarrow> warp_target" where
  "web_warpInto res u = (case res of Inl _ \<Rightarrow> u | Inr t \<Rightarrow> t)"

end
