(* ===== verification/Format.thy ===== *)
theory Format
  imports Signing
begin

text \<open>
  What amounts, counts and times look like: \<open>lib/format.ts\<close> of both clients. Texts are lists of code units; the
  group separators of \<open>toLocaleString("en-US")\<close> are written out, the default locale of the browser and the phrases of
  \<open>date-fns\<close> are arguments.
\<close>

section \<open>Digits\<close>

lemma digits_value_snoc [simp]: "digits_value (ds @ [c]) = 10 * digits_value ds + digit_value c"
  by (simp add: digits_value_def)

lemma digits_value_Nil [simp]: "digits_value [] = 0"
  by (simp add: digits_value_def)

lemma digits_value_append: "digits_value (ds @ es) = digits_value ds * 10 ^ length es + digits_value es"
  by (induction es rule: rev_induct) (simp_all add: append_assoc [symmetric] algebra_simps del: append_assoc)

lemma digits_value_zeros [simp]: "digits_value (replicate n 48) = 0"
proof (induction n)
  case (Suc n)
  have "replicate (Suc n) (48 :: code_unit) = replicate n 48 @ [48]" by (simp add: replicate_append_same)
  then show ?case using Suc by (simp only: digits_value_snoc) (simp add: digit_value_def)
qed simp

lemma show_nat_small: "n < 10 \<Longrightarrow> show_nat n = [digit_unit n]"
  by (subst show_nat.simps) simp

lemma show_nat_two: "10 \<le> n \<Longrightarrow> n < 100 \<Longrightarrow> show_nat n = [digit_unit (n div 10), digit_unit (n mod 10)]"
  by (subst show_nat.simps) (simp add: show_nat_small)

lemma two_digits:
  assumes "c < 100"
  shows "length (pad_start 2 48 (show_nat c)) = 2" "digits_value (pad_start 2 48 (show_nat c)) = c"
    "list_all is_digit (pad_start 2 48 (show_nat c))"
proof -
  have "length (show_nat c) \<le> 2" using assms by (cases "c < 10") (simp_all add: show_nat_small show_nat_two)
  then show "length (pad_start 2 48 (show_nat c)) = 2" by (simp add: pad_start_def)
  show "digits_value (pad_start 2 48 (show_nat c)) = c" by (simp add: pad_start_def digits_value_append)
  show "list_all is_digit (pad_start 2 48 (show_nat c))"
    using show_nat_all_digits [of c] by (auto simp: pad_start_def all_digits_def list_all_iff is_digit_def)
qed

lemma takeWhile_run: "\<forall>c \<in> set ds. P c \<Longrightarrow> \<not> P x \<Longrightarrow> takeWhile P (ds @ x # t) = ds"
  by (simp add: takeWhile_append2)

lemma dropWhile_run: "\<forall>c \<in> set ds. P c \<Longrightarrow> \<not> P x \<Longrightarrow> dropWhile P (ds @ x # t) = x # t"
  by (simp add: dropWhile_append2)

lemma digit_runs:
  assumes "list_all is_digit ds" "rest = [] \<or> \<not> is_digit (hd rest)"
  shows "takeWhile is_digit (ds @ rest) = ds" "dropWhile is_digit (ds @ rest) = rest"
  using assms by (cases rest; simp add: takeWhile_append2 dropWhile_append2 list_all_iff)+

lemma show_nat_is_run: "list_all is_digit (show_nat n)"
  using show_nat_all_digits [of n] by (simp add: all_digits_def)

text \<open>Reading a text of dollars and cents gives the number back.\<close>

lemma parse_float_cents:
  assumes "c < 100"
  shows "parse_float (show_nat d @ [46] @ pad_start 2 48 (show_nat c)) = Some (fl (of_nat (100 * d + c) / 100))"
proof -
  have "\<not> is_digit 46" by (simp add: is_digit_def)
  then have "takeWhile is_digit (show_nat d @ [46] @ pad_start 2 48 (show_nat c)) = show_nat d"
    "dropWhile is_digit (show_nat d @ [46] @ pad_start 2 48 (show_nat c)) = [46] @ pad_start 2 48 (show_nat c)"
    by (auto intro!: digit_runs show_nat_is_run)
  moreover have "takeWhile is_digit (pad_start 2 48 (show_nat c)) = pad_start 2 48 (show_nat c)"
    using digit_runs(1) [of "pad_start 2 48 (show_nat c)" "[]"] two_digits [OF assms] by simp
  ultimately show ?thesis
    using two_digits [OF assms]
    by (simp add: parse_float_def Let_def digits_value_append algebra_simps del: takeWhile_eq_all_conv)
qed

section \<open>Amounts\<close>

text \<open>Token units arrive as a bigint or as a decimal string; \<open>D\<close> are the decimals of the payment token.\<close>

datatype units_arg = UnitsText str | UnitsBig int

definition units_value :: "units_arg \<Rightarrow> int option" where
  "units_value a = (case a of UnitsBig u \<Rightarrow> Some u | UnitsText t \<Rightarrow> parse_bigint (if t = [] then lit ''0'' else t))"

definition fmt_big :: "nat \<Rightarrow> int \<Rightarrow> str" where
  "fmt_big D units = (let neg = units < 0; u = (if neg then - units else units); unit = 10 ^ D;
     dollars = u div unit; cents = u mod unit * 100 div unit
   in (if neg then lit ''-'' else []) @ lit ''$'' @ show_int dollars @ lit ''.'' @ pad_start 2 48 (show_int cents))"

definition fmtUnits :: "nat \<Rightarrow> units_arg option \<Rightarrow> str" where
  "fmtUnits D units = (case units of None \<Rightarrow> lit ''$0.00''
     | Some a \<Rightarrow> (case units_value a of None \<Rightarrow> lit ''$0.00'' | Some u \<Rightarrow> fmt_big D u))"

definition fmtSignedUnits :: "nat \<Rightarrow> units_arg \<Rightarrow> str" where
  "fmtSignedUnits D units = (let s = fmtUnits D (Some units) in if starts_with s (lit ''-'') then s else lit ''+'' @ s)"

definition fmtDollars :: "rat \<Rightarrow> str" where
  "fmtDollars d = lit ''$'' @ to_fixed 2 d"

text \<open>\<open>fmtVolume\<close> throws when the token has less than two decimals (\<open>10n ** -1n\<close>), here \<open>None\<close>.\<close>

definition fmtVolume :: "nat \<Rightarrow> str option \<Rightarrow> str option" where
  "fmtVolume D units = (case non_empty units of None \<Rightarrow> Some (lit ''$0'')
     | Some t \<Rightarrow> (case parse_bigint t of None \<Rightarrow> Some (lit ''$0'')
        | Some u \<Rightarrow> if D < 2 then None else let
            q = (if u < 0 then - (- u div 10 ^ (D - 2)) else u div 10 ^ (D - 2));
            d = num_div (num_of_big q) 100
          in Some (if 1000000 \<le> d then lit ''$'' @ to_fixed 1 (num_div d 1000000) @ lit ''M''
             else if 1000 \<le> d then lit ''$'' @ to_fixed 1 (num_div d 1000) @ lit ''k''
             else lit ''$'' @ to_fixed 0 d)))"

text \<open>The app: \<open>None\<close> stands for an absent amount and for \<open>NaN\<close>. From a thousand dollars on digits are grouped.\<close>

fun grouped :: "nat \<Rightarrow> str" where
  "grouped n = (if n < 1000 then show_nat n
     else grouped (n div 1000) @ [44] @ pad_start 3 48 (show_nat (n mod 1000)))"

declare grouped.simps [simp del]

definition mob_dollars :: "bool \<Rightarrow> rat option \<Rightarrow> str" where
  "mob_dollars sign n = (case n of None \<Rightarrow> [36, 8212] | Some x \<Rightarrow>
     (if sign \<and> x > 0 then lit ''+'' else if x < 0 then lit ''-'' else []) @ lit ''$''
       @ (if 1000 \<le> \<bar>x\<bar> then grouped (nat \<lfloor>\<bar>x\<bar> + 1 / 2\<rfloor>) else to_fixed 2 \<bar>x\<bar>))"

definition mob_cents :: "int option \<Rightarrow> str" where
  "mob_cents p = (case p of None \<Rightarrow> [8212] | Some c \<Rightarrow> show_int c @ [162])"

section \<open>Counts\<close>

definition fmtCount :: "(int \<Rightarrow> str) \<Rightarrow> int \<Rightarrow> str" where
  "fmtCount toLocaleString n =
     (if 1000000 \<le> n then to_fixed 1 (num_div (of_int n) 1000000) @ lit ''M''
      else if 10000 \<le> n then to_fixed 1 (num_div (of_int n) 1000) @ lit ''k'' else toLocaleString n)"

definition mob_compact :: "int option \<Rightarrow> str" where
  "mob_compact n = (case n of None \<Rightarrow> lit ''0'' | Some n \<Rightarrow>
     if n = 0 then lit ''0'' else if n < 1000 then show_int n
     else if n < 1000000 then to_fixed (if n < 10000 then 1 else 0) (num_div (of_int n) 1000) @ lit ''K''
     else to_fixed 1 (num_div (of_int n) 1000000) @ lit ''M'')"

section \<open>Times, addresses and names\<close>

text \<open>
  Milliseconds since the epoch; \<open>None\<close> is the \<open>NaN\<close> of a date that does not parse, which passes every comparison
  and ends in the last branch.
\<close>

definition floor_quot :: "int \<Rightarrow> int \<Rightarrow> int" where
  "floor_quot n k = math_floor (num_div (of_int n) (of_int k))"

definition web_timeAgo :: "int \<Rightarrow> int option \<Rightarrow> str" where
  "web_timeAgo now t = (case t of None \<Rightarrow> lit ''NaNy'' | Some t \<Rightarrow>
     let s = max 1 (floor_quot (now - t) 1000) in if s < 60 then show_int s @ lit ''s''
     else let m = floor_quot s 60 in if m < 60 then show_int m @ lit ''m''
     else let h = floor_quot m 60 in if h < 24 then show_int h @ lit ''h''
     else let d = floor_quot h 24 in if d < 7 then show_int d @ lit ''d''
     else let w = floor_quot d 7 in if w < 52 then show_int w @ lit ''w''
     else show_int (floor_quot w 52) @ lit ''y'')"

text \<open>The first two of the words between blanks, and the first letter of the second.\<close>

definition word_after :: "str \<Rightarrow> str option" where
  "word_after t = (case dropWhile (\<lambda>c. c \<noteq> 32) t of [] \<Rightarrow> None | _ # r \<Rightarrow> Some (takeWhile (\<lambda>c. c \<noteq> 32) r))"

definition mob_timeAgo :: "(str \<Rightarrow> str option) \<Rightarrow> str \<Rightarrow> str" where
  "mob_timeAgo formatDistance created = (case formatDistance created of None \<Rightarrow> []
     | Some s \<Rightarrow> takeWhile (\<lambda>c. c \<noteq> 32) s @ (case word_after s of None \<Rightarrow> [] | Some u \<Rightarrow> take 1 u))"

definition web_shortAddress :: "str option \<Rightarrow> str" where
  "web_shortAddress addr = (case non_empty addr of None \<Rightarrow> []
     | Some a \<Rightarrow> js_slice a 0 6 @ [8230] @ js_slice_from a (- 4))"

definition mob_shortAddress :: "str option \<Rightarrow> str" where
  "mob_shortAddress addr = (case non_empty addr of None \<Rightarrow> [8212]
     | Some a \<Rightarrow> js_slice a 0 6 @ [8230] @ js_slice_from a (- 4))"

definition web_displayName :: "str option \<Rightarrow> str option \<Rightarrow> str" where
  "web_displayName display username = (case non_empty (map_option js_trim display) of Some t \<Rightarrow> t
     | None \<Rightarrow> (case non_empty username of Some t \<Rightarrow> t | None \<Rightarrow> []))"

definition mob_displayName :: "str option \<Rightarrow> str option \<Rightarrow> str" where
  "mob_displayName display username = (case non_empty (map_option js_trim display) of Some t \<Rightarrow> t
     | None \<Rightarrow> (case non_empty username of Some t \<Rightarrow> t | None \<Rightarrow> []))"

section \<open>What is read is what is meant\<close>

lemma cents_of_units:
  fixes u :: int
  assumes "0 \<le> u" "0 < k"
  shows "100 * (u div k) + u mod k * 100 div k = u * 100 div k" "0 \<le> u mod k * 100 div k" "u mod k * 100 div k < 100"
proof -
  have "(a * k + b) * 100 = 100 * a * k + b * 100" for a b by (simp add: algebra_simps)
  from this [of "u div k" "u mod k"] have "u * 100 = 100 * (u div k) * k + u mod k * 100" by (simp only: div_mult_mod_eq)
  then show "100 * (u div k) + u mod k * 100 div k = u * 100 div k"
    using assms by (simp add: div_add1_eq)
  show "0 \<le> u mod k * 100 div k" using assms by (simp add: pos_imp_zdiv_nonneg_iff)
  show "u mod k * 100 div k < 100" using assms int_div_less_iff [of k "u mod k * 100" 100] by simp
qed

lemma fmt_big_parts:
  assumes "0 \<le> u"
  shows "\<exists>d c. c < 100 \<and> int (100 * d + c) = u * 100 div 10 ^ D
    \<and> show_int (u div 10 ^ D) @ lit ''.'' @ pad_start 2 48 (show_int (u mod 10 ^ D * 100 div 10 ^ D))
      = show_nat d @ [46] @ pad_start 2 48 (show_nat c)"
proof (intro exI conjI)
  note c = cents_of_units [OF assms, of "10 ^ D"]
  show "nat (u mod 10 ^ D * 100 div 10 ^ D) < 100" using c by simp
  have "0 \<le> u div 10 ^ D" using assms by (simp add: pos_imp_zdiv_nonneg_iff)
  then show "int (100 * nat (u div 10 ^ D) + nat (u mod 10 ^ D * 100 div 10 ^ D)) = u * 100 div 10 ^ D"
    and "show_int (u div 10 ^ D) @ lit ''.'' @ pad_start 2 48 (show_int (u mod 10 ^ D * 100 div 10 ^ D))
      = show_nat (nat (u div 10 ^ D)) @ [46] @ pad_start 2 48 (show_nat (nat (u mod 10 ^ D * 100 div 10 ^ D)))"
    using c by (simp_all add: show_int_def not_less lit_Cons)
qed

text \<open>
  C17: Amounts are shown in whole cents, rounded towards zero. The text of token units, given as a bigint or as its
  decimal string, is a sign, a dollar sign and a number that reads back as the largest number of cents the amount
  covers; the signed form only adds a plus.
\<close>

theorem units_shown_in_cents:
  "\<exists>t. fmtUnits D (Some (UnitsBig u)) = (if u < 0 then lit ''-'' else []) @ lit ''$'' @ t
    \<and> fmtUnits D (Some (UnitsText (show_int u))) = fmtUnits D (Some (UnitsBig u))
    \<and> fmtSignedUnits D (UnitsBig u) = (if u < 0 then lit ''-'' else lit ''+'') @ lit ''$'' @ t
    \<and> parse_float t = Some (fl (of_int (\<bar>u\<bar> * 100 div 10 ^ D) / 100))"
proof -
  obtain d c where dc: "c < 100" "int (100 * d + c) = \<bar>u\<bar> * 100 div 10 ^ D"
    "show_int (\<bar>u\<bar> div 10 ^ D) @ lit ''.'' @ pad_start 2 48 (show_int (\<bar>u\<bar> mod 10 ^ D * 100 div 10 ^ D))
      = show_nat d @ [46] @ pad_start 2 48 (show_nat c)"
    using fmt_big_parts [of "\<bar>u\<bar>" D] by auto
  let ?t = "show_nat d @ [46] @ pad_start 2 48 (show_nat c)"
  have shown: "fmtUnits D (Some (UnitsBig u)) = (if u < 0 then lit ''-'' else []) @ lit ''$'' @ ?t"
    using dc(3) by (auto simp: fmtUnits_def units_value_def fmt_big_def Let_def abs_if)
  moreover have "fmtUnits D (Some (UnitsText (show_int u))) = fmtUnits D (Some (UnitsBig u))"
    by (simp add: fmtUnits_def units_value_def)
  moreover have "fmtSignedUnits D (UnitsBig u) = (if u < 0 then lit ''-'' else lit ''+'') @ lit ''$'' @ ?t"
    by (simp add: fmtSignedUnits_def shown Let_def lit_Cons)
  moreover have "(of_nat (100 * d + c) :: rat) = of_int (\<bar>u\<bar> * 100 div 10 ^ D)"
    using arg_cong [OF dc(2), of "of_int :: int \<Rightarrow> rat"] by simp
  ultimately show ?thesis using parse_float_cents [OF dc(1), of d] by (intro exI [of _ ?t]) simp
qed

section \<open>Relative times\<close>

lemma floor_quot_div: "n < 2 ^ 53 \<Longrightarrow> 0 < k \<Longrightarrow> max 1 (floor_quot n k) = max 1 (n div k)"
proof (cases "0 \<le> n")
  case False
  assume k: "0 < k"
  have "(of_int n :: rat) / of_int k \<le> 0" using False k by (simp add: divide_le_0_iff)
  then have "fl (of_int n / of_int k) \<le> 0" using fl_mono [of _ 0] by simp
  then have "floor_quot n k \<le> 0" by (simp add: floor_quot_def math_floor_def num_div_def floor_le_zero)
  moreover have "n div k \<le> 0" using False k by (simp add: div_nonpos_pos_le0)
  ultimately show ?thesis by simp
qed (simp add: floor_quot_def math_floor_def num_div_def floor_div_exact)

lemma floor_quot_pos: "0 \<le> n \<Longrightarrow> n < 2 ^ 53 \<Longrightarrow> 0 < k \<Longrightarrow> floor_quot n k = n div k"
  by (simp add: floor_quot_def math_floor_def num_div_def floor_div_exact)

definition time_units :: "(string \<times> int) list" where
  "time_units = [(''s'', 1), (''m'', 60), (''h'', 3600), (''d'', 86400), (''w'', 604800), (''y'', 31449600)]"

text \<open>
  A relative time is the largest unit that has passed, and how often it has passed in full. What happened less
  than a second ago, or in the future, is one second old; a year is 52 weeks.
\<close>

theorem web_time_is_floored:
  assumes "now - t < 2 ^ 53"
  shows "let s = max 1 ((now - t) div 1000) in \<exists>n c k. (c, k) \<in> set time_units
    \<and> web_timeAgo now (Some t) = show_int n @ lit c \<and> 1 \<le> n \<and> n * k \<le> s \<and> s < (n + 1) * k
    \<and> (\<forall>(c', k') \<in> set time_units. k' \<le> s \<longrightarrow> k' \<le> k)"
proof -
  define s where "s = max 1 ((now - t) div 1000)"
  have "(now - t) div 1000 < 2 ^ 53" using assms int_div_less_iff [of 1000 "now - t" "2 ^ 53"] by simp
  then have s: "1 \<le> s" "s < 2 ^ 53" by (simp_all add: s_def)
  have fits: "n div k < 2 ^ 53" if "n < 2 ^ 53" "1 \<le> k" "0 \<le> n" for n k :: int
    using that div_by_1 zdiv_mono2 [of n 1 k] by simp
  note quot = floor_quot_pos fits pos_imp_zdiv_nonneg_iff zdiv_zmult2_eq [symmetric]
  have shown: "web_timeAgo now (Some t) = (if s < 60 then show_int s @ lit ''s'' else if s div 60 < 60 then show_int (s div 60) @ lit ''m''
      else if s div 3600 < 24 then show_int (s div 3600) @ lit ''h'' else if s div 86400 < 7 then show_int (s div 86400) @ lit ''d''
      else if s div 604800 < 52 then show_int (s div 604800) @ lit ''w'' else show_int (s div 31449600) @ lit ''y'')"
    using s floor_quot_div [OF assms, of 1000] by (simp add: web_timeAgo_def Let_def s_def [symmetric] quot)
  have bounds: "s div k * k \<le> s" "s < (s div k + 1) * k" if "0 < k" for k
    using that pos_mod_bound [of k s] pos_mod_sign [of k s] div_mult_mod_eq [of s k] distrib_right [of "s div k" 1 k]
    by linarith+
  have pos: "1 \<le> s div k" if "0 < k" "k \<le> s" for k
    using that int_div_less_iff [of k s 1] by simp
  consider "s < 60" | "60 \<le> s" "s < 3600" | "3600 \<le> s" "s < 86400" | "86400 \<le> s" "s < 604800"
    | "604800 \<le> s" "s < 31449600" | "31449600 \<le> s" by linarith
  then obtain n c k where "(c, k) \<in> set time_units" "web_timeAgo now (Some t) = show_int n @ lit c" "n = s div k" "0 < k" "k \<le> s"
      "\<forall>(c', k') \<in> set time_units. k' \<le> s \<longrightarrow> k' \<le> k"
  proof cases
    case 1 then show ?thesis using s by (intro that [of "''s''" 1 s]) (auto simp: time_units_def shown)
  next
    case 2 then show ?thesis
      by (intro that [of "''m''" 60 "s div 60"]) (auto simp: time_units_def shown int_div_less_iff)
  next
    case 3 then show ?thesis
      by (intro that [of "''h''" 3600 "s div 3600"]) (auto simp: time_units_def shown int_div_less_iff)
  next
    case 4 then show ?thesis
      by (intro that [of "''d''" 86400 "s div 86400"]) (auto simp: time_units_def shown int_div_less_iff)
  next
    case 5 then show ?thesis
      by (intro that [of "''w''" 604800 "s div 604800"]) (auto simp: time_units_def shown int_div_less_iff)
  next
    case 6 then show ?thesis
      by (intro that [of "''y''" 31449600 "s div 31449600"]) (auto simp: time_units_def shown int_div_less_iff)
  qed
  then show ?thesis unfolding Let_def s_def [symmetric] using bounds pos by blast
qed

theorem web_time_is_floored_witness: "web_timeAgo 90000000 (Some 0) = lit ''1d''"
proof -
  have "let s = max 1 ((90000000 - 0) div 1000) in \<exists>n c k. (c, k) \<in> set time_units
    \<and> web_timeAgo 90000000 (Some 0) = show_int n @ lit c \<and> 1 \<le> n \<and> n * k \<le> s \<and> s < (n + 1) * k
    \<and> (\<forall>(c', k') \<in> set time_units. k' \<le> s \<longrightarrow> k' \<le> k)"
    by (rule web_time_is_floored) simp
  then obtain n c k where n: "(c, k) \<in> set time_units" "web_timeAgo 90000000 (Some 0) = show_int n @ lit c"
    "1 \<le> n" "n * k \<le> 90000" "90000 < (n + 1) * k" "86400 \<le> k"
    by (auto simp: Let_def time_units_def)
  then have "c = ''d'' \<and> n = 1" by (auto simp: time_units_def)
  with n(2) show ?thesis by (simp add: show_int_def show_nat_small digit_unit_def lit_Cons)
qed

text \<open>
  In the app months look like minutes: of the phrase of \<open>date-fns\<close>, as in "3 months", the number and the first
  letter of the unit are shown, so that a post of three months ago and one of three minutes ago read alike.
\<close>

theorem months_look_like_minutes:
  assumes "formatDistance old = Some (show_nat n @ lit '' months'')" "formatDistance new = Some (show_nat n @ lit '' minutes'')"
  shows "mob_timeAgo formatDistance old = mob_timeAgo formatDistance new \<and> mob_timeAgo formatDistance new = show_nat n @ lit ''m''"
proof -
  have run: "takeWhile (\<lambda>c. c \<noteq> 32) (show_nat n @ 32 # t) = show_nat n" "dropWhile (\<lambda>c. c \<noteq> 32) (show_nat n @ 32 # t) = 32 # t" for t
    using show_nat_is_run [of n] by (auto simp: is_digit_def list_all_iff intro!: takeWhile_run dropWhile_run)
  show ?thesis using assms by (simp add: mob_timeAgo_def word_after_def lit_Cons run)
qed

theorem months_look_like_minutes_witness:
  "mob_timeAgo (\<lambda>t. Some (show_nat 3 @ (if t = [] then lit '' months'' else lit '' minutes''))) [] = lit ''3m''"
  using months_look_like_minutes [of "\<lambda>t. Some (show_nat 3 @ (if t = [] then lit '' months'' else lit '' minutes''))" "[]" 3 "[1]"]
  by (simp add: show_nat_small digit_unit_def lit_Cons)

section \<open>Rounded counts and dollars\<close>

text \<open>A quotient rounded to some decimals is as close to the count as half a unit of its last digit.\<close>

lemma rounded_quotient:
  fixes n k :: int
  assumes "0 \<le> n" "n < 2 ^ 50" "0 < k" "0 < p" "p * 2 * n < 2 ^ 52"
  shows "2 * \<bar>\<lfloor>num_div (of_int n) (of_int k) * of_int p + 1 / 2\<rfloor> * k - n * p\<bar> \<le> k"
proof -
  let ?q = "num_div (of_int n) (of_int k)" and ?m = "\<lfloor>num_div (of_int n) (of_int k) * of_int p + 1 / 2\<rfloor>"
  have err: "\<bar>?q - of_int n / of_int k\<bar> \<le> of_int n / of_int k / 2 ^ 53"
    using fl_error [of "of_int n / of_int k"] assms by (simp add: num_div_def)
  have m: "of_int ?m \<le> ?q * of_int p + 1 / 2" "?q * of_int p + 1 / 2 < of_int ?m + 1"
    by (rule of_int_floor_le) (rule floor_correct [THEN conjunct2, THEN order_less_le_trans], simp)
  define r :: rat where "r = of_int n * of_int p / of_int k"
  have rk: "r * of_int k = of_int (n * p)" using assms by (simp add: r_def)
  have "?q * of_int p - r = (?q - of_int n / of_int k) * of_int p" by (simp add: r_def left_diff_distrib)
  then have "\<bar>?q * of_int p - r\<bar> = \<bar>?q - of_int n / of_int k\<bar> * of_int p" using assms by (simp add: abs_mult)
  also have "\<dots> \<le> of_int n / of_int k / 2 ^ 53 * of_int p" using err assms by (intro mult_right_mono) simp_all
  also have "\<dots> = r / 2 ^ 53" by (simp add: r_def)
  finally have "\<bar>of_int ?m - r\<bar> \<le> 1 / 2 + r / 2 ^ 53" using m by linarith
  then have "\<bar>of_int ?m - r\<bar> * of_int k \<le> (1 / 2 + r / 2 ^ 53) * of_int k" using assms by (intro mult_right_mono) simp_all
  also have "\<dots> = of_int k / 2 + of_int (n * p) / 2 ^ 53" using rk by (simp add: distrib_right)
  finally have "\<bar>of_int (?m * k - n * p)\<bar> \<le> (of_int k / 2 + of_int (n * p) / 2 ^ 53 :: rat)"
    using assms(3) rk abs_mult [of "of_int ?m - r" "of_int k"] by (simp add: left_diff_distrib)
  moreover have "of_int (n * p) < (2 ^ 51 :: rat)" using assms(5) by (simp add: mult.commute flip: of_int_mult)
  ultimately have "2 * of_int \<bar>?m * k - n * p\<bar> < (of_int k + 1 :: rat)" by simp
  then show ?thesis by linarith
qed

lemma to_fixed_nonneg: "0 \<le> x \<Longrightarrow> to_fixed f x = fixed_digits f (nat \<lfloor>x * 10 ^ f + 1 / 2\<rfloor>)"
  by (simp add: to_fixed_def)

lemma num_div_nonneg: "0 \<le> n \<Longrightarrow> 0 < k \<Longrightarrow> 0 \<le> num_div (of_int n) (of_int k)"
  by (simp add: num_div_def fl_nonneg)

lemma tenth: "2 * a \<le> k' \<Longrightarrow> a = 10 * b \<Longrightarrow> k' = 10 * k \<Longrightarrow> 2 * b \<le> (k :: int)"
  by simp

text \<open>
  A compact count is as exact as its digits allow: thousands with one decimal below ten thousand, whole thousands
  below a million, and millions with one decimal, each the nearest to the count. Just below a unit it may therefore
  fill the next one and still be shown in the smaller: 9,999 as 10.0K and 999,999 as 1000K.
\<close>

theorem compact_is_close:
  assumes "1000 \<le> n" "n < 10 ^ 12"
  shows "(\<exists>m. mob_compact (Some n) = (if n < 10000 then fixed_digits 1 m @ lit ''K'' else if n < 1000000 then show_nat m @ lit ''K''
      else fixed_digits 1 m @ lit ''M'')
    \<and> 2 * \<bar>int m * (if n < 10000 then 100 else if n < 1000000 then 1000 else 100000) - n\<bar>
        \<le> (if n < 10000 then 100 else if n < 1000000 then 1000 else 100000))
    \<and> mob_compact (Some 9999) = lit ''10.0K'' \<and> mob_compact (Some 999999) = lit ''1000K''"
proof (intro conjI)
  have rounded: "\<exists>m. to_fixed f (num_div (of_int n) (of_int k)) = fixed_digits f m \<and> 2 * \<bar>int m * k - n * 10 ^ f\<bar> \<le> k"
    if "0 < k" "f \<le> 1" for f k
  proof (intro exI conjI)
    let ?q = "num_div (of_int n) (of_int k) * 10 ^ f + 1 / 2"
    have q: "0 \<le> num_div (of_int n) (of_int k)" using assms that by (intro num_div_nonneg) auto
    then show "to_fixed f (num_div (of_int n) (of_int k)) = fixed_digits f (nat \<lfloor>?q\<rfloor>)" by (rule to_fixed_nonneg)
    have "10 ^ f * 2 * n < 2 ^ 52" using assms that(2) by (cases f) auto
    then have "2 * \<bar>\<lfloor>?q\<rfloor> * k - n * 10 ^ f\<bar> \<le> k"
      using rounded_quotient [of n k "10 ^ f"] assms that(1) by simp
    moreover have "0 \<le> \<lfloor>?q\<rfloor>" using q by simp
    ultimately show "2 * \<bar>int (nat \<lfloor>?q\<rfloor>) * k - n * 10 ^ f\<bar> \<le> k" by simp
  qed
  consider "n < 10000" | "10000 \<le> n" "n < 1000000" | "1000000 \<le> n" by linarith
  then show "\<exists>m. mob_compact (Some n) = (if n < 10000 then fixed_digits 1 m @ lit ''K'' else if n < 1000000 then show_nat m @ lit ''K''
      else fixed_digits 1 m @ lit ''M'')
    \<and> 2 * \<bar>int m * (if n < 10000 then 100 else if n < 1000000 then 1000 else 100000) - n\<bar>
        \<le> (if n < 10000 then 100 else if n < 1000000 then 1000 else 100000)"
  proof cases
    case 1
    obtain m where m: "to_fixed 1 (num_div (of_int n) 1000) = fixed_digits 1 m" "2 * \<bar>int m * 1000 - n * 10\<bar> \<le> 1000"
      using rounded [of 1000 1] by auto
    have small: "\<bar>int m * 1000 - n * 10\<bar> = 10 * \<bar>int m * 100 - n\<bar>" by (simp add: abs_if)
    have close: "2 * \<bar>int m * 100 - n\<bar> \<le> 100" by (rule tenth [OF m(2) small]) simp
    with 1 m(1) assms close show ?thesis by (intro exI [of _ m]) (simp add: mob_compact_def)
  next
    case 2
    obtain m where "to_fixed 0 (num_div (of_int n) 1000) = fixed_digits 0 m" "2 * \<bar>int m * 1000 - n\<bar> \<le> 1000"
      using rounded [of 1000 0] by auto
    with 2 show ?thesis by (intro exI [of _ m]) (simp add: mob_compact_def fixed_digits_def)
  next
    case 3
    obtain m where m: "to_fixed 1 (num_div (of_int n) 1000000) = fixed_digits 1 m" "2 * \<bar>int m * 1000000 - n * 10\<bar> \<le> 1000000"
      using rounded [of 1000000 1] by auto
    have small: "\<bar>int m * 1000000 - n * 10\<bar> = 10 * \<bar>int m * 100000 - n\<bar>" by (simp add: abs_if)
    have close: "2 * \<bar>int m * 100000 - n\<bar> \<le> 100000" by (rule tenth [OF m(2) small]) simp
    with 3 m(1) close show ?thesis by (intro exI [of _ m]) (simp add: mob_compact_def)
  qed
  show "mob_compact (Some 9999) = lit ''10.0K''" by code_simp
  show "mob_compact (Some 999999) = lit ''1000K''" by code_simp
qed

theorem compact_is_close_witness: "mob_compact (Some 1500) = lit ''1.5K'' \<and> mob_compact (Some 9999) = lit ''10.0K''"
proof
  show "mob_compact (Some 1500) = lit ''1.5K''" by code_simp
  show "mob_compact (Some 9999) = lit ''10.0K''" using compact_is_close [of 1500] by simp
qed

section \<open>Dollars of the app\<close>

lemma show_nat_step: "10 \<le> n \<Longrightarrow> show_nat n = show_nat (n div 10) @ [digit_unit (n mod 10)]"
  by (subst show_nat.simps) simp

lemma three_digits:
  assumes "c < 1000"
  shows "pad_start 3 48 (show_nat c) = [digit_unit (c div 100), digit_unit (c div 10 mod 10), digit_unit (c mod 10)]"
proof -
  have zero: "48 = digit_unit 0" "replicate 2 (48 :: code_unit) = [digit_unit 0, digit_unit 0]"
    by (simp_all add: digit_unit_def numeral_2_eq_2)
  consider "c < 10" | "10 \<le> c" "c < 100" | "100 \<le> c" by linarith
  then show ?thesis
  proof cases
    case 1 then show ?thesis by (simp add: pad_start_def show_nat_small zero(2))
  next
    case 2 then show ?thesis by (simp add: pad_start_def show_nat_two zero(1))
  next
    case 3
    then have "show_nat c = [digit_unit (c div 10 div 10), digit_unit (c div 10 mod 10), digit_unit (c mod 10)]"
      using assms show_nat_step [of c] show_nat_two [of "c div 10"] by simp
    then show ?thesis by (simp add: pad_start_def div_mult2_eq [symmetric])
  qed
qed

lemma show_nat_three:
  assumes "1000 \<le> n"
  shows "show_nat n = show_nat (n div 1000) @ pad_start 3 48 (show_nat (n mod 1000))"
proof -
  have "show_nat n = show_nat (n div 10 div 10 div 10) @ [digit_unit (n div 10 div 10 mod 10), digit_unit (n div 10 mod 10), digit_unit (n mod 10)]"
    using assms by (simp add: show_nat_step [of n] show_nat_step [of "n div 10"] show_nat_step [of "n div 10 div 10"])
  moreover have "n mod 1000 div 100 = n div 10 div 10 mod 10" "n mod 1000 div 10 mod 10 = n div 10 mod 10" "n mod 1000 mod 10 = n mod 10"
    by (simp add: mod_mult2_eq [of n 100 10, simplified] div_mult2_eq [symmetric])
      (simp_all add: mod_mult2_eq [of n 10 100, simplified] mod_mod_cancel)
  ultimately show ?thesis by (simp add: three_digits div_mult2_eq [symmetric])
qed

lemma grouped_digits: "filter (\<lambda>c. c \<noteq> 44) (grouped n) = show_nat n"
proof (induction n rule: grouped.induct)
  case (1 n)
  have ends: "filter (\<lambda>c. c \<noteq> 44) t = t" if "list_all is_digit t" for t
    using that by (auto simp: filter_id_conv list_all_iff is_digit_def)
  show ?case
  proof (cases "n < 1000")
    case True
    then show ?thesis by (subst grouped.simps) (simp add: ends show_nat_is_run)
  next
    case False
    have "list_all is_digit (pad_start 3 48 (show_nat (n mod 1000)))"
      using show_nat_is_run [of "n mod 1000"] by (auto simp: pad_start_def list_all_iff is_digit_def)
    with False 1 show ?thesis by (subst grouped.simps) (simp add: ends show_nat_three [symmetric])
  qed
qed

lemma pad_two: "c < 100 \<Longrightarrow> pad_start 2 48 (show_nat c) = [digit_unit (c div 10), digit_unit (c mod 10)]"
  by (cases "c < 10") (simp_all add: pad_start_def show_nat_small show_nat_two, simp add: digit_unit_def)

lemma fixed_digits_2: "fixed_digits 2 n = show_nat (n div 100) @ [46] @ pad_start 2 48 (show_nat (n mod 100))"
proof -
  have zero: "48 = digit_unit 0" "replicate 2 (48 :: code_unit) = [digit_unit 0, digit_unit 0]"
    by (simp_all add: digit_unit_def numeral_2_eq_2)
  consider "n < 10" | "10 \<le> n" "n < 100" | "100 \<le> n" by linarith
  then show ?thesis
  proof cases
    case 1 then show ?thesis
      using pad_two [of n] by (simp add: fixed_digits_def show_nat_small zero(2))
  next
    case 2 then show ?thesis
      using pad_two [of n] by (simp add: fixed_digits_def show_nat_two show_nat_small zero(1))
  next
    case 3
    have "n mod 100 div 10 = n div 10 mod 10" "n mod 100 mod 10 = n mod 10"
      using mod_mult2_eq [of n 10 10] by (simp_all add: mod_mod_cancel)
    moreover have "show_nat n = show_nat (n div 100) @ [digit_unit (n div 10 mod 10), digit_unit (n mod 10)]"
      using 3 show_nat_step [of n] show_nat_step [of "n div 10"] by (simp add: div_mult2_eq [symmetric])
    ultimately show ?thesis by (simp add: fixed_digits_def pad_two Let_def)
  qed
qed

text \<open>
  Dollars in the app: below a thousand the text reads back as the amount in whole cents, from a thousand on its
  digits, without the separators, are those of the amount in whole dollars, each rounded to the nearest; in front
  are the dollar sign and a sign for losses and, if asked for, for gains.
\<close>

theorem dollars_rounded:
  "\<exists>t. mob_dollars sign (Some x) = (if sign \<and> x > 0 then lit ''+'' else if x < 0 then lit ''-'' else []) @ lit ''$'' @ t
    \<and> (if 1000 \<le> \<bar>x\<bar> then filter (\<lambda>c. c \<noteq> 44) t = show_nat (nat \<lfloor>\<bar>x\<bar> + 1 / 2\<rfloor>)
        else parse_float t = Some (fl (of_int \<lfloor>\<bar>x\<bar> * 100 + 1 / 2\<rfloor> / 100)))"
proof (cases "1000 \<le> \<bar>x\<bar>")
  case True
  then show ?thesis by (intro exI [of _ "grouped (nat \<lfloor>\<bar>x\<bar> + 1 / 2\<rfloor>)"]) (simp add: mob_dollars_def grouped_digits)
next
  case False
  let ?n = "nat \<lfloor>\<bar>x\<bar> * 100 + 1 / 2\<rfloor>"
  have "0 \<le> \<lfloor>\<bar>x\<bar> * 100 + 1 / 2\<rfloor>" by simp
  then have "parse_float (to_fixed 2 \<bar>x\<bar>) = Some (fl (of_int \<lfloor>\<bar>x\<bar> * 100 + 1 / 2\<rfloor> / 100))"
    using parse_float_cents [of "?n mod 100" "?n div 100"]
    by (simp add: to_fixed_nonneg fixed_digits_2 mult_div_mod_eq)
  with False show ?thesis by (intro exI [of _ "to_fixed 2 \<bar>x\<bar>"]) (simp add: mob_dollars_def)
qed

end
