(* ===== verification/Spec2Isabelle.thy ===== *)
theory Spec2Isabelle
  imports Prelude JsNumber WebTypes MobileTypes Signing Config TypedData Http WebApi MobileApi Trading
    Realtime WebSocket MobileSocket RotatingCache Mentions Session Reconnect Tickets MobileTickets
    Threads Composer Publish WebCreate Wallet Social Photo Explorer Account Feed
    Inbox Requests MarketPages Profiles Format
begin

text \<open>
  Verification library for the THASSA clients.

  THASSA is a social prediction market. Users post photos and videos, attach a market to a post, and buy YES or
  NO shares in whole dollars at prices in whole cents. The repository holds two TypeScript clients, a web
  application (\<open>src/web\<close>, Next.js) and a native one (\<open>src/mobile\<close>, Expo), a Go backend, Solidity contracts and
  oracle nodes. This library models the logic of the two clients: everything between a tap and the request or the
  signature it produces, and everything between an answer or a frame of the socket and the state shown.

  \<^bold>\<open>How the parts interact.\<close> A screen keeps a state record; its handlers are functions on the record, and the calls
  they make are lists of events or queued jobs. Handlers call the trading functions, which ask the wallet for
  signatures over typed data and post them with the API client; the API client retries, so that orders carry an
  idempotency key. The realtime socket delivers frames to the screens that subscribed to their channel; the app
  keeps what it fetched in a rotating cache. Whoever is signed in, or impersonated by an administrator, is known
  to the session.

  \<^bold>\<open>What stands for what.\<close> JavaScript strings are lists of code units, numbers are rationals rounded to binary64
  where the code rounds (\<open>fl\<close>), bigints are integers. An interface is a record, a union a datatype, an optional
  or nullable field an option. A failing promise is the left summand of a sum. A component of React is a record
  of its state and one function per handler; an asynchronous handler is cut at its awaits, so that other events
  can happen in between. The network, the wallet, the clock, the file system, key stores and hashing are
  arguments of the definitions that use them. The laws the code relies on are hypotheses of the theorems, and
  every such theorem has an instance with concrete functions.

  \<^bold>\<open>Theories.\<close>
  \<^item> \<open>Prelude\<close>: strings, slices, options, ordered maps, the JavaScript helpers both clients use.
  \<^item> \<open>JsNumber\<close>: rounding to binary64 as the one place where numbers are not exact, parsing and printing of numbers.
  \<^item> \<open>WebTypes\<close> (\<open>web/lib/types.ts\<close>) and \<open>MobileTypes\<close> (\<open>mobile/lib/types.ts\<close>): the data model, field by field.
  \<^item> \<open>Config\<close> (\<open>web/lib/config.ts\<close>), \<open>Signing\<close> and \<open>TypedData\<close> (\<open>lib/signing.ts\<close> of both clients, and the order guard of
    \<open>ThassaMarkets.sol\<close>): escrow, fee and maximal cost of an order, typed data, wire forms, the split of a signature.
  \<^item> \<open>Http\<close>, \<open>WebApi\<close> (\<open>web/lib/api.ts\<close>), \<open>MobileApi\<close> (\<open>mobile/lib/api.ts\<close>): requests, retries, decoding, uploads. The
    retry loops are recursions over the attempts left.
  \<^item> \<open>Trading\<close> (\<open>web/lib/trading.ts\<close>): signing an order with its funding and placing it.
  \<^item> \<open>Realtime\<close>: sockets and the locale \<open>channel_registry\<close>, the contract of a table of subscriptions. \<open>WebSocket\<close> and
    \<open>MobileSocket\<close> (\<open>lib/ws.ts\<close>) interpret it; \<open>Reconnect\<close> shows that both recover from losing the connection.
  \<^item> \<open>RotatingCache\<close> (\<open>mobile/lib/cache.ts\<close>, \<open>diskCache.ts\<close>): manifest, queue of jobs, eviction by age within 512 MiB.
  \<^item> \<open>Mentions\<close> (\<open>MentionTextarea.tsx\<close>, \<open>Caption.tsx\<close>, \<open>mentions.ts\<close>, \<open>MentionInput.tsx\<close>, \<open>MentionText.tsx\<close>).
  \<^item> \<open>Session\<close> (\<open>warp.ts\<close>, \<open>WarpProvider.tsx\<close>, \<open>SessionProvider.tsx\<close>, \<open>warpStore.ts\<close>, \<open>session.tsx\<close>, \<open>auth.tsx\<close>, \<open>push.ts\<close>):
    impersonation, sign-in, the wait for the wallet, push tokens.
  \<^item> \<open>Tickets\<close> and \<open>MobileTickets\<close> (\<open>MarketCard.tsx\<close>, \<open>TradeSheet.tsx\<close>): the order forms and their submission.
  \<^item> \<open>Threads\<close> (\<open>messages/[id]/page.tsx\<close>, \<open>messages/page.tsx\<close>, \<open>conversation/[id].tsx\<close>): message threads.
  \<^item> \<open>Composer\<close> and \<open>Publish\<close> (\<open>create.tsx\<close>, \<open>AttachMarket.tsx\<close> of the app): background uploads, the post pipeline.
  \<^item> \<open>WebCreate\<close> (\<open>create/page.tsx\<close>, \<open>AttachMarket.tsx\<close> of the web): the page that publishes a post.
  \<^item> \<open>Wallet\<close> (\<open>WalletTab.tsx\<close> of both): sending and funding.
  \<^item> \<open>Social\<close> (\<open>FollowButton.tsx\<close>, \<open>PostCard.tsx\<close>, \<open>StoriesRail.tsx\<close>, \<open>stories.tsx\<close>, \<open>ToastProvider.tsx\<close>, \<open>Toasts.tsx\<close>,
    \<open>OrderBook.tsx\<close>): optimistic controls as interpretations of the locale \<open>optimistic\<close>, story viewers, toasts, books.
  \<^item> \<open>Photo\<close> (\<open>PhotoEditor.tsx\<close>, \<open>story-camera.tsx\<close>): cropping, turning and panning a photo, the camera of a story.
  \<^item> \<open>Explorer\<close> (\<open>src/frontend/app/page.tsx\<close>): the bids of the protocol explorer and its snapshots of the chain.
  \<^item> \<open>Account\<close> (\<open>onboarding\<close>, \<open>settings\<close>, \<open>DeveloperKeys.tsx\<close>): the profile of the user, its settings and API keys, and
    the gates of the backend (\<open>handlers_me.go\<close>) that the requests must pass.
  \<^item> \<open>Feed\<close> (the feeds, reels and Explore of both clients, \<open>hooks.ts\<close>, \<open>media.ts\<close>, and the paging of \<open>cursor.go\<close>,
    \<open>posts.go\<close>, \<open>handlers_posts.go\<close>): lists that load as they scroll, as interpretations of the locale
    \<open>page_envelope\<close>, what they fetch ahead, the floating bar and the video that plays.
  \<^item> \<open>Inbox\<close> (\<open>notifications/page.tsx\<close>, \<open>AppShell.tsx\<close>, \<open>notifications.tsx\<close>, \<open>Toasts.tsx\<close>, and \<open>notify.go\<close>,
    \<open>handlers_me.go\<close>, \<open>handlers_notifications.go\<close> of the backend): a notification from its cause to its row and link.
  \<^item> \<open>Requests\<close> (\<open>Comments.tsx\<close>, \<open>CommentsList.tsx\<close>, \<open>SharePostSheet.tsx\<close>, the follow requests): forms that make one
    call at a time, as interpretations of \<open>one_at_a_time\<close> and of its extension \<open>one_shot\<close>.
  \<^item> \<open>MarketPages\<close> (\<open>market/[id].tsx\<close>, \<open>markets/[id]/page.tsx\<close>, \<open>Resolution.tsx\<close>, \<open>MarketDetails.tsx\<close>): live prices,
    redeeming and cancelling, against the payout of \<open>ThassaMarkets.sol\<close>; the sources of the settlement.
  \<^item> \<open>Profiles\<close> (\<open>u/[username]/page.tsx\<close>, \<open>ProfileView.tsx\<close>, \<open>TradesList.tsx\<close>, \<open>UserList.tsx\<close>, \<open>FollowList.tsx\<close>,
    \<open>admin.tsx\<close>, \<open>AdminWarp.tsx\<close>): who sees what, against the gates of the backend, and lists of people.
  \<^item> \<open>Format\<close> (\<open>lib/format.ts\<close> of both): how amounts, counts and times are shown.

  \<^bold>\<open>What the lemmas show.\<close> Money: an order that is placed is the one on the screen, its funding pays its maximal
  cost and no more, and that cost covers every fill; against the guard of the contract the clients sign too
  little, which is stated and proved as it is. Requests: whatever the network does, a request with a key is applied
  at most once. Sockets: the server is subscribed to exactly the channels with a listener, and both sockets come
  back after any loss. Cache: never above its budget, never evicting what is younger or pinned without need,
  reading what was put. Composer: every item is uploaded exactly once per version, the body of a post names
  current uploads only, and uploads come to an end. Text: mentions point at what they name and captions are cut
  without loss. Threads refine the log of the conversation, story viewers the list of stories, and follow
  buttons the relation the backend keeps. Photos: a crop lies within its picture and no photo is posted as two
  stories. Explorer: a bid goes out only when the allowance covers it, and then it does. Account: every profile
  the onboarding accepts is accepted by the backend, and a setting the backend refused is taken back. Lists show
  the log of the backend without gap or repetition, media are fetched once, and one video plays. Forms make one call
  at a time, and what was accepted is not sent again: a request is decided and a position redeemed once. What is
  shown of an amount reads back as its cents. Where the clients and the backend disagree about a notification, a
  profile or a settlement, the theorem says what happens.

  \<^bold>\<open>Fuel and bounds.\<close> Loops of the code are structural recursions except for the polls, whose number of rounds is
  fixed in the code: \<open>POLL_FUEL\<close> of \<open>WebCreate\<close> is one more than the reads the deadline of the poll admits, and the
  waits of the retry loops are bounded by the attempts. Reconnection takes as many steps as its backoff
  doublings; the liveness theorems give the schedule that recovers. Nothing else is cut off.

  \<^bold>\<open>Not modelled.\<close> The backend, the contracts (but for the order guard and the payout of a
  redemption) and the nodes are not TypeScript, and enter as parameters. Markup, styling, icons, animations and
  navigation have no state worth stating. The default locale of the browser and the phrases of \<open>date-fns\<close>
  are parameters. The web site, the documentation pages and the design material are static. Of the backend only those
  gates, pages and notices are modelled that the theorems on orders, profiles, lists, notifications and redemptions
  are about.
\<close>

end
